(* ===== verification/Prelude.thy ===== *)
theory Prelude
  imports Main "HOL-Library.Word" "HOL-Library.Monad_Syntax"
begin

text \<open>
  Shared vocabulary of the development.

  \<^item> Runs of test code.  A C test function either runs to its \<open>return\<close> or is stopped by a
    failed assertion of the Check framework.  It is modelled by a value of an option type,
    written with the do notation of the option monad: \<open>None\<close> is the aborted run.
    \<open>ASSERT\<close> is the macro of the same name, \<open>for_loop\<close> the counting loop of C.
  \<^item> \<open>passes m P\<close>: the run \<open>m\<close> is not aborted and its result satisfies \<open>P\<close>.  The rules
    collected in \<open>wp\<close> reduce such a goal to the steps of the run.
  \<^item> Sums over a list of threads and the effect of updating one element.
\<close>

named_theorems wp \<open>rules that step through a run of test code\<close>
named_theorems flag_simps \<open>facts about the 0/1 flags of the test groups\<close>

unbundle bit_operations_syntax

subsection \<open>Runs of test code\<close>

definition ASSERT :: "bool \<Rightarrow> unit option" where
  "ASSERT b = (if b then Some () else None)"

fun for_loop :: "nat \<Rightarrow> nat \<Rightarrow> (nat \<Rightarrow> 's \<Rightarrow> 's option) \<Rightarrow> 's \<Rightarrow> 's option" where
  "for_loop i 0 f s = Some s"
| "for_loop i (Suc n) f s = do { s \<leftarrow> f i s; for_loop (Suc i) n f s }"

text \<open>
  \<open>for_loop i n f s\<close> is \<open>for (ii = i; ii < i + n; ++ii)\<close> with the loop body \<open>f ii\<close>.
\<close>

definition passes :: "'a option \<Rightarrow> ('a \<Rightarrow> bool) \<Rightarrow> bool" where
  "passes m P \<longleftrightarrow> (\<exists>a. m = Some a \<and> P a)"

lemma passes_Some [simp]: "passes (Some a) P \<longleftrightarrow> P a"
  by (simp add: passes_def)

lemma passes_None [simp]: "\<not> passes None P"
  by (simp add: passes_def)

lemma passesE: "passes m P \<Longrightarrow> (\<And>a. m = Some a \<Longrightarrow> P a \<Longrightarrow> thesis) \<Longrightarrow> thesis"
  by (auto simp: passes_def)

lemma wp_return [wp]: "P a \<Longrightarrow> passes (Some a) P"
  by simp

lemma wp_bind: "passes m (\<lambda>a. passes (f a) P) \<Longrightarrow> passes (m \<bind> f) P"
  by (auto simp: passes_def)

lemma wp_assert [wp]: "b \<Longrightarrow> passes (f ()) P \<Longrightarrow> passes (ASSERT b \<bind> f) P"
  by (simp add: ASSERT_def)

lemma ASSERT_True [simp]: "ASSERT True = Some ()"
  and ASSERT_False [simp]: "ASSERT False = None"
  by (simp_all add: ASSERT_def)

lemma ASSERT_bind_Some: "(ASSERT b \<bind> f) = Some x \<longleftrightarrow> b \<and> f () = Some x"
  by (simp add: ASSERT_def)

lemma passes_mono: "passes m P \<Longrightarrow> (\<And>a. P a \<Longrightarrow> Q a) \<Longrightarrow> passes m Q"
  by (auto simp: passes_def)

lemma wp_seq: "passes m Q \<Longrightarrow> (\<And>a. Q a \<Longrightarrow> passes (f a) P) \<Longrightarrow> passes (m \<bind> f) P"
  by (auto simp: passes_def)

text \<open>A counting loop keeps an invariant of its body, which may depend on the counter.\<close>

lemma for_loop_count:
  assumes "Inv i s"
    and "\<And>k s. i \<le> k \<Longrightarrow> k < i + n \<Longrightarrow> Inv k s \<Longrightarrow> passes (f k s) (Inv (Suc k))"
  shows "passes (for_loop i n f s) (Inv (i + n))"
  using assms
proof (induction n arbitrary: i s)
  case 0
  then show ?case by simp
next
  case (Suc n)
  have "passes (f i s) (Inv (Suc i))"
    using Suc.prems(1) by (intro Suc.prems(2)) auto
  then obtain t where t: "f i s = Some t" "Inv (Suc i) t"
    by (rule passesE)
  have "passes (for_loop (Suc i) n f t) (Inv (Suc i + n))"
    using t(2) by (rule Suc.IH) (auto intro: Suc.prems(2))
  then show ?case using t(1) by simp
qed

lemma for_loop_invariant:
  assumes "Inv s"
    and "\<And>k s. i \<le> k \<Longrightarrow> k < i + n \<Longrightarrow> Inv s \<Longrightarrow> passes (f k s) Inv"
    and "\<And>s. Inv s \<Longrightarrow> passes (g s) P"
  shows "passes (for_loop i n f s \<bind> g) P"
proof (rule wp_bind)
  have "passes (for_loop i n f s) Inv"
    using assms(1,2) by (rule for_loop_count [where Inv = "\<lambda>_. Inv"])
  then show "passes (for_loop i n f s) (\<lambda>s. passes (g s) P)"
    by (rule passes_mono) (rule assms(3))
qed

lemma for_loop_append:
  "for_loop i (m + n) f s = do { s \<leftarrow> for_loop i m f s; for_loop (i + m) n f s }"
proof (induction m arbitrary: i s)
  case 0
  then show ?case by simp
next
  case (Suc m)
  then show ?case by (cases "f i s") simp_all
qed

subsection \<open>Sums over threads\<close>

definition tsum :: "('a \<Rightarrow> nat) \<Rightarrow> 'a list \<Rightarrow> nat" where
  "tsum f xs = sum_list (map f xs)"

lemma tsum_Nil [simp]: "tsum f [] = 0"
  and tsum_Cons [simp]: "tsum f (x # xs) = f x + tsum f xs"
  by (simp_all add: tsum_def)

lemma tsum_update:
  "i < length xs \<Longrightarrow> tsum f (xs[i := x]) + f (xs ! i) = tsum f xs + f x"
proof (induction xs arbitrary: i)
  case Nil
  then show ?case by simp
next
  case (Cons y ys)
  then show ?case by (cases i) auto
qed

lemma tsum_member_le: "i < length xs \<Longrightarrow> f (xs ! i) \<le> tsum f xs"
  using tsum_update [of i xs f "xs ! i"] by (induction xs arbitrary: i) (auto simp: nth_Cons' trans_le_add2)

lemma tsum_map: "tsum f (map g xs) = tsum (\<lambda>x. f (g x)) xs"
  by (simp add: tsum_def comp_def)

lemma tsum_cong: "(\<And>x. x \<in> set xs \<Longrightarrow> f x = g x) \<Longrightarrow> tsum f xs = tsum g xs"
  by (induction xs) auto

lemma tsum_mono: "(\<And>x. x \<in> set xs \<Longrightarrow> f x \<le> g x) \<Longrightarrow> tsum f xs \<le> tsum g xs"
  by (induction xs) (auto intro: add_mono)

lemma tsum_const: "tsum (\<lambda>_. c) xs = length xs * c"
  by (induction xs) auto

lemma tsum_add_const: "tsum (\<lambda>x. f x + c) xs = tsum f xs + length xs * c"
  by (induction xs) auto

lemma tsum_0_iff: "tsum f xs = 0 \<longleftrightarrow> (\<forall>x \<in> set xs. f x = 0)"
  by (induction xs) auto

abbreviation how_many :: "('a \<Rightarrow> bool) \<Rightarrow> 'a list \<Rightarrow> nat" where
  "how_many P \<equiv> tsum (\<lambda>x. of_bool (P x))"

lemma how_many_le_length: "how_many P xs \<le> length xs"
  by (induction xs) auto

lemma how_many_all: "(\<forall>x \<in> set xs. P x) \<Longrightarrow> how_many P xs = length xs"
  by (induction xs) auto

lemma how_many_pos: "i < length xs \<Longrightarrow> P (xs ! i) \<Longrightarrow> 0 < how_many P xs"
  using tsum_member_le [of i xs "\<lambda>x. of_bool (P x)"] by simp

subsection \<open>The 0/1 flags\<close>

lemma flag_flip [flag_simps]:
  "(x::'w::len word) XOR 1 \<noteq> x" "x \<noteq> x XOR 1" "x XOR 1 XOR 1 = x"
proof -
  have "bit (x XOR 1) 0 \<noteq> bit x 0"
    by (simp add: bit_xor_iff)
  then show "x XOR 1 \<noteq> x" and "x \<noteq> x XOR 1" by metis+
  show "x XOR 1 XOR 1 = x" by (simp add: xor.assoc)
qed

lemma flag_two [flag_simps]:
  "x \<in> {0, 1} \<Longrightarrow> y \<in> {0, 1} \<Longrightarrow> x \<noteq> y \<Longrightarrow> x XOR 1 = (y::'w::len word)"
  by auto

lemma flag_range: "x \<in> {0, 1} \<Longrightarrow> x XOR (1::'w::len word) \<in> {0, 1}"
  by auto

end
