(* ===== verification/Interleaving.thy ===== *)
theory Interleaving
  imports Prelude "HOL-Library.Multiset"
begin

text \<open>
  The execution order of several threads.  A thread is the list of its atomic actions;
  \<open>interleaving xss ys\<close> says that \<open>ys\<close> runs all the lists of \<open>xss\<close> to their ends, each in
  its own order.  \<open>interleave cs xss\<close> computes one such order from a list of scheduling
  choices, and every order is reached by some choices.  The locale \<open>thread_runner\<close> is the
  contract between the code that runs a group of threads and the tests that use it.
\<close>

subsection \<open>Orders of execution\<close>

inductive interleaving :: "'a list list \<Rightarrow> 'a list \<Rightarrow> bool" where
  all_done: "\<forall>xs \<in> set xss. xs = [] \<Longrightarrow> interleaving xss []"
| one_step: "i < length xss \<Longrightarrow> xss ! i = x # xs \<Longrightarrow> interleaving (xss[i := xs]) ys
    \<Longrightarrow> interleaving xss (x # ys)"

inductive_cases interleaving_NilE: "interleaving xss []"
inductive_cases interleaving_ConsE: "interleaving xss (y # ys)"

lemma mset_update_Cons:
  assumes "i < length xss" "xss ! i = x # xs"
  shows "mset (concat xss) = add_mset x (mset (concat (xss[i := xs])))"
  using assms
proof (induction xss arbitrary: i)
  case Nil
  then show ?case by simp
next
  case (Cons zs zss)
  then show ?case by (cases i) (auto simp: ac_simps)
qed

text \<open>An order has every action as often as the threads have it.\<close>

lemma interleaving_mset: "interleaving xss ys \<Longrightarrow> mset ys = mset (concat xss)"
proof (induction rule: interleaving.induct)
  case (all_done xss)
  then show ?case by (induction xss) auto
next
  case (one_step i xss x xs ys)
  then show ?case by (simp add: mset_update_Cons [of i xss x xs])
qed

lemma interleaving_set: "interleaving xss ys \<Longrightarrow> set ys = (\<Union>xs \<in> set xss. set xs)"
  by (drule interleaving_mset, drule mset_eq_setD) simp

lemma interleaving_length: "interleaving xss ys \<Longrightarrow> length ys = tsum length xss"
  by (drule interleaving_mset, drule mset_eq_length) (simp add: tsum_def length_concat)

text \<open>An order of execution can be extended at its end by the next action of a thread.\<close>

lemma interleaving_snoc:
  "interleaving xss ys \<Longrightarrow> i < length xss \<Longrightarrow> interleaving (xss[i := xss ! i @ [x]]) (ys @ [x])"
proof (induction arbitrary: i rule: interleaving.induct)
  case (all_done xss)
  have "xss ! i = []" using all_done by auto
  moreover have "interleaving (xss[i := []]) []"
    using all_done by (auto intro!: interleaving.all_done dest: set_update_subset_insert [THEN subsetD])
  ultimately show ?case
    using all_done.prems
    by (auto intro!: interleaving.one_step [where i = i and xs = "[]"])
next
  case (one_step k xss z zs ys)
  let ?uss = "xss[i := xss ! i @ [x]]"
  have k: "?uss ! k = z # (if k = i then zs @ [x] else zs)"
    using one_step.hyps one_step.prems by (simp add: nth_list_update)
  have "interleaving ((xss[k := zs])[i := xss[k := zs] ! i @ [x]]) (ys @ [x])"
    using one_step.prems by (intro one_step.IH) simp
  moreover have "(xss[k := zs])[i := xss[k := zs] ! i @ [x]] = ?uss[k := (if k = i then zs @ [x] else zs)]"
    using one_step.prems by (auto simp: list_update_swap)
  ultimately show ?case
    using one_step.hyps(1) k by (auto intro: interleaving.one_step [where i = k])
qed

subsection \<open>An order from scheduling choices\<close>

definition ready :: "'a list list \<Rightarrow> nat list" where
  "ready xss = filter (\<lambda>i. xss ! i \<noteq> []) [0..<length xss]"

definition pick :: "nat list \<Rightarrow> nat list \<Rightarrow> nat" where
  "pick cs is = is ! ((case cs of [] \<Rightarrow> 0 | c # _ \<Rightarrow> c) mod length is)"

lemma pick_in: "is \<noteq> [] \<Longrightarrow> pick cs is \<in> set is"
  by (simp add: pick_def)

lemma ready_iff: "i \<in> set (ready xss) \<longleftrightarrow> i < length xss \<and> xss ! i \<noteq> []"
  by (auto simp: ready_def)

lemma ready_empty: "ready xss = [] \<longleftrightarrow> (\<forall>xs \<in> set xss. xs = [])"
  by (auto simp: ready_def filter_empty_conv all_set_conv_all_nth)

function interleave :: "nat list \<Rightarrow> 'a list list \<Rightarrow> 'a list" where
  "interleave cs xss =
     (if ready xss = [] then []
      else let i = pick cs (ready xss)
           in hd (xss ! i) # interleave (tl cs) (xss[i := tl (xss ! i)]))"
  by pat_completeness auto
termination
proof (relation "measure (\<lambda>(cs, xss). tsum length xss)")
  fix cs :: "nat list" and xss :: "'a list list" and i
  assume "ready xss \<noteq> []" and "i = pick cs (ready xss)"
  then have "i < length xss" "xss ! i \<noteq> []"
    using pick_in ready_iff by blast+
  then show "((tl cs, xss[i := tl (xss ! i)]), (cs, xss)) \<in> measure (\<lambda>(cs, xss). tsum length xss)"
    using tsum_update [of i xss length "tl (xss ! i)"] by (cases "xss ! i") auto
qed simp

declare interleave.simps [simp del]

lemma interleave_interleaving: "interleaving xss (interleave cs xss)"
proof (induction cs xss rule: interleave.induct)
  case (1 cs xss)
  show ?case
  proof (cases "ready xss = []")
    case True
    then show ?thesis
      by (simp add: interleave.simps [of cs xss] ready_empty interleaving.all_done)
  next
    case False
    let ?i = "pick cs (ready xss)"
    have i: "?i < length xss" "xss ! ?i \<noteq> []"
      using False pick_in ready_iff by blast+
    have "interleaving (xss[?i := tl (xss ! ?i)]) (interleave (tl cs) (xss[?i := tl (xss ! ?i)]))"
      using False by (intro "1.IH") auto
    then show ?thesis
      using False i
      by (auto simp: interleave.simps [of cs xss] Let_def
          intro!: interleaving.one_step [where i = ?i and xs = "tl (xss ! ?i)"])
  qed
qed

lemma interleaving_interleave: "interleaving xss ys \<Longrightarrow> \<exists>cs. interleave cs xss = ys"
proof (induction rule: interleaving.induct)
  case (all_done xss)
  then show ?case by (simp add: interleave.simps [of _ xss] ready_empty)
next
  case (one_step i xss x xs ys)
  then obtain cs where cs: "interleave cs (xss[i := xs]) = ys" by blast
  have "i \<in> set (ready xss)" using one_step.hyps by (simp add: ready_iff)
  then obtain c where c: "c < length (ready xss)" "ready xss ! c = i"
    by (auto simp: in_set_conv_nth)
  then have "pick (c # cs) (ready xss) = i" "ready xss \<noteq> []"
    by (auto simp: pick_def)
  then have "interleave (c # cs) xss = x # ys"
    using one_step.hyps cs by (simp add: interleave.simps [of _ xss] Let_def)
  then show ?case by blast
qed

subsection \<open>Running an order\<close>

definition run_all :: "('m \<Rightarrow> 'm) list \<Rightarrow> 'm \<Rightarrow> 'm" where
  "run_all as m = fold (\<lambda>a m. a m) as m"

lemma run_all_simps [simp]:
  "run_all [] m = m" "run_all (a # as) m = run_all as (a m)"
  "run_all (as @ bs) m = run_all bs (run_all as m)"
  by (simp_all add: run_all_def)

lemma run_all_invariant:
  "(\<And>a m. a \<in> set as \<Longrightarrow> Inv m \<Longrightarrow> Inv (a m)) \<Longrightarrow> Inv m \<Longrightarrow> Inv (run_all as m)"
  by (induction as arbitrary: m) auto

text \<open>
  Actions that act on one observable \<open>obs\<close> of the memory as updates \<open>upd\<close> of it; when these
  commute, only which actions ran matters, not their order.
\<close>

lemma fold_observe:
  assumes "\<And>l m. l \<in> set ls \<Longrightarrow> Inv m \<Longrightarrow> Inv (act l m) \<and> obs (act l m) = upd l (obs m)"
    and "Inv m"
  shows "Inv (fold act ls m) \<and> obs (fold act ls m) = fold upd ls (obs m)"
  using assms by (induction ls arbitrary: m) auto

lemma fold_same_mset:
  assumes "\<And>x y. f x \<circ> f y = f y \<circ> f x" and "mset xs = mset ys"
  shows "fold f xs = fold f ys"
  using assms by (intro fold_multiset_equiv)

text \<open>Threads that are given by labels of their actions: their orders are orders of the labels.\<close>

lemma interleaving_map:
  assumes "interleaving (map (map f) xss) ys"
  obtains zs where "interleaving xss zs" "ys = map f zs"
  using assms
proof (induction "map (map f) xss" ys arbitrary: xss thesis rule: interleaving.induct)
  case all_done
  then show ?case by (auto intro!: all_done.prems interleaving.all_done)
next
  case (one_step i x xs ys)
  then obtain z zs where z: "xss ! i = z # zs" "x = f z" "xs = map f zs"
    by (auto simp: map_eq_Cons_conv)
  obtain ws where "interleaving (xss[i := zs]) ws" "ys = map f ws"
    using one_step.hyps(4) [of "xss[i := zs]"] z by (auto simp: map_update)
  then show ?case
    using one_step z by (intro one_step.prems [of "z # ws"]) (auto intro: interleaving.one_step)
qed

subsection \<open>The contract of a group of threads\<close>

locale thread_runner =
  fixes bodies :: "'g \<Rightarrow> ('m \<Rightarrow> 'm) list list"
    and runs :: "'g \<Rightarrow> 'm \<Rightarrow> 'm \<Rightarrow> bool"
  assumes runs_interleaved:
    "runs g m m' \<Longrightarrow> \<exists>ys. interleaving (bodies g) ys \<and> m' = run_all ys m"
begin

lemma runs_invariant:
  assumes "runs g m m'"
    and "\<And>xs a m. xs \<in> set (bodies g) \<Longrightarrow> a \<in> set xs \<Longrightarrow> Inv m \<Longrightarrow> Inv (a m)"
    and "Inv m"
  shows "Inv m'"
proof -
  obtain ys where ys: "interleaving (bodies g) ys" "m' = run_all ys m"
    using runs_interleaved [OF assms(1)] by blast
  show ?thesis
    unfolding ys(2)
  proof (rule run_all_invariant)
    fix a m assume "a \<in> set ys" "Inv m"
    then show "Inv (a m)"
      using assms(2) interleaving_set [OF ys(1)] by blast
  qed (rule assms(3))
qed

lemma runs_commuting:
  assumes "runs g m m'" and "bodies g = map (map act) lss"
    and step: "\<And>l m. l \<in> set (concat lss) \<Longrightarrow> Inv m \<Longrightarrow> Inv (act l m) \<and> obs (act l m) = upd l (obs m)"
    and comm: "\<And>x y. upd x \<circ> upd y = upd y \<circ> upd x"
    and "Inv m"
  shows "Inv m' \<and> obs m' = fold upd (concat lss) (obs m)"
proof -
  obtain ys where ys: "interleaving (bodies g) ys" "m' = run_all ys m"
    using runs_interleaved [OF assms(1)] by blast
  then obtain ls where ls: "interleaving lss ls" "ys = map act ls"
    using assms(2) by (auto elim: interleaving_map)
  have run: "run_all ys m = fold act ls m"
    unfolding ls(2) run_all_def by (simp add: fold_map comp_def)
  have "set ls = set (concat lss)"
    using interleaving_set [OF ls(1)] by simp
  then have "Inv (fold act ls m) \<and> obs (fold act ls m) = fold upd ls (obs m)"
    using step assms(5) by (intro fold_observe) auto
  moreover have "fold upd ls = fold upd (concat lss)"
    using comm interleaving_mset [OF ls(1)] by (rule fold_same_mset)
  ultimately show ?thesis by (simp add: ys(2) run)
qed

end

end
