(* ===== verification/Test_Group.thy ===== *)
theory Test_Group
  imports Interleaving
begin

text \<open>
  The data of a test group (\<open>utils/concurrent_utils.h\<close>, \<open>utils/concurrent_utils.c\<close>): its
  structures and the operations that build a group before its threads run.

  A test function is called with its \<open>void *data\<close> and acts on memory shared with the other
  threads (signals of the runtime, variables of the test): \<open>fun_prt t (data t)\<close> is the list of
  its atomic accesses, each a function on the shared memory \<open>'m\<close>.  The array \<open>test_list\<close> is a list with
  \<open>None\<close> for the elements \<open>malloc\<close> left uninitialised, and an access outside of it makes the
  operation \<open>None\<close>.
\<close>

datatype TEST_STATUS =
  TEST_NOT_STARTED | TEST_RUNNING | TEST_STOP | TEST_FINISHED | TEST_ERROR

record ('d, 'm) test_aux =
  fun_prt :: "'d \<Rightarrow> ('m \<Rightarrow> 'm) list"
  data :: 'd
  status :: TEST_STATUS

record ('d, 'm) test_group =
  group_size :: "64 word"
  num_test :: "32 word"
  n_threads :: "32 word"
  run_flag :: "32 word"
  exit_flag :: "32 word"
  num_running_t :: "32 word"
  test_list :: "('d, 'm) test_aux option list"

definition test_group_create :: "64 word \<Rightarrow> ('d, 'm) test_group" where
  "test_group_create sz =
     \<lparr>group_size = sz, num_test = 0, n_threads = 0, run_flag = 0, exit_flag = 0,
      num_running_t = 0, test_list = replicate (unat sz) None\<rparr>"

text \<open>
  \<open>test_group_add\<close> compares sizes as \<open>size_t\<close> (the \<open>int\<close> \<open>num_test\<close> is converted by sign
  extension), copies the test \<open>num_copy\<close> times and stores the new count in an \<open>int\<close>.  When
  the group is too small it reports so and leaves the group as it is.  What the functions report on \<open>stderr\<close> is not modelled.
\<close>

definition set_test ::
  "nat \<Rightarrow> ('d, 'm) test_aux \<Rightarrow> ('d, 'm) test_aux option list \<Rightarrow> ('d, 'm) test_aux option list option"
where
  "set_test k t ts = (if k < length ts then Some (ts[k := Some t]) else None)"

definition test_group_add ::
  "('d, 'm) test_group \<Rightarrow> ('d \<Rightarrow> ('m \<Rightarrow> 'm) list) \<Rightarrow> 'd \<Rightarrow> 64 word \<Rightarrow> ('d, 'm) test_group option"
where
  "test_group_add g f d num_copy =
     (if group_size g < num_copy + scast (num_test g) then Some g
      else do {
        ts \<leftarrow> for_loop 0 (unat num_copy)
               (\<lambda>ii ts. set_test (unat (num_test g) + ii)
                          \<lparr>fun_prt = f, data = d, status = TEST_NOT_STARTED\<rparr> ts)
               (test_list g);
        Some (g\<lparr>test_list := ts, num_test := num_test g + ucast num_copy\<rparr>)
      })"

text \<open>
  \<open>test_group_resize\<close> also only reports a new size that is too small, and goes on to shrink
  the array.
\<close>

definition resize_list :: "nat \<Rightarrow> 'a option list \<Rightarrow> 'a option list" where
  "resize_list n xs = take n xs @ replicate (n - length xs) None"

definition test_group_resize :: "('d, 'm) test_group \<Rightarrow> 64 word \<Rightarrow> ('d, 'm) test_group" where
  "test_group_resize g new_size =
     g\<lparr>group_size := new_size, test_list := resize_list (unat new_size) (test_list g)\<rparr>"

definition test_group_num_tests :: "('d, 'm) test_group \<Rightarrow> 32 word" where
  "test_group_num_tests g = num_test g"

subsection \<open>Well-formed groups\<close>

text \<open>
  The array has \<open>group_size\<close> elements, the first \<open>num_test\<close> of them are tests, and the sizes
  fit in the \<open>int\<close> that counts them.
\<close>

definition tests :: "('d, 'm) test_group \<Rightarrow> ('d, 'm) test_aux list" where
  "tests g = map the (take (unat (num_test g)) (test_list g))"

definition group_ok :: "('d, 'm) test_group \<Rightarrow> bool" where
  "group_ok g \<longleftrightarrow>
     length (test_list g) = unat (group_size g) \<and> unat (group_size g) < 2 ^ 31 \<and>
     unat (num_test g) \<le> unat (group_size g) \<and>
     None \<notin> set (take (unat (num_test g)) (test_list g))"

lemma scast_int_size:
  fixes x :: "32 word"
  assumes "unat x < 2 ^ 31"
  shows "unat (scast x :: 64 word) = unat x"
proof -
  have "sint x = int (unat x)"
    using assms by (simp add: sint_uint signed_take_bit_int_eq_self uint_nat del: of_nat_unat)
  then have "(scast x :: 64 word) = of_nat (unat x)"
    by (simp add: scast_eq)
  then show ?thesis
    using assms by (simp add: unsigned_ucast_eq take_bit_nat_eq_self)
qed

lemma group_ok_create: "unat sz < 2 ^ 31 \<Longrightarrow> group_ok (test_group_create sz)"
  by (simp add: group_ok_def test_group_create_def)

lemma tests_create [simp]: "tests (test_group_create sz) = []"
  by (simp add: tests_def test_group_create_def)

lemma set_tests_from:
  "k + n \<le> length ts \<Longrightarrow>
   for_loop i n (\<lambda>ii ts. set_test (k0 + ii) t ts) ts = Some (take k ts @ replicate n (Some t) @ drop (k + n) ts)"
  if "k = k0 + i"
  using that
proof (induction n arbitrary: i k ts)
  case 0
  then show ?case by simp
next
  case (Suc n)
  then have k: "k < length ts" by simp
  have "for_loop (Suc i) n (\<lambda>ii ts. set_test (k0 + ii) t ts) (ts[k := Some t])
      = Some (take (Suc k) (ts[k := Some t]) @ replicate n (Some t) @ drop (Suc k + n) (ts[k := Some t]))"
    using Suc.prems by (intro Suc.IH) auto
  then show ?case
    using k Suc.prems by (simp add: set_test_def take_Suc_conv_app_nth)
qed

text \<open>
  With room for \<open>num_copy\<close> more tests the operation appends exactly that many copies; without,
  it changes nothing; in both cases it stays inside the array and keeps the group well-formed, unless the sum of the sizes wraps around.
\<close>

lemma add_fits:
  assumes "group_ok g" "unat num_copy + unat (num_test g) < 2 ^ 64"
  shows "\<not> group_size g < num_copy + scast (num_test g) \<longleftrightarrow>
     unat (num_test g) + unat num_copy \<le> unat (group_size g)"
proof -
  have *: "unat (scast (num_test g) :: 64 word) = unat (num_test g)"
    using assms(1) by (intro scast_int_size) (simp add: group_ok_def)
  have "unat (num_copy + scast (num_test g)) = unat num_copy + unat (num_test g)"
    using assms(2) by (subst unat_add_lem [THEN iffD1]) (simp_all add: *)
  then show ?thesis by (auto simp: word_less_nat_alt)
qed

lemma test_group_add_room:
  assumes "group_ok g" "unat (num_test g) + unat num_copy \<le> unat (group_size g)"
  obtains g' where
    "test_group_add g f d num_copy = Some g'" "group_ok g'"
    "tests g' = tests g @ replicate (unat num_copy) \<lparr>fun_prt = f, data = d, status = TEST_NOT_STARTED\<rparr>"
    "unat (num_test g') = unat (num_test g) + unat num_copy"
    "group_size g' = group_size g" "n_threads g' = n_threads g" "run_flag g' = run_flag g"
    "exit_flag g' = exit_flag g" "num_running_t g' = num_running_t g"
proof -
  let ?t = "\<lparr>fun_prt = f, data = d, status = TEST_NOT_STARTED\<rparr>"
  let ?k = "unat (num_test g)" and ?n = "unat num_copy"
  let ?ts = "take ?k (test_list g) @ replicate ?n (Some ?t) @ drop (?k + ?n) (test_list g)"
  let ?g' = "g\<lparr>test_list := ?ts, num_test := num_test g + ucast num_copy\<rparr>"
  have ok: "length (test_list g) = unat (group_size g)" "unat (group_size g) < 2 ^ 31"
    "None \<notin> set (take ?k (test_list g))"
    using assms(1) by (auto simp: group_ok_def)
  have small: "?k + ?n < 2 ^ 31" using assms(2) ok(2) by linarith
  have n: "unat (ucast num_copy :: 32 word) = ?n"
    using small by (simp add: unsigned_ucast_eq take_bit_nat_eq_self)
  have k': "unat (num_test g + ucast num_copy) = ?k + ?n"
    using small by (subst unat_add_lem [THEN iffD1]) (simp_all add: n)
  have fits: "\<not> group_size g < num_copy + scast (num_test g)"
    using assms small by (intro add_fits [THEN iffD2]) auto
  have loop: "for_loop 0 ?n (\<lambda>ii ts. set_test (?k + ii) ?t ts) (test_list g) = Some ?ts"
    by (rule set_tests_from) (use assms(2) ok(1) in auto)
  have add: "test_group_add g f d num_copy = Some ?g'"
    using fits by (simp add: test_group_add_def loop)
  have len: "length ?ts = length (test_list g)"
    using assms(2) ok(1) by simp
  have tk: "take (?k + ?n) ?ts = take ?k (test_list g) @ replicate ?n (Some ?t)"
    using assms(2) ok(1) by simp
  show thesis
  proof (rule that [of ?g'])
    show "group_ok ?g'"
      using ok assms(2) len tk by (simp add: group_ok_def k')
    show "tests ?g' = tests g @ replicate ?n ?t"
      using tk by (simp add: tests_def k')
  qed (use add k' in auto)
qed

lemma test_group_add_full:
  assumes "group_ok g" "unat num_copy + unat (num_test g) < 2 ^ 64"
    and "unat (group_size g) < unat (num_test g) + unat num_copy"
  shows "test_group_add g f d num_copy = Some g"
  using add_fits [OF assms(1,2)] assms(3) by (simp add: test_group_add_def)

text \<open>
  The sum in the comparison is one of 64 bits.  When it wraps around, it is below \<open>num_test\<close> and passes for one that
  fits, and the loop leaves the array.
\<close>

lemma set_tests_outside:
  "length ts < k0 + i + n \<Longrightarrow> for_loop i n (\<lambda>ii ts. set_test (k0 + ii) t ts) ts = None" if "k0 + i \<le> length ts"
  using that
proof (induction n arbitrary: i ts)
  case 0
  then show ?case by simp
next
  case (Suc n)
  then show ?case by (cases "k0 + i < length ts") (simp_all add: set_test_def Suc.IH)
qed

lemma test_group_add_wraps:
  assumes "group_ok g" "2 ^ 64 \<le> unat num_copy + unat (num_test g)"
  shows "test_group_add g f d num_copy = None"
proof -
  have ok: "unat (num_test g) \<le> unat (group_size g)" "length (test_list g) = unat (group_size g)" "unat (group_size g) < 2 ^ 31"
    using assms(1) by (simp_all add: group_ok_def)
  have sc: "unat (scast (num_test g) :: 64 word) = unat (num_test g)"
    using ok by (intro scast_int_size) linarith
  have copy: "unat num_copy < 2 ^ 64" by (rule order_less_le_trans [OF unsigned_less]) simp
  have "unat (num_copy + scast (num_test g)) = (unat num_copy + unat (num_test g)) mod 2 ^ 64"
    by (simp add: unat_word_ariths sc)
  also have "\<dots> = unat num_copy + unat (num_test g) - 2 ^ 64"
    using assms(2) copy ok by (subst le_mod_geq) auto
  also have "\<dots> \<le> unat (group_size g)" using copy ok by linarith
  finally have "\<not> group_size g < num_copy + scast (num_test g)" by (simp add: word_less_nat_alt)
  moreover have "for_loop 0 (unat num_copy)
      (\<lambda>ii ts. set_test (unat (num_test g) + ii) \<lparr>fun_prt = f, data = d, status = TEST_NOT_STARTED\<rparr> ts) (test_list g) = None"
    by (rule set_tests_outside) (use ok assms(2) in simp_all)
  ultimately show ?thesis by (simp add: test_group_add_def)
qed

lemma test_group_add_frame:
  "test_group_add g f d num_copy = Some g' \<Longrightarrow> g' = g\<lparr>test_list := test_list g', num_test := num_test g'\<rparr>"
  by (auto simp: test_group_add_def bind_eq_Some_conv split: if_splits)

lemma group_ok_resize:
  assumes "group_ok g" "unat (num_test g) \<le> unat new_size" "unat new_size < 2 ^ 31"
  shows "group_ok (test_group_resize g new_size)" "tests (test_group_resize g new_size) = tests g"
proof -
  have "take (unat (num_test g)) (resize_list (unat new_size) (test_list g)) = take (unat (num_test g)) (test_list g)"
    using assms by (simp add: resize_list_def group_ok_def min_def)
  then show "group_ok (test_group_resize g new_size)" "tests (test_group_resize g new_size) = tests g"
    using assms by (simp_all add: group_ok_def test_group_resize_def tests_def resize_list_def)
qed

text \<open>The atomic accesses of the tests of a group.\<close>

definition test_body :: "('d, 'm) test_aux \<Rightarrow> ('m \<Rightarrow> 'm) list" where
  "test_body t = fun_prt t (data t)"

definition group_bodies :: "('d, 'm) test_group \<Rightarrow> ('m \<Rightarrow> 'm) list list" where
  "group_bodies g = map test_body (tests g)"

end
