(* ===== verification/Test_Group_Protocol.thy ===== *)
theory Test_Group_Protocol
  imports Test_Group
begin

text \<open>
  The threads of a test group (\<open>utils/concurrent_utils.c\<close>): the function \<open>worker\<close> that every thread
  runs, and the calls \<open>test_group_start\<close>, \<open>test_group_wait\<close> and \<open>test_group_exit\<close> of the
  main thread, as programs that take one access to shared data at a time.  A program counter
  names the next access.  The mutex of the group is the field \<open>test_mutex\<close>, the thread that
  holds it; a thread in \<open>pthread_cond_wait\<close> has given the mutex up, is woken by a broadcast
  (or for no reason, as POSIX allows) and then competes for the mutex again.
\<close>

subsection \<open>State\<close>

datatype 'm worker_pc =
    W_lock        \<comment> \<open>at the first \<open>pthread_mutex_lock\<close>\<close>
  | W_check       \<comment> \<open>holds the mutex, at the condition of the \<open>while\<close>\<close>
  | W_blocked     \<comment> \<open>in \<open>pthread_cond_wait\<close>, asleep\<close>
  | W_woken       \<comment> \<open>in \<open>pthread_cond_wait\<close>, to take the mutex again\<close>
  | W_unlock      \<comment> \<open>at the first \<open>pthread_mutex_unlock\<close>\<close>
  | W_flip        \<comment> \<open>at \<open>run_flag_l = run_flag_l ^ 1\<close>\<close>
  | W_ifexit      \<comment> \<open>at \<open>if (*thread->exit_flag == 0)\<close>\<close>
  | W_setrun      \<comment> \<open>at \<open>status = TEST_RUNNING\<close>\<close>
  | W_body "('m \<Rightarrow> 'm) list"  \<comment> \<open>in \<open>fun_prt(thread->test->data)\<close>, with these accesses left\<close>
  | W_lock2       \<comment> \<open>at the second \<open>pthread_mutex_lock\<close>\<close>
  | W_dec         \<comment> \<open>at \<open>(*(thread->num_running_t))--\<close>\<close>
  | W_iszero      \<comment> \<open>at the test of \<open>*thread->num_running_t == 0\<close>\<close>
  | W_unlock2     \<comment> \<open>at the second \<open>pthread_mutex_unlock\<close>\<close>
  | W_setstop     \<comment> \<open>at \<open>status = TEST_STOP\<close>\<close>
  | W_setfin      \<comment> \<open>at \<open>status = TEST_FINISHED\<close>\<close>
  | W_exited      \<comment> \<open>after \<open>pthread_exit\<close>\<close>

datatype master_pc =
    M_idle
  | M_start_check | M_start_lock | M_start_flip | M_start_set | M_start_bcast | M_start_unlock
  | M_wait_lock | M_wait_check | M_wait_blocked | M_wait_woken | M_wait_unlock
  | M_exit_lock | M_exit_set | M_exit_bcast | M_exit_unlock | M_exit_join nat | M_exited

datatype thread_id = Master | Worker nat

record ('d, 'm) thread_aux =
  test :: "('d, 'm) test_aux"
  run_flag_l :: "32 word"
  wpc :: "'m worker_pc"

record ('d, 'm) tg_state = "('d, 'm) test_group" +
  test_mutex :: "thread_id option"
  thread_list :: "('d, 'm) thread_aux list"
  master :: master_pc
  mem :: 'm

definition test_group_thread_create ::
  "('d, 'm) test_group \<Rightarrow> 'm \<Rightarrow> ('d, 'm) tg_state option"
where
  "test_group_thread_create g m =
     (let n = unat (num_test g) in
      if length (test_list g) < n \<or> None \<in> set (take n (test_list g)) then None
      else Some \<lparr>group_size = group_size g, num_test = num_test g, n_threads = num_test g,
             run_flag = run_flag g, exit_flag = exit_flag g, num_running_t = num_running_t g,
             test_list = test_list g, test_mutex = None,
             thread_list = map (\<lambda>t. \<lparr>test = t, run_flag_l = 0, wpc = W_lock\<rparr>) (tests g),
             master = M_idle, mem = m\<rparr>)"

subsection \<open>Steps\<close>

text \<open>
  \<open>thread->test\<close> points into \<open>test_list\<close>; the entry is kept in the thread, which alone writes
  its \<open>status\<close> while it runs.
\<close>

definition wake :: "('d, 'm) thread_aux \<Rightarrow> ('d, 'm) thread_aux" where
  "wake w = (if wpc w = W_blocked then w\<lparr>wpc := W_woken\<rparr> else w)"

definition pthread_cond_broadcast :: "('d, 'm) tg_state \<Rightarrow> ('d, 'm) tg_state" where
  "pthread_cond_broadcast s =
     s\<lparr>thread_list := map wake (thread_list s),
       master := (if master s = M_wait_blocked then M_wait_woken else master s)\<rparr>"

definition goto :: "nat \<Rightarrow> 'm worker_pc \<Rightarrow> ('d, 'm) tg_state \<Rightarrow> ('d, 'm) tg_state" where
  "goto i pc s = s\<lparr>thread_list := (thread_list s)[i := (thread_list s ! i)\<lparr>wpc := pc\<rparr>]\<rparr>"

definition set_status :: "nat \<Rightarrow> TEST_STATUS \<Rightarrow> ('d, 'm) tg_state \<Rightarrow> ('d, 'm) tg_state" where
  "set_status i st s =
     (let w = thread_list s ! i
      in s\<lparr>thread_list := (thread_list s)[i := w\<lparr>test := (test w)\<lparr>status := st\<rparr>\<rparr>]\<rparr>)"

definition flip_local :: "nat \<Rightarrow> ('d, 'm) tg_state \<Rightarrow> ('d, 'm) tg_state" where
  "flip_local i s =
     (let w = thread_list s ! i
      in s\<lparr>thread_list := (thread_list s)[i := w\<lparr>run_flag_l := run_flag_l w XOR 1\<rparr>]\<rparr>)"

definition acquire :: "thread_id \<Rightarrow> ('d, 'm) tg_state \<Rightarrow> ('d, 'm) tg_state option" where
  "acquire t s = (if test_mutex s = None then Some (s\<lparr>test_mutex := Some t\<rparr>) else None)"

definition release :: "('d, 'm) tg_state \<Rightarrow> ('d, 'm) tg_state" where
  "release s = s\<lparr>test_mutex := None\<rparr>"

text \<open>The next access of thread \<open>i\<close>; \<open>None\<close> when it is blocked or has ended.\<close>

definition worker_step :: "nat \<Rightarrow> ('d, 'm) tg_state \<Rightarrow> ('d, 'm) tg_state option" where
  "worker_step i s =
    (if length (thread_list s) \<le> i then None else
     let w = thread_list s ! i in
     case wpc w of
       W_lock \<Rightarrow> map_option (goto i W_check) (acquire (Worker i) s)
     | W_check \<Rightarrow>
         Some (if run_flag s = run_flag_l w \<and> exit_flag s = 0
               then release (goto i W_blocked s) else goto i W_unlock s)
     | W_blocked \<Rightarrow> None
     | W_woken \<Rightarrow> map_option (goto i W_check) (acquire (Worker i) s)
     | W_unlock \<Rightarrow> Some (release (goto i W_flip s))
     | W_flip \<Rightarrow> Some (goto i W_ifexit (flip_local i s))
     | W_ifexit \<Rightarrow> Some (goto i (if exit_flag s = 0 then W_setrun else W_setfin) s)
     | W_setrun \<Rightarrow> Some (goto i (W_body (test_body (test w))) (set_status i TEST_RUNNING s))
     | W_body [] \<Rightarrow> Some (goto i W_lock2 s)
     | W_body (a # as) \<Rightarrow> Some (goto i (W_body as) (s\<lparr>mem := a (mem s)\<rparr>))
     | W_lock2 \<Rightarrow> map_option (goto i W_dec) (acquire (Worker i) s)
     | W_dec \<Rightarrow> Some (goto i W_iszero (s\<lparr>num_running_t := num_running_t s - 1\<rparr>))
     | W_iszero \<Rightarrow>
         Some (goto i W_unlock2 (if num_running_t s = 0 then pthread_cond_broadcast s else s))
     | W_unlock2 \<Rightarrow> Some (release (goto i W_setstop s))
     | W_setstop \<Rightarrow> Some (goto i W_lock (set_status i TEST_STOP s))
     | W_setfin \<Rightarrow> Some (goto i W_exited (set_status i TEST_FINISHED s))
     | W_exited \<Rightarrow> None)"

text \<open>
  The next access of the main thread in a call on the group.  \<open>M_idle\<close> is between calls; a
  call begins by setting the program counter to its first access.
\<close>

definition master_goto :: "master_pc \<Rightarrow> ('d, 'm) tg_state \<Rightarrow> ('d, 'm) tg_state" where
  "master_goto pc s = s\<lparr>master := pc\<rparr>"

fun test_group_start_step :: "master_pc \<Rightarrow> ('d, 'm) tg_state \<Rightarrow> ('d, 'm) tg_state option" where
  "test_group_start_step M_start_check s =
     Some (master_goto (if num_running_t s \<noteq> 0 then M_idle else M_start_lock) s)"
| "test_group_start_step M_start_lock s = map_option (master_goto M_start_flip) (acquire Master s)"
| "test_group_start_step M_start_flip s =
     Some (master_goto M_start_set (s\<lparr>run_flag := run_flag s XOR 1\<rparr>))"
| "test_group_start_step M_start_set s =
     Some (master_goto M_start_bcast (s\<lparr>num_running_t := num_test s\<rparr>))"
| "test_group_start_step M_start_bcast s =
     Some (master_goto M_start_unlock (pthread_cond_broadcast s))"
| "test_group_start_step M_start_unlock s = Some (master_goto M_idle (release s))"
| "test_group_start_step _ s = None"

fun test_group_wait_step :: "master_pc \<Rightarrow> ('d, 'm) tg_state \<Rightarrow> ('d, 'm) tg_state option" where
  "test_group_wait_step M_wait_lock s = map_option (master_goto M_wait_check) (acquire Master s)"
| "test_group_wait_step M_wait_check s =
     Some (if num_running_t s \<noteq> 0 then release (master_goto M_wait_blocked s)
           else master_goto M_wait_unlock s)"
| "test_group_wait_step M_wait_woken s = map_option (master_goto M_wait_check) (acquire Master s)"
| "test_group_wait_step M_wait_unlock s = Some (master_goto M_idle (release s))"
| "test_group_wait_step _ s = None"

text \<open>\<open>pthread_join\<close> of thread \<open>k\<close> returns when it has exited.\<close>

fun test_group_exit_step :: "master_pc \<Rightarrow> ('d, 'm) tg_state \<Rightarrow> ('d, 'm) tg_state option" where
  "test_group_exit_step M_exit_lock s = map_option (master_goto M_exit_set) (acquire Master s)"
| "test_group_exit_step M_exit_set s = Some (master_goto M_exit_bcast (s\<lparr>exit_flag := 1\<rparr>))"
| "test_group_exit_step M_exit_bcast s =
     Some (master_goto M_exit_unlock (pthread_cond_broadcast s))"
| "test_group_exit_step M_exit_unlock s = Some (master_goto (M_exit_join 0) (release s))"
| "test_group_exit_step (M_exit_join k) s =
     (if k < unat (n_threads s) then
        (if k < length (thread_list s) \<and> wpc (thread_list s ! k) = W_exited
         then Some (master_goto (M_exit_join (Suc k)) s) else None)
      else Some (master_goto M_exited s))"
| "test_group_exit_step _ s = None"

definition master_step :: "('d, 'm) tg_state \<Rightarrow> ('d, 'm) tg_state option" where
  "master_step s =
     (case test_group_start_step (master s) s of
        Some s' \<Rightarrow> Some s'
      | None \<Rightarrow> (case test_group_wait_step (master s) s of
                   Some s' \<Rightarrow> Some s'
                 | None \<Rightarrow> test_group_exit_step (master s) s))"

text \<open>A step of the group; a sleeping thread may also wake up without a broadcast.\<close>

inductive tg_step :: "('d, 'm) tg_state \<Rightarrow> ('d, 'm) tg_state \<Rightarrow> bool" where
  worker: "worker_step i s = Some s' \<Longrightarrow> tg_step s s'"
| main: "master_step s = Some s' \<Longrightarrow> tg_step s s'"

inductive spurious :: "('d, 'm) tg_state \<Rightarrow> ('d, 'm) tg_state \<Rightarrow> bool" where
  worker: "i < length (thread_list s) \<Longrightarrow> wpc (thread_list s ! i) = W_blocked \<Longrightarrow>
    spurious s (goto i W_woken s)"
| main: "master s = M_wait_blocked \<Longrightarrow> spurious s (master_goto M_wait_woken s)"

inductive tg_run :: "('d, 'm) tg_state \<Rightarrow> ('d, 'm) tg_state \<Rightarrow> bool" where
  refl: "tg_run s s"
| step: "tg_run s t \<Longrightarrow> tg_step t u \<or> spurious t u \<Longrightarrow> tg_run s u"

text \<open>
  One round: \<open>test_group_start\<close> is called and returns, then \<open>test_group_wait\<close>; the threads take
  their steps in between, at any time.
\<close>

inductive tg_round :: "('d, 'm) tg_state \<Rightarrow> ('d, 'm) tg_state \<Rightarrow> bool" where
  "master s = M_idle \<Longrightarrow> tg_run (master_goto M_start_check s) t \<Longrightarrow> master t = M_idle \<Longrightarrow>
   tg_run (master_goto M_wait_lock t) u \<Longrightarrow> master u = M_idle \<Longrightarrow> tg_round s u"

inductive_cases tg_roundE: "tg_round s u"

end
