(* ===== verification/Test_Group_Invariant.thy ===== *)
theory Test_Group_Invariant
  imports Test_Group_Protocol "HOL-Library.Sublist"
begin

text \<open>
  The invariant of the threads of a test group: who holds the mutex, how each thread's copy
  of the run flag relates to the group's, that \<open>num_running_t\<close> counts the threads that still
  owe a run of their test, and that no sleeping thread misses its wake-up.
\<close>

subsection \<open>The parts of the invariant\<close>

definition holds_mutex :: "'m worker_pc \<Rightarrow> bool" where
  "holds_mutex pc \<longleftrightarrow> pc \<in> {W_check, W_unlock, W_dec, W_iszero, W_unlock2}"

definition master_holds :: "master_pc \<Rightarrow> bool" where
  "master_holds pc \<longleftrightarrow> pc \<in> {M_start_flip, M_start_set, M_start_bcast, M_start_unlock,
     M_wait_check, M_wait_unlock, M_exit_set, M_exit_bcast, M_exit_unlock}"

text \<open>The thread still owes a run of its test (\<open>rf\<close>, \<open>ex\<close>: the group's flags).\<close>

fun pend_pc :: "32 word \<Rightarrow> 32 word \<Rightarrow> 32 word \<Rightarrow> 'm worker_pc \<Rightarrow> bool" where
  "pend_pc rf ex rl W_lock = (ex = 0 \<and> rl \<noteq> rf)"
| "pend_pc rf ex rl W_check = (ex = 0 \<and> rl \<noteq> rf)"
| "pend_pc rf ex rl W_blocked = (ex = 0 \<and> rl \<noteq> rf)"
| "pend_pc rf ex rl W_woken = (ex = 0 \<and> rl \<noteq> rf)"
| "pend_pc rf ex rl W_unlock = (ex = 0)"
| "pend_pc rf ex rl W_flip = (ex = 0)"
| "pend_pc rf ex rl W_ifexit = (ex = 0)"
| "pend_pc rf ex rl W_setrun = True"
| "pend_pc rf ex rl (W_body as) = True"
| "pend_pc rf ex rl W_lock2 = True"
| "pend_pc rf ex rl W_dec = True"
| "pend_pc rf ex rl W_iszero = False"
| "pend_pc rf ex rl W_unlock2 = False"
| "pend_pc rf ex rl W_setstop = (ex = 0 \<and> rl \<noteq> rf)"
| "pend_pc rf ex rl W_setfin = False"
| "pend_pc rf ex rl W_exited = False"

abbreviation pend :: "32 word \<Rightarrow> 32 word \<Rightarrow> ('d, 'm) thread_aux \<Rightarrow> bool" where
  "pend rf ex w \<equiv> pend_pc rf ex (run_flag_l w) (wpc w)"

text \<open>How the program counter of a thread constrains its flag.\<close>

fun flag_pc :: "32 word \<Rightarrow> 32 word \<Rightarrow> 32 word \<Rightarrow> 'm worker_pc \<Rightarrow> bool" where
  "flag_pc rf ex rl W_unlock = (ex = 0 \<longrightarrow> rl \<noteq> rf)"
| "flag_pc rf ex rl W_flip = (ex = 0 \<longrightarrow> rl \<noteq> rf)"
| "flag_pc rf ex rl W_ifexit = (ex = 0 \<longrightarrow> rl = rf)"
| "flag_pc rf ex rl W_setrun = (ex = 0 \<and> rl = rf)"
| "flag_pc rf ex rl (W_body as) = (ex = 0 \<and> rl = rf)"
| "flag_pc rf ex rl W_lock2 = (ex = 0 \<and> rl = rf)"
| "flag_pc rf ex rl W_dec = (ex = 0 \<and> rl = rf)"
| "flag_pc rf ex rl W_iszero = (ex = 0 \<and> rl = rf)"
| "flag_pc rf ex rl W_unlock2 = (ex = 0 \<and> rl = rf)"
| "flag_pc rf ex rl W_setfin = (ex \<noteq> 0)"
| "flag_pc rf ex rl W_exited = (ex \<noteq> 0)"
| "flag_pc rf ex rl _ = True"

definition thread_ok :: "32 word \<Rightarrow> 32 word \<Rightarrow> ('d, 'm) thread_aux \<Rightarrow> bool" where
  "thread_ok rf ex w \<longleftrightarrow>
     run_flag_l w \<in> {0, 1} \<and> flag_pc rf ex (run_flag_l w) (wpc w) \<and>
     (\<forall>as. wpc w = W_body as \<longrightarrow> suffix as (test_body (test w)))"

definition mutex_ok :: "('d, 'm) tg_state \<Rightarrow> bool" where
  "mutex_ok s \<longleftrightarrow>
     (\<forall>i < length (thread_list s). holds_mutex (wpc (thread_list s ! i)) \<longleftrightarrow> test_mutex s = Some (Worker i)) \<and>
     (master_holds (master s) \<longleftrightarrow> test_mutex s = Some Master) \<and>
     (\<forall>i. test_mutex s = Some (Worker i) \<longrightarrow> i < length (thread_list s))"

definition count_ok :: "('d, 'm) tg_state \<Rightarrow> bool" where
  "count_ok s \<longleftrightarrow>
     (if master s = M_start_set
      then num_running_t s = 0 \<and> (\<forall>w \<in> set (thread_list s). pend (run_flag s) (exit_flag s) w)
      else unat (num_running_t s) = how_many (pend (run_flag s) (exit_flag s)) (thread_list s))"

definition master_ok :: "('d, 'm) tg_state \<Rightarrow> bool" where
  "master_ok s \<longleftrightarrow>
     (master s \<in> {M_start_lock, M_start_flip, M_start_set, M_wait_unlock, M_exit_lock, M_exit_set} \<longrightarrow> num_running_t s = 0) \<and>
     (exit_flag s \<noteq> 0 \<longleftrightarrow> master s \<in> {M_exit_bcast, M_exit_unlock, M_exited} \<union> range M_exit_join) \<and>
     (exit_flag s \<noteq> 0 \<longrightarrow> num_running_t s = 0)"

definition no_lost_wakeup :: "('d, 'm) tg_state \<Rightarrow> bool" where
  "no_lost_wakeup s \<longleftrightarrow>
     (\<forall>w \<in> set (thread_list s). wpc w = W_blocked \<longrightarrow> run_flag_l w = run_flag s \<and> exit_flag s = 0 \<or>
        master s \<in> {M_start_set, M_start_bcast, M_exit_bcast}) \<and>
     (master s = M_wait_blocked \<longrightarrow> num_running_t s = 0 \<longrightarrow>
        (\<exists>i < length (thread_list s). wpc (thread_list s ! i) = W_iszero))"

definition tg_inv :: "('d, 'm) tg_state \<Rightarrow> bool" where
  "tg_inv s \<longleftrightarrow>
     length (thread_list s) = unat (num_test s) \<and> n_threads s = num_test s \<and>
     run_flag s \<in> {0, 1} \<and> exit_flag s \<in> {0, 1} \<and>
     (\<forall>w \<in> set (thread_list s). thread_ok (run_flag s) (exit_flag s) w) \<and>
     mutex_ok s \<and> count_ok s \<and> master_ok s \<and> no_lost_wakeup s"

named_theorems tg_simps \<open>the definitions of the steps\<close>

lemmas [tg_simps] =
  goto_def set_status_def flip_local_def acquire_def release_def pthread_cond_broadcast_def
  master_goto_def

subsection \<open>The invariant holds when the threads are created\<close>

lemma tg_inv_create:
  assumes "group_ok g" "run_flag g = 0" "exit_flag g = 0" "num_running_t g = 0"
  obtains s where "test_group_thread_create g m = Some s" "tg_inv s"
    "master s = M_idle" "num_running_t s = 0" "exit_flag s = 0" "mem s = m"
    "map (\<lambda>w. test_body (test w)) (thread_list s) = group_bodies g"
proof -
  let ?n = "unat (num_test g)"
  have ok: "?n \<le> length (test_list g)" "None \<notin> set (take ?n (test_list g))"
    using assms(1) by (auto simp: group_ok_def)
  have len: "length (tests g) = ?n"
    using ok by (simp add: tests_def)
  obtain s where s: "test_group_thread_create g m = Some s"
    and f: "run_flag s = 0" "exit_flag s = 0" "num_running_t s = 0" "test_mutex s = None"
      "num_test s = num_test g" "n_threads s = num_test g" "master s = M_idle" "mem s = m"
      "thread_list s = map (\<lambda>t. \<lparr>test = t, run_flag_l = 0, wpc = W_lock\<rparr>) (tests g)"
    using ok assms by (auto simp: test_group_thread_create_def Let_def not_less)
  have "how_many (pend 0 0) (thread_list s) = 0"
    by (simp add: f tsum_0_iff)
  then have "tg_inv s"
    using len by (auto simp: tg_inv_def f thread_ok_def mutex_ok_def count_ok_def master_ok_def
        no_lost_wakeup_def holds_mutex_def master_holds_def)
  moreover have "map (\<lambda>w. test_body (test w)) (thread_list s) = group_bodies g"
    by (simp add: f group_bodies_def comp_def)
  ultimately show thesis using s f by (intro that)
qed

lemma tg_invD:
  assumes "tg_inv s"
  shows "mutex_ok s" "count_ok s" "master_ok s" "no_lost_wakeup s"
    "run_flag s \<in> {0, 1}" "exit_flag s \<in> {0, 1}" "n_threads s = num_test s"
    "length (thread_list s) = unat (num_test s)"
    "\<And>w. w \<in> set (thread_list s) \<Longrightarrow> thread_ok (run_flag s) (exit_flag s) w"
  using assms unfolding tg_inv_def by blast+

lemma tg_inv_holder:
  assumes "tg_inv s" "i < length (thread_list s)"
  shows "holds_mutex (wpc (thread_list s ! i)) \<longleftrightarrow> test_mutex s = Some (Worker i)"
  using tg_invD(1) [OF assms(1)] assms(2) unfolding mutex_ok_def by blast

lemma tg_inv_master_holder:
  assumes "tg_inv s"
  shows "master_holds (master s) \<longleftrightarrow> test_mutex s = Some Master"
  using tg_invD(1) [OF assms] unfolding mutex_ok_def by blast

text \<open>Mutual exclusion.\<close>

lemma tg_inv_exclusion:
  assumes "tg_inv s" "i < length (thread_list s)" "holds_mutex (wpc (thread_list s ! i))"
  shows "\<not> master_holds (master s)"
    and "j < length (thread_list s) \<Longrightarrow> holds_mutex (wpc (thread_list s ! j)) \<Longrightarrow> j = i"
  using assms tg_inv_holder [of s] tg_inv_master_holder [of s] by auto

subsection \<open>The threads keep it\<close>

lemma wake_simps [simp]:
  "run_flag_l (wake w) = run_flag_l w" "test (wake w) = test w"
  "pend_pc rf ex rl (wpc (wake w)) = pend_pc rf ex rl (wpc w)" "thread_ok rf ex (wake w) = thread_ok rf ex w"
  "holds_mutex (wpc (wake w)) = holds_mutex (wpc w)" "wpc (wake w) \<noteq> W_blocked"
  by (auto simp: wake_def thread_ok_def holds_mutex_def)

lemma wake_pc: "wpc w \<noteq> W_blocked \<Longrightarrow> wake w = w"
  by (simp add: wake_def)

lemma how_many_wake [simp]: "how_many (pend rf ex) (map wake ws) = how_many (pend rf ex) ws"
  by (simp add: tsum_map)

lemma how_many_update_same:
  "i < length ws \<Longrightarrow> P w \<longleftrightarrow> P (ws ! i) \<Longrightarrow> how_many P (ws[i := w]) = how_many P ws"
  using tsum_update [of i ws "\<lambda>x. of_bool (P x)" w] by simp

lemma how_many_update_less:
  "i < length ws \<Longrightarrow> P (ws ! i) \<Longrightarrow> \<not> P w \<Longrightarrow> Suc (how_many P (ws[i := w])) = how_many P ws"
  using tsum_update [of i ws "\<lambda>x. of_bool (P x)" w] by simp

lemma ball_update:
  "(\<forall>w \<in> set ws. P w) \<Longrightarrow> P v \<Longrightarrow> \<forall>w \<in> set (ws[i := v]). P w"
  using set_update_subset_insert [of ws i v] by blast

text \<open>
  Most steps of a thread only move the thread itself: the mutex and the number of running
  tests may change with it.
\<close>

lemma tg_inv_thread:
  fixes s :: "('d, 'm) tg_state"
  assumes inv: "tg_inv s" and i: "i < length (thread_list s)"
    and s': "s' = s\<lparr>thread_list := (thread_list s)[i := w], test_mutex := mu, mem := m\<rparr>"
    and ok: "thread_ok (run_flag s) (exit_flag s) w"
    and pend: "pend (run_flag s) (exit_flag s) w \<longleftrightarrow> pend (run_flag s) (exit_flag s) (thread_list s ! i)"
    and mutex: "if holds_mutex (wpc w) then mu = Some (Worker i) \<and> (test_mutex s = None \<or> test_mutex s = Some (Worker i))
      else if holds_mutex (wpc (thread_list s ! i)) then mu = None else mu = test_mutex s"
    and asleep: "wpc w = W_blocked \<longrightarrow> run_flag_l w = run_flag s \<and> exit_flag s = 0"
    and zero: "wpc (thread_list s ! i) = W_iszero \<longrightarrow> master s \<noteq> M_wait_blocked \<or> num_running_t s \<noteq> 0"
  shows "tg_inv s'"
proof -
  have m: "\<And>j. j < length (thread_list s) \<Longrightarrow>
      holds_mutex (wpc (thread_list s ! j)) \<longleftrightarrow> test_mutex s = Some (Worker j)"
    "master_holds (master s) \<longleftrightarrow> test_mutex s = Some Master"
    "\<And>j. test_mutex s = Some (Worker j) \<Longrightarrow> j < length (thread_list s)"
    using inv by (simp_all add: tg_inv_def mutex_ok_def)
  have "holds_mutex (wpc (thread_list s' ! j)) \<longleftrightarrow> mu = Some (Worker j)"
    if "j < length (thread_list s)" for j
    using m(1) [OF that] m(1) [OF i] mutex by (cases "j = i") (auto simp: s' i split: if_splits)
  moreover have "master_holds (master s) \<longleftrightarrow> mu = Some Master"
    using m(1) [OF i] m(2) mutex by (auto split: if_splits)
  moreover have "j < length (thread_list s)" if "mu = Some (Worker j)" for j
    using that m(3) [of j] i mutex by (auto split: if_splits)
  ultimately have "mutex_ok s'"
    by (simp add: mutex_ok_def s')
  moreover have "count_ok s'"
  proof -
    have c: "count_ok s" using inv by (simp add: tg_inv_def)
    have same: "how_many (pend (run_flag s) (exit_flag s)) ((thread_list s)[i := w])
        = how_many (pend (run_flag s) (exit_flag s)) (thread_list s)"
      using i pend by (rule how_many_update_same)
    have "\<forall>v \<in> set ((thread_list s)[i := w]). pend (run_flag s) (exit_flag s) v"
      if "\<forall>v \<in> set (thread_list s). pend (run_flag s) (exit_flag s) v"
      using that pend i by (intro ball_update) auto
    then show ?thesis using c same by (auto simp: count_ok_def s' split: if_splits)
  qed
  moreover have "master_ok s'"
    using inv unfolding tg_inv_def master_ok_def s' by auto
  moreover have "no_lost_wakeup s'"
  proof -
    have n: "no_lost_wakeup s" using inv by (simp add: tg_inv_def)
    have "\<forall>v \<in> set ((thread_list s)[i := w]). wpc v = W_blocked \<longrightarrow>
        run_flag_l v = run_flag s \<and> exit_flag s = 0 \<or> master s \<in> {M_start_set, M_start_bcast, M_exit_bcast}"
      using n asleep by (intro ball_update) (auto simp: no_lost_wakeup_def)
    moreover have "\<exists>j < length (thread_list s). wpc ((thread_list s)[i := w] ! j) = W_iszero"
      if z: "master s = M_wait_blocked" "num_running_t s = 0"
    proof -
      obtain j where j: "j < length (thread_list s)" "wpc (thread_list s ! j) = W_iszero"
        using n z by (auto simp: no_lost_wakeup_def)
      then have "j \<noteq> i" using zero z by auto
      then show ?thesis using j by auto
    qed
    ultimately show ?thesis by (simp add: no_lost_wakeup_def s')
  qed
  moreover have "\<forall>w \<in> set (thread_list s'). thread_ok (run_flag s') (exit_flag s') w"
    using inv ok ball_update [of "thread_list s" "thread_ok (run_flag s) (exit_flag s)" w i]
    by (simp add: tg_inv_def s')
  ultimately show ?thesis
    using inv unfolding tg_inv_def s' by simp
qed

lemma tg_inv_broadcast:
  assumes "tg_inv s"
  shows "tg_inv (pthread_cond_broadcast s)"
proof -
  have h: "master_holds M_wait_woken \<longleftrightarrow> master_holds M_wait_blocked"
    by (simp add: master_holds_def)
  have "mutex_ok (pthread_cond_broadcast s)"
    using tg_invD(1) [OF assms] h by (auto simp: mutex_ok_def pthread_cond_broadcast_def)
  moreover have "count_ok (pthread_cond_broadcast s)"
    using assms by (simp add: tg_inv_def count_ok_def pthread_cond_broadcast_def split: if_splits)
  moreover have "master_ok (pthread_cond_broadcast s)"
    using assms by (auto simp: tg_inv_def master_ok_def pthread_cond_broadcast_def)
  moreover have "no_lost_wakeup (pthread_cond_broadcast s)"
    by (simp add: no_lost_wakeup_def pthread_cond_broadcast_def)
  ultimately show ?thesis
    using assms by (simp add: tg_inv_def pthread_cond_broadcast_def)
qed

text \<open>The step that decrements \<open>num_running_t\<close>: the thread's run is no longer owed.\<close>

lemma tg_inv_dec:
  assumes inv: "tg_inv s" and i: "i < length (thread_list s)" and pc: "wpc (thread_list s ! i) = W_dec"
  shows "tg_inv (goto i W_iszero (s\<lparr>num_running_t := num_running_t s - 1\<rparr>))" (is "tg_inv ?s'")
    and "num_running_t s \<noteq> 0"
proof -
  let ?w = "(thread_list s ! i)\<lparr>wpc := W_iszero\<rparr>"
  let ?P = "pend (run_flag s) (exit_flag s) :: ('a, 'b) thread_aux \<Rightarrow> bool"
  have mu: "test_mutex s = Some (Worker i)"
    using tg_inv_holder [OF inv i] pc by (simp add: holds_mutex_def)
  then have nset: "master s \<noteq> M_start_set" "\<not> master_holds (master s)"
    using inv by (auto simp: tg_inv_def mutex_ok_def master_holds_def)
  have count: "unat (num_running_t s) = how_many ?P (thread_list s)"
    using inv nset by (simp add: tg_inv_def count_ok_def)
  have less: "Suc (how_many ?P ((thread_list s)[i := ?w])) = how_many ?P (thread_list s)"
    using i pc by (intro how_many_update_less) auto
  then show nz: "num_running_t s \<noteq> 0" using count by auto
  have ok: "thread_ok (run_flag s) (exit_flag s) ?w" and ex: "exit_flag s = 0"
    using tg_invD(9) [OF inv nth_mem [OF i]] pc by (auto simp: thread_ok_def)
  have "unat (num_running_t s - 1) = how_many ?P ((thread_list s)[i := ?w])"
    using nz count less by (simp add: unat_minus_one)
  then have "count_ok ?s'"
    using nset by (simp add: count_ok_def goto_def)
  moreover have "mutex_ok ?s'"
    using tg_invD(1) [OF inv] i pc mu
    by (auto simp: mutex_ok_def goto_def nth_list_update holds_mutex_def)
  moreover have "master_ok ?s'"
    using inv nset ex nz by (auto simp: tg_inv_def master_ok_def goto_def)
  moreover have "no_lost_wakeup ?s'"
    unfolding no_lost_wakeup_def goto_def
    using inv i by (auto simp: tg_inv_def no_lost_wakeup_def dest!: set_update_subset_insert [THEN subsetD])
  ultimately show "tg_inv ?s'"
    using inv ball_update [of "thread_list s" "thread_ok (run_flag s) (exit_flag s)" ?w i] ok
    by (simp add: tg_inv_def goto_def)
qed

lemma tg_inv_worker:
  assumes inv: "tg_inv s" and step: "worker_step i s = Some s'"
  shows "tg_inv s'"
proof -
  have i: "i < length (thread_list s)"
    using step by (simp add: worker_step_def split: if_splits)
  let ?w = "thread_list s ! i"
  have ok: "thread_ok (run_flag s) (exit_flag s) ?w" "?w \<in> set (thread_list s)"
    and rf: "run_flag s \<in> {0, 1}" "exit_flag s \<in> {0, 1}"
    using inv i by (auto simp: tg_inv_def)
  note defs = worker_step_def tg_simps thread_ok_def holds_mutex_def Let_def
  show ?thesis
  proof (cases "wpc ?w")
    case W_lock
    then show ?thesis using step i ok
      by (intro tg_inv_thread [OF inv i, where w = "?w\<lparr>wpc := W_check\<rparr>" and mu = "Some (Worker i)" and m = "mem s"])
        (auto simp: defs split: if_splits)
  next
    case W_woken
    then show ?thesis using step i ok
      by (intro tg_inv_thread [OF inv i, where w = "?w\<lparr>wpc := W_check\<rparr>" and mu = "Some (Worker i)" and m = "mem s"])
        (auto simp: defs split: if_splits)
  next
    case W_check
    show ?thesis
    proof (cases "run_flag s = run_flag_l ?w \<and> exit_flag s = 0")
      case True
      with W_check show ?thesis using step i ok
        by (intro tg_inv_thread [OF inv i, where w = "?w\<lparr>wpc := W_blocked\<rparr>" and mu = None and m = "mem s"])
          (auto simp: defs)
    next
      case False
      have "test_mutex s = Some (Worker i)"
        using tg_inv_holder [OF inv i] W_check by (simp add: holds_mutex_def)
      with W_check False show ?thesis using step i ok rf
        by (intro tg_inv_thread [OF inv i, where w = "?w\<lparr>wpc := W_unlock\<rparr>" and mu = "Some (Worker i)" and m = "mem s"])
          (auto simp: defs)
    qed
  next
    case W_unlock
    then show ?thesis using step i ok
      by (intro tg_inv_thread [OF inv i, where w = "?w\<lparr>wpc := W_flip\<rparr>" and mu = None and m = "mem s"])
        (auto simp: defs)
  next
    case W_flip
    then show ?thesis using step i ok rf
      by (intro tg_inv_thread [OF inv i, where w = "?w\<lparr>run_flag_l := run_flag_l ?w XOR 1, wpc := W_ifexit\<rparr>"
            and mu = "test_mutex s" and m = "mem s"])
        (auto simp: defs)
  next
    case W_ifexit
    then show ?thesis using step i ok rf
      by (intro tg_inv_thread [OF inv i, where w = "?w\<lparr>wpc := if exit_flag s = 0 then W_setrun else W_setfin\<rparr>"
            and mu = "test_mutex s" and m = "mem s"])
        (auto simp: defs)
  next
    case W_setrun
    then show ?thesis using step i ok
      by (intro tg_inv_thread [OF inv i, where w = "?w\<lparr>test := (test ?w)\<lparr>status := TEST_RUNNING\<rparr>,
              wpc := W_body (test_body (test ?w))\<rparr>" and mu = "test_mutex s" and m = "mem s"])
        (auto simp: defs test_body_def)
  next
    case (W_body as)
    show ?thesis
    proof (cases as)
      case Nil
      with W_body show ?thesis using step i ok
        by (intro tg_inv_thread [OF inv i, where w = "?w\<lparr>wpc := W_lock2\<rparr>" and mu = "test_mutex s" and m = "mem s"])
          (auto simp: defs)
    next
      case (Cons a bs)
      with W_body show ?thesis using step i ok
        by (intro tg_inv_thread [OF inv i, where w = "?w\<lparr>wpc := W_body bs\<rparr>" and mu = "test_mutex s" and m = "a (mem s)"])
          (auto simp: defs dest: suffix_ConsD)
    qed
  next
    case W_lock2
    then show ?thesis using step i ok
      by (intro tg_inv_thread [OF inv i, where w = "?w\<lparr>wpc := W_dec\<rparr>" and mu = "Some (Worker i)" and m = "mem s"])
        (auto simp: defs split: if_splits)
  next
    case W_dec
    then show ?thesis using tg_inv_dec [OF inv i] step i by (simp add: worker_step_def)
  next
    case W_iszero
    let ?s = "if num_running_t s = 0 then pthread_cond_broadcast s else s"
    have inv': "tg_inv ?s" using inv tg_inv_broadcast by auto
    have same: "thread_list ?s ! i = ?w" "i < length (thread_list ?s)" "run_flag ?s = run_flag s"
      "exit_flag ?s = exit_flag s" "test_mutex ?s = test_mutex s" "mem ?s = mem s"
      using i W_iszero by (simp_all add: pthread_cond_broadcast_def wake_pc)
    have mu: "test_mutex s = Some (Worker i)"
      using tg_inv_holder [OF inv i] W_iszero by (simp add: holds_mutex_def)
    have nb: "master ?s \<noteq> M_wait_blocked \<or> num_running_t ?s \<noteq> 0"
      by (simp add: pthread_cond_broadcast_def)
    have "s' = goto i W_unlock2 ?s"
      using step i W_iszero by (simp add: worker_step_def)
    then show ?thesis using W_iszero ok same mu nb
      by (intro tg_inv_thread [OF inv' same(2), where w = "?w\<lparr>wpc := W_unlock2\<rparr>" and mu = "Some (Worker i)" and m = "mem s"])
        (auto simp: goto_def thread_ok_def holds_mutex_def)
  next
    case W_unlock2
    then show ?thesis using step i ok
      by (intro tg_inv_thread [OF inv i, where w = "?w\<lparr>wpc := W_setstop\<rparr>" and mu = None and m = "mem s"])
        (auto simp: defs)
  next
    case W_setstop
    then show ?thesis using step i ok
      by (intro tg_inv_thread [OF inv i, where w = "?w\<lparr>test := (test ?w)\<lparr>status := TEST_STOP\<rparr>, wpc := W_lock\<rparr>"
            and mu = "test_mutex s" and m = "mem s"])
        (auto simp: defs)
  next
    case W_setfin
    then show ?thesis using step i ok
      by (intro tg_inv_thread [OF inv i, where w = "?w\<lparr>test := (test ?w)\<lparr>status := TEST_FINISHED\<rparr>, wpc := W_exited\<rparr>"
            and mu = "test_mutex s" and m = "mem s"])
        (auto simp: defs)
  qed (use step i in \<open>simp_all add: worker_step_def\<close>)
qed

end
