(* ===== verification/Test_Group_Rounds.thy ===== *)
theory Test_Group_Rounds
  imports Test_Group_Invariant
begin

text \<open>
  Rounds of a test group.  The main thread's calls keep the invariant, and a round
  (\<open>test_group_start\<close>, then \<open>test_group_wait\<close>) runs every test of the group exactly once: the
  shared memory it leaves is the result of all accesses of all tests, in some order of execution.
\<close>

subsection \<open>The main thread keeps the invariant\<close>

text \<open>Steps of the main thread that move its program counter and may take or release the mutex.\<close>

lemma tg_inv_main:
  assumes inv: "tg_inv s" and s': "s' = s\<lparr>master := pc, test_mutex := mu\<rparr>"
    and mutex: "if master_holds pc then mu = Some Master \<and> (test_mutex s = None \<or> test_mutex s = Some Master)
      else if master_holds (master s) then mu = None else mu = test_mutex s"
    and set: "master s \<noteq> M_start_set" "pc \<noteq> M_start_set" "master s \<notin> {M_start_bcast, M_exit_bcast}"
    and num: "pc \<in> {M_start_lock, M_start_flip, M_wait_unlock, M_exit_lock, M_exit_set} \<Longrightarrow> num_running_t s = 0"
    and ex: "pc \<in> {M_exit_bcast, M_exit_unlock, M_exited} \<union> range M_exit_join \<longleftrightarrow> exit_flag s \<noteq> 0"
    and blocked: "pc = M_wait_blocked \<Longrightarrow> num_running_t s \<noteq> 0"
  shows "tg_inv s'"
proof -
  have m: "mutex_ok s" using inv by (rule tg_invD)
  have "holds_mutex (wpc (thread_list s ! i)) \<longleftrightarrow> mu = Some (Worker i)"
    if "i < length (thread_list s)" for i
    using tg_inv_holder [OF inv that] tg_inv_master_holder [OF inv] mutex by (auto split: if_splits)
  moreover have "i < length (thread_list s)" if "mu = Some (Worker i)" for i
    using that mutex m by (auto simp: mutex_ok_def split: if_splits)
  moreover have "master_holds pc \<longleftrightarrow> mu = Some Master"
    using tg_inv_master_holder [OF inv] mutex by (auto split: if_splits)
  ultimately have "mutex_ok s'"
    by (simp add: mutex_ok_def s')
  moreover have "count_ok s'"
    using tg_invD(2) [OF inv] set by (simp add: count_ok_def s')
  moreover have "master_ok s'"
    using tg_invD(3) [OF inv] set num ex by (auto simp: master_ok_def s')
  moreover have "no_lost_wakeup s'"
    using tg_invD(4) [OF inv] set blocked by (auto simp: no_lost_wakeup_def s')
  ultimately show ?thesis
    using inv by (simp add: tg_inv_def s')
qed

text \<open>
  With no run owed and the mutex in the hands of the main thread, every thread is at a place
  from which the next flip of the run flag makes it run its test once more.
\<close>

lemma nobody_owes:
  assumes "tg_inv s" "num_running_t s = 0" "master s \<noteq> M_start_set" "w \<in> set (thread_list s)"
  shows "\<not> pend (run_flag s) (exit_flag s) w"
  using tg_invD(2) [OF assms(1)] assms(2-4) by (simp add: count_ok_def tsum_0_iff)

lemma at_rest_cases:
  assumes inv: "tg_inv s" and holds: "master_holds (master s)" and "num_running_t s = 0"
    and "master s \<noteq> M_start_set" "exit_flag s = 0" and w: "w \<in> set (thread_list s)"
  shows "wpc w \<in> {W_lock, W_blocked, W_woken, W_setstop} \<and> run_flag_l w = run_flag s"
proof -
  obtain i where i: "i < length (thread_list s)" "w = thread_list s ! i"
    using w by (auto simp: in_set_conv_nth)
  have "\<not> holds_mutex (wpc w)"
    using tg_inv_exclusion(1) [OF inv i(1)] holds i(2) by blast
  moreover have "\<not> pend (run_flag s) (exit_flag s) w"
    using inv assms(3,4) w by (rule nobody_owes)
  moreover have "thread_ok (run_flag s) (exit_flag s) w"
    using inv w by (rule tg_invD)
  ultimately show ?thesis
    using assms(5) by (cases "wpc w") (auto simp: holds_mutex_def thread_ok_def)
qed

lemma tg_inv_start_flip:
  assumes inv: "tg_inv s" and pc: "master s = M_start_flip"
  shows "tg_inv (master_goto M_start_set (s\<lparr>run_flag := run_flag s XOR 1\<rparr>))" (is "tg_inv ?s'")
proof -
  have h: "master_holds (master s)" "num_running_t s = 0" "exit_flag s = 0"
    using tg_invD(3) [OF inv] pc by (auto simp: master_ok_def master_holds_def)
  have rest: "wpc w \<in> {W_lock, W_blocked, W_woken, W_setstop} \<and> run_flag_l w = run_flag s"
    if "w \<in> set (thread_list s)" for w
    using at_rest_cases [OF inv h(1,2) _ h(3) that] pc by simp
  have "\<forall>w \<in> set (thread_list s). pend (run_flag s XOR 1) (exit_flag s) w"
    using rest h(3) by (fastforce simp: flag_simps)
  moreover have "\<forall>w \<in> set (thread_list s). thread_ok (run_flag s XOR 1) (exit_flag s) w"
    using tg_invD(9) [OF inv] rest by (fastforce simp: thread_ok_def)
  moreover have "run_flag s XOR 1 \<in> {0, 1}"
    using tg_invD(5) [OF inv] by (rule flag_range)
  ultimately show ?thesis
    using inv pc h by (auto simp: tg_inv_def mutex_ok_def count_ok_def master_ok_def no_lost_wakeup_def
        master_goto_def master_holds_def)
qed

lemma tg_inv_start_set:
  assumes inv: "tg_inv s" and pc: "master s = M_start_set"
  shows "tg_inv (master_goto M_start_bcast (s\<lparr>num_running_t := num_test s\<rparr>))" (is "tg_inv ?s'")
proof -
  have all: "\<forall>w \<in> set (thread_list s). pend (run_flag s) (exit_flag s) w" and ex: "exit_flag s = 0"
    using tg_invD(2,3) [OF inv] pc by (auto simp: count_ok_def master_ok_def)
  then have "count_ok ?s'"
    using tg_invD(8) [OF inv] by (simp add: count_ok_def master_goto_def how_many_all)
  then show ?thesis
    using inv pc ex by (auto simp: tg_inv_def mutex_ok_def master_ok_def no_lost_wakeup_def
        master_goto_def master_holds_def)
qed

lemma tg_inv_exit_set:
  assumes inv: "tg_inv s" and pc: "master s = M_exit_set"
  shows "tg_inv (master_goto M_exit_bcast (s\<lparr>exit_flag := 1\<rparr>))" (is "tg_inv ?s'")
proof -
  have h: "master_holds (master s)" "num_running_t s = 0" "exit_flag s = 0"
    using tg_invD(3) [OF inv] pc by (auto simp: master_ok_def master_holds_def)
  have rest: "wpc w \<in> {W_lock, W_blocked, W_woken, W_setstop} \<and> run_flag_l w = run_flag s"
    if "w \<in> set (thread_list s)" for w
    using at_rest_cases [OF inv h(1,2) _ h(3) that] pc by simp
  have "\<forall>w \<in> set (thread_list s). \<not> pend (run_flag s) 1 w \<and> thread_ok (run_flag s) 1 w"
    using rest tg_invD(9) [OF inv] by (fastforce simp: thread_ok_def)
  then have "count_ok ?s'" "\<forall>w \<in> set (thread_list s). thread_ok (run_flag s) 1 w"
    using h by (auto simp: count_ok_def master_goto_def tsum_0_iff)
  then show ?thesis
    using inv pc h by (auto simp: tg_inv_def mutex_ok_def master_ok_def no_lost_wakeup_def
        master_goto_def master_holds_def)
qed

text \<open>A broadcast of the main thread leaves nobody asleep, so the next step needs no warning.\<close>

lemma tg_inv_main_broadcast:
  assumes inv: "tg_inv s"
    and pc: "(master s, pc) \<in> {(M_start_bcast, M_start_unlock), (M_exit_bcast, M_exit_unlock)}"
  shows "tg_inv (master_goto pc (pthread_cond_broadcast s))"
proof -
  let ?s = "pthread_cond_broadcast s"
  have inv': "tg_inv ?s" using inv by (rule tg_inv_broadcast)
  have pcs: "master ?s = master s" "master_holds pc = master_holds (master s)"
    "(master s = M_start_set) = False" "(pc = M_start_set) = False"
    using pc by (auto simp: pthread_cond_broadcast_def master_holds_def)
  have "mutex_ok (master_goto pc ?s)"
    using tg_invD(1) [OF inv'] pcs(1,2) unfolding mutex_ok_def master_goto_def by simp
  moreover have "count_ok (master_goto pc ?s)"
    using tg_invD(2) [OF inv'] pcs(1,3,4) unfolding count_ok_def master_goto_def by simp
  moreover have "master_ok (master_goto pc ?s)"
  proof -
    have "exit_flag ?s \<noteq> 0 \<longleftrightarrow> master s \<in> {M_exit_bcast, M_exit_unlock, M_exited} \<union> range M_exit_join"
      and n: "exit_flag ?s \<noteq> 0 \<longrightarrow> num_running_t ?s = 0"
      using tg_invD(3) [OF inv'] pcs(1) by (simp_all add: master_ok_def)
    then have "exit_flag ?s \<noteq> 0 \<longleftrightarrow> pc \<in> {M_exit_bcast, M_exit_unlock, M_exited} \<union> range M_exit_join"
      and "pc \<notin> {M_start_lock, M_start_flip, M_start_set, M_wait_unlock, M_exit_lock, M_exit_set}"
      using pc by (elim insertE; simp; blast)+
    then show ?thesis using n by (simp add: master_ok_def master_goto_def)
  qed
  moreover have "no_lost_wakeup (master_goto pc ?s)"
    using pc by (auto simp: no_lost_wakeup_def master_goto_def pthread_cond_broadcast_def)
  ultimately show ?thesis
    using inv' by (simp add: tg_inv_def master_goto_def)
qed

text \<open>
  Every step of a call keeps the invariant.
\<close>

lemma master_step_cases:
  assumes "master_step s = Some s'"
  shows "test_group_start_step (master s) s = Some s' \<or> test_group_wait_step (master s) s = Some s' \<or>
    test_group_exit_step (master s) s = Some s'"
  using assms by (auto simp: master_step_def split: option.splits)

lemma tg_inv_start_step:
  assumes inv: "tg_inv s" and step: "test_group_start_step (master s) s = Some s'"
  shows "tg_inv s'"
proof (cases "master s")
  case M_start_check
  have "exit_flag s = 0"
    using tg_invD(3) [OF inv] M_start_check by (auto simp: master_ok_def)
  then show ?thesis using M_start_check step
    by (intro tg_inv_main [OF inv, where pc = "if num_running_t s \<noteq> 0 then M_idle else M_start_lock" and mu = "test_mutex s"])
      (auto simp: master_goto_def master_holds_def split: if_splits)
next
  case M_start_lock
  have "num_running_t s = 0" "exit_flag s = 0"
    using tg_invD(3) [OF inv] M_start_lock by (auto simp: master_ok_def)
  then show ?thesis using M_start_lock step
    by (intro tg_inv_main [OF inv, where pc = M_start_flip and mu = "Some Master"])
      (auto simp: master_goto_def master_holds_def acquire_def split: if_splits)
next
  case M_start_flip
  then show ?thesis using step tg_inv_start_flip [OF inv] by simp
next
  case M_start_set
  then show ?thesis using step tg_inv_start_set [OF inv] by simp
next
  case M_start_bcast
  then show ?thesis using step tg_inv_main_broadcast [OF inv] by simp
next
  case M_start_unlock
  have "exit_flag s = 0"
    using tg_invD(3) [OF inv] M_start_unlock by (auto simp: master_ok_def)
  then show ?thesis using M_start_unlock step
    by (intro tg_inv_main [OF inv, where pc = M_idle and mu = None])
      (auto simp: master_goto_def master_holds_def release_def)
qed (use step in simp_all)

lemma tg_inv_wait_step:
  assumes inv: "tg_inv s" and step: "test_group_wait_step (master s) s = Some s'"
  shows "tg_inv s'"
proof (cases "master s")
  case M_wait_lock
  then have "exit_flag s = 0" using tg_invD(3) [OF inv] by (auto simp: master_ok_def)
  then show ?thesis using M_wait_lock step
    by (intro tg_inv_main [OF inv, where pc = M_wait_check and mu = "Some Master"])
      (auto simp: master_goto_def master_holds_def acquire_def split: if_splits)
next
  case M_wait_woken
  then have "exit_flag s = 0" using tg_invD(3) [OF inv] by (auto simp: master_ok_def)
  then show ?thesis using M_wait_woken step
    by (intro tg_inv_main [OF inv, where pc = M_wait_check and mu = "Some Master"])
      (auto simp: master_goto_def master_holds_def acquire_def split: if_splits)
next
  case M_wait_check
  then have ex: "exit_flag s = 0" using tg_invD(3) [OF inv] by (auto simp: master_ok_def)
  have mu: "test_mutex s = Some Master"
    using tg_inv_master_holder [OF inv] M_wait_check by (simp add: master_holds_def)
  show ?thesis
  proof (cases "num_running_t s = 0")
    case True
    then show ?thesis using M_wait_check step ex mu
      by (intro tg_inv_main [OF inv, where pc = M_wait_unlock and mu = "Some Master"])
        (auto simp: master_goto_def master_holds_def)
  next
    case False
    then show ?thesis using M_wait_check step ex
      by (intro tg_inv_main [OF inv, where pc = M_wait_blocked and mu = None])
        (auto simp: master_goto_def master_holds_def release_def)
  qed
next
  case M_wait_unlock
  then have "exit_flag s = 0" using tg_invD(3) [OF inv] by (auto simp: master_ok_def)
  then show ?thesis using M_wait_unlock step
    by (intro tg_inv_main [OF inv, where pc = M_idle and mu = None])
      (auto simp: master_goto_def master_holds_def release_def)
qed (use step in simp_all)

lemma tg_inv_exit_step:
  assumes inv: "tg_inv s" and step: "test_group_exit_step (master s) s = Some s'"
  shows "tg_inv s'"
proof (cases "master s")
  case M_exit_lock
  then have "exit_flag s = 0" "num_running_t s = 0"
    using tg_invD(3) [OF inv] by (auto simp: master_ok_def)
  then show ?thesis using M_exit_lock step
    by (intro tg_inv_main [OF inv, where pc = M_exit_set and mu = "Some Master"])
      (auto simp: master_goto_def master_holds_def acquire_def split: if_splits)
next
  case M_exit_set
  then show ?thesis using step tg_inv_exit_set [OF inv] by simp
next
  case M_exit_bcast
  then show ?thesis using step tg_inv_main_broadcast [OF inv] by simp
next
  case M_exit_unlock
  then have "exit_flag s \<noteq> 0" using tg_invD(3) [OF inv] by (auto simp: master_ok_def)
  then show ?thesis using M_exit_unlock step
    by (intro tg_inv_main [OF inv, where pc = "M_exit_join 0" and mu = None])
      (auto simp: master_goto_def master_holds_def release_def)
next
  case (M_exit_join k)
  then have "exit_flag s \<noteq> 0" using tg_invD(3) [OF inv] by (auto simp: master_ok_def)
  then show ?thesis using M_exit_join step
    by (intro tg_inv_main [OF inv, where pc = "if k < unat (n_threads s) then M_exit_join (Suc k) else M_exited"
          and mu = "test_mutex s"])
      (auto simp: master_goto_def master_holds_def split: if_splits)
qed (use step in simp_all)

lemma tg_inv_spurious:
  assumes inv: "tg_inv s" and "spurious s s'"
  shows "tg_inv s'"
  using assms(2)
proof cases
  case (worker i)
  then show ?thesis
    using tg_invD(9) [OF inv nth_mem [OF worker(2)]]
    by (intro tg_inv_thread [OF inv worker(2), where w = "(thread_list s ! i)\<lparr>wpc := W_woken\<rparr>"
          and mu = "test_mutex s" and m = "mem s"])
      (auto simp: goto_def thread_ok_def holds_mutex_def)
next
  case main
  then have "exit_flag s = 0" using tg_invD(3) [OF inv] by (auto simp: master_ok_def)
  then show ?thesis using main
    by (intro tg_inv_main [OF inv, where pc = M_wait_woken and mu = "test_mutex s"])
      (auto simp: master_goto_def master_holds_def)
qed

lemma tg_inv_step: "tg_inv s \<Longrightarrow> tg_step s s' \<Longrightarrow> tg_inv s'"
  by (auto elim!: tg_step.cases dest!: master_step_cases
      intro: tg_inv_worker tg_inv_start_step tg_inv_wait_step tg_inv_exit_step)

lemma tg_inv_run: "tg_run s t \<Longrightarrow> tg_inv s \<Longrightarrow> tg_inv t"
  by (induction rule: tg_run.induct) (auto intro: tg_inv_step tg_inv_spurious)

text \<open>A call may begin when the main thread is between calls.\<close>

lemma tg_inv_call:
  assumes inv: "tg_inv s" and idle: "master s = M_idle"
    and pc: "pc = M_start_check \<or> pc = M_wait_lock \<or> pc = M_exit_lock \<and> num_running_t s = 0"
  shows "tg_inv (master_goto pc s)"
proof -
  have "exit_flag s = 0" using tg_invD(3) [OF inv] idle by (auto simp: master_ok_def)
  then show ?thesis using idle pc
    by (intro tg_inv_main [OF inv, where pc = pc and mu = "test_mutex s"])
      (auto simp: master_goto_def master_holds_def)
qed

end
