(* ===== verification/Test_Group_Barrier.thy ===== *)
theory Test_Group_Barrier
  imports Test_Group_Rounds
begin

text \<open>
  A round of a test group refines "run every test once, interleaved": the contract
  \<open>thread_runner\<close> holds for the step semantics of \<open>concurrent_utils.c\<close>, and for the function that
  runs the tests of a group in a chosen order.
\<close>

subsection \<open>What a thread has executed in the present round\<close>

definition executed :: "32 word \<Rightarrow> 32 word \<Rightarrow> ('d, 'm) thread_aux \<Rightarrow> ('m \<Rightarrow> 'm) list" where
  "executed rf ex w =
     (let body = test_body (test w) in
      case wpc w of
        W_body as \<Rightarrow> take (length body - length as) body
      | W_lock2 \<Rightarrow> body
      | W_dec \<Rightarrow> body
      | _ \<Rightarrow> (if pend rf ex w then [] else body))"

definition progress :: "('d, 'm) tg_state \<Rightarrow> ('m \<Rightarrow> 'm) list list" where
  "progress s = map (executed (run_flag s) (exit_flag s)) (thread_list s)"

definition bodies :: "('d, 'm) tg_state \<Rightarrow> ('m \<Rightarrow> 'm) list list" where
  "bodies s = map (\<lambda>w. test_body (test w)) (thread_list s)"

lemma executed_wake [simp]: "executed rf ex (wake w) = executed rf ex w"
  by (simp add: executed_def wake_def)

lemma progress_same:
  assumes "i < length (thread_list s)" "thread_list s' = (thread_list s)[i := w]"
    and "run_flag s' = run_flag s" "exit_flag s' = exit_flag s"
    and "executed (run_flag s) (exit_flag s) w = executed (run_flag s) (exit_flag s) (thread_list s ! i)"
  shows "progress s' = progress s"
  using assms by (simp add: progress_def map_update list_update_same_conv)

text \<open>
  A step of a thread either performs the next access of its test, or leaves the shared memory and
  what the threads have executed alone.
\<close>

lemma worker_step_frame:
  assumes inv: "tg_inv s" and step: "worker_step i s = Some s'"
  shows "bodies s' = bodies s" "run_flag s' = run_flag s" "exit_flag s' = exit_flag s"
    and "num_test s' = num_test s" "n_threads s' = n_threads s"
    and "num_running_t s = 0 \<Longrightarrow> num_running_t s' = 0"
    and "master s' = master s \<or> master s = M_wait_blocked \<and> master s' = M_wait_woken"
proof -
  have i: "i < length (thread_list s)"
    using step by (simp add: worker_step_def split: if_splits)
  note defs = worker_step_def tg_simps Let_def
  show "bodies s' = bodies s"
    using step i by (cases "wpc (thread_list s ! i)")
      (auto simp: defs bodies_def map_update test_body_def list_update_same_conv comp_def
        split: if_splits list.splits)
  show "run_flag s' = run_flag s" "exit_flag s' = exit_flag s"
    "num_test s' = num_test s" "n_threads s' = n_threads s"
    using step i by (cases "wpc (thread_list s ! i)"; auto simp: defs split: if_splits list.splits)+
  show "num_running_t s' = 0" if "num_running_t s = 0"
    using step i tg_inv_dec(2) [OF inv i] that
    by (cases "wpc (thread_list s ! i)") (auto simp: defs split: if_splits list.splits)
  show "master s' = master s \<or> master s = M_wait_blocked \<and> master s' = M_wait_woken"
    using step i by (cases "wpc (thread_list s ! i)") (auto simp: defs split: if_splits list.splits)
qed

lemma worker_step_progress:
  assumes inv: "tg_inv s" and step: "worker_step i s = Some s'"
  obtains (access) a where "mem s' = a (mem s)" "i < length (progress s)"
      "progress s' = (progress s)[i := progress s ! i @ [a]]" "num_running_t s \<noteq> 0 \<or> master s = M_start_set"
      "exit_flag s = 0"
  | (silent) "mem s' = mem s" "progress s' = progress s"
proof -
  have i: "i < length (thread_list s)"
    using step by (simp add: worker_step_def split: if_splits)
  let ?w = "thread_list s ! i"
  let ?ex = "executed (run_flag s) (exit_flag s) :: ('a, 'b) thread_aux \<Rightarrow> _"
  have ok: "thread_ok (run_flag s) (exit_flag s) ?w"
    and rf: "run_flag s \<in> {0, 1}" "exit_flag s \<in> {0, 1}"
    using tg_invD(9) [OF inv nth_mem [OF i]] tg_invD(5,6) [OF inv] by auto
  note defs = worker_step_def tg_simps Let_def executed_def thread_ok_def test_body_def
  note frame = worker_step_frame [OF inv step]
  have same: thesis if "mem s' = mem s" "thread_list s' = (thread_list s)[i := w]" "?ex w = ?ex ?w" for w
    using that progress_same [OF i that(2) frame(2,3)] by (intro silent) auto
  show thesis
  proof (cases "wpc ?w")
    case W_lock
    then show thesis using step i by (intro same [of "?w\<lparr>wpc := W_check\<rparr>"]) (auto simp: defs split: if_splits)
  next
    case W_woken
    then show thesis using step i by (intro same [of "?w\<lparr>wpc := W_check\<rparr>"]) (auto simp: defs split: if_splits)
  next
    case W_check
    then show thesis using step i ok rf
      by (intro same [of "?w\<lparr>wpc := if run_flag s = run_flag_l ?w \<and> exit_flag s = 0 then W_blocked else W_unlock\<rparr>"])
        (auto simp: defs)
  next
    case W_unlock
    then show thesis using step i by (intro same [of "?w\<lparr>wpc := W_flip\<rparr>"]) (auto simp: defs)
  next
    case W_flip
    then show thesis using step i
      by (intro same [of "?w\<lparr>run_flag_l := run_flag_l ?w XOR 1, wpc := W_ifexit\<rparr>"]) (auto simp: defs)
  next
    case W_ifexit
    then show thesis using step i
      by (intro same [of "?w\<lparr>wpc := if exit_flag s = 0 then W_setrun else W_setfin\<rparr>"]) (auto simp: defs)
  next
    case W_setrun
    then show thesis using step i
      by (intro same [of "?w\<lparr>test := (test ?w)\<lparr>status := TEST_RUNNING\<rparr>, wpc := W_body (test_body (test ?w))\<rparr>"])
        (auto simp: defs)
  next
    case (W_body as)
    show thesis
    proof (cases as)
      case Nil
      with W_body show thesis using step i by (intro same [of "?w\<lparr>wpc := W_lock2\<rparr>"]) (auto simp: defs)
    next
      case (Cons a bs)
      obtain ps where ps: "test_body (test ?w) = ps @ a # bs"
        using ok W_body Cons by (auto simp: thread_ok_def suffix_def)
      have s': "s' = goto i (W_body bs) (s\<lparr>mem := a (mem s)\<rparr>)"
        using step i W_body Cons by (simp add: worker_step_def)
      have "progress s ! i = ps" "i < length (progress s)"
        using i W_body Cons ps by (simp_all add: progress_def executed_def)
      moreover have "progress s' = (progress s)[i := ps @ [a]]"
        using i ps by (simp add: s' goto_def progress_def map_update executed_def)
      moreover have "num_running_t s \<noteq> 0 \<or> master s = M_start_set"
        using nobody_owes [OF inv _ _ nth_mem [OF i]] W_body by auto
      moreover have "exit_flag s = 0"
        using ok W_body by (simp add: thread_ok_def)
      ultimately show thesis by (intro access) (simp_all add: s' goto_def)
    qed
  next
    case W_lock2
    then show thesis using step i by (intro same [of "?w\<lparr>wpc := W_dec\<rparr>"]) (auto simp: defs split: if_splits)
  next
    case W_dec
    then show thesis using step i by (intro same [of "?w\<lparr>wpc := W_iszero\<rparr>"]) (auto simp: defs)
  next
    case W_iszero
    let ?s = "if num_running_t s = 0 then pthread_cond_broadcast s else s"
    have s': "s' = goto i W_unlock2 ?s"
      using step i W_iszero by (simp add: worker_step_def)
    have same_s: "thread_list ?s ! i = ?w" "i < length (thread_list ?s)"
      using i W_iszero by (simp_all add: pthread_cond_broadcast_def wake_pc)
    have "progress s' = progress ?s"
      using same_s W_iszero by (intro progress_same [where i = i and w = "?w\<lparr>wpc := W_unlock2\<rparr>"])
        (auto simp: s' goto_def executed_def)
    moreover have "progress ?s = progress s" "mem s' = mem s"
      by (simp_all add: s' progress_def pthread_cond_broadcast_def goto_def comp_def)
    ultimately show thesis by (intro silent) simp_all
  next
    case W_unlock2
    then show thesis using step i ok
      by (intro same [of "?w\<lparr>wpc := W_setstop\<rparr>"]) (auto simp: defs)
  next
    case W_setstop
    then show thesis using step i
      by (intro same [of "?w\<lparr>test := (test ?w)\<lparr>status := TEST_STOP\<rparr>, wpc := W_lock\<rparr>"]) (auto simp: defs)
  next
    case W_setfin
    then show thesis using step i
      by (intro same [of "?w\<lparr>test := (test ?w)\<lparr>status := TEST_FINISHED\<rparr>, wpc := W_exited\<rparr>"]) (auto simp: defs)
  qed (use step i in \<open>simp_all add: worker_step_def\<close>)
qed

lemma master_goto_simps [simp]:
  "master (master_goto pc s) = pc" "mem (master_goto pc s) = mem s"
  "num_running_t (master_goto pc s) = num_running_t s" "exit_flag (master_goto pc s) = exit_flag s"
  "progress (master_goto pc s) = progress s" "bodies (master_goto pc s) = bodies s"
  "thread_list (master_goto pc s) = thread_list s"
  by (simp_all add: master_goto_def progress_def bodies_def)

subsection \<open>The invariant of a round\<close>

definition before_flip :: "master_pc set" where
  "before_flip = {M_start_check, M_start_lock, M_start_flip}"

definition after_flip :: "master_pc set" where
  "after_flip = {M_start_set, M_start_bcast, M_start_unlock, M_idle,
     M_wait_lock, M_wait_check, M_wait_blocked, M_wait_woken, M_wait_unlock}"

definition round_inv :: "'m \<Rightarrow> ('d, 'm) tg_state \<Rightarrow> bool" where
  "round_inv m0 s \<longleftrightarrow> tg_inv s \<and>
     (master s \<in> before_flip \<and> num_running_t s = 0 \<and> mem s = m0 \<or>
      master s \<in> after_flip \<and> (\<exists>ys. interleaving (progress s) ys \<and> mem s = run_all ys m0))"

lemma round_inv_worker:
  assumes inv: "round_inv m0 s" and step: "worker_step i s = Some s'"
  shows "round_inv m0 s'"
proof -
  have tg: "tg_inv s" using inv by (simp add: round_inv_def)
  note frame = worker_step_frame [OF tg step]
  have m: "master s' \<in> before_flip \<longleftrightarrow> master s \<in> before_flip"
    "master s' \<in> after_flip \<longleftrightarrow> master s \<in> after_flip"
    using frame(7) by (auto simp: before_flip_def after_flip_def)
  from tg step show ?thesis
  proof (cases rule: worker_step_progress)
    case (access a)
    then have "master s \<notin> before_flip \<or> num_running_t s \<noteq> 0"
      by (auto simp: before_flip_def)
    then obtain ys where ys: "interleaving (progress s) ys" "mem s = run_all ys m0" "master s \<in> after_flip"
      using inv by (auto simp: round_inv_def)
    have "interleaving (progress s') (ys @ [a])"
      using interleaving_snoc [OF ys(1) access(2)] access(3) by simp
    moreover have "mem s' = run_all (ys @ [a]) m0"
      using access(1) ys(2) by simp
    ultimately show ?thesis
      using tg_inv_worker [OF tg step] m ys(3) unfolding round_inv_def by blast
  next
    case silent
    then show ?thesis
      using inv tg_inv_worker [OF tg step] m frame(6) by (auto simp: round_inv_def)
  qed
qed

text \<open>Steps of the main thread other than the flip leave memory and progress alone.\<close>

lemma master_step_frame:
  assumes "master_step s = Some s'"
  shows "mem s' = mem s" "bodies s' = bodies s"
    and "master s \<noteq> M_start_flip \<Longrightarrow> master s \<noteq> M_exit_set \<Longrightarrow> progress s' = progress s"
    and "master s \<noteq> M_start_set \<Longrightarrow> num_running_t s' = num_running_t s"
    and "master s \<in> before_flip \<Longrightarrow> master s \<noteq> M_start_flip \<Longrightarrow> num_running_t s = 0 \<Longrightarrow> master s' \<in> before_flip"
    and "master s = M_start_flip \<Longrightarrow> master s' = M_start_set"
    and "master s \<in> after_flip \<Longrightarrow> master s' \<in> after_flip"
  using assms by (cases "master s"; auto simp: master_step_def tg_simps progress_def bodies_def
      before_flip_def after_flip_def comp_def split: if_splits)+

lemma round_inv_flip:
  assumes tg: "tg_inv s" and pc: "master s = M_start_flip"
  shows "interleaving (progress (master_goto M_start_set (s\<lparr>run_flag := run_flag s XOR 1\<rparr>))) []"
proof -
  have h: "master_holds (master s)" "num_running_t s = 0" "exit_flag s = 0"
    using tg_invD(3) [OF tg] pc by (auto simp: master_ok_def master_holds_def)
  have "executed (run_flag s XOR 1) (exit_flag s) w = []" if w: "w \<in> set (thread_list s)" for w
    using at_rest_cases [OF tg h(1,2) _ h(3) w] pc h(3) by (auto simp: executed_def Let_def flag_simps)
  then show ?thesis
    by (intro interleaving.all_done) (auto simp: progress_def master_goto_def)
qed

lemma round_inv_master:
  assumes inv: "round_inv m0 s" and step: "master_step s = Some s'"
  shows "round_inv m0 s'"
proof -
  have tg: "tg_inv s" "tg_inv s'"
    using inv tg_inv_step [OF _ tg_step.main [OF step]] by (auto simp: round_inv_def)
  note frame = master_step_frame [OF step]
  show ?thesis
  proof (cases "master s = M_start_flip")
    case True
    then have "s' = master_goto M_start_set (s\<lparr>run_flag := run_flag s XOR 1\<rparr>)"
      using step by (simp add: master_step_def)
    then have "interleaving (progress s') []" "master s' \<in> after_flip" "mem s' = m0"
      using round_inv_flip [OF tg(1) True] inv True
      by (auto simp: after_flip_def master_goto_def round_inv_def)
    then show ?thesis
      using tg(2) by (auto simp: round_inv_def intro!: exI [of _ "[]"])
  next
    case False
    have "master s \<noteq> M_exit_set" "master s \<in> before_flip \<Longrightarrow> master s \<noteq> M_start_set"
      using inv by (auto simp: round_inv_def before_flip_def after_flip_def)
    then show ?thesis
      using inv False tg(2) frame by (auto simp: round_inv_def)
  qed
qed

lemma round_inv_spurious:
  assumes inv: "round_inv m0 s" and "spurious s s'"
  shows "round_inv m0 s'"
proof -
  have "tg_inv s'" using inv tg_inv_spurious [OF _ assms(2)] by (simp add: round_inv_def)
  moreover have "progress s' = progress s" "mem s' = mem s" "num_running_t s' = num_running_t s"
    "master s' \<in> before_flip \<longleftrightarrow> master s \<in> before_flip" "master s' \<in> after_flip \<longleftrightarrow> master s \<in> after_flip"
    using assms(2) by (cases; auto simp: progress_def goto_def master_goto_def map_update executed_def
        list_update_same_conv before_flip_def after_flip_def)+
  ultimately show ?thesis
    using inv by (simp add: round_inv_def)
qed

lemma round_inv_run: "tg_run s t \<Longrightarrow> round_inv m0 s \<Longrightarrow> round_inv m0 t"
  by (induction rule: tg_run.induct)
    (auto elim!: tg_step.cases intro: round_inv_worker round_inv_master round_inv_spurious)

lemma bodies_run: "tg_run s t \<Longrightarrow> tg_inv s \<Longrightarrow> bodies t = bodies s"
proof (induction rule: tg_run.induct)
  case (step s t u)
  have t: "tg_inv t" using step.hyps(1) step.prems by (rule tg_inv_run)
  have "bodies u = bodies t"
    using step.hyps(2)
  proof
    assume "tg_step t u"
    then show ?thesis
      using worker_step_frame(1) [OF t] master_step_frame(2) by cases blast+
  next
    assume "spurious t u"
    then show ?thesis
      by cases (auto simp: bodies_def goto_def master_goto_def map_update list_update_same_conv)
  qed
  then show ?case using step by simp
qed simp

text \<open>\<open>test_group_wait\<close> returns when no run is owed.\<close>

definition wait_phase :: "('d, 'm) tg_state \<Rightarrow> bool" where
  "wait_phase s \<longleftrightarrow> master s \<in> {M_wait_lock, M_wait_check, M_wait_blocked, M_wait_woken, M_wait_unlock} \<or>
     master s = M_idle \<and> num_running_t s = 0"

lemma wait_phase_step:
  assumes "wait_phase s" "tg_inv s" "tg_step s s' \<or> spurious s s'"
  shows "wait_phase s'"
  using assms(3)
proof
  assume "tg_step s s'"
  then show ?thesis
  proof cases
    case (worker i)
    then show ?thesis
      using assms(1) worker_step_frame(6,7) [OF assms(2) worker] by (auto simp: wait_phase_def)
  next
    case main
    have "master s = M_wait_unlock \<Longrightarrow> num_running_t s = 0"
      using tg_invD(3) [OF assms(2)] by (simp add: master_ok_def)
    then show ?thesis
      using main assms(1) by (auto simp: wait_phase_def master_step_def tg_simps split: if_splits)
  qed
next
  assume "spurious s s'"
  then show ?thesis
    using assms(1) by cases (auto simp: wait_phase_def goto_def master_goto_def)
qed

lemma wait_phase_run: "tg_run s t \<Longrightarrow> wait_phase s \<Longrightarrow> tg_inv s \<Longrightarrow> wait_phase t"
  by (induction rule: tg_run.induct) (auto intro: wait_phase_step tg_inv_run)

lemma progress_complete:
  assumes "tg_inv s" "num_running_t s = 0" "master s \<noteq> M_start_set"
  shows "progress s = bodies s"
proof -
  have "executed (run_flag s) (exit_flag s) w = test_body (test w)" if "w \<in> set (thread_list s)" for w
    using nobody_owes [OF assms that] by (cases "wpc w") (auto simp: executed_def)
  then show ?thesis by (simp add: progress_def bodies_def)
qed

text \<open>Between two rounds of a group that has not been shut down.\<close>

definition at_rest :: "('d, 'm) tg_state \<Rightarrow> bool" where
  "at_rest s \<longleftrightarrow> tg_inv s \<and> master s = M_idle \<and> num_running_t s = 0"

lemma tg_round_complete:
  assumes rest: "at_rest s" and "tg_round s u"
  shows "at_rest u" "bodies u = bodies s"
    and "\<exists>ys. interleaving (bodies s) ys \<and> mem u = run_all ys (mem s)"
proof -
  obtain t where t: "tg_run (master_goto M_start_check s) t" "master t = M_idle"
    and u: "tg_run (master_goto M_wait_lock t) u" "master u = M_idle"
    using assms(2) by (elim tg_roundE)
  let ?s = "master_goto M_start_check s" and ?t = "master_goto M_wait_lock t"
  have s': "tg_inv ?s" using rest by (intro tg_inv_call) (auto simp: at_rest_def)
  then have "round_inv (mem s) ?s"
    using rest by (simp add: round_inv_def before_flip_def at_rest_def)
  then have rt: "round_inv (mem s) t" by (rule round_inv_run [OF t(1)])
  then have t': "tg_inv ?t"
    using t(2) by (intro tg_inv_call) (auto simp: round_inv_def)
  have "M_idle \<notin> before_flip" "M_wait_lock \<in> after_flip"
    by (simp_all add: before_flip_def after_flip_def)
  then have "round_inv (mem s) ?t"
    using rt t' t(2) unfolding round_inv_def by simp
  then have ru: "round_inv (mem s) u" by (rule round_inv_run [OF u(1)])
  have "wait_phase u"
    by (rule wait_phase_run [OF u(1) _ t']) (simp add: wait_phase_def)
  then have num: "num_running_t u = 0" using u(2) by (simp add: wait_phase_def)
  show "at_rest u" using ru u(2) num by (simp add: at_rest_def round_inv_def)
  have b: "bodies t = bodies s" "bodies u = bodies t"
    using bodies_run [OF t(1) s'] bodies_run [OF u(1) t'] by simp_all
  then show "bodies u = bodies s" by simp
  have "progress u = bodies s"
    using progress_complete [of u] ru num u(2) b by (simp add: round_inv_def)
  then show "\<exists>ys. interleaving (bodies s) ys \<and> mem u = run_all ys (mem s)"
    using ru u(2) by (auto simp: round_inv_def before_flip_def)
qed

subsection \<open>The contract of the groups\<close>

text \<open>
  The life of a group up to its shutdown: its threads are created, the main thread may access the
  shared memory between calls, and it starts rounds and waits for them.
\<close>

inductive tg_session :: "('d, 'm) test_group \<Rightarrow> ('d, 'm) tg_state \<Rightarrow> bool" for g where
  create: "test_group_thread_create g m = Some s \<Longrightarrow> tg_session g s"
| threads: "tg_session g s \<Longrightarrow> tg_run s t \<Longrightarrow> tg_session g t"
| access: "tg_session g s \<Longrightarrow> tg_session g (s\<lparr>mem := f (mem s)\<rparr>)"
| round: "tg_session g s \<Longrightarrow> tg_round s u \<Longrightarrow> tg_session g u"

definition fresh_group :: "('d, 'm) test_group \<Rightarrow> bool" where
  "fresh_group g \<longleftrightarrow> group_ok g \<and> run_flag g = 0 \<and> exit_flag g = 0 \<and> num_running_t g = 0"

lemma at_rest_run:
  assumes "tg_run s t" "at_rest s"
  shows "at_rest t"
proof -
  have "wait_phase s" "tg_inv s" using assms(2) by (simp_all add: at_rest_def wait_phase_def)
  have "at_rest t \<and> wait_phase t"
    using assms
  proof (induction rule: tg_run.induct)
    case (refl s)
    then show ?case by (simp add: at_rest_def wait_phase_def)
  next
    case (step s t u)
    then have t: "at_rest t" "wait_phase t" "tg_inv t" by (auto simp: at_rest_def)
    have u: "wait_phase u" "tg_inv u"
      using wait_phase_step [OF t(2,3) step.hyps(2)] tg_inv_step [OF t(3)] tg_inv_spurious [OF t(3)] step.hyps(2)
      by auto
    have "master u = M_idle"
      using step.hyps(2) t(1) worker_step_frame(7) [OF t(3)]
      by (auto simp: at_rest_def master_step_def goto_def elim!: tg_step.cases spurious.cases)
    then show ?case using u by (simp add: at_rest_def wait_phase_def)
  qed
  then show ?thesis by simp
qed

lemma tg_inv_access: "tg_inv (s\<lparr>mem := m\<rparr>) = tg_inv s"
  unfolding tg_inv_def mutex_ok_def count_ok_def master_ok_def no_lost_wakeup_def by simp

lemma at_rest_access: "at_rest s \<Longrightarrow> at_rest (s\<lparr>mem := m\<rparr>)"
  by (simp add: at_rest_def tg_inv_access)

lemma session_at_rest:
  assumes "tg_session g s" "fresh_group g"
  shows "at_rest s \<and> bodies s = group_bodies g"
  using assms(1)
proof (induction rule: tg_session.induct)
  case (create m s)
  obtain s' where "test_group_thread_create g m = Some s'" "tg_inv s'" "master s' = M_idle"
    "num_running_t s' = 0" "bodies s' = group_bodies g"
    using assms(2) by (auto simp: fresh_group_def bodies_def elim: tg_inv_create [of g m])
  then show ?case using create by (simp add: at_rest_def)
next
  case (threads s t)
  then show ?case using at_rest_run bodies_run by (metis at_rest_def)
next
  case (access s f)
  then show ?case by (simp add: at_rest_access bodies_def)
next
  case (round s u)
  then show ?case using tg_round_complete by metis
qed

text \<open>
  \<open>test_group_round cs g m\<close> runs the tests of \<open>g\<close> from the memory \<open>m\<close> in the order that the choices
  \<open>cs\<close> make.  The tests of the suite use it for \<open>test_group_start\<close> followed by
  \<open>test_group_wait\<close>: by \<open>round_is_chosen\<close> the threads do nothing else.
\<close>

definition test_group_round :: "nat list \<Rightarrow> ('d, 'm) test_group \<Rightarrow> 'm \<Rightarrow> 'm" where
  "test_group_round cs g m = run_all (interleave cs (group_bodies g)) m"

definition chosen_round :: "('d, 'm) test_group \<Rightarrow> 'm \<Rightarrow> 'm \<Rightarrow> bool" where
  "chosen_round g m m' \<longleftrightarrow> (\<exists>cs. m' = test_group_round cs g m)"

definition stepped_round :: "('d, 'm) tg_state \<Rightarrow> 'm \<Rightarrow> 'm \<Rightarrow> bool" where
  "stepped_round s m m' \<longleftrightarrow> at_rest s \<and> (\<exists>u. tg_round (s\<lparr>mem := m\<rparr>) u \<and> mem u = m')"

interpretation chosen: thread_runner group_bodies chosen_round
  by unfold_locales
    (auto simp: chosen_round_def test_group_round_def intro: interleave_interleaving)

interpretation stepped: thread_runner bodies stepped_round
proof unfold_locales
  fix s :: "('d, 'm) tg_state" and m m'
  assume "stepped_round s m m'"
  then obtain u where u: "tg_round (s\<lparr>mem := m\<rparr>) u" "mem u = m'" "at_rest (s\<lparr>mem := m\<rparr>)"
    by (auto simp: stepped_round_def at_rest_access)
  then show "\<exists>ys. interleaving (bodies s) ys \<and> m' = run_all ys m"
    using tg_round_complete(3) [OF u(3,1)] by (simp add: bodies_def)
qed

lemma round_is_chosen:
  assumes "fresh_group g" "tg_session g s" "tg_round s u"
  shows "chosen_round g (mem s) (mem u)"
proof -
  have s: "at_rest s" "bodies s = group_bodies g"
    using session_at_rest [OF assms(2,1)] by simp_all
  then obtain ys where ys: "interleaving (group_bodies g) ys" "mem u = run_all ys (mem s)"
    using tg_round_complete(3) [OF s(1) assms(3)] by auto
  then obtain cs where "interleave cs (group_bodies g) = ys"
    using interleaving_interleave by blast
  then show ?thesis using ys by (auto simp: chosen_round_def test_group_round_def)
qed

end
