(* ===== verification/Test_Group_Liveness.thy ===== *)
theory Test_Group_Liveness
  imports Test_Group_Barrier
begin

text \<open>
  The calls on a test group return.  Some thread can always take a step while a call is in
  progress, and \<open>tg_rank\<close> bounds the number of steps (wake-ups without a broadcast
  apart): it decreases with each.  After \<open>test_group_exit\<close> every thread has ended.
\<close>

subsection \<open>Some thread can step\<close>

lemma worker_can_step:
  assumes "i < length (thread_list s)" "wpc (thread_list s ! i) \<notin> {W_blocked, W_exited}"
    and "wpc (thread_list s ! i) \<in> {W_lock, W_woken, W_lock2} \<Longrightarrow> test_mutex s = None"
  shows "\<exists>s'. worker_step i s = Some s'"
  using assms by (cases "wpc (thread_list s ! i)") (auto simp: worker_step_def acquire_def Let_def split: list.splits)

lemma holder_can_step:
  assumes inv: "tg_inv s" and "test_mutex s = Some t"
  shows "\<exists>s'. tg_step s s'"
proof (cases t)
  case (Worker i)
  have i: "i < length (thread_list s)"
    using tg_invD(1) [OF inv] assms(2) Worker by (simp add: mutex_ok_def)
  then have "holds_mutex (wpc (thread_list s ! i))"
    using tg_inv_holder [OF inv i] assms(2) Worker by simp
  then have "\<exists>s'. worker_step i s = Some s'"
    using i by (intro worker_can_step) (auto simp: holds_mutex_def)
  then show ?thesis by (auto intro: tg_step.worker)
next
  case Master
  then have "master_holds (master s)"
    using tg_inv_master_holder [OF inv] assms(2) by simp
  then have "\<exists>s'. master_step s = Some s'"
    by (auto simp: master_holds_def master_step_def)
  then show ?thesis by (auto intro: tg_step.main)
qed

lemma call_can_step:
  assumes inv: "tg_inv s" and call: "master s \<notin> {M_idle, M_exited}"
  shows "\<exists>s'. tg_step s s'"
proof (cases "test_mutex s")
  case (Some t)
  with inv show ?thesis by (rule holder_can_step)
next
  case None
  show ?thesis
  proof (rule ccontr)
    assume stuck: "\<nexists>s'. tg_step s s'"
    have asleep: "wpc w = W_blocked \<or> wpc w = W_exited" if w: "w \<in> set (thread_list s)" for w
    proof -
      obtain i where i: "i < length (thread_list s)" "w = thread_list s ! i"
        using w by (auto simp: in_set_conv_nth)
      then show ?thesis
        using worker_can_step [OF i(1)] None stuck by (auto intro: tg_step.worker)
    qed
    have no_master: "master_step s = None"
      using stuck tg_step.main by (cases "master_step s") auto
    have nl: "no_lost_wakeup s" and ok: "\<And>w. w \<in> set (thread_list s) \<Longrightarrow> thread_ok (run_flag s) (exit_flag s) w"
      using tg_invD [OF inv] by blast+
    have "master s = M_wait_blocked \<or> (\<exists>k < length (thread_list s). master s = M_exit_join k \<and> wpc (thread_list s ! k) \<noteq> W_exited)"
      using no_master call None tg_invD(7,8) [OF inv]
      by (cases "master s") (auto simp: master_step_def acquire_def split: if_splits)
    then show False
    proof
      assume blocked: "master s = M_wait_blocked"
      have "num_running_t s \<noteq> 0"
        using nl blocked asleep by (fastforce simp: no_lost_wakeup_def dest: nth_mem)
      then have "how_many (pend (run_flag s) (exit_flag s)) (thread_list s) \<noteq> 0"
        using tg_invD(2) [OF inv] blocked unat_eq_zero [of "num_running_t s"] by (simp add: count_ok_def)
      then obtain w where w: "w \<in> set (thread_list s)" "pend (run_flag s) (exit_flag s) w"
        by (auto simp: tsum_0_iff)
      then show False
        using asleep [OF w(1)] nl blocked by (auto simp: no_lost_wakeup_def)
    next
      assume "\<exists>k < length (thread_list s). master s = M_exit_join k \<and> wpc (thread_list s ! k) \<noteq> W_exited"
      then obtain k where k: "k < length (thread_list s)" "master s = M_exit_join k"
        "wpc (thread_list s ! k) \<noteq> W_exited" by blast
      then have "wpc (thread_list s ! k) = W_blocked" "exit_flag s \<noteq> 0"
        using asleep [OF nth_mem [OF k(1)]] tg_invD(3) [OF inv] by (auto simp: master_ok_def)
      then show False
        using nl k nth_mem [OF k(1)] by (auto simp: no_lost_wakeup_def)
    qed
  qed
qed

subsection \<open>The number of steps is bounded\<close>

text \<open>
  \<open>thread_rank b\<close> bounds the steps of a thread until it sleeps (or ends); \<open>b\<close> is what a broadcast may
  add to the ranks of the others.
\<close>

definition thread_rank :: "nat \<Rightarrow> 32 word \<Rightarrow> 32 word \<Rightarrow> ('d, 'm) thread_aux \<Rightarrow> nat" where
  "thread_rank b rf ex w =
     (let len = length (test_body (test w));
          owes = pend rf ex w in
      case wpc w of
        W_body as \<Rightarrow> 9 + b + length as
      | W_lock2 \<Rightarrow> 8 + b
      | W_dec \<Rightarrow> 7 + b
      | W_iszero \<Rightarrow> 6 + b
      | W_unlock2 \<Rightarrow> 5
      | W_setrun \<Rightarrow> 10 + b + len
      | W_setfin \<Rightarrow> 1
      | W_exited \<Rightarrow> 0
      | W_ifexit \<Rightarrow> if ex = 0 then 11 + b + len else 2
      | W_flip \<Rightarrow> if ex = 0 then 12 + b + len else 3
      | W_unlock \<Rightarrow> if ex = 0 then 13 + b + len else 4
      | W_check \<Rightarrow> if owes then 14 + b + len else if ex = 0 then 2 else 5
      | W_blocked \<Rightarrow> if owes then 14 + b + len else if ex = 0 then 1 else 5
      | W_lock \<Rightarrow> if owes then 15 + b + len else if ex = 0 then 3 else 6
      | W_woken \<Rightarrow> if owes then 15 + b + len else if ex = 0 then 3 else 6
      | W_setstop \<Rightarrow> if owes then 16 + b + len else if ex = 0 then 4 else 7)"

definition master_rank :: "nat \<Rightarrow> nat \<Rightarrow> master_pc \<Rightarrow> nat" where
  "master_rank n f pc =
     (case pc of
        M_idle \<Rightarrow> 0
      | M_wait_unlock \<Rightarrow> 1 | M_wait_blocked \<Rightarrow> 1 | M_wait_check \<Rightarrow> 2 | M_wait_woken \<Rightarrow> 3 | M_wait_lock \<Rightarrow> 3
      | M_start_unlock \<Rightarrow> 1 | M_start_bcast \<Rightarrow> 2 + 2 * n | M_start_set \<Rightarrow> 3 + 2 * n
      | M_start_flip \<Rightarrow> 4 + 2 * n + f | M_start_lock \<Rightarrow> 5 + 2 * n + f | M_start_check \<Rightarrow> 6 + 2 * n + f
      | M_exited \<Rightarrow> 0 | M_exit_join k \<Rightarrow> 1 + (n - k) | M_exit_unlock \<Rightarrow> 2 + n | M_exit_bcast \<Rightarrow> 3 + 3 * n
      | M_exit_set \<Rightarrow> 4 + 10 * n | M_exit_lock \<Rightarrow> 5 + 10 * n)"

definition bcast_cost :: "('d, 'm) tg_state \<Rightarrow> nat" where
  "bcast_cost s = 2 * length (thread_list s) + 2"

definition flip_cost :: "('d, 'm) tg_state \<Rightarrow> nat" where
  "flip_cost s = tsum (\<lambda>xs. 16 + bcast_cost s + length xs) (bodies s)"

definition tg_rank :: "('d, 'm) tg_state \<Rightarrow> nat" where
  "tg_rank s =
     tsum (thread_rank (bcast_cost s) (run_flag s) (exit_flag s)) (thread_list s) +
     master_rank (length (thread_list s)) (flip_cost s) (master s)"

lemma test_body_status [simp]: "test_body (t\<lparr>status := st\<rparr>) = test_body t"
  by (simp add: test_body_def)

lemma thread_rank_wake: "thread_rank b rf ex (wake w) \<le> thread_rank b rf ex w + 2"
  by (auto simp: thread_rank_def wake_def Let_def)

lemma tsum_rank_wake:
  "tsum (thread_rank b rf ex) (map wake ws) \<le> tsum (thread_rank b rf ex) ws + 2 * length ws"
proof -
  have "tsum (thread_rank b rf ex) (map wake ws) \<le> tsum (\<lambda>w. thread_rank b rf ex w + 2) ws"
    unfolding tsum_map by (intro tsum_mono thread_rank_wake)
  then show ?thesis unfolding tsum_add_const by simp
qed

lemma length_bodies: "length (bodies s) = length (thread_list s)"
  by (simp add: bodies_def)

lemma rank_frame:
  assumes "bodies s' = bodies s"
  shows "length (thread_list s') = length (thread_list s)" "bcast_cost s' = bcast_cost s" "flip_cost s' = flip_cost s"
proof -
  show l: "length (thread_list s') = length (thread_list s)"
    using assms length_bodies by metis
  then show "bcast_cost s' = bcast_cost s" by (simp add: bcast_cost_def)
  then show "flip_cost s' = flip_cost s" using assms by (simp add: flip_cost_def)
qed

lemma worker_step_rank:
  assumes inv: "tg_inv s" and step: "worker_step i s = Some s'"
  shows "tg_rank s' < tg_rank s"
proof -
  have i: "i < length (thread_list s)"
    using step by (simp add: worker_step_def split: if_splits)
  let ?w = "thread_list s ! i"
  let ?r = "thread_rank (bcast_cost s) (run_flag s) (exit_flag s) :: ('a, 'b) thread_aux \<Rightarrow> nat"
  have ok: "thread_ok (run_flag s) (exit_flag s) ?w"
    using tg_invD(9) [OF inv nth_mem [OF i]] .
  note frame = worker_step_frame [OF inv step]
  note rf = rank_frame [OF frame(1)]
  note defs = worker_step_def tg_simps Let_def thread_rank_def thread_ok_def
  show ?thesis
  proof (cases "wpc ?w = W_iszero \<and> num_running_t s = 0")
    case True
    let ?ws = "(map wake (thread_list s))[i := ?w\<lparr>wpc := W_unlock2\<rparr>]"
    have w: "map wake (thread_list s) ! i = ?w" using i True by (simp add: wake_pc)
    have l: "thread_list s' = ?ws" and m: "master s' = (if master s = M_wait_blocked then M_wait_woken else master s)"
      using step i True by (auto simp: worker_step_def goto_def pthread_cond_broadcast_def wake_pc)
    have "tsum ?r ?ws + ?r ?w = tsum ?r (map wake (thread_list s)) + 5"
      using tsum_update [of i "map wake (thread_list s)" ?r "?w\<lparr>wpc := W_unlock2\<rparr>"] i w
      by (simp add: thread_rank_def)
    moreover have "?r ?w = 6 + bcast_cost s" using True by (simp add: thread_rank_def)
    moreover note tsum_rank_wake [of "bcast_cost s" "run_flag s" "exit_flag s" "thread_list s"]
    ultimately have "tsum ?r ?ws + 3 \<le> tsum ?r (thread_list s)"
      by (simp add: bcast_cost_def)
    then show ?thesis
      using rf frame(2,3) l m by (auto simp: tg_rank_def master_rank_def)
  next
    case False
    let ?v = "thread_list s' ! i"
    have w: "thread_list s' = (thread_list s)[i := ?v] \<and> master s' = master s \<and> ?r ?v < ?r ?w"
      using step i ok False
      by (cases "wpc ?w") (auto simp: defs split: if_splits list.splits)
    then have "tsum ?r ((thread_list s)[i := ?v]) < tsum ?r (thread_list s)"
      using tsum_update [OF i, of ?r ?v] by linarith
    then have "tsum ?r (thread_list s') < tsum ?r (thread_list s)"
      using w by simp
    then show ?thesis
      using rf frame(2,3) w by (simp add: tg_rank_def)
  qed
qed

text \<open>Threads at rest have small ranks, before and after a flag is written.\<close>

lemma rank_at_rest:
  assumes "wpc w \<in> {W_lock, W_blocked, W_woken, W_setstop}"
  shows "thread_rank b rf ex w \<le> 16 + b + length (test_body (test w))" "thread_rank b rf 1 w \<le> 7"
  using assms by (auto simp: thread_rank_def Let_def)

lemma flip_rank:
  assumes inv: "tg_inv s" and pc: "master s = M_start_flip"
  shows "tsum (thread_rank (bcast_cost s) rf ex) (thread_list s) \<le> flip_cost s"
proof -
  have h: "master_holds (master s)" "num_running_t s = 0" "exit_flag s = 0"
    using tg_invD(3) [OF inv] pc by (auto simp: master_ok_def master_holds_def)
  have "thread_rank (bcast_cost s) rf ex w \<le> 16 + bcast_cost s + length (test_body (test w))"
    if "w \<in> set (thread_list s)" for w
    using at_rest_cases [OF inv h(1,2) _ h(3) that] pc by (intro rank_at_rest) simp
  then show ?thesis
    unfolding flip_cost_def bodies_def tsum_map by (rule tsum_mono)
qed

lemma exit_rank:
  assumes inv: "tg_inv s" and pc: "master s = M_exit_set"
  shows "tsum (thread_rank b rf 1) (thread_list s) \<le> length (thread_list s) * 7"
proof -
  have h: "master_holds (master s)" "num_running_t s = 0" "exit_flag s = 0"
    using tg_invD(3) [OF inv] pc by (auto simp: master_ok_def master_holds_def)
  have "thread_rank b rf 1 w \<le> 7" if "w \<in> set (thread_list s)" for w
    using at_rest_cases [OF inv h(1,2) _ h(3) that] pc by (intro rank_at_rest) simp
  then have "tsum (thread_rank b rf 1) (thread_list s) \<le> tsum (\<lambda>_. 7) (thread_list s)"
    by (rule tsum_mono)
  then show ?thesis unfolding tsum_const .
qed

lemma master_step_rank:
  assumes inv: "tg_inv s" and step: "master_step s = Some s'"
  shows "tg_rank s' < tg_rank s"
proof -
  note rf = rank_frame [OF master_step_frame(2) [OF step]]
  let ?n = "length (thread_list s)" and ?f = "flip_cost s"
  let ?r = "thread_rank (bcast_cost s) (run_flag s) (exit_flag s) :: ('a, 'b) thread_aux \<Rightarrow> nat"
  have rank: "tg_rank s' = tsum (thread_rank (bcast_cost s) (run_flag s') (exit_flag s')) (thread_list s')
      + master_rank ?n ?f (master s')"
    by (simp add: tg_rank_def rf)
  have plain: ?thesis
    if "thread_list s' = thread_list s" "run_flag s' = run_flag s" "exit_flag s' = exit_flag s"
      "master_rank ?n ?f (master s') < master_rank ?n ?f (master s)"
    using that rank by (simp add: tg_rank_def)
  have bcast: ?thesis
    if "s' = master_goto pc (pthread_cond_broadcast s)"
      "master_rank ?n ?f pc + 2 * ?n < master_rank ?n ?f (master s)" for pc
    using that rank tsum_rank_wake [of "bcast_cost s" "run_flag s" "exit_flag s" "thread_list s"]
    by (simp add: tg_rank_def master_goto_def pthread_cond_broadcast_def)
  show ?thesis
  proof (cases "master s")
    case M_start_flip
    then have s': "s' = master_goto M_start_set (s\<lparr>run_flag := run_flag s XOR 1\<rparr>)"
      using step by (simp add: master_step_def)
    show ?thesis
      using flip_rank [OF inv M_start_flip, of "run_flag s XOR 1" "exit_flag s"] M_start_flip rank
      by (simp add: tg_rank_def master_rank_def s' master_goto_def)
  next
    case M_start_bcast
    then show ?thesis
      using step by (intro bcast [of M_start_unlock]) (auto simp: master_step_def master_rank_def)
  next
    case M_exit_set
    then have s': "s' = master_goto M_exit_bcast (s\<lparr>exit_flag := 1\<rparr>)"
      using step by (simp add: master_step_def)
    show ?thesis
      using exit_rank [OF inv M_exit_set, of "bcast_cost s" "run_flag s"] M_exit_set rank
      by (simp add: tg_rank_def master_rank_def s' master_goto_def)
  next
    case M_exit_bcast
    then show ?thesis
      using step by (intro bcast [of M_exit_unlock]) (auto simp: master_step_def master_rank_def)
  next
    case (M_exit_join k)
    then show ?thesis
      using step tg_invD(7,8) [OF inv]
      by (intro plain) (auto simp: master_step_def master_rank_def master_goto_def split: if_splits)
  qed (use step in \<open>intro plain; auto simp: master_step_def master_rank_def tg_simps split: if_splits\<close>)+
qed

lemma tg_step_rank: "tg_inv s \<Longrightarrow> tg_step s s' \<Longrightarrow> tg_rank s' < tg_rank s"
  by (auto elim!: tg_step.cases intro: worker_step_rank master_step_rank)

subsection \<open>The calls return\<close>

lemma steps_bounded: "(tg_step ^^ k) s t \<Longrightarrow> tg_inv s \<Longrightarrow> tg_inv t \<and> tg_rank t + k \<le> tg_rank s"
proof (induction k arbitrary: t)
  case 0
  then show ?case by simp
next
  case (Suc k)
  then obtain u where u: "(tg_step ^^ k) s u" "tg_step u t" by auto
  then have "tg_inv u" "tg_rank u + k \<le> tg_rank s" using Suc by auto
  then show ?case using tg_step_rank [OF _ u(2)] tg_inv_step [OF _ u(2)] by fastforce
qed

lemma steps_stop:
  assumes "(tg_step ^^ k) s t" "tg_inv s" "\<nexists>u. tg_step t u"
  shows "master t = M_idle \<or> master t = M_exited"
  using steps_bounded [OF assms(1,2)] call_can_step [of t] assms(3) by auto

subsection \<open>Shutting a group down\<close>

definition finished_ok :: "('d, 'm) tg_state \<Rightarrow> bool" where
  "finished_ok s \<longleftrightarrow> (\<forall>w \<in> set (thread_list s). wpc w = W_exited \<longrightarrow> status (test w) = TEST_FINISHED)"

definition exit_phase :: "'m \<Rightarrow> ('d, 'm) tg_state \<Rightarrow> bool" where
  "exit_phase m0 s \<longleftrightarrow> tg_inv s \<and> finished_ok s \<and> mem s = m0 \<and> num_running_t s = 0 \<and>
     (master s \<in> {M_exit_lock, M_exit_set, M_exit_bcast, M_exit_unlock} \<or>
      (\<exists>k. master s = M_exit_join k \<and> (\<forall>j < length (thread_list s). j < k \<longrightarrow> wpc (thread_list s ! j) = W_exited)) \<or>
      master s = M_exited \<and> (\<forall>j < length (thread_list s). wpc (thread_list s ! j) = W_exited))"

lemma worker_step_others:
  assumes "worker_step i s = Some s'" "j < length (thread_list s)" "wpc (thread_list s ! j) = W_exited"
  shows "thread_list s' ! j = thread_list s ! j" "length (thread_list s') = length (thread_list s)"
proof -
  have "i \<noteq> j" "i < length (thread_list s)"
    using assms by (auto simp: worker_step_def split: if_splits)
  then show "thread_list s' ! j = thread_list s ! j" "length (thread_list s') = length (thread_list s)"
    using assms by (cases "wpc (thread_list s ! i)";
        auto simp: worker_step_def tg_simps Let_def wake_pc split: if_splits list.splits)+
qed

lemma finished_ok_worker:
  assumes "worker_step i s = Some s'" "finished_ok s"
  shows "finished_ok s'"
proof -
  have i: "i < length (thread_list s)"
    using assms by (simp add: worker_step_def split: if_splits)
  let ?P = "\<lambda>w. wpc w = W_exited \<longrightarrow> status (test w) = TEST_FINISHED"
  let ?ws = "if wpc (thread_list s ! i) = W_iszero \<and> num_running_t s = 0 then map wake (thread_list s) else thread_list s"
  have "thread_list s' = ?ws[i := thread_list s' ! i] \<and> ?P (thread_list s' ! i)"
    using assms(1) i by (cases "wpc (thread_list s ! i)")
      (auto simp: worker_step_def tg_simps Let_def wake_pc split: if_splits list.splits)
  moreover have "\<forall>w \<in> set ?ws. ?P w"
    using assms(2) by (auto simp: finished_ok_def wake_def)
  ultimately show ?thesis
    unfolding finished_ok_def using ball_update [of ?ws ?P "thread_list s' ! i" i] by metis
qed

lemma finished_ok_threads: "finished_ok s \<Longrightarrow> thread_list s' = thread_list s \<or> thread_list s' = map wake (thread_list s)
    \<Longrightarrow> finished_ok s'"
  by (auto simp: finished_ok_def wake_def)

lemma finished_ok_step:
  assumes "tg_step s s' \<or> spurious s s'" "finished_ok s"
  shows "finished_ok s'"
  using assms(1)
proof
  assume "tg_step s s'"
  then show ?thesis
  proof cases
    case (worker i)
    then show ?thesis using assms(2) by (rule finished_ok_worker)
  next
    case main
    then have "thread_list s' = thread_list s \<or> thread_list s' = map wake (thread_list s)"
      by (cases "master s") (auto simp: master_step_def tg_simps split: if_splits)
    then show ?thesis by (rule finished_ok_threads [OF assms(2)])
  qed
next
  assume "spurious s s'"
  then show ?thesis
  proof cases
    case (worker i)
    then show ?thesis using assms(2)
      unfolding finished_ok_def goto_def by (auto dest!: set_update_subset_insert [THEN subsetD])
  next
    case main
    then show ?thesis using assms(2) by (simp add: finished_ok_def)
  qed
qed

lemma exit_phase_worker:
  assumes ph: "exit_phase m0 s" and step: "worker_step i s = Some s'"
  shows "exit_phase m0 s'"
proof -
  have tg: "tg_inv s" using ph by (simp add: exit_phase_def)
  note frame = worker_step_frame [OF tg step]
  have m: "master s' = master s" "num_running_t s' = 0" "master s \<noteq> M_start_set" "finished_ok s'"
    using ph frame(6,7) finished_ok_step [of s s'] tg_step.worker [OF step] by (auto simp: exit_phase_def)
  have "mem s' = mem s"
    using tg step by (cases rule: worker_step_progress) (use ph m in \<open>auto simp: exit_phase_def\<close>)
  moreover have "length (thread_list s') = length (thread_list s)"
    using rank_frame(1) [OF frame(1)] .
  moreover have "wpc (thread_list s' ! j) = W_exited"
    if "j < length (thread_list s)" "wpc (thread_list s ! j) = W_exited" for j
    using worker_step_others(1) [OF step that] that by simp
  ultimately show ?thesis
    using ph m tg_inv_worker [OF tg step] unfolding exit_phase_def by auto
qed

lemma exit_phase_master:
  assumes ph: "exit_phase m0 s" and step: "master_step s = Some s'"
  shows "exit_phase m0 s'"
proof -
  have tg: "tg_inv s" using ph by (simp add: exit_phase_def)
  have base: "tg_inv s'" "finished_ok s'" "mem s' = m0" "num_running_t s' = 0"
    using ph tg_inv_step [OF tg tg_step.main [OF step]] finished_ok_step [of s s'] tg_step.main [OF step]
      master_step_frame [OF step] by (auto simp: exit_phase_def)
  show ?thesis
  proof (cases "\<exists>k. master s = M_exit_join k")
    case True
    then obtain k where k: "master s = M_exit_join k"
      "\<forall>j < length (thread_list s). j < k \<longrightarrow> wpc (thread_list s ! j) = W_exited"
      using ph by (auto simp: exit_phase_def)
    have "thread_list s' = thread_list s"
      "master s' = M_exit_join (Suc k) \<and> wpc (thread_list s ! k) = W_exited \<or> master s' = M_exited \<and> length (thread_list s) \<le> k"
      using step k(1) tg_invD(7,8) [OF tg]
      by (auto simp: master_step_def master_goto_def split: if_splits)
    then show ?thesis
      using base k(2) by (auto simp: exit_phase_def less_Suc_eq)
  next
    case False
    then have "master s' \<in> {M_exit_lock, M_exit_set, M_exit_bcast, M_exit_unlock} \<or> master s' = M_exit_join 0"
      using ph step by (auto simp: exit_phase_def master_step_def tg_simps split: if_splits)
    then show ?thesis using base by (auto simp: exit_phase_def)
  qed
qed

lemma exit_phase_spurious:
  assumes ph: "exit_phase m0 s" and "spurious s s'"
  shows "exit_phase m0 s'"
  using assms(2)
proof cases
  case (worker i)
  have "wpc (thread_list s' ! j) = W_exited" if "j < length (thread_list s)" "wpc (thread_list s ! j) = W_exited" for j
    using that worker by (cases "j = i") (auto simp: goto_def)
  moreover have "master s' = master s" "mem s' = mem s" "num_running_t s' = num_running_t s"
    "length (thread_list s') = length (thread_list s)"
    using worker by (simp_all add: goto_def)
  ultimately show ?thesis
    using ph tg_inv_spurious [of s s'] finished_ok_step [of s s'] assms(2) unfolding exit_phase_def by auto
next
  case main
  then show ?thesis using ph by (simp add: exit_phase_def)
qed

lemma exit_phase_run: "tg_run s t \<Longrightarrow> exit_phase m0 s \<Longrightarrow> exit_phase m0 t"
  by (induction rule: tg_run.induct)
    (auto elim!: tg_step.cases intro: exit_phase_worker exit_phase_master exit_phase_spurious)

lemma finished_ok_run: "tg_run s t \<Longrightarrow> finished_ok s \<Longrightarrow> finished_ok t"
  by (induction rule: tg_run.induct) (auto intro: finished_ok_step)

lemma finished_ok_master_goto [simp]: "finished_ok (master_goto pc s) = finished_ok s"
  by (simp add: finished_ok_def)

lemma session_finished_ok: "tg_session g s \<Longrightarrow> finished_ok s"
proof (induction rule: tg_session.induct)
  case (create m s)
  then show ?case
    by (auto simp: test_group_thread_create_def Let_def finished_ok_def split: if_splits)
next
  case (round s u)
  from round(2) obtain t where "tg_run (master_goto M_start_check s) t" "tg_run (master_goto M_wait_lock t) u"
    by (elim tg_roundE)
  then show ?case using round(3) finished_ok_run finished_ok_master_goto by blast
qed (auto simp: finished_ok_def dest: finished_ok_run [unfolded finished_ok_def])

lemma exit_done:
  assumes "at_rest s" "finished_ok s" "tg_run (master_goto M_exit_lock s) u" "master u = M_exited"
  shows "mem u = mem s" "\<forall>w \<in> set (thread_list u). wpc w = W_exited \<and> status (test w) = TEST_FINISHED"
proof -
  have "exit_phase (mem s) (master_goto M_exit_lock s)"
    using assms(1,2) tg_inv_call [of s M_exit_lock] by (auto simp: exit_phase_def at_rest_def)
  then have u: "exit_phase (mem s) u" by (rule exit_phase_run [OF assms(3)])
  then show "mem u = mem s" by (simp add: exit_phase_def)
  have "\<forall>w \<in> set (thread_list u). wpc w = W_exited"
    using u assms(4) by (auto simp: exit_phase_def in_set_conv_nth)
  then show "\<forall>w \<in> set (thread_list u). wpc w = W_exited \<and> status (test w) = TEST_FINISHED"
    using u by (auto simp: exit_phase_def finished_ok_def)
qed

end
