(* ===== verification/Test_Group_Properties.thy ===== *)
theory Test_Group_Properties
  imports Test_Group_Liveness
begin

text \<open>
  The properties of the test groups of \<open>utils/concurrent_utils.c\<close>: building a group, and the life of a group whose
  threads are started in rounds and shut down.  \<open>tg_reachable\<close> collects the states of such a group at every moment,
  \<open>schedule\<close> runs the threads in a given order, one access at a time.
\<close>

subsection \<open>The states of a group\<close>

text \<open>
  The main thread begins a call between calls, and shuts the group down when no run is owed, as it does after
  \<open>test_group_wait\<close>; between calls it may access the shared memory.
\<close>

inductive tg_reachable :: "('d, 'm) test_group \<Rightarrow> ('d, 'm) tg_state \<Rightarrow> bool" for g where
  create: "test_group_thread_create g m = Some s \<Longrightarrow> tg_reachable g s"
| run: "tg_reachable g s \<Longrightarrow> tg_run s t \<Longrightarrow> tg_reachable g t"
| access: "tg_reachable g s \<Longrightarrow> tg_reachable g (s\<lparr>mem := f (mem s)\<rparr>)"
| call: "tg_reachable g s \<Longrightarrow> master s = M_idle \<Longrightarrow> pc = M_start_check \<or> pc = M_wait_lock \<Longrightarrow>
    tg_reachable g (master_goto pc s)"
| quit: "tg_reachable g s \<Longrightarrow> master s = M_idle \<Longrightarrow> num_running_t s = 0 \<Longrightarrow> tg_reachable g (master_goto M_exit_lock s)"

lemma create_inv:
  assumes "fresh_group g" "test_group_thread_create g m = Some s"
  shows "tg_inv s"
proof -
  obtain s' where "test_group_thread_create g m = Some s'" "tg_inv s'"
    using assms(1) by (auto simp: fresh_group_def elim: tg_inv_create [of g m])
  then show ?thesis using assms(2) by simp
qed

lemma reachable_inv: "tg_reachable g s \<Longrightarrow> fresh_group g \<Longrightarrow> tg_inv s"
proof (induction rule: tg_reachable.induct)
  case (create m s)
  then show ?case by (rule create_inv [rotated])
next
  case (run s t)
  then show ?case using tg_inv_run by blast
next
  case (access s f)
  then show ?case by (simp add: tg_inv_access)
next
  case (call s pc)
  then show ?case using tg_inv_call [of s pc] by auto
next
  case (quit s)
  then show ?case using tg_inv_call [of s M_exit_lock] by auto
qed

subsection \<open>Calls come to their end\<close>

lemma run_to_end: "tg_inv s \<Longrightarrow> \<exists>t. tg_run s t \<and> tg_inv t \<and> (\<nexists>u. tg_step t u)"
proof (induction "tg_rank s" arbitrary: s rule: less_induct)
  case less
  show ?case
  proof (cases "\<exists>u. tg_step s u")
    case True
    then obtain u where u: "tg_step s u" by blast
    then obtain t where t: "tg_run u t" "tg_inv t" "\<nexists>v. tg_step t v"
      using less.hyps [OF tg_step_rank [OF less.prems u] tg_inv_step [OF less.prems u]] by blast
    from t(1) u have "tg_run s t"
      by (induction rule: tg_run.induct) (auto intro: tg_run.intros)
    then show ?thesis using t by blast
  next
    case False
    then show ?thesis using less.prems tg_run.refl by blast
  qed
qed

lemma stuck_ended: "tg_inv t \<Longrightarrow> \<nexists>u. tg_step t u \<Longrightarrow> master t = M_idle \<or> master t = M_exited"
  using call_can_step [of t] by blast

lemma not_exited: "tg_inv t \<Longrightarrow> exit_flag t = 0 \<Longrightarrow> master t \<noteq> M_exited"
  using tg_invD(3) [of t] by (auto simp: master_ok_def)

lemma round_possible:
  assumes rest: "at_rest s"
  shows "\<exists>u. tg_round s u"
proof -
  have s: "tg_inv s" "master s = M_idle" "num_running_t s = 0" using rest by (simp_all add: at_rest_def)
  have s': "tg_inv (master_goto M_start_check s)" using tg_inv_call [OF s(1,2)] by simp
  obtain t where t: "tg_run (master_goto M_start_check s) t" "tg_inv t" "\<nexists>u. tg_step t u"
    using run_to_end [OF s'] by blast
  have "round_inv (mem s) (master_goto M_start_check s)"
    using s s' by (simp add: round_inv_def before_flip_def)
  then have rt: "round_inv (mem s) t" by (rule round_inv_run [OF t(1)])
  have ti: "master t = M_idle"
    using stuck_ended [OF t(2,3)] rt by (auto simp: round_inv_def before_flip_def after_flip_def)
  have t': "tg_inv (master_goto M_wait_lock t)" using tg_inv_call [OF t(2) ti] by simp
  obtain u where u: "tg_run (master_goto M_wait_lock t) u" "tg_inv u" "\<nexists>v. tg_step u v"
    using run_to_end [OF t'] by blast
  have "wait_phase u" by (rule wait_phase_run [OF u(1) _ t']) (simp add: wait_phase_def)
  then have "master u = M_idle"
    using stuck_ended [OF u(2,3)] by (auto simp: wait_phase_def)
  with s(2) t(1) ti u(1) show ?thesis by (blast intro: tg_round.intros)
qed

subsection \<open>Executions\<close>

fun schedule :: "thread_id list \<Rightarrow> ('d, 'm) tg_state \<Rightarrow> ('d, 'm) tg_state option" where
  "schedule [] s = Some s"
| "schedule (t # ts) s =
     (case (case t of Master \<Rightarrow> master_step s | Worker i \<Rightarrow> worker_step i s) of
        None \<Rightarrow> None | Some s \<Rightarrow> schedule ts s)"

lemma tg_run_trans: "tg_run t u \<Longrightarrow> tg_run s t \<Longrightarrow> tg_run s u"
  by (induction rule: tg_run.induct) (auto intro: tg_run.intros)

lemma schedule_run: "schedule ts s = Some u \<Longrightarrow> tg_run s u"
proof (induction ts arbitrary: s)
  case Nil
  then show ?case by (simp add: tg_run.refl)
next
  case (Cons t ts)
  then obtain s' where s': "tg_step s s'" "schedule ts s' = Some u"
    by (auto split: option.splits thread_id.splits intro: tg_step.intros)
  have "tg_run s s'" using tg_run.step [OF tg_run.refl] s'(1) by blast
  then show ?case using tg_run_trans Cons.IH [OF s'(2)] by blast
qed

lemma schedule_steps: "schedule ts s = Some u \<Longrightarrow> (tg_step ^^ length ts) s u"
proof (induction ts arbitrary: s)
  case (Cons t ts)
  then obtain s' where s': "tg_step s s'" "schedule ts s' = Some u"
    by (auto split: option.splits thread_id.splits intro: tg_step.intros)
  then show ?case using Cons.IH [OF s'(2)] by (auto simp: relpowp_Suc_left simp del: relpowp.simps)
qed simp

lemma schedule_append: "schedule (ts @ us) s = Option.bind (schedule ts s) (schedule us)"
  by (induction ts arbitrary: s) (auto split: option.split)

text \<open>Two threads that each add a number to the shared memory.\<close>

definition sample_group :: "(nat, nat) test_group" where
  "sample_group = the (test_group_add (test_group_create 2) (\<lambda>d. [\<lambda>m. m + d]) 5 2)"

definition sample_start :: "(nat, nat) tg_state" where
  "sample_start = the (test_group_thread_create sample_group 1)"

definition starting :: "thread_id list" where
  "starting = replicate 6 Master"

definition running :: "thread_id list" where
  "running = replicate 12 (Worker 0) @ replicate 12 (Worker 1)"

definition waiting :: "thread_id list" where
  "waiting = replicate 3 Master"

lemma sample_group_fields:
  "sample_group = \<lparr>group_size = 2, num_test = 2, n_threads = 0, run_flag = 0, exit_flag = 0, num_running_t = 0,
     test_list = [Some \<lparr>fun_prt = \<lambda>d. [\<lambda>m. m + d], data = 5, status = TEST_NOT_STARTED\<rparr>,
       Some \<lparr>fun_prt = \<lambda>d. [\<lambda>m. m + d], data = 5, status = TEST_NOT_STARTED\<rparr>]\<rparr>"
  by (simp add: sample_group_def test_group_add_def test_group_create_def)
    (simp add: set_test_def numeral_2_eq_2)

lemma sample_fresh: "fresh_group sample_group" "group_bodies sample_group = [[\<lambda>m. m + 5], [\<lambda>m. m + 5]]"
  by (simp_all add: fresh_group_def group_ok_def group_bodies_def tests_def test_body_def sample_group_fields)

lemma sample_create: "test_group_thread_create sample_group 1 = Some sample_start"
  by (simp add: sample_start_def test_group_thread_create_def sample_group_fields)

lemma sample_start_fields:
  "sample_start = \<lparr>group_size = 2, num_test = 2, n_threads = 2, run_flag = 0, exit_flag = 0, num_running_t = 0,
     test_list = test_list sample_group, test_mutex = None,
     thread_list = map (\<lambda>t. \<lparr>test = t, run_flag_l = 0, wpc = W_lock\<rparr>) (tests sample_group),
     master = M_idle, mem = 1\<rparr>"
  using sample_create by (simp add: test_group_thread_create_def sample_group_fields)

lemma replicate_numeral: "replicate (numeral k) x = x # replicate (pred_numeral k) x"
  by (simp add: numeral_eq_Suc)

lemmas sample_eval = replicate_numeral worker_step_def master_step_def tg_simps set_status_def flip_local_def wake_def test_body_def Let_def

lemma sample_threads: "tests sample_group =
    [\<lparr>fun_prt = \<lambda>d. [\<lambda>m. m + d], data = 5, status = TEST_NOT_STARTED\<rparr>,
     \<lparr>fun_prt = \<lambda>d. [\<lambda>m. m + d], data = 5, status = TEST_NOT_STARTED\<rparr>]"
  by (simp add: tests_def sample_group_fields)

definition sample_started :: "(nat, nat) tg_state" where
  "sample_started = the (schedule starting (master_goto M_start_check sample_start))"

definition sample_finished :: "(nat, nat) tg_state" where
  "sample_finished = the (schedule (running @ waiting) (master_goto M_wait_lock sample_started))"

lemma sample_started:
  "schedule starting (master_goto M_start_check sample_start) = Some sample_started"
  "sample_started = sample_start\<lparr>run_flag := 1, num_running_t := 2\<rparr>"
  by (simp_all add: sample_started_def starting_def sample_start_fields sample_threads sample_eval)

lemma sample_finished:
  "schedule (running @ waiting) (master_goto M_wait_lock sample_started) = Some sample_finished"
  "master sample_finished = M_idle" "mem sample_finished = 11" "num_running_t sample_finished = 0"
  by (simp_all add: sample_finished_def running_def waiting_def sample_started(2) sample_start_fields sample_threads
      sample_eval)

definition exiting :: "thread_id list" where
  "exiting = replicate 4 Master @ replicate 7 (Worker 0) @ replicate 7 (Worker 1) @ replicate 3 Master"

definition sample_exited :: "(nat, nat) tg_state" where
  "sample_exited = the (schedule exiting (master_goto M_exit_lock sample_finished))"

lemma sample_exited:
  "schedule exiting (master_goto M_exit_lock sample_finished) = Some sample_exited" "master sample_exited = M_exited"
  "map (\<lambda>w. status (test w)) (thread_list sample_exited) = [TEST_FINISHED, TEST_FINISHED]"
  by (simp_all add: sample_exited_def exiting_def sample_finished_def running_def waiting_def sample_started(2)
      sample_start_fields sample_threads sample_eval)

lemma sample_round: "tg_session sample_group sample_start" "tg_round sample_start sample_finished"
proof -
  show "tg_session sample_group sample_start" using sample_create by (rule tg_session.create)
  have "master sample_start = M_idle" "master sample_started = M_idle"
    by (simp_all add: sample_started(2) sample_start_fields)
  then show "tg_round sample_start sample_finished"
    using schedule_run [OF sample_started(1)] schedule_run [OF sample_finished(1)] sample_finished(2)
    by (blast intro: tg_round.intros)
qed

text \<open>The first thread has run its test, and is about to count itself out.\<close>

definition sample_counting :: "(nat, nat) tg_state" where
  "sample_counting = the (schedule (replicate 9 (Worker 0)) sample_started)"

lemma sample_counting:
  "tg_reachable sample_group sample_counting" "tg_reachable sample_group sample_started"
  "length (thread_list sample_counting) = 2" "wpc (thread_list sample_counting ! 0) = W_dec"
  "num_running_t sample_counting = 2" "master sample_counting = M_idle"
proof -
  have s: "schedule (replicate 9 (Worker 0)) sample_started = Some sample_counting"
    and "length (thread_list sample_counting) = 2" "wpc (thread_list sample_counting ! 0) = W_dec"
    "num_running_t sample_counting = 2" "master sample_counting = M_idle"
    by (simp_all add: sample_counting_def sample_started(2) sample_start_fields sample_threads sample_eval)
  then show "length (thread_list sample_counting) = 2" "wpc (thread_list sample_counting ! 0) = W_dec"
    "num_running_t sample_counting = 2" "master sample_counting = M_idle" by simp_all
  have "master sample_start = M_idle" by (simp add: sample_start_fields)
  then have "tg_reachable sample_group (master_goto M_start_check sample_start)"
    using tg_reachable.call [OF tg_reachable.create [OF sample_create]] by blast
  then show r: "tg_reachable sample_group sample_started"
    using tg_reachable.run schedule_run [OF sample_started(1)] by blast
  then show "tg_reachable sample_group sample_counting"
    using tg_reachable.run schedule_run [OF s] by blast
qed

subsection \<open>Properties\<close>

text \<open>
  C1.  A round (\<open>test_group_start\<close>, then \<open>test_group_wait\<close>) of a group runs every test of the group exactly once: when
  \<open>test_group_wait\<close> has returned, the shared memory is the result of all accesses of all tests, in an order that respects
  each test's own, and no run is owed.
\<close>

theorem test_group_round_correct:
  assumes "fresh_group g" "tg_session g s" "tg_round s u"
  shows "num_running_t u = 0 \<and> (\<exists>ys. interleaving (group_bodies g) ys \<and> mem u = run_all ys (mem s))"
proof -
  have s: "at_rest s" "bodies s = group_bodies g" using session_at_rest [OF assms(2,1)] by simp_all
  then show ?thesis using tg_round_complete [OF s(1) assms(3)] by (auto simp: at_rest_def)
qed

theorem test_group_round_correct_witness:
  "num_running_t sample_finished = 0 \<and> (\<exists>ys. interleaving [[\<lambda>m. m + 5], [\<lambda>m. m + 5]] ys \<and> 11 = run_all ys (1 :: nat))"
  using test_group_round_correct [OF sample_fresh(1) sample_round] sample_finished(3) sample_fresh(2)
  by (simp add: sample_start_fields)

text \<open>
  C4.  Every round of a group can come to its end: between rounds, \<open>test_group_start\<close> and \<open>test_group_wait\<close> can be
  called and return.
\<close>

theorem test_group_round_possible:
  assumes "fresh_group g" "tg_session g s"
  shows "\<exists>u. tg_round s u"
  using session_at_rest [OF assms(2,1)] round_possible by blast

theorem test_group_round_possible_witness: "\<exists>u. tg_round sample_finished u"
  using test_group_round_possible [OF sample_fresh(1) tg_session.round [OF sample_round]] .

text \<open>C6.  Mutual exclusion: at most one thread is between its lock and its unlock of the group's mutex.\<close>

theorem test_group_mutual_exclusion:
  assumes "fresh_group g" "tg_reachable g s"
    and "i < length (thread_list s)" "holds_mutex (wpc (thread_list s ! i))"
    and "j < length (thread_list s)" "holds_mutex (wpc (thread_list s ! j))"
  shows "i = j \<and> \<not> master_holds (master s)"
  using tg_inv_exclusion [OF reachable_inv [OF assms(2,1)] assms(3,4)] assms(5,6) by blast

theorem test_group_mutual_exclusion_witness: "\<not> master_holds (master sample_counting)"
  using test_group_mutual_exclusion [OF sample_fresh(1) sample_counting(1), of 0 0] sample_counting(3,4)
  by (simp add: holds_mutex_def)

text \<open>
  C7.  In every reachable state \<open>num_running_t\<close> is the number of threads that still owe a run of their test, with one
  exception: between the two writes of \<open>test_group_start\<close>, the flip of the flag and the store of the count, it is 0 and every thread owes a run.  It is
  not 0 when a thread is about to decrement it, so that the decrement never wraps around.
\<close>

theorem test_group_running_count:
  assumes "fresh_group g" "tg_reachable g s"
  shows "(master s \<noteq> M_start_set \<longrightarrow> unat (num_running_t s) = how_many (pend (run_flag s) (exit_flag s)) (thread_list s)) \<and>
    (master s = M_start_set \<longrightarrow> num_running_t s = 0 \<and> (\<forall>w \<in> set (thread_list s). pend (run_flag s) (exit_flag s) w)) \<and>
    (\<forall>w \<in> set (thread_list s). wpc w = W_dec \<longrightarrow> num_running_t s \<noteq> 0)"
proof -
  have inv: "tg_inv s" using assms(2,1) by (rule reachable_inv)
  show ?thesis using tg_invD(2) [OF inv] tg_inv_dec(2) [OF inv] by (auto simp: count_ok_def in_set_conv_nth)
qed

theorem test_group_running_count_witness:
  "how_many (pend (run_flag sample_counting) (exit_flag sample_counting)) (thread_list sample_counting) = 2"
  using test_group_running_count [OF sample_fresh(1) sample_counting(1)] sample_counting(3-6) by simp

text \<open>C2.  No deadlock: while a call on the group is in progress, some thread can take a step.\<close>

theorem test_group_no_deadlock:
  assumes "fresh_group g" "tg_reachable g s" "master s \<noteq> M_idle" "master s \<noteq> M_exited"
  shows "\<exists>s'. tg_step s s'"
  using call_can_step [OF reachable_inv [OF assms(2,1)]] assms(3,4) by blast

theorem test_group_no_deadlock_witness: "\<exists>s'. tg_step (master_goto M_wait_lock sample_counting) s'"
proof -
  have "tg_reachable sample_group (master_goto M_wait_lock sample_counting)"
    using tg_reachable.call [OF sample_counting(1,6)] by blast
  then show ?thesis using test_group_no_deadlock [OF sample_fresh(1)] by simp
qed

text \<open>
  C3.  Calls return: the threads take at most \<open>tg_rank s\<close> steps from \<open>s\<close> on, unless the main thread begins another call or a
  thread wakes up without a broadcast, and where no step is left the main thread is out of its call.
\<close>

theorem test_group_calls_return:
  assumes "fresh_group g" "tg_reachable g s" "(tg_step ^^ k) s t"
  shows "k \<le> tg_rank s \<and> (master t = M_idle \<or> master t = M_exited \<or> (\<exists>u. tg_step t u))"
  using steps_bounded [OF assms(3) reachable_inv [OF assms(2,1)]] call_can_step [of t] by auto

theorem test_group_calls_return_witness: "27 \<le> tg_rank (master_goto M_wait_lock sample_started)"
proof -
  have "master sample_started = M_idle" by (simp add: sample_started(2) sample_start_fields)
  then have "tg_reachable sample_group (master_goto M_wait_lock sample_started)"
    using tg_reachable.call [OF sample_counting(2)] by blast
  from test_group_calls_return [OF sample_fresh(1) this schedule_steps [OF sample_finished(1)]]
  show ?thesis by (simp add: running_def waiting_def)
qed

text \<open>
  C5.  When \<open>test_group_exit\<close> returns every thread has ended, its test has the status \<open>TEST_FINISHED\<close>, and
  the shared memory is as it was: no test was run once more.
\<close>

theorem test_group_exit_correct:
  assumes "fresh_group g" "tg_session g s" "tg_run (master_goto M_exit_lock s) u" "master u = M_exited"
  shows "mem u = mem s \<and> (\<forall>w \<in> set (thread_list u). wpc w = W_exited \<and> status (test w) = TEST_FINISHED)"
  using exit_done [OF _ session_finished_ok [OF assms(2)] assms(3,4)] session_at_rest [OF assms(2,1)] by blast

theorem test_group_exit_correct_witness: "mem sample_exited = 11"
  using test_group_exit_correct [OF sample_fresh(1) tg_session.round [OF sample_round]
      schedule_run [OF sample_exited(1)] sample_exited(2)] sample_finished(3) by simp

text \<open>
  C8.  \<open>test_group_add\<close> on a well-formed group: when there is room, it appends \<open>num_copy\<close> copies of the test, changes nothing but the array and the
  number of tests, and keeps the group well-formed; when there is none, it leaves the group exactly as it is; and when the sum of the sizes wraps around
  at \<open>2 ^ 64\<close>, its check fails to notice and it writes outside of the array.
\<close>

theorem test_group_add_correct:
  assumes "group_ok g"
  shows "(unat (num_test g) + unat num_copy \<le> unat (group_size g) \<longrightarrow>
      (\<exists>ts n. test_group_add g f d num_copy = Some (g\<lparr>test_list := ts, num_test := n\<rparr>) \<and>
        unat n = unat (num_test g) + unat num_copy \<and> group_ok (g\<lparr>test_list := ts, num_test := n\<rparr>) \<and>
        tests (g\<lparr>test_list := ts, num_test := n\<rparr>) =
          tests g @ replicate (unat num_copy) \<lparr>fun_prt = f, data = d, status = TEST_NOT_STARTED\<rparr>)) \<and>
    (unat (group_size g) < unat (num_test g) + unat num_copy \<and> unat (num_test g) + unat num_copy < 2 ^ 64 \<longrightarrow>
      test_group_add g f d num_copy = Some g) \<and>
    (2 ^ 64 \<le> unat (num_test g) + unat num_copy \<longrightarrow> test_group_add g f d num_copy = None)"
proof (intro conjI impI)
  assume room: "unat (num_test g) + unat num_copy \<le> unat (group_size g)"
  obtain g' where g': "test_group_add g f d num_copy = Some g'" "group_ok g'"
      "tests g' = tests g @ replicate (unat num_copy) \<lparr>fun_prt = f, data = d, status = TEST_NOT_STARTED\<rparr>"
      "unat (num_test g') = unat (num_test g) + unat num_copy"
    using test_group_add_room [OF assms room] by metis
  then have "g\<lparr>test_list := test_list g', num_test := num_test g'\<rparr> = g'" using test_group_add_frame by metis
  then show "\<exists>ts n. test_group_add g f d num_copy = Some (g\<lparr>test_list := ts, num_test := n\<rparr>) \<and>
        unat n = unat (num_test g) + unat num_copy \<and> group_ok (g\<lparr>test_list := ts, num_test := n\<rparr>) \<and>
        tests (g\<lparr>test_list := ts, num_test := n\<rparr>) =
          tests g @ replicate (unat num_copy) \<lparr>fun_prt = f, data = d, status = TEST_NOT_STARTED\<rparr>"
    using g' by (intro exI [of _ "test_list g'"] exI [of _ "num_test g'"]) simp
next
  assume "unat (group_size g) < unat (num_test g) + unat num_copy \<and> unat (num_test g) + unat num_copy < 2 ^ 64"
  then show "test_group_add g f d num_copy = Some g" by (intro test_group_add_full [OF assms]) auto
next
  assume "2 ^ 64 \<le> unat (num_test g) + unat num_copy"
  then show "test_group_add g f d num_copy = None" by (intro test_group_add_wraps [OF assms]) simp
qed

theorem test_group_add_correct_witness:
  "test_group_add sample_group (\<lambda>d. []) 7 (1 :: 64 word) = Some sample_group"
  using test_group_add_correct [of sample_group 1 "\<lambda>d. []" 7] sample_fresh(1)
  by (auto simp: fresh_group_def sample_group_fields)

text \<open>
  C39.  \<open>test_group_resize\<close> only reports a new size below the group's size and shrinks the array all the same: when fewer elements
  are left than there are tests, creating the threads reads outside of the array.
\<close>

theorem test_group_resize_shrinks:
  assumes "group_ok g" "unat new_size < unat (num_test g)"
  shows "length (test_list (test_group_resize g new_size)) = unat new_size \<and>
    num_test (test_group_resize g new_size) = num_test g \<and>
    test_group_thread_create (test_group_resize g new_size) m = None"
  using assms by (auto simp: test_group_resize_def test_group_thread_create_def resize_list_def group_ok_def Let_def)

theorem test_group_resize_shrinks_witness: "test_group_thread_create (test_group_resize sample_group 1) 0 = None"
  using test_group_resize_shrinks [of sample_group 1 0] sample_fresh(1)
  by (simp add: fresh_group_def sample_group_fields)

text \<open>
  C40.  A thread writes the status \<open>TEST_STOP\<close> after it has left the count of running tests: \<open>test_group_wait\<close> can return
  while every test has the status \<open>TEST_RUNNING\<close>.
\<close>

theorem test_group_status_after_wait:
  "\<exists>s u. tg_session sample_group s \<and> tg_round s u \<and>
    map (\<lambda>w. status (test w)) (thread_list u) = [TEST_RUNNING, TEST_RUNNING]"
proof -
  have "map (\<lambda>w. status (test w)) (thread_list sample_finished) = [TEST_RUNNING, TEST_RUNNING]"
    by (simp add: sample_finished_def running_def waiting_def sample_started(2) sample_start_fields sample_threads
        sample_eval)
  then show ?thesis
    using sample_round by (intro exI [of _ sample_start] exI [of _ sample_finished] conjI)
qed

end
