(* ===== verification/Hsa_Api.thy ===== *)
theory Hsa_Api
  imports Prelude
begin

text \<open>
  Types of \<open>hsa.h\<close>, which is not part of the repository, as far as the modelled code names them, and the
  contract of the functions of the runtime that call a callback for each of a list of handles.
\<close>

datatype hsa_status_t =
    HSA_STATUS_SUCCESS
  | HSA_STATUS_INFO_BREAK
  | HSA_STATUS_ERROR
  | HSA_STATUS_ERROR_INVALID_ARGUMENT
  | HSA_STATUS_OTHER nat  \<comment> \<open>the other codes of \<open>hsa.h\<close>\<close>

datatype memory_order = Acq_rel | Acquire | Relaxed | Release

type_synonym hsa_agent_t = "64 word"
type_synonym hsa_region_t = "64 word"

subsection \<open>Iteration with callbacks\<close>

text \<open>
  \<open>hsa_iterate_agents\<close> and \<open>hsa_agent_iterate_regions\<close> are documented to call the callback once for each
  handle; when a call returns a status other than success, the traversal stops and that status is returned.
\<close>

fun iterate_over :: "'h list \<Rightarrow> ('h \<Rightarrow> 'm \<Rightarrow> hsa_status_t \<times> 'm) \<Rightarrow> 'm \<Rightarrow> hsa_status_t \<times> 'm" where
  "iterate_over [] callback m = (HSA_STATUS_SUCCESS, m)"
| "iterate_over (h # hs) callback m =
     (let (status, m) = callback h m in
      if status = HSA_STATUS_SUCCESS then iterate_over hs callback m else (status, m))"

locale handle_iterator =
  fixes iterate :: "('h \<Rightarrow> 'm \<Rightarrow> hsa_status_t \<times> 'm) \<Rightarrow> 'm \<Rightarrow> hsa_status_t \<times> 'm"
    and handles :: "'h list"
  assumes iterates: "iterate callback m = iterate_over handles callback m"
begin

text \<open>A callback that never stops the traversal sees all handles, in order.\<close>

lemma iterate_all:
  assumes "\<And>h m. callback h m = (HSA_STATUS_SUCCESS, step h m)"
  shows "iterate callback m = (HSA_STATUS_SUCCESS, fold step handles m)"
proof -
  have "iterate_over hs callback m = (HSA_STATUS_SUCCESS, fold step hs m)" for hs
    by (induction hs arbitrary: m) (simp_all add: assms)
  then show ?thesis by (simp add: iterates)
qed

text \<open>A callback that stops at the handles that satisfy \<open>P\<close> acts on the first of them only.\<close>

lemma iterate_first:
  assumes "\<And>h m. callback h m = (if P h then (HSA_STATUS_INFO_BREAK, step h m) else (HSA_STATUS_SUCCESS, m))"
  shows "iterate callback m =
    (case find P handles of None \<Rightarrow> (HSA_STATUS_SUCCESS, m) | Some h \<Rightarrow> (HSA_STATUS_INFO_BREAK, step h m))"
proof -
  have "iterate_over hs callback m =
    (case find P hs of None \<Rightarrow> (HSA_STATUS_SUCCESS, m) | Some h \<Rightarrow> (HSA_STATUS_INFO_BREAK, step h m))" for hs
    by (induction hs) (simp_all add: assms)
  then show ?thesis by (simp add: iterates)
qed

end

interpretation listed: handle_iterator "iterate_over hs" hs for hs
  by unfold_locales simp

end
