(* ===== verification/Signal_Runtime.thy ===== *)
theory Signal_Runtime
  imports Test_Group_Liveness Hsa_Api
begin

text \<open>
  The HSA runtime under test is not part of the repository.  The functions of \<open>hsa.h\<close> that the signal tests
  call are the fields of the record \<open>hsa_rt\<close>, a parameter of every model of a test; a field takes
  the state \<open>'s\<close> of the runtime and returns the new one.  The locale \<open>signal_runtime\<close> states
  what the HSA runtime specification documents of them and the tests rely on: reference counting of \<open>hsa_init\<close>
  and \<open>hsa_shut_down\<close>, and that each signal operation acts atomically on the value of its
  signal and of no other.  \<open>reference_rt\<close> is a runtime that satisfies it.

  The operations come in variants with a memory order; \<open>hsa_signal_and_acquire\<close> is
  \<open>hsa_signal_and rt Acquire\<close>, and so on.  \<open>hsa_signal_value_t\<close> is \<open>int64_t\<close> in the large
  and \<open>int32_t\<close> in the small machine model, here a word of the length of the model.
\<close>

record ('h, 'v, 's) hsa_rt =
  hsa_init :: "'s \<Rightarrow> hsa_status_t \<times> 's"
  hsa_shut_down :: "'s \<Rightarrow> hsa_status_t \<times> 's"
  hsa_signal_create :: "'v \<Rightarrow> nat \<Rightarrow> hsa_agent_t list \<Rightarrow> 's \<Rightarrow> hsa_status_t \<times> 'h \<times> 's"
  hsa_signal_destroy :: "'h \<Rightarrow> 's \<Rightarrow> hsa_status_t \<times> 's"
  hsa_signal_load :: "memory_order \<Rightarrow> 'h \<Rightarrow> 's \<Rightarrow> 'v \<times> 's"
  hsa_signal_store :: "memory_order \<Rightarrow> 'h \<Rightarrow> 'v \<Rightarrow> 's \<Rightarrow> 's"
  hsa_signal_exchange :: "memory_order \<Rightarrow> 'h \<Rightarrow> 'v \<Rightarrow> 's \<Rightarrow> 'v \<times> 's"
  hsa_signal_cas :: "memory_order \<Rightarrow> 'h \<Rightarrow> 'v \<Rightarrow> 'v \<Rightarrow> 's \<Rightarrow> 'v \<times> 's"
  hsa_signal_add :: "memory_order \<Rightarrow> 'h \<Rightarrow> 'v \<Rightarrow> 's \<Rightarrow> 's"
  hsa_signal_subtract :: "memory_order \<Rightarrow> 'h \<Rightarrow> 'v \<Rightarrow> 's \<Rightarrow> 's"
  hsa_signal_and :: "memory_order \<Rightarrow> 'h \<Rightarrow> 'v \<Rightarrow> 's \<Rightarrow> 's"
  hsa_signal_or :: "memory_order \<Rightarrow> 'h \<Rightarrow> 'v \<Rightarrow> 's \<Rightarrow> 's"
  hsa_signal_xor :: "memory_order \<Rightarrow> 'h \<Rightarrow> 'v \<Rightarrow> 's \<Rightarrow> 's"

definition HSA_LARGE_MODEL :: "'w::len itself \<Rightarrow> bool" where
  "HSA_LARGE_MODEL _ \<longleftrightarrow> LENGTH('w) = 64"

lemma HSA_LARGE_MODEL_simps [simp]:
  "HSA_LARGE_MODEL TYPE(64)" "\<not> HSA_LARGE_MODEL TYPE(32)"
  by (simp_all add: HSA_LARGE_MODEL_def)

text \<open>The length of a signal value in one of the two machine models.\<close>

definition machine_word :: "'w::len itself \<Rightarrow> bool" where
  "machine_word _ \<longleftrightarrow> LENGTH('w) = 64 \<or> LENGTH('w) = 32"

lemma machine_word [simp]: "machine_word TYPE(64)" "machine_word TYPE(32)"
  by (simp_all add: machine_word_def)

subsection \<open>Building a group\<close>

text \<open>The tests add the elements of an array of parameters one by one, or several copies of one test.\<close>

lemma fresh_create: "unat sz < 2 ^ 31 \<Longrightarrow> fresh_group (test_group_create sz) \<and> group_bodies (test_group_create sz) = []"
  by (simp add: fresh_group_def group_ok_create group_bodies_def)
    (simp add: test_group_create_def)

lemma fresh_add:
  assumes "fresh_group g" "unat (num_test g) + unat n \<le> unat (group_size g)"
  shows "passes (test_group_add g f d n) (\<lambda>g'. fresh_group g' \<and> group_size g' = group_size g \<and>
    unat (num_test g') = unat (num_test g) + unat n \<and>
    group_bodies g' = group_bodies g @ replicate (unat n) (f d))"
proof -
  have "group_ok g" using assms(1) by (simp add: fresh_group_def)
  then obtain g' where "test_group_add g f d n = Some g'" "group_ok g'"
    "tests g' = tests g @ replicate (unat n) \<lparr>fun_prt = f, data = d, status = TEST_NOT_STARTED\<rparr>"
    "unat (num_test g') = unat (num_test g) + unat n"
    "group_size g' = group_size g" "n_threads g' = n_threads g" "run_flag g' = run_flag g"
    "exit_flag g' = exit_flag g" "num_running_t g' = num_running_t g"
    using assms(2) by (rule test_group_add_room)
  then show ?thesis
    using assms(1) by (simp add: fresh_group_def group_bodies_def test_body_def)
qed

lemma wp_param_ptr: "passes (k (map f xs)) P \<Longrightarrow> passes (let param_ptr = map f xs in k param_ptr) P"
  by simp

lemma wp_add_copies:
  assumes "unat n \<le> unat sz" "unat sz < 2 ^ 31"
    and "\<And>g. fresh_group g \<Longrightarrow> group_bodies g = replicate (unat n) (f d) \<Longrightarrow> passes (k g) P"
  shows "passes (test_group_add (test_group_create sz) f d n \<bind> k) P"
proof -
  have "unat (num_test (test_group_create sz)) + unat n \<le> unat (group_size (test_group_create sz))"
    using assms(1) by (simp add: test_group_create_def)
  with fresh_create [OF assms(2)] have "passes (test_group_add (test_group_create sz) f d n)
    (\<lambda>g. fresh_group g \<and> group_bodies g = replicate (unat n) (f d))"
    by (intro passes_mono [OF fresh_add]) auto
  then show ?thesis by (rule wp_seq) (simp add: assms(3))
qed

lemma wp_add_params:
  assumes "length ps = n" "n \<le> unat sz" "unat sz < 2 ^ 31"
    and "\<And>g. fresh_group g \<Longrightarrow> group_bodies g = map f ps \<Longrightarrow> passes (k g) P"
  shows "passes (for_loop 0 n (\<lambda>ii g. test_group_add g f (ps ! ii) 1) (test_group_create sz) \<bind> k) P"
proof -
  let ?Inv = "\<lambda>i g. fresh_group g \<and> group_size g = sz \<and> unat (num_test g) = i \<and>
    group_bodies g = map f (take i ps)"
  have "passes (for_loop 0 n (\<lambda>ii g. test_group_add g f (ps ! ii) 1) (test_group_create sz)) (?Inv (0 + n))"
  proof (rule for_loop_count [where Inv = ?Inv])
    show "?Inv 0 (test_group_create sz)"
      using fresh_create [OF assms(3)] by (simp add: test_group_create_def)
  next
    fix i and g :: "('a, 'b) test_group" assume "i < 0 + n" "?Inv i g"
    then show "passes (test_group_add g f (ps ! i) 1) (?Inv (Suc i))"
      using assms(1,2) by (intro passes_mono [OF fresh_add]) (auto simp: take_Suc_conv_app_nth)
  qed
  then show ?thesis by (rule wp_seq) (use assms(1) in \<open>simp add: assms(4)\<close>)
qed

subsection \<open>What the tests rely on\<close>

text \<open>
  \<open>ups s\<close> is the reference count of the runtime, at most \<open>INT32_MAX\<close>, and \<open>val s h\<close> the value of the
  signal \<open>h\<close>, \<open>None\<close> when there is no such signal.  Nothing is said of the signals when the count
  leaves or reaches 0.  \<open>restored\<close> is what a test owes to the tests after it: it has shut the runtime
  down as often as it has initialised it, and the signals of others are as they were.
\<close>

definition restored :: "('s \<Rightarrow> nat) \<Rightarrow> ('s \<Rightarrow> 'h \<Rightarrow> 'v option) \<Rightarrow> 's \<Rightarrow> 's \<Rightarrow> bool" where
  "restored ups val s s' \<longleftrightarrow> ups s' = ups s \<and> (0 < ups s \<longrightarrow> val s' = val s)"

locale signal_runtime =
  fixes rt :: "('h, 'w::len word, 's) hsa_rt"
    and ups :: "'s \<Rightarrow> nat"
    and val :: "'s \<Rightarrow> 'h \<Rightarrow> 'w word option"
  assumes init: "ups s < 2 ^ 31 - 1 \<Longrightarrow> hsa_init rt s = (st, s') \<Longrightarrow>
      st = HSA_STATUS_SUCCESS \<and> ups s' = Suc (ups s) \<and> (0 < ups s \<longrightarrow> val s' = val s)"
    and shut_down: "0 < ups s \<Longrightarrow> hsa_shut_down rt s = (st, s') \<Longrightarrow>
      st = HSA_STATUS_SUCCESS \<and> ups s' = ups s - 1 \<and> (1 < ups s \<longrightarrow> val s' = val s)"
    and create: "0 < ups s \<Longrightarrow> hsa_signal_create rt v 0 [] s = (st, h, s') \<Longrightarrow>
      st = HSA_STATUS_SUCCESS \<and> val s h = None \<and> ups s' = ups s \<and> val s' = (val s)(h \<mapsto> v)"
    and destroy: "0 < ups s \<Longrightarrow> val s h = Some x \<Longrightarrow> hsa_signal_destroy rt h s = (st, s') \<Longrightarrow>
      st = HSA_STATUS_SUCCESS \<and> ups s' = ups s \<and> val s' = (val s)(h := None)"
    and load: "0 < ups s \<Longrightarrow> val s h = Some x \<Longrightarrow> hsa_signal_load rt r h s = (y, s') \<Longrightarrow>
      y = x \<and> ups s' = ups s \<and> val s' = val s"
    and store: "0 < ups s \<Longrightarrow> val s h = Some x \<Longrightarrow>
      ups (hsa_signal_store rt r h v s) = ups s \<and> val (hsa_signal_store rt r h v s) = (val s)(h \<mapsto> v)"
    and exchange: "0 < ups s \<Longrightarrow> val s h = Some x \<Longrightarrow> hsa_signal_exchange rt r h v s = (y, s') \<Longrightarrow>
      y = x \<and> ups s' = ups s \<and> val s' = (val s)(h \<mapsto> v)"
    and cas: "0 < ups s \<Longrightarrow> val s h = Some x \<Longrightarrow> hsa_signal_cas rt r h e v s = (y, s') \<Longrightarrow>
      y = x \<and> ups s' = ups s \<and> val s' = (val s)(h \<mapsto> (if x = e then v else x))"
    and add: "0 < ups s \<Longrightarrow> val s h = Some x \<Longrightarrow>
      ups (hsa_signal_add rt r h v s) = ups s \<and> val (hsa_signal_add rt r h v s) = (val s)(h \<mapsto> x + v)"
    and subtract: "0 < ups s \<Longrightarrow> val s h = Some x \<Longrightarrow>
      ups (hsa_signal_subtract rt r h v s) = ups s \<and> val (hsa_signal_subtract rt r h v s) = (val s)(h \<mapsto> x - v)"
    and and_op: "0 < ups s \<Longrightarrow> val s h = Some x \<Longrightarrow>
      ups (hsa_signal_and rt r h v s) = ups s \<and> val (hsa_signal_and rt r h v s) = (val s)(h \<mapsto> x AND v)"
    and or_op: "0 < ups s \<Longrightarrow> val s h = Some x \<Longrightarrow>
      ups (hsa_signal_or rt r h v s) = ups s \<and> val (hsa_signal_or rt r h v s) = (val s)(h \<mapsto> x OR v)"
    and xor_op: "0 < ups s \<Longrightarrow> val s h = Some x \<Longrightarrow>
      ups (hsa_signal_xor rt r h v s) = ups s \<and> val (hsa_signal_xor rt r h v s) = (val s)(h \<mapsto> x XOR v)"
begin

text \<open>Stepping through a test, call by call.\<close>

lemma wp_init:
  assumes "ups s < 2 ^ 31 - 1"
    and "\<And>s'. ups s' = Suc (ups s) \<Longrightarrow> (0 < ups s \<Longrightarrow> val s' = val s) \<Longrightarrow> passes (k HSA_STATUS_SUCCESS s') P"
  shows "passes (let (st, s') = hsa_init rt s in k st s') P"
proof (cases "hsa_init rt s")
  case (Pair y s')
  then show ?thesis using init [OF assms(1) Pair] assms(2) [of s'] by simp
qed

lemma wp_shut_down:
  assumes "0 < ups s"
    and "\<And>s'. ups s' = ups s - 1 \<Longrightarrow> (1 < ups s \<Longrightarrow> val s' = val s) \<Longrightarrow> passes (k HSA_STATUS_SUCCESS s') P"
  shows "passes (let (st, s') = hsa_shut_down rt s in k st s') P"
proof (cases "hsa_shut_down rt s")
  case (Pair y s')
  then show ?thesis using shut_down [OF assms(1) Pair] assms(2) [of s'] by simp
qed

lemma wp_create:
  assumes "0 < ups s"
    and "\<And>h s'. val s h = None \<Longrightarrow> ups s' = ups s \<Longrightarrow> val s' = (val s)(h \<mapsto> v) \<Longrightarrow>
      passes (k HSA_STATUS_SUCCESS h s') P"
  shows "passes (let (st, h, s') = hsa_signal_create rt v 0 [] s in k st h s') P"
proof (cases "hsa_signal_create rt v 0 [] s" rule: prod_cases3)
  case (fields st h s')
  then show ?thesis using create [OF assms(1) fields] assms(2) [of h s'] by simp
qed

lemma wp_destroy:
  assumes "0 < ups s" "val s h = Some x"
    and "\<And>s'. ups s' = ups s \<Longrightarrow> val s' = (val s)(h := None) \<Longrightarrow> passes (k HSA_STATUS_SUCCESS s') P"
  shows "passes (let (st, s') = hsa_signal_destroy rt h s in k st s') P"
proof (cases "hsa_signal_destroy rt h s")
  case (Pair y s')
  then show ?thesis using destroy [OF assms(1) assms(2) Pair] assms(3) [of s'] by simp
qed

lemma wp_load:
  assumes "0 < ups s" "val s h = Some x"
    and "\<And>s'. ups s' = ups s \<Longrightarrow> val s' = val s \<Longrightarrow> passes (k x s') P"
  shows "passes (let (y, s') = hsa_signal_load rt r h s in k y s') P"
proof (cases "hsa_signal_load rt r h s")
  case (Pair y s')
  then show ?thesis using load [OF assms(1) assms(2) Pair] assms(3) [of s'] by simp
qed

lemma wp_exchange:
  assumes "0 < ups s" "val s h = Some x"
    and "\<And>s'. ups s' = ups s \<Longrightarrow> val s' = (val s)(h \<mapsto> v) \<Longrightarrow> passes (k x s') P"
  shows "passes (let (y, s') = hsa_signal_exchange rt r h v s in k y s') P"
proof (cases "hsa_signal_exchange rt r h v s")
  case (Pair y s')
  then show ?thesis using exchange [OF assms(1) assms(2) Pair] assms(3) [of s'] by simp
qed

lemma wp_cas:
  assumes "0 < ups s" "val s h = Some x"
    and "\<And>s'. ups s' = ups s \<Longrightarrow> val s' = (val s)(h \<mapsto> (if x = e then v else x)) \<Longrightarrow> passes (k x s') P"
  shows "passes (let (y, s') = hsa_signal_cas rt r h e v s in k y s') P"
proof (cases "hsa_signal_cas rt r h e v s")
  case (Pair y s')
  then show ?thesis using cas [OF assms(1) assms(2) Pair] assms(3) [of s'] by simp
qed

lemma wp_update:
  assumes "0 < ups s" "val s h = Some x"
    and "ups (f s) = ups s \<and> val (f s) = (val s)(h \<mapsto> y)"
    and "\<And>s'. ups s' = ups s \<Longrightarrow> val s' = (val s)(h \<mapsto> y) \<Longrightarrow> passes (k s') P"
  shows "passes (let s' = f s in k s') P"
  using assms by simp

lemmas wp_store = wp_update [OF _ _ store]
lemmas wp_add = wp_update [OF _ _ add]
lemmas wp_subtract = wp_update [OF _ _ subtract]
lemmas wp_and = wp_update [OF _ _ and_op]
lemmas wp_or = wp_update [OF _ _ or_op]
lemmas wp_xor = wp_update [OF _ _ xor_op]

lemmas wp_signal =
  wp_init wp_shut_down wp_create wp_destroy wp_load wp_exchange wp_cas
  wp_store wp_add wp_subtract wp_and wp_or wp_xor

text \<open>
  A round of threads whose actions all act on one signal, as commuting updates of its value, leaves
  there the result of all the updates.
\<close>

lemma wp_round:
  assumes "0 < ups s" "val s h = Some x" and bodies: "group_bodies g = map (map act) lss"
    and step: "\<And>l s y. l \<in> set (concat lss) \<Longrightarrow> 0 < ups s \<Longrightarrow> val s h = Some y \<Longrightarrow>
      ups (act l s) = ups s \<and> val (act l s) = (val s)(h \<mapsto> upd l y)"
    and comm: "\<And>l l' y. upd l (upd l' y) = upd l' (upd l y)"
    and k: "\<And>s'. ups s' = ups s \<Longrightarrow> val s' = (val s)(h \<mapsto> fold upd (concat lss) x) \<Longrightarrow> passes (k s') P"
  shows "passes (let s' = test_group_round cs g s in k s') P"
proof -
  let ?Inv = "\<lambda>m. ups m = ups s \<and> (\<exists>y. val m = (val s)(h \<mapsto> y))"
  let ?s' = "test_group_round cs g s"
  have *: "?Inv (act l m) \<and> the (val (act l m) h) = upd l (the (val m h))"
    if l: "l \<in> set (concat lss)" and m: "?Inv m" for l m
  proof -
    obtain y where y: "val m = (val s)(h \<mapsto> y)" "ups m = ups s" using m by blast
    have "ups (act l m) = ups m \<and> val (act l m) = (val m)(h \<mapsto> upd l y)"
      using assms(1) by (intro step l) (simp_all add: y)
    then show ?thesis by (intro conjI exI [of _ "upd l y"]) (simp_all add: y)
  qed
  have run: "chosen_round g s ?s'" by (auto simp: chosen_round_def)
  have start: "?Inv s" using assms(2) by (auto simp: map_upd_triv intro!: exI [of _ x])
  have upds: "upd l \<circ> upd l' = upd l' \<circ> upd l" for l l' by (rule ext) (simp only: comp_apply comm [of l l'])
  have "?Inv ?s' \<and> the (val ?s' h) = fold upd (concat lss) (the (val s h))"
    using run bodies * upds start by (rule chosen.runs_commuting [where Inv = ?Inv and obs = "\<lambda>m. the (val m h)"])
  then show ?thesis using assms(2) by (auto intro!: k)
qed

text \<open>A round whose actions keep the signal within a set of values.\<close>

lemma wp_round_within:
  assumes "0 < ups s" "val s h = Some x" "x \<in> V"
    and step: "\<And>as a s y. as \<in> set (group_bodies g) \<Longrightarrow> a \<in> set as \<Longrightarrow> 0 < ups s \<Longrightarrow> val s h = Some y \<Longrightarrow>
      y \<in> V \<Longrightarrow> \<exists>z \<in> V. ups (a s) = ups s \<and> val (a s) = (val s)(h \<mapsto> z)"
    and k: "\<And>s' y. ups s' = ups s \<Longrightarrow> y \<in> V \<Longrightarrow> val s' = (val s)(h \<mapsto> y) \<Longrightarrow> passes (k s') P"
  shows "passes (let s' = test_group_round cs g s in k s') P"
proof -
  let ?Inv = "\<lambda>m. ups m = ups s \<and> (\<exists>y \<in> V. val m = (val s)(h \<mapsto> y))"
  have run: "chosen_round g s (test_group_round cs g s)" by (auto simp: chosen_round_def)
  have start: "?Inv s" using assms(2,3) by (auto simp: map_upd_triv intro!: bexI [of _ x])
  have "?Inv (a m)" if a: "as \<in> set (group_bodies g)" "a \<in> set as" and m: "?Inv m" for as a m
  proof -
    obtain y where y: "y \<in> V" "val m = (val s)(h \<mapsto> y)" "ups m = ups s" using m by blast
    have "\<exists>z \<in> V. ups (a m) = ups m \<and> val (a m) = (val m)(h \<mapsto> z)"
      using assms(1) y by (intro step [OF a]) auto
    then show ?thesis by (auto simp: y)
  qed
  then have "?Inv (test_group_round cs g s)"
    by (rule chosen.runs_invariant [where Inv = ?Inv, OF run _ start])
  then show ?thesis by (auto intro!: k)
qed

text \<open>What the operations do to one signal.\<close>

definition acts :: "('s \<Rightarrow> 'w word \<times> 's) \<Rightarrow> 'h \<Rightarrow> ('w word \<Rightarrow> 'w word) \<Rightarrow> bool" where
  "acts op h f \<longleftrightarrow> (\<forall>s w. 0 < ups s \<longrightarrow> val s h = Some w \<longrightarrow>
     (\<exists>s'. op s = (w, s') \<and> ups s' = ups s \<and> val s' = (val s)(h \<mapsto> f w)))"

definition updates :: "('s \<Rightarrow> 's) \<Rightarrow> 'h \<Rightarrow> ('w word \<Rightarrow> 'w word) \<Rightarrow> bool" where
  "updates op h f \<longleftrightarrow> (\<forall>s w. 0 < ups s \<longrightarrow> val s h = Some w \<longrightarrow>
     ups (op s) = ups s \<and> val (op s) = (val s)(h \<mapsto> f w))"

lemma actsI:
  assumes "\<And>s w y s'. 0 < ups s \<Longrightarrow> val s h = Some w \<Longrightarrow> op s = (y, s') \<Longrightarrow>
      y = w \<and> ups s' = ups s \<and> val s' = (val s)(h \<mapsto> f w)"
  shows "acts op h f"
  unfolding acts_def
proof (intro allI impI)
  fix s w assume "0 < ups s" "val s h = Some w"
  then show "\<exists>s'. op s = (w, s') \<and> ups s' = ups s \<and> val s' = (val s)(h \<mapsto> f w)"
    using assms [of s w "fst (op s)" "snd (op s)"] by (auto simp: prod_eq_iff)
qed

lemma acts_load: "acts (hsa_signal_load rt r h) h (\<lambda>w. w)"
  by (rule actsI) (drule (2) load, simp add: fun_upd_idem)

lemma acts_exchange: "acts (hsa_signal_exchange rt r h v) h (\<lambda>_. v)"
  by (rule actsI) (rule exchange)

lemma acts_cas: "acts (hsa_signal_cas rt r h e v) h (\<lambda>w. if w = e then v else w)"
  by (rule actsI) (rule cas)

lemmas acts_signal = acts_load acts_exchange acts_cas

lemma updates_signal:
  "updates (hsa_signal_store rt r h v) h (\<lambda>_. v)"
  "updates (hsa_signal_add rt r h v) h (\<lambda>w. w + v)"
  "updates (hsa_signal_subtract rt r h v) h (\<lambda>w. w - v)"
  "updates (hsa_signal_and rt r h v) h (\<lambda>w. w AND v)"
  "updates (hsa_signal_or rt r h v) h (\<lambda>w. w OR v)"
  "updates (hsa_signal_xor rt r h v) h (\<lambda>w. w XOR v)"
  by (simp_all add: updates_def store add subtract and_op or_op xor_op)

end

subsection \<open>A runtime that satisfies it\<close>

text \<open>Handles are numbers, given out in order; a handle at or above \<open>ref_next\<close> is not yet a signal.\<close>

record 'v ref_state =
  ref_ups :: nat
  ref_next :: nat
  ref_sigs :: "nat \<Rightarrow> 'v option"

definition ref_val :: "'w::len word ref_state \<Rightarrow> nat \<Rightarrow> 'w word option" where
  "ref_val s h = (if h < ref_next s then ref_sigs s h else None)"

definition ref_load :: "nat \<Rightarrow> 'w::len word ref_state \<Rightarrow> 'w word" where
  "ref_load h s = (case ref_val s h of None \<Rightarrow> 0 | Some x \<Rightarrow> x)"

definition ref_update :: "nat \<Rightarrow> ('w::len word \<Rightarrow> 'w word) \<Rightarrow> 'w word ref_state \<Rightarrow> 'w word ref_state" where
  "ref_update h f s =
     (case ref_val s h of None \<Rightarrow> s | Some x \<Rightarrow> s\<lparr>ref_sigs := (ref_sigs s)(h \<mapsto> f x)\<rparr>)"

definition ref_start :: "'w::len word ref_state" where
  "ref_start = \<lparr>ref_ups = 0, ref_next = 0, ref_sigs = Map.empty\<rparr>"

definition reference_rt :: "(nat, 'w::len word, 'w word ref_state) hsa_rt" where
  "reference_rt =
    \<lparr>hsa_init = (\<lambda>s. if ref_ups s < 2 ^ 31 - 1
                     then (HSA_STATUS_SUCCESS, s\<lparr>ref_ups := Suc (ref_ups s)\<rparr>) else (HSA_STATUS_OTHER 0, s)),
     hsa_shut_down = (\<lambda>s. if 0 < ref_ups s
                     then (HSA_STATUS_SUCCESS, s\<lparr>ref_ups := ref_ups s - 1\<rparr>) else (HSA_STATUS_OTHER 1, s)),
     hsa_signal_create = (\<lambda>v _ _ s. (HSA_STATUS_SUCCESS, ref_next s,
        s\<lparr>ref_sigs := (ref_sigs s)(ref_next s \<mapsto> v), ref_next := Suc (ref_next s)\<rparr>)),
     hsa_signal_destroy = (\<lambda>h s.
       if ref_val s h = None then (HSA_STATUS_ERROR_INVALID_ARGUMENT, s)
       else (HSA_STATUS_SUCCESS, s\<lparr>ref_sigs := (ref_sigs s)(h := None)\<rparr>)),
     hsa_signal_load = (\<lambda>_ h s. (ref_load h s, s)),
     hsa_signal_store = (\<lambda>_ h v s. ref_update h (\<lambda>_. v) s),
     hsa_signal_exchange = (\<lambda>_ h v s. (ref_load h s, ref_update h (\<lambda>_. v) s)),
     hsa_signal_cas = (\<lambda>_ h e v s. (ref_load h s, ref_update h (\<lambda>x. if x = e then v else x) s)),
     hsa_signal_add = (\<lambda>_ h v s. ref_update h (\<lambda>x. x + v) s),
     hsa_signal_subtract = (\<lambda>_ h v s. ref_update h (\<lambda>x. x - v) s),
     hsa_signal_and = (\<lambda>_ h v s. ref_update h (\<lambda>x. x AND v) s),
     hsa_signal_or = (\<lambda>_ h v s. ref_update h (\<lambda>x. x OR v) s),
     hsa_signal_xor = (\<lambda>_ h v s. ref_update h (\<lambda>x. x XOR v) s)\<rparr>"

lemma ref_load_val: "ref_val s h = Some x \<Longrightarrow> ref_load h s = x"
  by (simp add: ref_load_def)

lemma ref_update_val:
  assumes "ref_val s h = Some x"
  shows "ref_ups (ref_update h f s) = ref_ups s" "ref_val (ref_update h f s) = (ref_val s)(h \<mapsto> f x)"
  using assms by (auto simp: ref_update_def ref_val_def split: if_splits)

interpretation reference: signal_runtime reference_rt ref_ups ref_val
proof unfold_locales
  fix s s' :: "'w::len word ref_state" and h h' v x st
  assume "hsa_signal_create reference_rt v 0 [] s = (st, h, s')"
  then show "st = HSA_STATUS_SUCCESS \<and> ref_val s h = None \<and> ref_ups s' = ref_ups s \<and>
      ref_val s' = (ref_val s)(h \<mapsto> v)"
    by (auto simp: reference_rt_def ref_val_def)
next
  fix s s' :: "'w::len word ref_state" and h x st
  assume "ref_val s h = Some x" "hsa_signal_destroy reference_rt h s = (st, s')"
  then show "st = HSA_STATUS_SUCCESS \<and> ref_ups s' = ref_ups s \<and> ref_val s' = (ref_val s)(h := None)"
    by (auto simp: reference_rt_def ref_val_def split: if_splits)
qed (auto simp: reference_rt_def ref_load_val ref_update_val ref_val_def)

end
