(* ===== verification/Signal_Update_Basic.thy ===== *)
theory Signal_Update_Basic
  imports Signal_Runtime
begin

text \<open>
  \<open>core/signals/test_signal_update_basic.c\<close>: every operation in every memory order on one signal of
  one thread, with the value loaded after each.
\<close>

definition hsa_signal_store_update_basic :: "('h, 'w::len word, 's) hsa_rt \<Rightarrow> 's \<Rightarrow> 's option" where
  "hsa_signal_store_update_basic rt s = do {
     let (status, signal, s) = hsa_signal_create rt 0 0 [] s;
     ASSERT (HSA_STATUS_SUCCESS = status);
     let s = hsa_signal_store rt Release signal 1 s;
     let (value, s) = hsa_signal_load rt Relaxed signal s;
     ASSERT (1 = value);
     let s = hsa_signal_store rt Relaxed signal 0 s;
     let (value, s) = hsa_signal_load rt Relaxed signal s;
     ASSERT (0 = value);
     let (status, s) = hsa_signal_destroy rt signal s;
     ASSERT (HSA_STATUS_SUCCESS = status);
     Some s
   }"

definition hsa_signal_exchange_update_basic :: "('h, 'w::len word, 's) hsa_rt \<Rightarrow> 's \<Rightarrow> 's option" where
  "hsa_signal_exchange_update_basic rt s = do {
     let (status, signal, s) = hsa_signal_create rt 0 0 [] s;
     ASSERT (HSA_STATUS_SUCCESS = status);
     let (value, s) = hsa_signal_exchange rt Acquire signal 1 s;
     ASSERT (0 = value);
     let (value, s) = hsa_signal_load rt Relaxed signal s;
     ASSERT (1 = value);
     let (value, s) = hsa_signal_exchange rt Acq_rel signal 0 s;
     ASSERT (1 = value);
     let (value, s) = hsa_signal_load rt Relaxed signal s;
     ASSERT (0 = value);
     let (value, s) = hsa_signal_exchange rt Release signal 1 s;
     ASSERT (0 = value);
     let (value, s) = hsa_signal_load rt Relaxed signal s;
     ASSERT (1 = value);
     let (value, s) = hsa_signal_exchange rt Relaxed signal 0 s;
     ASSERT (1 = value);
     let (value, s) = hsa_signal_load rt Relaxed signal s;
     ASSERT (0 = value);
     let (status, s) = hsa_signal_destroy rt signal s;
     ASSERT (HSA_STATUS_SUCCESS = status);
     Some s
   }"

definition hsa_signal_cas_update_basic :: "('h, 'w::len word, 's) hsa_rt \<Rightarrow> 's \<Rightarrow> 's option" where
  "hsa_signal_cas_update_basic rt s = do {
     let (status, signal, s) = hsa_signal_create rt 0 0 [] s;
     ASSERT (HSA_STATUS_SUCCESS = status);
     let (value, s) = hsa_signal_cas rt Acquire signal 0 1 s;
     ASSERT (0 = value);
     let (value, s) = hsa_signal_load rt Relaxed signal s;
     ASSERT (1 = value);
     let (value, s) = hsa_signal_cas rt Acq_rel signal 1 0 s;
     ASSERT (1 = value);
     let (value, s) = hsa_signal_load rt Relaxed signal s;
     ASSERT (0 = value);
     let (value, s) = hsa_signal_cas rt Release signal 0 1 s;
     ASSERT (0 = value);
     let (value, s) = hsa_signal_load rt Relaxed signal s;
     ASSERT (1 = value);
     let (value, s) = hsa_signal_cas rt Relaxed signal 1 0 s;
     ASSERT (1 = value);
     let (value, s) = hsa_signal_load rt Relaxed signal s;
     ASSERT (0 = value);
     let (status, s) = hsa_signal_destroy rt signal s;
     ASSERT (HSA_STATUS_SUCCESS = status);
     Some s
   }"

definition hsa_signal_add_update_basic :: "('h, 'w::len word, 's) hsa_rt \<Rightarrow> 's \<Rightarrow> 's option" where
  "hsa_signal_add_update_basic rt s = do {
     let (status, signal, s) = hsa_signal_create rt 0 0 [] s;
     ASSERT (HSA_STATUS_SUCCESS = status);
     let s = hsa_signal_add rt Acquire signal 1 s;
     let (value, s) = hsa_signal_load rt Relaxed signal s;
     ASSERT (1 = value);
     let s = hsa_signal_add rt Acq_rel signal 1 s;
     let (value, s) = hsa_signal_load rt Relaxed signal s;
     ASSERT (2 = value);
     let s = hsa_signal_add rt Release signal 1 s;
     let (value, s) = hsa_signal_load rt Relaxed signal s;
     ASSERT (3 = value);
     let s = hsa_signal_add rt Relaxed signal 1 s;
     let (value, s) = hsa_signal_load rt Relaxed signal s;
     ASSERT (4 = value);
     let (status, s) = hsa_signal_destroy rt signal s;
     ASSERT (HSA_STATUS_SUCCESS = status);
     Some s
   }"

definition hsa_signal_subtract_update_basic :: "('h, 'w::len word, 's) hsa_rt \<Rightarrow> 's \<Rightarrow> 's option" where
  "hsa_signal_subtract_update_basic rt s = do {
     let (status, signal, s) = hsa_signal_create rt 4 0 [] s;
     ASSERT (HSA_STATUS_SUCCESS = status);
     let s = hsa_signal_subtract rt Acquire signal 1 s;
     let (value, s) = hsa_signal_load rt Relaxed signal s;
     ASSERT (3 = value);
     let s = hsa_signal_subtract rt Acq_rel signal 1 s;
     let (value, s) = hsa_signal_load rt Relaxed signal s;
     ASSERT (2 = value);
     let s = hsa_signal_subtract rt Release signal 1 s;
     let (value, s) = hsa_signal_load rt Relaxed signal s;
     ASSERT (1 = value);
     let s = hsa_signal_subtract rt Relaxed signal 1 s;
     let (value, s) = hsa_signal_load rt Relaxed signal s;
     ASSERT (0 = value);
     let (status, s) = hsa_signal_destroy rt signal s;
     ASSERT (HSA_STATUS_SUCCESS = status);
     Some s
   }"

definition hsa_signal_and_update_basic :: "('h, 'w::len word, 's) hsa_rt \<Rightarrow> 's \<Rightarrow> 's option" where
  "hsa_signal_and_update_basic rt s = do {
     let (status, signal, s) = hsa_signal_create rt 0x1111 0 [] s;
     ASSERT (HSA_STATUS_SUCCESS = status);
     let s = hsa_signal_and rt Acquire signal 0x0111 s;
     let (value, s) = hsa_signal_load rt Relaxed signal s;
     ASSERT (0x0111 = value);
     let s = hsa_signal_and rt Acq_rel signal 0x0011 s;
     let (value, s) = hsa_signal_load rt Relaxed signal s;
     ASSERT (0x0011 = value);
     let s = hsa_signal_and rt Release signal 0x0001 s;
     let (value, s) = hsa_signal_load rt Relaxed signal s;
     ASSERT (0x0001 = value);
     let s = hsa_signal_and rt Relaxed signal 0x0000 s;
     let (value, s) = hsa_signal_load rt Relaxed signal s;
     ASSERT (0x0000 = value);
     let (status, s) = hsa_signal_destroy rt signal s;
     ASSERT (HSA_STATUS_SUCCESS = status);
     Some s
   }"

definition hsa_signal_or_update_basic :: "('h, 'w::len word, 's) hsa_rt \<Rightarrow> 's \<Rightarrow> 's option" where
  "hsa_signal_or_update_basic rt s = do {
     let (status, signal, s) = hsa_signal_create rt 0x0000 0 [] s;
     ASSERT (HSA_STATUS_SUCCESS = status);
     let s = hsa_signal_or rt Acquire signal 0x0001 s;
     let (value, s) = hsa_signal_load rt Relaxed signal s;
     ASSERT (0x0001 = value);
     let s = hsa_signal_or rt Acq_rel signal 0x0010 s;
     let (value, s) = hsa_signal_load rt Relaxed signal s;
     ASSERT (0x0011 = value);
     let s = hsa_signal_or rt Release signal 0x0100 s;
     let (value, s) = hsa_signal_load rt Relaxed signal s;
     ASSERT (0x0111 = value);
     let s = hsa_signal_or rt Relaxed signal 0x1000 s;
     let (value, s) = hsa_signal_load rt Relaxed signal s;
     ASSERT (0x1111 = value);
     let (status, s) = hsa_signal_destroy rt signal s;
     ASSERT (HSA_STATUS_SUCCESS = status);
     Some s
   }"

definition hsa_signal_xor_update_basic :: "('h, 'w::len word, 's) hsa_rt \<Rightarrow> 's \<Rightarrow> 's option" where
  "hsa_signal_xor_update_basic rt s = do {
     let (status, signal, s) = hsa_signal_create rt 0x0000 0 [] s;
     ASSERT (HSA_STATUS_SUCCESS = status);
     let s = hsa_signal_xor rt Acquire signal 0x0001 s;
     let (value, s) = hsa_signal_load rt Relaxed signal s;
     ASSERT (0x0001 = value);
     let s = hsa_signal_xor rt Acq_rel signal 0x0010 s;
     let (value, s) = hsa_signal_load rt Relaxed signal s;
     ASSERT (0x0011 = value);
     let s = hsa_signal_xor rt Release signal 0x0100 s;
     let (value, s) = hsa_signal_load rt Relaxed signal s;
     ASSERT (0x0111 = value);
     let s = hsa_signal_xor rt Relaxed signal 0x1000 s;
     let (value, s) = hsa_signal_load rt Relaxed signal s;
     ASSERT (0x1111 = value);
     let (status, s) = hsa_signal_destroy rt signal s;
     ASSERT (HSA_STATUS_SUCCESS = status);
     Some s
   }"

definition test_signal_update_basic :: "('h, 'w::len word, 's) hsa_rt \<Rightarrow> 's \<Rightarrow> (nat \<times> 's) option" where
  "test_signal_update_basic rt s = do {
     let (status, s) = hsa_init rt s;
     ASSERT (HSA_STATUS_SUCCESS = status);
     s \<leftarrow> hsa_signal_store_update_basic rt s;
     s \<leftarrow> hsa_signal_exchange_update_basic rt s;
     s \<leftarrow> hsa_signal_cas_update_basic rt s;
     s \<leftarrow> hsa_signal_add_update_basic rt s;
     s \<leftarrow> hsa_signal_subtract_update_basic rt s;
     s \<leftarrow> hsa_signal_and_update_basic rt s;
     s \<leftarrow> hsa_signal_or_update_basic rt s;
     s \<leftarrow> hsa_signal_xor_update_basic rt s;
     let (status, s) = hsa_shut_down rt s;
     ASSERT (HSA_STATUS_SUCCESS = status);
     Some (0, s)
   }"

context signal_runtime
begin

text \<open>Each function finds the values it expects and leaves the signals as they were.\<close>

lemma store_update_basic:
  assumes "0 < ups s"
  shows "passes (hsa_signal_store_update_basic rt s) (\<lambda>s'. ups s' = ups s \<and> val s' = val s)"
  unfolding hsa_signal_store_update_basic_def using assms
  by - (rule wp wp_signal | simp add: fun_upd_idem)+

lemma exchange_update_basic:
  assumes "0 < ups s"
  shows "passes (hsa_signal_exchange_update_basic rt s) (\<lambda>s'. ups s' = ups s \<and> val s' = val s)"
  unfolding hsa_signal_exchange_update_basic_def using assms
  by - (rule wp wp_signal | simp add: fun_upd_idem)+

lemma cas_update_basic:
  assumes "0 < ups s"
  shows "passes (hsa_signal_cas_update_basic rt s) (\<lambda>s'. ups s' = ups s \<and> val s' = val s)"
  unfolding hsa_signal_cas_update_basic_def using assms
  by - (rule wp wp_signal | simp add: fun_upd_idem)+

lemma add_update_basic:
  assumes "0 < ups s"
  shows "passes (hsa_signal_add_update_basic rt s) (\<lambda>s'. ups s' = ups s \<and> val s' = val s)"
  unfolding hsa_signal_add_update_basic_def using assms
  by - (rule wp wp_signal | simp add: fun_upd_idem)+

lemma subtract_update_basic:
  assumes "0 < ups s"
  shows "passes (hsa_signal_subtract_update_basic rt s) (\<lambda>s'. ups s' = ups s \<and> val s' = val s)"
  unfolding hsa_signal_subtract_update_basic_def using assms
  by - (rule wp wp_signal | simp add: fun_upd_idem)+

lemma and_update_basic:
  assumes "0 < ups s"
  shows "passes (hsa_signal_and_update_basic rt s) (\<lambda>s'. ups s' = ups s \<and> val s' = val s)"
  unfolding hsa_signal_and_update_basic_def using assms
  by - (rule wp wp_signal | simp add: fun_upd_idem)+

lemma or_update_basic:
  assumes "0 < ups s"
  shows "passes (hsa_signal_or_update_basic rt s) (\<lambda>s'. ups s' = ups s \<and> val s' = val s)"
  unfolding hsa_signal_or_update_basic_def using assms
  by - (rule wp wp_signal | simp add: fun_upd_idem)+

lemma xor_update_basic:
  assumes "0 < ups s"
  shows "passes (hsa_signal_xor_update_basic rt s) (\<lambda>s'. ups s' = ups s \<and> val s' = val s)"
  unfolding hsa_signal_xor_update_basic_def using assms
  by - (rule wp wp_signal | simp add: fun_upd_idem)+

lemmas update_basic =
  store_update_basic exchange_update_basic cas_update_basic add_update_basic
  subtract_update_basic and_update_basic or_update_basic xor_update_basic

lemma update_basic_restored:
  assumes "ups s < 2 ^ 31 - 1"
  shows "passes (test_signal_update_basic rt s) (\<lambda>(r, s'). r = 0 \<and> restored ups val s s')"
  unfolding test_signal_update_basic_def using assms
  by - (rule wp wp_signal update_basic [THEN wp_seq] | (elim conjE)?, simp add: restored_def)+

end

text \<open>
  C13.  \<open>test_signal_update_basic\<close> passes on every conforming runtime, in both machine models: no
  assertion fails, 0 is returned, the runtime is shut down as often as it was initialised, and the signals
  that existed are unchanged.
\<close>

theorem update_basic_passes:
  assumes "signal_runtime rt ups val" "ups s < 2 ^ 31 - 1"
  shows "passes (test_signal_update_basic rt s) (\<lambda>(r, s'). r = 0 \<and> restored ups val s s')"
  using assms by (rule signal_runtime.update_basic_restored)

theorem update_basic_passes_witness:
  "passes (test_signal_update_basic reference_rt (ref_start :: 64 word ref_state))
     (\<lambda>(r, s'). r = 0 \<and> restored ref_ups ref_val ref_start s')"
  by (rule update_basic_passes [OF reference.signal_runtime_axioms]) (simp add: ref_start_def)

end
