(* ===== verification/Signal_Rounds.thy ===== *)
theory Signal_Rounds
  imports Signal_Runtime
begin

text \<open>
  What the tests of the signal operations by several threads share: the constants of
  \<open>core/signals/config.h\<close> and the shape of their main loops.

  A round, \<open>test_group_start\<close> followed by \<open>test_group_wait\<close>, is \<open>test_group_round\<close>: the tests take the
  order of execution of each of their rounds as an argument \<open>sched\<close>, and their theorems hold for
  every \<open>sched\<close>.  Creating and joining the threads has no effect on the signals.
\<close>

definition OP_COUNT :: nat where "OP_COUNT = 1024"

definition TEST_COUNT :: nat where "TEST_COUNT = 10"

definition GROUP_SIZE :: "'w::len word" where "GROUP_SIZE = 4"

text \<open>The parameters of a thread; some tests have further fields.\<close>

record 'h param =
  signal_handle :: 'h
  num :: int

context signal_runtime
begin

text \<open>A loop whose body leaves reference count and signals as it finds them.\<close>

lemma wp_rounds:
  assumes body: "\<And>ii s'. ups s' = ups s \<Longrightarrow> val s' = val s \<Longrightarrow>
      passes (f ii s') (\<lambda>s''. ups s'' = ups s \<and> val s'' = val s)"
    and k: "\<And>s'. ups s' = ups s \<Longrightarrow> val s' = val s \<Longrightarrow> passes (k s') P"
  shows "passes (for_loop i n f s \<bind> k) P"
  by (rule for_loop_invariant [where Inv = "\<lambda>s'. ups s' = ups s \<and> val s' = val s"])
    (use assms in auto)

end

end
