(* ===== verification/Signal_Atomic_Masks.thy ===== *)
theory Signal_Atomic_Masks
  imports Signal_Rounds
begin

text \<open>
  \<open>core/signals/test_signal_and_atomic.c\<close> and \<open>test_signal_or_atomic.c\<close>: four threads clear, or
  set, every bit of a signal with masks that they shift by 16 bits.  Each file has its thread function
  and its test four times, once for each memory order; the models share the repeated text.
\<close>

text \<open>A loop that applies \<open>f\<close> to \<open>n\<close> masks, from \<open>v\<close> on, each obtained from the last by \<open>shift\<close>.\<close>

fun mask_loop :: "nat \<Rightarrow> ('v \<Rightarrow> 'a) \<Rightarrow> ('v \<Rightarrow> 'v) \<Rightarrow> 'v \<Rightarrow> 'a list" where
  "mask_loop 0 f shift v = []"
| "mask_loop (Suc n) f shift v = f v # mask_loop n f shift (shift v)"

lemma map_mask_loop: "map g (mask_loop n f shift v) = mask_loop n (\<lambda>v. g (f v)) shift v"
  by (induction n arbitrary: v) auto

lemma mask_loop_numeral [simp]:
  "mask_loop (numeral n) f shift v = f v # mask_loop (pred_numeral n) f shift (shift v)"
  by (simp add: numeral_eq_Suc)

subsection \<open>AND\<close>

text \<open>
  The thread functions differ in the memory order \<open>r\<close>.  Thread 0 has an order of its own in the
  large model: the release variant uses the acquire operation there.
\<close>

definition and_child_func ::
  "('h, 'w::len word, 's) hsa_rt \<Rightarrow> memory_order \<Rightarrow> memory_order \<Rightarrow> 'h param \<Rightarrow> ('s \<Rightarrow> 's) list"
where
  "and_child_func rt r0 r p =
     (let h = signal_handle p;
          right = signed_drop_bit 16;
          left = (\<lambda>v. push_bit 16 v OR 0xffff)
      in
      if num p = 0 then
        (if HSA_LARGE_MODEL TYPE('w)
         then mask_loop 4 (hsa_signal_and rt r0 h) right 0xfff0ffffffffffff
         else mask_loop 2 (hsa_signal_and rt r h) right 0xfff0ffff)
      else if num p = 1 then
        (if HSA_LARGE_MODEL TYPE('w)
         then mask_loop 4 (hsa_signal_and rt r h) right 0xff0fffffffffffff
         else mask_loop 2 (hsa_signal_and rt r h) right 0xff0fffff)
      else if num p = 2 then
        (if HSA_LARGE_MODEL TYPE('w)
         then mask_loop 4 (hsa_signal_and rt r h) right 0xf0ffffffffffffff
         else mask_loop 2 (hsa_signal_and rt r h) right 0xf0ffffff)
      else if num p = 3 then
        (if HSA_LARGE_MODEL TYPE('w)
         then mask_loop 4 (hsa_signal_and rt r h) left 0xffffffffffff0fff
         else mask_loop 2 (hsa_signal_and rt r h) left 0xffff0fff)
      else [])"

definition and_child_func_acquire where
  "and_child_func_acquire rt p = and_child_func rt Acquire Acquire p"

definition and_child_func_release where
  "and_child_func_release rt p = and_child_func rt Acquire Release p"

definition and_child_func_relaxed where
  "and_child_func_relaxed rt p = and_child_func rt Relaxed Relaxed p"

definition and_child_func_acq_rel where
  "and_child_func_acq_rel rt p = and_child_func rt Acq_rel Acq_rel p"

definition signal_and_atomic ::
  "('h, 'w::len word, 's) hsa_rt \<Rightarrow> ('h param \<Rightarrow> ('s \<Rightarrow> 's) list) \<Rightarrow> (nat \<Rightarrow> nat list) \<Rightarrow> 's \<Rightarrow> (nat \<times> 's) option"
where
  "signal_and_atomic rt child_func sched s = do {
     let (status, s) = hsa_init rt s;
     ASSERT (HSA_STATUS_SUCCESS = status);
     let (status, h, s) = hsa_signal_create rt (-1) 0 [] s;
     ASSERT (HSA_STATUS_SUCCESS = status);
     let param_ptr = map (\<lambda>ii. \<lparr>signal_handle = h, num = int ii\<rparr>) [0..<4];
     g \<leftarrow> for_loop 0 4 (\<lambda>ii g. test_group_add g child_func (param_ptr ! ii) 1) (test_group_create 4);
     s \<leftarrow> for_loop 0 OP_COUNT (\<lambda>ii s. do {
       let s = test_group_round (sched ii) g s;
       let (loaded_value, s) = hsa_signal_load rt Relaxed h s;
       let s = hsa_signal_store rt Release h (-1) s;
       ASSERT (0 = loaded_value);
       Some s
     }) s;
     let (status, s) = hsa_signal_destroy rt h s;
     ASSERT (HSA_STATUS_SUCCESS = status);
     let (status, s) = hsa_shut_down rt s;
     ASSERT (HSA_STATUS_SUCCESS = status);
     Some (0, s)
   }"

definition test_signal_and_atomic_acquire where
  "test_signal_and_atomic_acquire rt sched s = signal_and_atomic rt (and_child_func_acquire rt) sched s"

definition test_signal_and_atomic_release where
  "test_signal_and_atomic_release rt sched s = signal_and_atomic rt (and_child_func_release rt) sched s"

definition test_signal_and_atomic_relaxed where
  "test_signal_and_atomic_relaxed rt sched s = signal_and_atomic rt (and_child_func_relaxed rt) sched s"

definition test_signal_and_atomic_acq_rel where
  "test_signal_and_atomic_acq_rel rt sched s = signal_and_atomic rt (and_child_func_acq_rel rt) sched s"

text \<open>What the four threads do: their masks, each with the memory order of its operation.\<close>

definition and_masks :: "memory_order \<Rightarrow> memory_order \<Rightarrow> (memory_order \<times> 'w::len word) list list" where
  "and_masks r0 r =
     (let right = signed_drop_bit 16; left = (\<lambda>v. push_bit 16 v OR 0xffff) in
      if HSA_LARGE_MODEL TYPE('w)
      then [mask_loop 4 (Pair r0) right 0xfff0ffffffffffff, mask_loop 4 (Pair r) right 0xff0fffffffffffff,
            mask_loop 4 (Pair r) right 0xf0ffffffffffffff, mask_loop 4 (Pair r) left 0xffffffffffff0fff]
      else [mask_loop 2 (Pair r) right 0xfff0ffff, mask_loop 2 (Pair r) right 0xff0fffff,
            mask_loop 2 (Pair r) right 0xf0ffffff, mask_loop 2 (Pair r) left 0xffff0fff])"

lemma and_bodies:
  "map (and_child_func rt r0 r) (map (\<lambda>ii. \<lparr>signal_handle = h, num = int ii\<rparr>) [0..<4]) =
   map (map (\<lambda>l. hsa_signal_and rt (fst l) h (snd l))) (and_masks r0 r)"
  by (simp add: upt_rec and_child_func_def and_masks_def map_mask_loop Let_def)

text \<open>Together they clear every bit.\<close>

lemma and_masks_clear:
  "fold (\<lambda>l y. y AND snd l) (concat (and_masks r0 r)) (-1 :: 64 word) = 0"
  "fold (\<lambda>l y. y AND snd l) (concat (and_masks r0 r)) (-1 :: 32 word) = 0"
  by (simp_all add: and_masks_def)

subsection \<open>OR\<close>

text \<open>
  In the small model the release variant calls \<open>hsa_signal_or_rlease\<close>, which \<open>hsa.h\<close> does not declare; it is
  the argument \<open>rlease\<close> of the model.  The other variants have their own operation there.
\<close>

definition or_child_func ::
  "('h, 'w::len word, 's) hsa_rt \<Rightarrow> ('h \<Rightarrow> 'w word \<Rightarrow> 's \<Rightarrow> 's) \<Rightarrow> memory_order \<Rightarrow> 'h param \<Rightarrow> ('s \<Rightarrow> 's) list"
where
  "or_child_func rt op0 r p =
     (let h = signal_handle p; left = push_bit 16 in
      if num p = 0 then
        (if HSA_LARGE_MODEL TYPE('w)
         then mask_loop 4 (hsa_signal_or rt r h) left 0x000000000000000f
         else mask_loop 2 (op0 h) left 0x0000fff0)
      else if num p = 1 then
        (if HSA_LARGE_MODEL TYPE('w)
         then mask_loop 4 (hsa_signal_or rt r h) left 0x00000000000000f0
         else mask_loop 2 (hsa_signal_or rt r h) left 0x000000f0)
      else if num p = 2 then
        (if HSA_LARGE_MODEL TYPE('w)
         then mask_loop 4 (hsa_signal_or rt r h) left 0x0000000000000f00
         else mask_loop 2 (hsa_signal_or rt r h) left 0x00000f00)
      else if num p = 3 then
        (if HSA_LARGE_MODEL TYPE('w)
         then mask_loop 4 (hsa_signal_or rt r h) left 0x000000000000f000
         else mask_loop 2 (hsa_signal_or rt r h) left 0xffff0fff)
      else [])"

definition or_child_func_acquire where
  "or_child_func_acquire rt p = or_child_func rt (hsa_signal_or rt Acquire) Acquire p"

definition or_child_func_release where
  "or_child_func_release rt rlease p = or_child_func rt rlease Release p"

definition or_child_func_relaxed where
  "or_child_func_relaxed rt p = or_child_func rt (hsa_signal_or rt Relaxed) Relaxed p"

definition or_child_func_acq_rel where
  "or_child_func_acq_rel rt p = or_child_func rt (hsa_signal_or rt Acq_rel) Acq_rel p"

definition signal_or_atomic ::
  "('h, 'w::len word, 's) hsa_rt \<Rightarrow> ('h param \<Rightarrow> ('s \<Rightarrow> 's) list) \<Rightarrow> (nat \<Rightarrow> nat list) \<Rightarrow> 's \<Rightarrow> (nat \<times> 's) option"
where
  "signal_or_atomic rt child_func sched s = do {
     let (status, s) = hsa_init rt s;
     ASSERT (HSA_STATUS_SUCCESS = status);
     let (status, h, s) = hsa_signal_create rt 0 0 [] s;
     ASSERT (HSA_STATUS_SUCCESS = status);
     let param_ptr = map (\<lambda>ii. \<lparr>signal_handle = h, num = int ii\<rparr>) [0..<4];
     g \<leftarrow> for_loop 0 4 (\<lambda>ii g. test_group_add g child_func (param_ptr ! ii) 1) (test_group_create 4);
     s \<leftarrow> for_loop 0 OP_COUNT (\<lambda>ii s. do {
       let s = test_group_round (sched ii) g s;
       let (loaded_value, s) = hsa_signal_load rt Relaxed h s;
       let s = hsa_signal_store rt Release h 0 s;
       ASSERT (-1 = loaded_value);
       Some s
     }) s;
     let (status, s) = hsa_signal_destroy rt h s;
     ASSERT (HSA_STATUS_SUCCESS = status);
     let (status, s) = hsa_shut_down rt s;
     ASSERT (HSA_STATUS_SUCCESS = status);
     Some (0, s)
   }"

definition test_signal_or_atomic_acquire where
  "test_signal_or_atomic_acquire rt sched s = signal_or_atomic rt (or_child_func_acquire rt) sched s"

definition test_signal_or_atomic_release where
  "test_signal_or_atomic_release rt rlease sched s =
     signal_or_atomic rt (or_child_func_release rt rlease) sched s"

definition test_signal_or_atomic_relaxed where
  "test_signal_or_atomic_relaxed rt sched s = signal_or_atomic rt (or_child_func_relaxed rt) sched s"

definition test_signal_or_atomic_acq_rel where
  "test_signal_or_atomic_acq_rel rt sched s = signal_or_atomic rt (or_child_func_acq_rel rt) sched s"

definition or_masks :: "memory_order \<Rightarrow> (memory_order \<times> 'w::len word) list list" where
  "or_masks r =
     (let left = push_bit 16 in
      if HSA_LARGE_MODEL TYPE('w)
      then [mask_loop 4 (Pair r) left 0xf, mask_loop 4 (Pair r) left 0xf0,
            mask_loop 4 (Pair r) left 0xf00, mask_loop 4 (Pair r) left 0xf000]
      else [mask_loop 2 (Pair r) left 0xfff0, mask_loop 2 (Pair r) left 0xf0,
            mask_loop 2 (Pair r) left 0xf00, mask_loop 2 (Pair r) left 0xffff0fff])"

lemma or_bodies:
  fixes rt :: "('h, 'w::len word, 's) hsa_rt"
  assumes "HSA_LARGE_MODEL TYPE('w) \<or> op0 = hsa_signal_or rt r"
  shows "map (or_child_func rt op0 r) (map (\<lambda>ii. \<lparr>signal_handle = h, num = int ii\<rparr>) [0..<4]) =
   map (map (\<lambda>l. hsa_signal_or rt (fst l) h (snd l))) (or_masks r)"
  using assms by (auto simp add: upt_rec or_child_func_def or_masks_def map_mask_loop Let_def)

lemma or_masks_set:
  "fold (\<lambda>l y. y OR snd l) (concat (or_masks r)) (0 :: 64 word) = -1"
  "fold (\<lambda>l y. y OR snd l) (concat (or_masks r)) (0 :: 32 word) = -1"
  by (simp_all add: or_masks_def)

context signal_runtime
begin

lemma signal_and_atomic_passes:
  assumes "fold (\<lambda>l y. y AND snd l) (concat (and_masks r0 r)) (- 1) = (0 :: 'w word)"
    and "ups s < 2 ^ 31 - 1"
  shows "passes (signal_and_atomic rt (and_child_func rt r0 r) sched s)
    (\<lambda>(r, s'). r = 0 \<and> restored ups val s s')"
proof -
  have body: "passes (let s = test_group_round (sched ii) g s;
                (loaded_value, s) = hsa_signal_load rt Relaxed h s;
                s = hsa_signal_store rt Release h (- 1) s
              in ASSERT (0 = loaded_value) \<bind> (\<lambda>_. Some s))
      (\<lambda>s''. ups s'' = u \<and> val s'' = v)"
    if "ups s = u" "val s = v" "0 < u" "v h = Some (- 1)" and bodies: "group_bodies g = map (map (\<lambda>l. hsa_signal_and rt (fst l) h (snd l))) (and_masks r0 r)"
    for s h g ii u v
    using that assms(1)
    by - (rule wp wp_signal wp_round [OF _ _ bodies, where upd = "\<lambda>l y. y AND snd l"] |
        (simp add: and_op ac_simps fun_upd_idem; fail))+
  show ?thesis
    unfolding signal_and_atomic_def using assms
    by - (rule wp wp_signal wp_rounds wp_param_ptr wp_add_params body |
        (simp add: and_bodies [symmetric] restored_def fun_upd_idem del: map_map; fail))+
qed

lemma signal_or_atomic_passes:
  assumes "fold (\<lambda>l y. y OR snd l) (concat (or_masks r)) 0 = (- 1 :: 'w word)"
    and "ups s < 2 ^ 31 - 1" and op0: "HSA_LARGE_MODEL TYPE('w) \<or> op0 = hsa_signal_or rt r"
  shows "passes (signal_or_atomic rt (or_child_func rt op0 r) sched s)
    (\<lambda>(r, s'). r = 0 \<and> restored ups val s s')"
proof -
  have body: "passes (let s = test_group_round (sched ii) g s;
                (loaded_value, s) = hsa_signal_load rt Relaxed h s;
                s = hsa_signal_store rt Release h 0 s
              in ASSERT (- 1 = loaded_value) \<bind> (\<lambda>_. Some s))
      (\<lambda>s''. ups s'' = u \<and> val s'' = v)"
    if "ups s = u" "val s = v" "0 < u" "v h = Some 0" and bodies: "group_bodies g = map (map (\<lambda>l. hsa_signal_or rt (fst l) h (snd l))) (or_masks r)"
    for s h g ii u v
    using that assms(1)
    by - (rule wp wp_signal wp_round [OF _ _ bodies, where upd = "\<lambda>l y. y OR snd l"] |
        (simp add: or_op ac_simps fun_upd_idem; fail))+
  show ?thesis
    unfolding signal_or_atomic_def using assms(1,2)
    by - (rule wp wp_signal wp_rounds wp_param_ptr wp_add_params body |
        (simp add: or_bodies [OF op0, symmetric] restored_def fun_upd_idem del: map_map; fail))+
qed

end

subsection \<open>The tests pass\<close>

lemmas and_atomic_defs =
  test_signal_and_atomic_acquire_def and_child_func_acquire_def [abs_def]
  test_signal_and_atomic_release_def and_child_func_release_def [abs_def]
  test_signal_and_atomic_relaxed_def and_child_func_relaxed_def [abs_def]
  test_signal_and_atomic_acq_rel_def and_child_func_acq_rel_def [abs_def]

lemmas or_atomic_defs =
  test_signal_or_atomic_acquire_def or_child_func_acquire_def [abs_def]
  test_signal_or_atomic_release_def or_child_func_release_def [abs_def]
  test_signal_or_atomic_relaxed_def or_child_func_relaxed_def [abs_def]
  test_signal_or_atomic_acq_rel_def or_child_func_acq_rel_def [abs_def]

text \<open>
  C9.  In the large machine model (\<open>64 word\<close>) the AND test and the OR test pass in all four memory orders,
  on every conforming runtime and in every order of execution of the threads: every round of the four threads clears (or sets) all
  bits, and the runtime is left as it was.  The argument \<open>rlease\<close> is not used.
\<close>

theorem masks_atomic_pass:
  fixes rt :: "('h, 64 word, 's) hsa_rt"
  assumes "signal_runtime rt ups val" "ups s < 2 ^ 31 - 1"
    and "tst \<in> {test_signal_and_atomic_acquire,
      test_signal_and_atomic_release,
      test_signal_and_atomic_relaxed,
      test_signal_and_atomic_acq_rel,
      test_signal_or_atomic_acquire,
      (\<lambda>rt. test_signal_or_atomic_release rt rlease),
      test_signal_or_atomic_relaxed,
      test_signal_or_atomic_acq_rel}"
  shows "passes (tst rt sched s) (\<lambda>(r, s'). r = 0 \<and> restored ups val s s')"
  using signal_runtime.signal_and_atomic_passes [OF assms(1) and_masks_clear(1) assms(2)]
    signal_runtime.signal_or_atomic_passes [OF assms(1) or_masks_set(1) assms(2)] assms(3)
  by (elim insertE emptyE) (auto simp: and_atomic_defs or_atomic_defs)

theorem masks_atomic_pass_witness:
  "passes (test_signal_or_atomic_acq_rel reference_rt (\<lambda>ii. [3, 1, 2]) (ref_start :: 64 word ref_state))
     (\<lambda>(r, s'). r = 0 \<and> restored ref_ups ref_val ref_start s')"
  by (rule masks_atomic_pass [where tst = test_signal_or_atomic_acq_rel and rlease = "\<lambda>h v s. s", OF reference.signal_runtime_axioms])
    (simp_all add: ref_start_def)

text \<open>
  In the small machine model (\<open>32 word\<close>) they pass as well, but for the release variant of the OR test, which does not link there.
\<close>

theorem masks_atomic_pass_small:
  fixes rt :: "('h, 32 word, 's) hsa_rt"
  assumes "signal_runtime rt ups val" "ups s < 2 ^ 31 - 1"
    and "tst \<in> {test_signal_and_atomic_acquire,
      test_signal_and_atomic_release,
      test_signal_and_atomic_relaxed,
      test_signal_and_atomic_acq_rel,
      test_signal_or_atomic_acquire,
      test_signal_or_atomic_relaxed,
      test_signal_or_atomic_acq_rel}"
  shows "passes (tst rt sched s) (\<lambda>(r, s'). r = 0 \<and> restored ups val s s')"
  using signal_runtime.signal_and_atomic_passes [OF assms(1) and_masks_clear(2) assms(2)]
    signal_runtime.signal_or_atomic_passes [OF assms(1) or_masks_set(2) assms(2)] assms(3)
  by (elim insertE emptyE) (auto simp: and_atomic_defs or_atomic_defs)

theorem masks_atomic_pass_small_witness:
  "passes (test_signal_or_atomic_acq_rel reference_rt (\<lambda>ii. [3, 1, 2]) (ref_start :: 32 word ref_state))
     (\<lambda>(r, s'). r = 0 \<and> restored ref_ups ref_val ref_start s')"
  by (rule masks_atomic_pass_small [where tst = test_signal_or_atomic_acq_rel, OF reference.signal_runtime_axioms]) (simp_all add: ref_start_def)

end
