(* ===== verification/Signal_Atomic_Counts.thy ===== *)
theory Signal_Atomic_Counts
  imports Signal_Rounds
begin

text \<open>
  \<open>core/signals/test_signal_add_atomic.c\<close> and \<open>test_signal_subtract_atomic.c\<close>: each of \<open>GROUP_SIZE\<close> threads
  adds 1 to a signal, or subtracts 1 from it, \<open>OP_COUNT\<close> times.  As before the text that the four variants of a file
  repeat is modelled once.  The data of a thread is a pointer to the handle of the signal.
\<close>

subsection \<open>Add\<close>

definition add_loop :: "('h, 'w::len word, 's) hsa_rt \<Rightarrow> memory_order \<Rightarrow> 'h \<Rightarrow> ('s \<Rightarrow> 's) list" where
  "add_loop rt r h = map (\<lambda>ii. hsa_signal_add rt r h 1) [0..<OP_COUNT]"

definition add_child_func_acquire :: "('h, 'w::len word, 's) hsa_rt \<Rightarrow> 'h \<Rightarrow> ('s \<Rightarrow> 's) list" where
  "add_child_func_acquire rt h = add_loop rt Acquire h"

definition add_child_func_release :: "('h, 'w::len word, 's) hsa_rt \<Rightarrow> 'h \<Rightarrow> ('s \<Rightarrow> 's) list" where
  "add_child_func_release rt h = add_loop rt Release h"

definition add_child_func_relaxed :: "('h, 'w::len word, 's) hsa_rt \<Rightarrow> 'h \<Rightarrow> ('s \<Rightarrow> 's) list" where
  "add_child_func_relaxed rt h = add_loop rt Relaxed h"

definition add_child_func_acq_rel :: "('h, 'w::len word, 's) hsa_rt \<Rightarrow> 'h \<Rightarrow> ('s \<Rightarrow> 's) list" where
  "add_child_func_acq_rel rt h = add_loop rt Acq_rel h"

definition signal_add_atomic ::
  "('h, 'w::len word, 's) hsa_rt \<Rightarrow> ('h \<Rightarrow> ('s \<Rightarrow> 's) list) \<Rightarrow> (nat \<Rightarrow> nat list) \<Rightarrow> 's \<Rightarrow> (nat \<times> 's) option"
where
  "signal_add_atomic rt child_func sched s = do {
     let (status, s) = hsa_init rt s;
     ASSERT (HSA_STATUS_SUCCESS = status);
     let (status, h, s) = hsa_signal_create rt 0 0 [] s;
     ASSERT (HSA_STATUS_SUCCESS = status);
     g \<leftarrow> test_group_add (test_group_create GROUP_SIZE) child_func h GROUP_SIZE;
     s \<leftarrow> for_loop 0 TEST_COUNT (\<lambda>ii s. do {
       let s = test_group_round (sched ii) g s;
       let (loaded_value, s) = hsa_signal_load rt Relaxed h s;
       let s = hsa_signal_store rt Release h 0 s;
       ASSERT (GROUP_SIZE * of_nat OP_COUNT = loaded_value);
       Some s
     }) s;
     let (status, s) = hsa_signal_destroy rt h s;
     ASSERT (HSA_STATUS_SUCCESS = status);
     let (status, s) = hsa_shut_down rt s;
     ASSERT (HSA_STATUS_SUCCESS = status);
     Some (0, s)
   }"

definition test_signal_add_atomic_acquire where
  "test_signal_add_atomic_acquire rt sched s = signal_add_atomic rt (add_child_func_acquire rt) sched s"

definition test_signal_add_atomic_release where
  "test_signal_add_atomic_release rt sched s = signal_add_atomic rt (add_child_func_release rt) sched s"

definition test_signal_add_atomic_relaxed where
  "test_signal_add_atomic_relaxed rt sched s = signal_add_atomic rt (add_child_func_relaxed rt) sched s"

definition test_signal_add_atomic_acq_rel where
  "test_signal_add_atomic_acq_rel rt sched s = signal_add_atomic rt (add_child_func_acq_rel rt) sched s"

subsection \<open>Subtract\<close>

definition subtract_loop :: "('h, 'w::len word, 's) hsa_rt \<Rightarrow> memory_order \<Rightarrow> 'h \<Rightarrow> ('s \<Rightarrow> 's) list" where
  "subtract_loop rt r h = map (\<lambda>ii. hsa_signal_subtract rt r h 1) [0..<OP_COUNT]"

definition subtract_child_func_acquire :: "('h, 'w::len word, 's) hsa_rt \<Rightarrow> 'h \<Rightarrow> ('s \<Rightarrow> 's) list" where
  "subtract_child_func_acquire rt h = subtract_loop rt Acquire h"

definition subtract_child_func_release :: "('h, 'w::len word, 's) hsa_rt \<Rightarrow> 'h \<Rightarrow> ('s \<Rightarrow> 's) list" where
  "subtract_child_func_release rt h = subtract_loop rt Release h"

definition subtract_child_func_relaxed :: "('h, 'w::len word, 's) hsa_rt \<Rightarrow> 'h \<Rightarrow> ('s \<Rightarrow> 's) list" where
  "subtract_child_func_relaxed rt h = subtract_loop rt Relaxed h"

definition subtract_child_func_acq_rel :: "('h, 'w::len word, 's) hsa_rt \<Rightarrow> 'h \<Rightarrow> ('s \<Rightarrow> 's) list" where
  "subtract_child_func_acq_rel rt h = subtract_loop rt Acq_rel h"

definition signal_subtract_atomic ::
  "('h, 'w::len word, 's) hsa_rt \<Rightarrow> ('h \<Rightarrow> ('s \<Rightarrow> 's) list) \<Rightarrow> (nat \<Rightarrow> nat list) \<Rightarrow> 's \<Rightarrow> (nat \<times> 's) option"
where
  "signal_subtract_atomic rt child_func sched s = do {
     let (status, s) = hsa_init rt s;
     ASSERT (HSA_STATUS_SUCCESS = status);
     let (status, h, s) = hsa_signal_create rt (GROUP_SIZE * of_nat OP_COUNT) 0 [] s;
     ASSERT (HSA_STATUS_SUCCESS = status);
     g \<leftarrow> test_group_add (test_group_create GROUP_SIZE) child_func h 4;
     s \<leftarrow> for_loop 0 TEST_COUNT (\<lambda>ii s. do {
       let (loaded_value, s) = hsa_signal_load rt Relaxed h s;
       ASSERT (GROUP_SIZE * of_nat OP_COUNT = loaded_value);
       let s = test_group_round (sched ii) g s;
       let (loaded_value, s) = hsa_signal_load rt Relaxed h s;
       ASSERT (0 = loaded_value);
       let s = hsa_signal_store rt Release h (GROUP_SIZE * of_nat OP_COUNT) s;
       Some s
     }) s;
     let (status, s) = hsa_signal_destroy rt h s;
     ASSERT (HSA_STATUS_SUCCESS = status);
     let (status, s) = hsa_shut_down rt s;
     ASSERT (HSA_STATUS_SUCCESS = status);
     Some (0, s)
   }"

definition test_signal_subtract_atomic_acquire where
  "test_signal_subtract_atomic_acquire rt sched s = signal_subtract_atomic rt (subtract_child_func_acquire rt) sched s"

definition test_signal_subtract_atomic_release where
  "test_signal_subtract_atomic_release rt sched s = signal_subtract_atomic rt (subtract_child_func_release rt) sched s"

definition test_signal_subtract_atomic_relaxed where
  "test_signal_subtract_atomic_relaxed rt sched s = signal_subtract_atomic rt (subtract_child_func_relaxed rt) sched s"

definition test_signal_subtract_atomic_acq_rel where
  "test_signal_subtract_atomic_acq_rel rt sched s = signal_subtract_atomic rt (subtract_child_func_acq_rel rt) sched s"

subsection \<open>The tests pass\<close>

text \<open>The threads of a group as labels: \<open>GROUP_SIZE\<close> times \<open>OP_COUNT\<close> equal actions.\<close>

definition count_labels :: "unit list list" where
  "count_labels = replicate 4 (replicate OP_COUNT ())"

lemma add_bodies: "replicate 4 (add_loop rt r h) = map (map (\<lambda>_. hsa_signal_add rt r h 1)) count_labels"
  by (simp add: count_labels_def add_loop_def map_replicate_const)

lemma subtract_bodies:
  "replicate 4 (subtract_loop rt r h) = map (map (\<lambda>_. hsa_signal_subtract rt r h 1)) count_labels"
  by (simp add: count_labels_def subtract_loop_def map_replicate_const)

lemma fold_count:
  "fold (\<lambda>_ y. y + 1) us x = x + (of_nat (length us) :: 'w::len word)"
  "fold (\<lambda>_ y. y - 1) us x = x - (of_nat (length us) :: 'w::len word)"
  by (induction us arbitrary: x) (simp_all add: algebra_simps)

lemma length_count_labels: "of_nat (length (concat count_labels)) = (GROUP_SIZE * of_nat OP_COUNT :: 'w::len word)"
  by (simp add: count_labels_def GROUP_SIZE_def length_concat sum_list_replicate)

context signal_runtime
begin

lemma signal_add_atomic_passes:
  assumes "ups s < 2 ^ 31 - 1"
  shows "passes (signal_add_atomic rt (add_loop rt r) sched s) (\<lambda>(r, s'). r = 0 \<and> restored ups val s s')"
proof -
  have body: "passes (do {
       let s = test_group_round (sched ii) g s;
       let (loaded_value, s) = hsa_signal_load rt Relaxed h s;
       let s = hsa_signal_store rt Release h 0 s;
       ASSERT (GROUP_SIZE * of_nat OP_COUNT = loaded_value);
       Some s
     }) (\<lambda>s''. ups s'' = u \<and> val s'' = v)"
    if "ups s = u" "val s = v" "0 < u" "v h = Some 0"
      and bodies: "group_bodies g = map (map (\<lambda>_. hsa_signal_add rt r h 1)) count_labels"
    for s h g ii u v
    using that
    by - (rule wp wp_signal wp_round [OF _ _ bodies, where upd = "\<lambda>_ y. y + 1"] |
        (simp add: add fold_count length_count_labels fun_upd_idem; fail))+
  show ?thesis
    unfolding signal_add_atomic_def GROUP_SIZE_def [where 'w = 64] using assms
    by - (rule body wp wp_signal wp_rounds wp_add_copies |
        (simp add: add_bodies restored_def fun_upd_idem; fail))+
qed

lemma signal_subtract_atomic_passes:
  assumes "ups s < 2 ^ 31 - 1"
  shows "passes (signal_subtract_atomic rt (subtract_loop rt r) sched s) (\<lambda>(r, s'). r = 0 \<and> restored ups val s s')"
proof -
  have body: "passes (do {
       let (loaded_value, s) = hsa_signal_load rt Relaxed h s;
       ASSERT (GROUP_SIZE * of_nat OP_COUNT = loaded_value);
       let s = test_group_round (sched ii) g s;
       let (loaded_value, s) = hsa_signal_load rt Relaxed h s;
       ASSERT (0 = loaded_value);
       let s = hsa_signal_store rt Release h (GROUP_SIZE * of_nat OP_COUNT) s;
       Some s
     }) (\<lambda>s''. ups s'' = u \<and> val s'' = v)"
    if "ups s = u" "val s = v" "0 < u" "v h = Some (GROUP_SIZE * of_nat OP_COUNT)"
      and bodies: "group_bodies g = map (map (\<lambda>_. hsa_signal_subtract rt r h 1)) count_labels"
    for s h g ii u v
    using that
    by - (rule wp wp_signal wp_round [OF _ _ bodies, where upd = "\<lambda>_ y. y - 1"] |
        (simp add: subtract fold_count length_count_labels fun_upd_idem; fail))+
  show ?thesis
    unfolding signal_subtract_atomic_def GROUP_SIZE_def [where 'w = 64] using assms
    by - (rule body wp wp_signal wp_rounds wp_add_copies |
        (simp add: subtract_bodies restored_def fun_upd_idem; fail))+
qed

end

lemmas add_atomic_defs =
  test_signal_add_atomic_acquire_def add_child_func_acquire_def [abs_def]
  test_signal_add_atomic_release_def add_child_func_release_def [abs_def]
  test_signal_add_atomic_relaxed_def add_child_func_relaxed_def [abs_def]
  test_signal_add_atomic_acq_rel_def add_child_func_acq_rel_def [abs_def]

lemmas subtract_atomic_defs =
  test_signal_subtract_atomic_acquire_def subtract_child_func_acquire_def [abs_def]
  test_signal_subtract_atomic_release_def subtract_child_func_release_def [abs_def]
  test_signal_subtract_atomic_relaxed_def subtract_child_func_relaxed_def [abs_def]
  test_signal_subtract_atomic_acq_rel_def subtract_child_func_acq_rel_def [abs_def]

text \<open>
  C10.  The four add tests and the four subtract tests pass, in both machine models, on every conforming runtime and in every order of
  execution of the threads: no update is lost, and the runtime is left as it was.
\<close>

theorem counts_atomic_pass:
  fixes rt :: "('h, 'w::len word, 's) hsa_rt"
  assumes "signal_runtime rt ups val" "ups s < 2 ^ 31 - 1"
    and "tst \<in> {test_signal_add_atomic_acquire,
      test_signal_add_atomic_release,
      test_signal_add_atomic_relaxed,
      test_signal_add_atomic_acq_rel,
      test_signal_subtract_atomic_acquire,
      test_signal_subtract_atomic_release,
      test_signal_subtract_atomic_relaxed,
      test_signal_subtract_atomic_acq_rel}"
  shows "passes (tst rt sched s) (\<lambda>(r, s'). r = 0 \<and> restored ups val s s')"
  using signal_runtime.signal_add_atomic_passes [OF assms(1,2)]
    signal_runtime.signal_subtract_atomic_passes [OF assms(1,2)] assms(3)
  by (auto simp: add_atomic_defs subtract_atomic_defs)

theorem counts_atomic_pass_witness:
  "passes (test_signal_subtract_atomic_release reference_rt (\<lambda>ii. [3, 1, 2]) (ref_start :: 64 word ref_state))
     (\<lambda>(r, s'). r = 0 \<and> restored ref_ups ref_val ref_start s')"
  by (rule counts_atomic_pass [where tst = test_signal_subtract_atomic_release, OF reference.signal_runtime_axioms])
    (simp_all add: ref_start_def)

end
