(* ===== verification/Signal_Atomic_Values.thy ===== *)
theory Signal_Atomic_Values
  imports Signal_Rounds
begin

text \<open>
  \<open>core/signals/test_signal_xor_atomic.c\<close> and \<open>test_signal_exchange_atomic.c\<close>: four threads combine a signal with,
  or replace it by, one of four bit patterns \<open>OP_COUNT\<close> times, in one round.  The thread function
  selects its memory order by a \<open>switch\<close> without \<open>break\<close>: from the selected order on, the
  loops of all later cases run too.
\<close>

datatype OP_TYPE_T = OP_TYPE_ACQUIRE | OP_TYPE_ACQ_REL | OP_TYPE_RELEASE | OP_TYPE_RELAXED

record 'h typed_param = "'h param" +
  type :: OP_TYPE_T

definition NO_BITS :: "'w::len word" where
  "NO_BITS = (if HSA_LARGE_MODEL TYPE('w) then 0x0000000000000000 else 0x00000000)"

definition ALL_BITS :: "'w::len word" where
  "ALL_BITS = (if HSA_LARGE_MODEL TYPE('w) then 0xffffffffffffffff else 0xffffffff)"

definition ALT_BITS_1 :: "'w::len word" where
  "ALT_BITS_1 = (if HSA_LARGE_MODEL TYPE('w) then 0x5555555555555555 else 0x55555555)"

definition ALT_BITS_2 :: "'w::len word" where
  "ALT_BITS_2 = (if HSA_LARGE_MODEL TYPE('w) then 0xaaaaaaaaaaaaaaaa else 0xaaaaaaaa)"

definition bit_patterns :: "'w::len word set" where
  "bit_patterns = {NO_BITS, ALL_BITS, ALT_BITS_1, ALT_BITS_2}"

text \<open>The value of a thread; with a number above 3 its assertion fails and it makes no access.\<close>

definition thread_value :: "int \<Rightarrow> 'w::len word option" where
  "thread_value n =
     (if n = 0 then Some NO_BITS else if n = 1 then Some ALL_BITS
      else if n = 2 then Some ALT_BITS_1 else if n = 3 then Some ALT_BITS_2 else None)"

fun fall_through :: "OP_TYPE_T \<Rightarrow> memory_order list" where
  "fall_through OP_TYPE_ACQUIRE = [Acquire, Acq_rel, Release, Relaxed]"
| "fall_through OP_TYPE_ACQ_REL = [Acq_rel, Release, Relaxed]"
| "fall_through OP_TYPE_RELEASE = [Release, Relaxed]"
| "fall_through OP_TYPE_RELAXED = [Relaxed]"

definition op_loops :: "(memory_order \<Rightarrow> 'v \<Rightarrow> 'a) \<Rightarrow> OP_TYPE_T \<Rightarrow> 'v \<Rightarrow> 'a list" where
  "op_loops f ty v = concat (map (\<lambda>r. map (\<lambda>ii. f r v) [0..<OP_COUNT]) (fall_through ty))"

lemma map_op_loops: "map g (op_loops f ty v) = op_loops (\<lambda>r v. g (f r v)) ty v"
  by (simp add: op_loops_def map_concat comp_def)

definition xor_child_func :: "('h, 'w::len word, 's) hsa_rt \<Rightarrow> 'h typed_param \<Rightarrow> ('s \<Rightarrow> 's) list" where
  "xor_child_func rt p =
     (case thread_value (num p) of
        None \<Rightarrow> []
      | Some v \<Rightarrow> op_loops (\<lambda>r. hsa_signal_xor rt r (signal_handle p)) (type p) v)"

definition exchange_child_func :: "('h, 'w::len word, 's) hsa_rt \<Rightarrow> 'h typed_param \<Rightarrow> ('s \<Rightarrow> 's) list" where
  "exchange_child_func rt p =
     (case thread_value (num p) of
        None \<Rightarrow> []
      | Some v \<Rightarrow> op_loops (\<lambda>r v s. snd (hsa_signal_exchange rt r (signal_handle p) v s)) (type p) v)"

text \<open>The tests of the two files have the same text but for the thread function.\<close>

definition value_test ::
  "('h, 'w::len word, 's) hsa_rt \<Rightarrow> ('h typed_param \<Rightarrow> ('s \<Rightarrow> 's) list) \<Rightarrow> OP_TYPE_T \<Rightarrow> nat list \<Rightarrow> 's \<Rightarrow>
   (nat \<times> 's) option"
where
  "value_test rt child_func ty sched s = do {
     let (status, s) = hsa_init rt s;
     ASSERT (HSA_STATUS_SUCCESS = status);
     let (status, h, s) = hsa_signal_create rt 0 0 [] s;
     ASSERT (HSA_STATUS_SUCCESS = status);
     let param_ptr = map (\<lambda>ii. \<lparr>signal_handle = h, num = int ii, type = ty\<rparr>) [0..<4];
     g \<leftarrow> for_loop 0 4 (\<lambda>ii g. test_group_add g child_func (param_ptr ! ii) 1) (test_group_create 4);
     let s = test_group_round sched g s;
     let (loaded_value, s) = hsa_signal_load rt Relaxed h s;
     let s = hsa_signal_store rt Release h 0 s;
     ASSERT (NO_BITS = loaded_value \<or> ALL_BITS = loaded_value \<or>
             ALT_BITS_1 = loaded_value \<or> ALT_BITS_2 = loaded_value);
     let (status, s) = hsa_signal_destroy rt h s;
     ASSERT (HSA_STATUS_SUCCESS = status);
     let (status, s) = hsa_shut_down rt s;
     ASSERT (HSA_STATUS_SUCCESS = status);
     Some (0, s)
   }"

definition test_signal_xor_atomic_acquire where
  "test_signal_xor_atomic_acquire rt sched s = value_test rt (xor_child_func rt) OP_TYPE_ACQUIRE sched s"

definition test_signal_xor_atomic_release where
  "test_signal_xor_atomic_release rt sched s = value_test rt (xor_child_func rt) OP_TYPE_RELEASE sched s"

definition test_signal_xor_atomic_relaxed where
  "test_signal_xor_atomic_relaxed rt sched s = value_test rt (xor_child_func rt) OP_TYPE_RELAXED sched s"

definition test_signal_xor_atomic_acq_rel where
  "test_signal_xor_atomic_acq_rel rt sched s = value_test rt (xor_child_func rt) OP_TYPE_ACQ_REL sched s"

definition test_signal_exchange_atomic_acquire where
  "test_signal_exchange_atomic_acquire rt sched s = value_test rt (exchange_child_func rt) OP_TYPE_ACQUIRE sched s"

definition test_signal_exchange_atomic_release where
  "test_signal_exchange_atomic_release rt sched s = value_test rt (exchange_child_func rt) OP_TYPE_RELEASE sched s"

definition test_signal_exchange_atomic_relaxed where
  "test_signal_exchange_atomic_relaxed rt sched s = value_test rt (exchange_child_func rt) OP_TYPE_RELAXED sched s"

definition test_signal_exchange_atomic_acq_rel where
  "test_signal_exchange_atomic_acq_rel rt sched s = value_test rt (exchange_child_func rt) OP_TYPE_ACQ_REL sched s"

subsection \<open>The tests pass\<close>

text \<open>
  The exclusive or of the same pattern an even number of times is the identity, so the signal is 0 after the
  round, whatever the order: of the four values that the test admits, a conforming runtime only ever
  gives the first.
\<close>

lemma xor_loop_idem:
  assumes "even n"
  shows "fold (\<lambda>l y. y XOR snd l) (map (\<lambda>ii. (r, v)) [0..<n]) y = (y :: 'w::len word)"
proof -
  have "(\<lambda>y. y XOR v) ^^ n = (id :: 'w word \<Rightarrow> 'w word)"
  proof -
    obtain k where "n = 2 * k" using assms by blast
    moreover have "(\<lambda>y. y XOR v) ^^ 2 = (id :: 'w word \<Rightarrow> 'w word)"
      by (simp add: fun_eq_iff numeral_2_eq_2 xor.assoc)
    ultimately show ?thesis by (simp add: funpow_mult [symmetric])
  qed
  moreover have "fold (\<lambda>l y. y XOR snd l) (map (\<lambda>ii. (r, v)) [0..<n]) = (\<lambda>y. y XOR v) ^^ n"
    by (induction n) (simp_all add: fun_eq_iff funpow_swap1)
  ultimately show ?thesis by simp
qed

lemma xor_loops_idem:
  "fold (\<lambda>l y. y XOR snd l) (op_loops Pair ty v) y = (y :: 'w::len word)"
  by (cases ty) (simp_all add: op_loops_def xor_loop_idem OP_COUNT_def)

definition xor_labels :: "OP_TYPE_T \<Rightarrow> (memory_order \<times> 'w::len word) list list" where
  "xor_labels ty = map (op_loops Pair ty) [NO_BITS, ALL_BITS, ALT_BITS_1, ALT_BITS_2]"

lemma xor_bodies:
  "map (xor_child_func rt) (map (\<lambda>ii. \<lparr>signal_handle = h, num = int ii, type = ty\<rparr>) [0..<4]) =
   map (map (\<lambda>l. hsa_signal_xor rt (fst l) h (snd l))) (xor_labels ty)"
  by (simp add: upt_rec xor_child_func_def xor_labels_def thread_value_def map_op_loops)

lemma xor_labels_zero: "fold (\<lambda>l y. y XOR snd l) (concat (xor_labels ty)) 0 = (0 :: 'w::len word)"
  by (simp add: xor_labels_def xor_loops_idem)

lemma exchange_actions:
  fixes rt :: "('h, 'w::len word, 's) hsa_rt"
  assumes "as \<in> set (map (exchange_child_func rt) (map (\<lambda>ii. \<lparr>signal_handle = h, num = int ii, type = ty\<rparr>) [0..<4]))"
    and "a \<in> set as"
  obtains r v where "a = (\<lambda>s. snd (hsa_signal_exchange rt r h v s))" "v \<in> (bit_patterns :: 'w word set)"
  using assms
  by (auto simp: exchange_child_func_def thread_value_def op_loops_def bit_patterns_def split: if_splits)

lemma NO_BITS_pattern: "NO_BITS = 0" "0 \<in> bit_patterns"
  by (simp_all add: NO_BITS_def bit_patterns_def)

context signal_runtime
begin

lemma wp_xor_round:
  assumes "0 < ups s" "val s h = Some 0"
    and "group_bodies g = map (xor_child_func rt) (map (\<lambda>ii. \<lparr>signal_handle = h, num = int ii, type = ty\<rparr>) [0..<4])"
    and k: "\<And>s'. ups s' = ups s \<Longrightarrow> val s' = val s \<Longrightarrow> passes (k s') P"
  shows "passes (let s' = test_group_round cs g s in k s') P"
  by (rule wp_round [OF assms(1,2) assms(3) [unfolded xor_bodies], where upd = "\<lambda>l y. y XOR snd l"])
    (use assms(2) in \<open>auto simp: xor_op ac_simps xor_labels_zero fun_upd_idem intro: k\<close>)

lemma wp_exchange_round:
  assumes "0 < ups s" "val s h = Some 0"
    and g: "group_bodies g = map (exchange_child_func rt) (map (\<lambda>ii. \<lparr>signal_handle = h, num = int ii, type = ty\<rparr>) [0..<4])"
    and k: "\<And>s' y. ups s' = ups s \<Longrightarrow> y \<in> bit_patterns \<Longrightarrow> val s' = (val s)(h \<mapsto> y) \<Longrightarrow> passes (k s') P"
  shows "passes (let s' = test_group_round cs g s in k s') P"
proof (rule wp_round_within [OF assms(1,2) NO_BITS_pattern(2)])
  fix as a s y
  assume "as \<in> set (group_bodies g)" "a \<in> set as" and s: "0 < ups s" "val s h = Some y"
  then obtain r v where a: "a = (\<lambda>s. snd (hsa_signal_exchange rt r h v s))" "v \<in> bit_patterns"
    unfolding g by (elim exchange_actions)
  have "ups (a s) = ups s \<and> val (a s) = (val s)(h \<mapsto> v)"
    using exchange [OF s, of r v] by (cases "hsa_signal_exchange rt r h v s") (simp add: a)
  then show "\<exists>z \<in> bit_patterns. ups (a s) = ups s \<and> val (a s) = (val s)(h \<mapsto> z)"
    using a(2) by blast
qed (rule k)

lemma xor_test_passes:
  assumes "ups s < 2 ^ 31 - 1"
  shows "passes (value_test rt (xor_child_func rt) ty sched s) (\<lambda>(r, s'). r = 0 \<and> restored ups val s s')"
  unfolding value_test_def using assms
  by - (rule wp_xor_round wp wp_signal wp_param_ptr wp_add_params |
    (simp add: NO_BITS_pattern restored_def fun_upd_idem; fail) | (auto simp: bit_patterns_def; fail))+

lemma exchange_test_passes:
  assumes "ups s < 2 ^ 31 - 1"
  shows "passes (value_test rt (exchange_child_func rt) ty sched s) (\<lambda>(r, s'). r = 0 \<and> restored ups val s s')"
  unfolding value_test_def using assms
  by - (rule wp_exchange_round wp wp_signal wp_param_ptr wp_add_params |
    (simp add: bit_patterns_def restored_def fun_upd_idem; fail) | (auto simp: bit_patterns_def; fail))+

end

text \<open>
  C12.  The four XOR tests and the four exchange tests pass, in both machine models, on every conforming runtime and in every order of
  execution of the threads: the value that they read at the end is one of those they accept, the initial one or one that a thread wrote, and
  the runtime is left as it was.
\<close>

theorem values_atomic_pass:
  fixes rt :: "('h, 'w::len word, 's) hsa_rt"
  assumes "signal_runtime rt ups val" "ups s < 2 ^ 31 - 1"
    and "tst \<in> {test_signal_xor_atomic_acquire,
      test_signal_xor_atomic_release,
      test_signal_xor_atomic_relaxed,
      test_signal_xor_atomic_acq_rel,
      test_signal_exchange_atomic_acquire,
      test_signal_exchange_atomic_release,
      test_signal_exchange_atomic_relaxed,
      test_signal_exchange_atomic_acq_rel}"
  shows "passes (tst rt sched s) (\<lambda>(r, s'). r = 0 \<and> restored ups val s s')"
  using signal_runtime.xor_test_passes [OF assms(1,2)] signal_runtime.exchange_test_passes [OF assms(1,2)] assms(3)
  by (elim insertE emptyE)
    (auto simp: test_signal_xor_atomic_acquire_def test_signal_xor_atomic_release_def
      test_signal_xor_atomic_relaxed_def test_signal_xor_atomic_acq_rel_def
      test_signal_exchange_atomic_acquire_def test_signal_exchange_atomic_release_def
      test_signal_exchange_atomic_relaxed_def test_signal_exchange_atomic_acq_rel_def)

theorem values_atomic_pass_witness:
  "passes (test_signal_exchange_atomic_relaxed reference_rt [3, 1, 2] (ref_start :: 32 word ref_state))
     (\<lambda>(r, s'). r = 0 \<and> restored ref_ups ref_val ref_start s')"
  by (rule values_atomic_pass [where tst = test_signal_exchange_atomic_relaxed, OF reference.signal_runtime_axioms])
    (simp_all add: ref_start_def)

end
