(* ===== verification/Signal_Atomic_Cas.thy ===== *)
theory Signal_Atomic_Cas
  imports Signal_Rounds
begin

text \<open>
  \<open>core/signals/test_signal_cas_atomic.c\<close>: four threads compare and swap a signal from 0 to their own numbers;
  exactly one succeeds.  Thread \<open>ii\<close> stores what the operation returned in \<open>retval[ii]\<close>, an array of
  the main thread, so the shared memory of a round is the runtime together with the array.  Each thread writes its own
  element and nobody reads it before the round is over: the store is modelled together with the operation.
\<close>

record 'h cas_param = "'h param" +
  retval :: nat  \<comment> \<open>the index of the element \<open>retval\<close> points to\<close>

text \<open>The assignment to an \<open>int\<close> truncates the value of the signal.\<close>

definition cas_access ::
  "('h, 'w::len word, 's) hsa_rt \<Rightarrow> memory_order \<Rightarrow> 'h cas_param \<Rightarrow> 's \<times> 32 word list \<Rightarrow> 's \<times> 32 word list"
where
  "cas_access rt r p m =
     (case m of (s, ret) \<Rightarrow>
        let (v, s) = hsa_signal_cas rt r (signal_handle p) 0 (of_int (num p + 1)) s
        in (s, ret[retval p := ucast v]))"

definition cas_child_func_acquire where
  "cas_child_func_acquire rt p = [cas_access rt Acquire p]"

definition cas_child_func_release where
  "cas_child_func_release rt p = [cas_access rt Release p]"

definition cas_child_func_relaxed where
  "cas_child_func_relaxed rt p = [cas_access rt Relaxed p]"

definition cas_child_func_acq_rel where
  "cas_child_func_acq_rel rt p = [cas_access rt Acq_rel p]"

text \<open>
  The scan of the array after a round counts the zeros and keeps the index of the last one, plus 1;
  \<open>None\<close> is the uninitialised \<open>index\<close>.
\<close>

definition scan_retval :: "32 word list \<Rightarrow> nat \<times> nat option" where
  "scan_retval ret =
     fold (\<lambda>jj (num_zero, index). if ret ! jj = 0 then (num_zero + 1, Some (jj + 1)) else (num_zero, index))
       [0..<4] (0, None)"

definition signal_cas_atomic ::
  "('h, 'w::len word, 's) hsa_rt \<Rightarrow> ('h cas_param \<Rightarrow> ('s \<times> 32 word list \<Rightarrow> 's \<times> 32 word list) list) \<Rightarrow>
   (nat \<Rightarrow> nat list) \<Rightarrow> 's \<Rightarrow> (nat \<times> 's) option"
where
  "signal_cas_atomic rt child_func sched s = do {
     let (status, s) = hsa_init rt s;
     ASSERT (HSA_STATUS_SUCCESS = status);
     let (status, h, s) = hsa_signal_create rt 0 0 [] s;
     ASSERT (HSA_STATUS_SUCCESS = status);
     let param_ptr = map (\<lambda>ii. \<lparr>signal_handle = h, num = int ii, retval = ii\<rparr>) [0..<4];
     g \<leftarrow> for_loop 0 4 (\<lambda>ii g. test_group_add g child_func (param_ptr ! ii) 1) (test_group_create 4);
     m \<leftarrow> for_loop 0 OP_COUNT (\<lambda>ii m. do {
       let m = test_group_round (sched ii) g m;
       let s = fst m;
       let (num_zero, index) = scan_retval (snd m);
       ASSERT (1 = num_zero);
       let (loaded_value, s) = hsa_signal_load rt Relaxed h s;
       let s = hsa_signal_store rt Release h 0 s;
       ASSERT (map_option of_nat index = Some loaded_value);
       Some (s, snd m)
     }) (s, replicate 4 1000);
     let (status, s) = hsa_signal_destroy rt h (fst m);
     ASSERT (HSA_STATUS_SUCCESS = status);
     let (status, s) = hsa_shut_down rt s;
     ASSERT (HSA_STATUS_SUCCESS = status);
     Some (0, s)
   }"

definition test_signal_cas_atomic_acquire where
  "test_signal_cas_atomic_acquire rt sched s = signal_cas_atomic rt (cas_child_func_acquire rt) sched s"

definition test_signal_cas_atomic_release where
  "test_signal_cas_atomic_release rt sched s = signal_cas_atomic rt (cas_child_func_release rt) sched s"

definition test_signal_cas_atomic_relaxed where
  "test_signal_cas_atomic_relaxed rt sched s = signal_cas_atomic rt (cas_child_func_relaxed rt) sched s"

definition test_signal_cas_atomic_acq_rel where
  "test_signal_cas_atomic_acq_rel rt sched s = signal_cas_atomic rt (cas_child_func_acq_rel rt) sched s"

subsection \<open>A round\<close>

abbreviation cas_thread :: "'h \<Rightarrow> nat \<Rightarrow> 'h cas_param" where
  "cas_thread h k \<equiv> \<lparr>signal_handle = h, num = int k, retval = k\<rparr>"

lemma four_threads: "[0..<4] = [0, 1, 2, 3 :: nat]"
  by (simp add: upt_rec numeral_2_eq_2 numeral_3_eq_3)

lemma cas_bodies:
  "map (\<lambda>p. [f p]) (map (\<lambda>ii. cas_thread h ii) [0..<4]) = map (map (\<lambda>k. f (cas_thread h k))) [[0], [1], [2], [3]]"
  by (simp add: four_threads)

text \<open>The winner \<open>w\<close> is the thread that went first; all others see its number.\<close>

definition won_by :: "nat \<Rightarrow> 32 word list \<Rightarrow> bool" where
  "won_by w ret \<longleftrightarrow> w < 4 \<and> length ret = 4 \<and> (\<forall>k < 4. ret ! k = (if k = w then 0 else of_nat (w + 1)))"

lemma scan_won:
  assumes "won_by w ret"
  shows "scan_retval ret = (1, Some (w + 1))"
proof -
  have ret: "ret ! k = (if k = w then 0 else of_nat (w + 1))" if "k < 4" for k
    using assms that by (simp add: won_by_def)
  have "w \<in> {0, 1, 2, 3}" using assms by (auto simp: won_by_def)
  then show ?thesis
    by (elim insertE emptyE) (simp_all add: scan_retval_def four_threads ret)
qed

lemma small_values:
  assumes "w < 4" "3 \<le> LENGTH('w::len)"
  shows "of_nat (w + 1) \<noteq> (0 :: 'w word)" "ucast (of_nat (w + 1) :: 'w word) = (of_nat (w + 1) :: 32 word)"
proof -
  have "(2::nat) ^ 3 \<le> 2 ^ LENGTH('w)" using assms(2) by (rule power_increasing) simp
  then have *: "unat (of_nat (w + 1) :: 'w word) = w + 1"
    using assms(1) by (subst unat_of_nat) simp
  then show "of_nat (w + 1) \<noteq> (0 :: 'w word)" by (metis Suc_eq_plus1 nat.distinct(1) unat_0)
  show "ucast (of_nat (w + 1) :: 'w word) = (of_nat (w + 1) :: 32 word)"
    using * by (metis of_nat_unat)
qed

lemmas cas_atomic_defs =
  test_signal_cas_atomic_acquire_def cas_child_func_acquire_def [abs_def]
  test_signal_cas_atomic_release_def cas_child_func_release_def [abs_def]
  test_signal_cas_atomic_relaxed_def cas_child_func_relaxed_def [abs_def]
  test_signal_cas_atomic_acq_rel_def cas_child_func_acq_rel_def [abs_def]

context signal_runtime
begin

lemma cas_step:
  assumes "0 < ups s" "val s h = Some x" and "cas_access rt r (cas_thread h k) (s, ret) = (s', ret')"
  shows "ups s' = ups s" "val s' = (val s)(h \<mapsto> (if x = 0 then of_nat (k + 1) else x))"
    and "ret' = ret[k := ucast x]"
  using assms(3) cas [OF assms(1,2), of r 0 "of_nat (k + 1)"]
  by (auto simp: cas_access_def Let_def add.commute split: prod.splits)

text \<open>Once the signal is not 0 no thread changes it.\<close>

lemma cas_rest:
  assumes "0 < ups s" "val s h = Some x" "x \<noteq> 0" "\<forall>k \<in> set ks. k < length ret"
    and "fold (\<lambda>k. cas_access rt r (cas_thread h k)) ks (s, ret) = (s', ret')"
  shows "ups s' = ups s \<and> val s' = val s \<and> length ret' = length ret \<and>
    (\<forall>k < length ret. ret' ! k = (if k \<in> set ks then ucast x else ret ! k))"
  using assms
proof (induction ks arbitrary: s ret)
  case Nil
  then show ?case by simp
next
  case (Cons k ks)
  obtain s1 ret1 where 1: "cas_access rt r (cas_thread h k) (s, ret) = (s1, ret1)"
    by (cases "cas_access rt r (cas_thread h k) (s, ret)")
  note step = cas_step [OF Cons.prems(1,2) 1]
  have "val s1 = val s" using step(2) Cons.prems(2,3) by (simp add: fun_upd_idem)
  moreover have "ups s' = ups s1 \<and> val s' = val s1 \<and> length ret' = length ret1 \<and>
    (\<forall>k < length ret1. ret' ! k = (if k \<in> set ks then ucast x else ret1 ! k))"
    using Cons.prems step 1 \<open>val s1 = val s\<close> by (intro Cons.IH) auto
  ultimately show ?case using step Cons.prems(4) by (auto simp: nth_list_update)
qed

lemma cas_all:
  assumes "3 \<le> LENGTH('w)" "0 < ups s" "val s h = Some 0" "length ret = 4"
    and "set ks = {..<4}" "distinct ks"
    and "fold (\<lambda>k. cas_access rt r (cas_thread h k)) ks (s, ret) = (s', ret')"
  shows "ups s' = ups s \<and> won_by (hd ks) ret' \<and> val s' = (val s)(h \<mapsto> of_nat (hd ks + 1))"
proof (cases ks)
  case Nil
  then show ?thesis using assms(5) by (auto simp: lessThan_empty_iff dest: sym)
next
  case (Cons w ks')
  have w: "w < 4" "w \<notin> set ks'" "\<forall>k < 4. k = w \<or> k \<in> set ks'" "\<forall>k \<in> set ks'. k < 4"
    using assms(5,6) Cons by auto
  obtain s1 ret1 where 1: "cas_access rt r (cas_thread h w) (s, ret) = (s1, ret1)"
    by (cases "cas_access rt r (cas_thread h w) (s, ret)")
  note step = cas_step [OF assms(2,3) 1]
  note small = small_values [OF w(1) assms(1)]
  have "ups s' = ups s1 \<and> val s' = val s1 \<and> length ret' = length ret1 \<and>
    (\<forall>k < length ret1. ret' ! k = (if k \<in> set ks' then ucast (of_nat (w + 1) :: 'w word) else ret1 ! k))"
    using assms(2,4,7) step 1 small(1) w(4) Cons by (intro cas_rest [where h = h]) auto
  then have s': "ups s' = ups s" "val s' = (val s)(h \<mapsto> of_nat (w + 1))" and ret': "length ret' = 4"
    "\<And>k. k < 4 \<Longrightarrow> ret' ! k = (if k \<in> set ks' then of_nat (w + 1) else ret1 ! k)"
    using step assms(4) by (simp_all add: small [simplified])
  have "ret' ! k = (if k = w then 0 else of_nat (w + 1))" if "k < 4" for k
    using ret'(2) [OF that] that w step(3) assms(4) by auto
  then show ?thesis
    using s' ret'(1) w(1) Cons by (simp add: won_by_def)
qed

lemma wp_cas_round:
  assumes "3 \<le> LENGTH('w)" "0 < ups (fst m)" "val (fst m) h = Some 0" "length (snd m) = 4"
    and g: "group_bodies g = map (\<lambda>p. [cas_access rt r p]) (map (\<lambda>ii. cas_thread h ii) [0..<4])"
    and k: "\<And>m' w. ups (fst m') = ups (fst m) \<Longrightarrow> won_by w (snd m') \<Longrightarrow>
      val (fst m') = (val (fst m))(h \<mapsto> of_nat (w + 1)) \<Longrightarrow> passes (k m') P"
  shows "passes (let m' = test_group_round cs g m in k m') P"
proof -
  obtain s ret s' ret' where m: "m = (s, ret)" "test_group_round cs g m = (s', ret')"
    by (cases m, cases "test_group_round cs g m") blast
  have "chosen_round g m (test_group_round cs g m)" by (auto simp: chosen_round_def)
  then obtain ys where ys: "interleaving (group_bodies g) ys" "test_group_round cs g m = run_all ys m"
    by (blast dest: chosen.runs_interleaved)
  obtain ks where ks: "interleaving [[0], [1], [2], [3]] ks" "ys = map (\<lambda>k. cas_access rt r (cas_thread h k)) ks"
    using ys(1) unfolding g cas_bodies by (rule interleaving_map)
  have *: "mset ks = mset [0..<4]" using interleaving_mset [OF ks(1)] by (simp add: four_threads)
  have "set ks = {..<4}" using mset_eq_setD [OF *] by (simp only: set_upt lessThan_atLeast0)
  moreover have "distinct ks" using mset_eq_imp_distinct_iff [OF *] by simp
  moreover have "fold (\<lambda>k. cas_access rt r (cas_thread h k)) ks (s, ret) = (s', ret')"
    using ys(2) m by (simp add: ks(2) run_all_def fold_map comp_def)
  ultimately have "ups s' = ups s \<and> won_by (hd ks) ret' \<and> val s' = (val s)(h \<mapsto> of_nat (hd ks + 1))"
    using assms(2-4) m(1) by (intro cas_all [OF assms(1)]) simp_all
  then show ?thesis using m(1) k [of "(s', ret')" "hd ks"] unfolding m(2) by simp
qed

lemma signal_cas_atomic_passes:
  assumes "3 \<le> LENGTH('w)" "ups s < 2 ^ 31 - 1"
  shows "passes (signal_cas_atomic rt (\<lambda>p. [cas_access rt r p]) sched s) (\<lambda>(r, s'). r = 0 \<and> restored ups val s s')"
proof -
  let ?body = "\<lambda>g h ii m. do {
       let m = test_group_round (sched ii) g m;
       let s = fst m;
       let (num_zero, index) = scan_retval (snd m);
       ASSERT (1 = num_zero);
       let (loaded_value, s) = hsa_signal_load rt Relaxed h s;
       let s = hsa_signal_store rt Release h 0 s;
       ASSERT (map_option of_nat index = Some loaded_value);
       Some (s, snd m)
     }"
  have body: "passes (?body g h ii m) (\<lambda>m. ups (fst m) = u \<and> val (fst m) = v \<and> length (snd m) = 4)"
    if "0 < u" "v h = Some 0"
      and g: "group_bodies g = map (\<lambda>p. [cas_access rt r p]) (map (\<lambda>ii. cas_thread h ii) [0..<4])"
      and m: "ups (fst m) = u \<and> val (fst m) = v \<and> length (snd m) = 4"
    for m h g ii u v
  proof (rule wp_cas_round [OF assms(1) _ _ _ g])
    fix m' w
    assume "ups (fst m') = ups (fst m)" "won_by w (snd m')" "val (fst m') = (val (fst m))(h \<mapsto> of_nat (w + 1))"
    then show "passes (let s = fst m'; (num_zero, index) = scan_retval (snd m')
      in ASSERT (1 = num_zero) \<bind> (\<lambda>_. let (loaded_value, s) = hsa_signal_load rt Relaxed h s;
            s = hsa_signal_store rt Release h 0 s
          in ASSERT (map_option of_nat index = Some loaded_value) \<bind> (\<lambda>_. Some (s, snd m'))))
      (\<lambda>m. ups (fst m) = u \<and> val (fst m) = v \<and> length (snd m) = 4)"
      unfolding Let_def [of "fst m'"] scan_won [OF \<open>won_by w (snd m')\<close>] Let_def [of "(1, Some (w + 1))"] prod.case
      using that
      by - (rule wp wp_signal | (simp add: won_by_def fun_upd_idem; fail))+
  qed (use that in auto)
  have loop: "passes (for_loop 0 OP_COUNT (?body g h) (s, replicate 4 1000) \<bind> k) P"
    if "0 < ups s" "val s h = Some 0"
      and g: "group_bodies g = map (\<lambda>p. [cas_access rt r p]) (map (\<lambda>ii. cas_thread h ii) [0..<4])"
      and k: "\<And>m. ups (fst m) = ups s \<Longrightarrow> val (fst m) = val s \<Longrightarrow> passes (k m) P"
    for s h g k P
  proof (rule for_loop_invariant [where Inv = "\<lambda>m. ups (fst m) = ups s \<and> val (fst m) = val s \<and> length (snd m) = 4"])
    show "passes (?body g h ii m) (\<lambda>m. ups (fst m) = ups s \<and> val (fst m) = val s \<and> length (snd m) = 4)"
      if "ups (fst m) = ups s \<and> val (fst m) = val s \<and> length (snd m) = 4" for ii m
      by (rule body) (fact \<open>0 < ups s\<close> \<open>val s h = Some 0\<close> g that)+
  qed (auto intro: k)
  show ?thesis
    unfolding signal_cas_atomic_def using assms(2)
    by - (rule loop wp wp_signal wp_param_ptr wp_add_params | (simp add: restored_def fun_upd_idem; fail))+
qed

end

text \<open>
  C11.  The compare and swap test passes in all four memory orders, in both machine models, on every
  conforming runtime and in every order of execution of the threads: in each round exactly one thread reads 0, the
  signal then holds its number, and the runtime is left as it was.
\<close>

theorem cas_atomic_passes:
  fixes rt :: "('h, 'w::len word, 's) hsa_rt"
  assumes "signal_runtime rt ups val" "ups s < 2 ^ 31 - 1" "32 \<le> LENGTH('w)"
    and "tst \<in> {test_signal_cas_atomic_acquire,
      test_signal_cas_atomic_release,
      test_signal_cas_atomic_relaxed,
      test_signal_cas_atomic_acq_rel}"
  shows "passes (tst rt sched s) (\<lambda>(r, s'). r = 0 \<and> restored ups val s s')"
  using signal_runtime.signal_cas_atomic_passes [OF assms(1) _ assms(2)] assms(3,4)
  by (auto simp: cas_atomic_defs)

theorem cas_atomic_passes_witness:
  "passes (test_signal_cas_atomic_acquire reference_rt (\<lambda>ii. [3, 1, 2]) (ref_start :: 64 word ref_state))
     (\<lambda>(r, s'). r = 0 \<and> restored ref_ups ref_val ref_start s')"
  by (rule cas_atomic_passes [where tst = test_signal_cas_atomic_acquire, OF reference.signal_runtime_axioms])
    (simp_all add: ref_start_def)

end
