(* ===== verification/Agent_Utils.thy ===== *)
theory Agent_Utils
  imports Hsa_Api
begin

text \<open>
  \<open>utils/agent_utils.c\<close> and \<open>utils/agent_utils.h\<close>: checks of what the runtime reports of the system and of its agents,
  and the callbacks that count, list and select agents and memory regions.

  The queries of the runtime are fields of \<open>agent_rt\<close>.  A value that consists of several integers is a function from
  its index, with 16 bit integers extended to 32 bits as the comparisons of the code do.  What
  \<open>void *data\<close> points to is \<open>iter_mem\<close>, the variables of the functions that start a traversal.
\<close>

datatype hsa_device_type_t =
    HSA_DEVICE_TYPE_CPU | HSA_DEVICE_TYPE_GPU | HSA_DEVICE_TYPE_DSP
  | HSA_DEVICE_TYPE_OTHER "32 word"  \<comment> \<open>any other value a runtime may report\<close>

datatype hsa_agent_feature_t = HSA_AGENT_FEATURE_KERNEL_DISPATCH | HSA_AGENT_FEATURE_AGENT_DISPATCH

datatype hsa_region_segment_t =
    HSA_REGION_SEGMENT_GLOBAL | HSA_REGION_SEGMENT_READONLY | HSA_REGION_SEGMENT_PRIVATE | HSA_REGION_SEGMENT_GROUP

datatype hsa_region_global_flag_t =
    HSA_REGION_GLOBAL_FLAG_KERNARG | HSA_REGION_GLOBAL_FLAG_FINE_GRAINED | HSA_REGION_GLOBAL_FLAG_COARSE_GRAINED

datatype hsa_system_info_t =
    HSA_SYSTEM_INFO_VERSION_MAJOR | HSA_SYSTEM_INFO_VERSION_MINOR | HSA_SYSTEM_INFO_TIMESTAMP
  | HSA_SYSTEM_INFO_TIMESTAMP_FREQUENCY | HSA_SYSTEM_INFO_SIGNAL_MAX_WAIT

datatype hsa_agent_info_t =
    HSA_AGENT_INFO_NAME | HSA_AGENT_INFO_VENDOR_NAME
  | HSA_AGENT_INFO_WAVEFRONT_SIZE | HSA_AGENT_INFO_WORKGROUP_MAX_SIZE | HSA_AGENT_INFO_WORKGROUP_MAX_DIM
  | HSA_AGENT_INFO_GRID_MAX_SIZE | HSA_AGENT_INFO_GRID_MAX_DIM | HSA_AGENT_INFO_FBARRIER_MAX_SIZE
  | HSA_AGENT_INFO_QUEUES_MAX | HSA_AGENT_INFO_QUEUE_MAX_SIZE | HSA_AGENT_INFO_NODE | HSA_AGENT_INFO_CACHE_SIZE
  | HSA_EXT_AGENT_INFO_IMAGE_1D_MAX_ELEMENTS | HSA_EXT_AGENT_INFO_IMAGE_1DA_MAX_ELEMENTS
  | HSA_EXT_AGENT_INFO_IMAGE_1DB_MAX_ELEMENTS | HSA_EXT_AGENT_INFO_IMAGE_2D_MAX_ELEMENTS
  | HSA_EXT_AGENT_INFO_IMAGE_2DA_MAX_ELEMENTS | HSA_EXT_AGENT_INFO_IMAGE_2DDEPTH_MAX_ELEMENTS
  | HSA_EXT_AGENT_INFO_IMAGE_2DADEPTH_MAX_ELEMENTS | HSA_EXT_AGENT_INFO_IMAGE_3D_MAX_ELEMENTS
  | HSA_EXT_AGENT_INFO_IMAGE_ARRAY_MAX_LAYERS | HSA_EXT_AGENT_INFO_MAX_IMAGE_RD_HANDLES
  | HSA_EXT_AGENT_INFO_MAX_IMAGE_RORW_HANDLES | HSA_EXT_AGENT_INFO_MAX_SAMPLER_HANDLERS

text \<open>
  \<open>feature_info\<close> and \<open>device_info\<close> are \<open>hsa_agent_get_info\<close> for the attributes \<open>HSA_AGENT_INFO_FEATURE\<close>, a mask of
  features, and \<open>HSA_AGENT_INFO_DEVICE\<close>; \<open>segment_info\<close> and \<open>flags_info\<close> are \<open>hsa_region_get_info\<close> for
  \<open>HSA_REGION_INFO_SEGMENT\<close> and \<open>HSA_REGION_INFO_GLOBAL_FLAGS\<close>, a mask of flags.
\<close>

record 's agent_rt =
  system_info :: "hsa_system_info_t \<Rightarrow> 's \<Rightarrow> hsa_status_t \<times> 64 word \<times> 's"
  sleep :: "nat \<Rightarrow> 's \<Rightarrow> 's"
  agent_info :: "hsa_agent_t \<Rightarrow> hsa_agent_info_t \<Rightarrow> hsa_status_t \<times> (nat \<Rightarrow> 32 word)"
  feature_info :: "hsa_agent_t \<Rightarrow> hsa_status_t \<times> hsa_agent_feature_t set"
  device_info :: "hsa_agent_t \<Rightarrow> hsa_status_t \<times> hsa_device_type_t"
  segment_info :: "hsa_region_t \<Rightarrow> hsa_status_t \<times> hsa_region_segment_t"
  flags_info :: "hsa_region_t \<Rightarrow> hsa_status_t \<times> hsa_region_global_flag_t set"

subsection \<open>Checks\<close>

definition isPowerOfTwo :: "32 word \<Rightarrow> 8 word" where
  "isPowerOfTwo x = of_bool (x \<noteq> 0 \<and> x AND (x - 1) = 0)"

definition check_system_info :: "('s, 'z) agent_rt_scheme \<Rightarrow> 's \<Rightarrow> 's option" where
  "check_system_info rt s = do {
     let (status, version_major, s) = system_info rt HSA_SYSTEM_INFO_VERSION_MAJOR s;
     ASSERT (status = HSA_STATUS_SUCCESS);
     let (status, version_minor, s) = system_info rt HSA_SYSTEM_INFO_VERSION_MINOR s;
     ASSERT (status = HSA_STATUS_SUCCESS);
     let (status, timestamp1, s) = system_info rt HSA_SYSTEM_INFO_TIMESTAMP s;
     ASSERT (status = HSA_STATUS_SUCCESS);
     let s = sleep rt 1 s;
     let (status, timestamp2, s) = system_info rt HSA_SYSTEM_INFO_TIMESTAMP s;
     ASSERT (status = HSA_STATUS_SUCCESS);
     ASSERT (timestamp2 > timestamp1);
     let (status, timestamp_freq, s) = system_info rt HSA_SYSTEM_INFO_TIMESTAMP_FREQUENCY s;
     ASSERT (status = HSA_STATUS_SUCCESS);
     let (status, signal_max_wait, s) = system_info rt HSA_SYSTEM_INFO_SIGNAL_MAX_WAIT s;
     ASSERT (status = HSA_STATUS_SUCCESS);
     Some s
   }"

text \<open>The part of \<open>check_agent_info\<close> for an agent that dispatches kernels.\<close>

definition check_dispatch_info :: "('s, 'z) agent_rt_scheme \<Rightarrow> hsa_agent_t \<Rightarrow> unit option" where
  "check_dispatch_info rt agent = do {
     let (status, wavefront_size) = agent_info rt agent HSA_AGENT_INFO_WAVEFRONT_SIZE;
     ASSERT (HSA_STATUS_SUCCESS = status);
     ASSERT (wavefront_size 0 \<ge> 1 \<and> wavefront_size 0 \<le> 256 \<and> isPowerOfTwo (wavefront_size 0) \<noteq> 0);
     let (status, workgroup_max_size) = agent_info rt agent HSA_AGENT_INFO_WORKGROUP_MAX_SIZE;
     ASSERT (HSA_STATUS_SUCCESS = status);
     ASSERT (workgroup_max_size 0 > 0);
     let (status, workgroup_max_dim) = agent_info rt agent HSA_AGENT_INFO_WORKGROUP_MAX_DIM;
     ASSERT (HSA_STATUS_SUCCESS = status);
     _ \<leftarrow> for_loop 0 3 (\<lambda>ii _. ASSERT (workgroup_max_dim ii > 0 \<and> workgroup_max_dim ii \<le> workgroup_max_size 0)) ();
     let (status, grid_max_size) = agent_info rt agent HSA_AGENT_INFO_GRID_MAX_SIZE;
     ASSERT (HSA_STATUS_SUCCESS = status);
     ASSERT (grid_max_size 0 > 0);
     let (status, grid_max_dim) = agent_info rt agent HSA_AGENT_INFO_GRID_MAX_DIM;
     ASSERT (HSA_STATUS_SUCCESS = status);
     ASSERT (grid_max_dim 0 > 0 \<and> grid_max_dim 0 \<ge> workgroup_max_dim 0 \<and> grid_max_dim 0 \<le> grid_max_size 0);
     ASSERT (grid_max_dim 1 > 0 \<and> grid_max_dim 1 \<ge> workgroup_max_dim 1 \<and> grid_max_dim 1 \<le> grid_max_size 0);
     ASSERT (grid_max_dim 2 > 0 \<and> grid_max_dim 2 \<ge> workgroup_max_dim 2 \<and> grid_max_dim 2 \<le> grid_max_size 0);
     let (status, fbarriers_max_size) = agent_info rt agent HSA_AGENT_INFO_FBARRIER_MAX_SIZE;
     ASSERT (HSA_STATUS_SUCCESS = status);
     ASSERT (fbarriers_max_size 0 \<ge> 32);
     let (status, queues_max) = agent_info rt agent HSA_AGENT_INFO_QUEUES_MAX;
     ASSERT (HSA_STATUS_SUCCESS = status);
     let (status, queue_max_size) = agent_info rt agent HSA_AGENT_INFO_QUEUE_MAX_SIZE;
     ASSERT (HSA_STATUS_SUCCESS = status);
     ASSERT (queue_max_size 0 > 0 \<and> isPowerOfTwo (queue_max_size 0) \<noteq> 0)
   }"

text \<open>
  The part for a GPU.  Each image limit is queried, and all its \<open>n\<close> elements are compared with a bound;
  the first nine limits are upper bounds, the last three lower bounds.
\<close>

definition check_at_most ::
  "('s, 'z) agent_rt_scheme \<Rightarrow> hsa_agent_t \<Rightarrow> hsa_agent_info_t \<Rightarrow> nat \<Rightarrow> 32 word \<Rightarrow> unit option"
where
  "check_at_most rt agent attribute n bound = do {
     let (status, v) = agent_info rt agent attribute;
     ASSERT (HSA_STATUS_SUCCESS = status);
     ASSERT (list_all (\<lambda>ii. v ii \<le> bound) [0..<n])
   }"

definition check_at_least ::
  "('s, 'z) agent_rt_scheme \<Rightarrow> hsa_agent_t \<Rightarrow> hsa_agent_info_t \<Rightarrow> 32 word \<Rightarrow> unit option"
where
  "check_at_least rt agent attribute bound = do {
     let (status, v) = agent_info rt agent attribute;
     ASSERT (HSA_STATUS_SUCCESS = status);
     ASSERT (v 0 \<ge> bound)
   }"

definition check_image_info :: "('s, 'z) agent_rt_scheme \<Rightarrow> hsa_agent_t \<Rightarrow> unit option" where
  "check_image_info rt agent = do {
     check_at_most rt agent HSA_EXT_AGENT_INFO_IMAGE_1D_MAX_ELEMENTS 1 16384;
     check_at_most rt agent HSA_EXT_AGENT_INFO_IMAGE_1DA_MAX_ELEMENTS 1 16384;
     check_at_most rt agent HSA_EXT_AGENT_INFO_IMAGE_1DB_MAX_ELEMENTS 1 65536;
     check_at_most rt agent HSA_EXT_AGENT_INFO_IMAGE_2D_MAX_ELEMENTS 2 16384;
     check_at_most rt agent HSA_EXT_AGENT_INFO_IMAGE_2DA_MAX_ELEMENTS 2 16384;
     check_at_most rt agent HSA_EXT_AGENT_INFO_IMAGE_2DDEPTH_MAX_ELEMENTS 2 16384;
     check_at_most rt agent HSA_EXT_AGENT_INFO_IMAGE_2DADEPTH_MAX_ELEMENTS 2 16384;
     check_at_most rt agent HSA_EXT_AGENT_INFO_IMAGE_3D_MAX_ELEMENTS 3 2048;
     check_at_most rt agent HSA_EXT_AGENT_INFO_IMAGE_ARRAY_MAX_LAYERS 1 2048;
     check_at_least rt agent HSA_EXT_AGENT_INFO_MAX_IMAGE_RD_HANDLES 128;
     check_at_least rt agent HSA_EXT_AGENT_INFO_MAX_IMAGE_RORW_HANDLES 64;
     check_at_least rt agent HSA_EXT_AGENT_INFO_MAX_SAMPLER_HANDLERS 16
   }"

text \<open>
  In the test of the device type the last disjunct is the constant \<open>HSA_DEVICE_TYPE_DSP\<close>, not a comparison; its
  value is not 0.
\<close>

definition check_agent_info :: "('s, 'z) agent_rt_scheme \<Rightarrow> hsa_agent_t \<Rightarrow> unit option" where
  "check_agent_info rt agent = do {
     let (status, name) = agent_info rt agent HSA_AGENT_INFO_NAME;
     ASSERT (HSA_STATUS_SUCCESS = status);
     let (status, vendor_name) = agent_info rt agent HSA_AGENT_INFO_VENDOR_NAME;
     ASSERT (HSA_STATUS_SUCCESS = status);
     let (status, feature) = feature_info rt agent;
     ASSERT (HSA_STATUS_SUCCESS = status);
     (if {HSA_AGENT_FEATURE_KERNEL_DISPATCH} = feature then check_dispatch_info rt agent else Some ());
     let (status, node) = agent_info rt agent HSA_AGENT_INFO_NODE;
     ASSERT (HSA_STATUS_SUCCESS = status);
     let (status, device) = device_info rt agent;
     ASSERT (HSA_STATUS_SUCCESS = status);
     ASSERT (device = HSA_DEVICE_TYPE_GPU \<or> device = HSA_DEVICE_TYPE_CPU \<or> True);
     let (status, cache_size) = agent_info rt agent HSA_AGENT_INFO_CACHE_SIZE;
     ASSERT (HSA_STATUS_SUCCESS = status);
     (if device = HSA_DEVICE_TYPE_GPU then check_image_info rt agent else Some ())
   }"

subsection \<open>Callbacks\<close>

text \<open>
  \<open>num_cell\<close> is the \<open>size_t\<close> that counts, \<open>array\<close> the allocated array with the iterator \<open>position\<close> in it, and
  \<open>ret\<close> the variable of a caller that looks for one handle.  A store outside of the array sets
  \<open>out_of_bounds\<close>.
\<close>

record 'h iter_mem =
  num_cell :: "64 word"
  array :: "'h option list"
  position :: nat
  ret :: "'h option"
  out_of_bounds :: bool

type_synonym 'h callback = "'h \<Rightarrow> 'h iter_mem \<Rightarrow> hsa_status_t \<times> 'h iter_mem"

text \<open>
  The counting callbacks increment the \<open>size_t\<close> through an \<open>int *\<close>: on a little-endian machine only its lower
  32 bits take part.
\<close>

definition increment_int :: "64 word \<Rightarrow> 64 word" where
  "increment_int n = push_bit 32 (drop_bit 32 n) OR ucast (ucast n + 1 :: 32 word)"

definition get_num_agents :: "hsa_agent_t callback" where
  "get_num_agents agent m = (HSA_STATUS_SUCCESS, m\<lparr>num_cell := increment_int (num_cell m)\<rparr>)"

definition store_handle :: "'h \<Rightarrow> 'h iter_mem \<Rightarrow> 'h iter_mem" where
  "store_handle h m =
     (if position m < length (array m)
      then m\<lparr>array := (array m)[position m := Some h], position := position m + 1\<rparr>
      else m\<lparr>out_of_bounds := True, position := position m + 1\<rparr>)"

definition get_agents :: "hsa_agent_t callback" where
  "get_agents agent m = (HSA_STATUS_SUCCESS, store_handle agent m)"

record 'h handle_list_s =
  num_handles :: "64 word"
  handle_array :: "'h option list"

text \<open>\<open>struct agent_list_s\<close> and \<open>struct region_list_s\<close> are both a count and an array.\<close>

definition get_agent_list ::
  "(hsa_agent_t callback \<Rightarrow> hsa_agent_t iter_mem \<Rightarrow> hsa_status_t \<times> hsa_agent_t iter_mem) \<Rightarrow>
   hsa_agent_t iter_mem \<Rightarrow> (hsa_agent_t handle_list_s \<times> hsa_agent_t iter_mem) option"
where
  "get_agent_list iterate_agents m = do {
     let m = m\<lparr>num_cell := 0\<rparr>;
     let (status, m) = iterate_agents get_num_agents m;
     ASSERT (HSA_STATUS_SUCCESS = status);
     let m = m\<lparr>array := replicate (unat (num_cell m)) None, position := 0\<rparr>;
     let (status, m) = iterate_agents get_agents m;
     ASSERT (HSA_STATUS_SUCCESS = status);
     Some (\<lparr>num_handles = num_cell m, handle_array = array m\<rparr>, m)
   }"

text \<open>After \<open>free_agent_list\<close> and \<open>free_region_list\<close> the list is empty, and no element of the array is there any more.\<close>

definition free_agent_list :: "hsa_agent_t handle_list_s \<Rightarrow> hsa_agent_t handle_list_s" where
  "free_agent_list agent_list = agent_list\<lparr>num_handles := 0, handle_array := []\<rparr>"

definition free_region_list :: "hsa_region_t handle_list_s \<Rightarrow> hsa_region_t handle_list_s" where
  "free_region_list region_list = region_list\<lparr>num_handles := 0, handle_array := []\<rparr>"




text \<open>\<open>check_agent\<close> aborts the test, here with \<open>None\<close>, when a check fails.\<close>

definition check_agent :: "('s, 'z) agent_rt_scheme \<Rightarrow> hsa_agent_t \<Rightarrow> 'm option \<Rightarrow> hsa_status_t \<times> 'm option" where
  "check_agent rt agent m = (HSA_STATUS_SUCCESS, do { m \<leftarrow> m; check_agent_info rt agent; Some m })"

definition get_num_regions :: "hsa_region_t callback" where
  "get_num_regions region m = (HSA_STATUS_SUCCESS, m\<lparr>num_cell := increment_int (num_cell m)\<rparr>)"

definition get_regions :: "hsa_region_t callback" where
  "get_regions region m = (HSA_STATUS_SUCCESS, store_handle region m)"

definition get_region_list ::
  "(hsa_agent_t \<Rightarrow> hsa_region_t callback \<Rightarrow> hsa_region_t iter_mem \<Rightarrow> hsa_status_t \<times> hsa_region_t iter_mem) \<Rightarrow>
   hsa_agent_t \<Rightarrow> hsa_region_t iter_mem \<Rightarrow> (hsa_region_t handle_list_s \<times> hsa_region_t iter_mem) option"
where
  "get_region_list iterate_regions agent m = do {
     let m = m\<lparr>num_cell := 0\<rparr>;
     let (status, m) = iterate_regions agent get_num_regions m;
     ASSERT (HSA_STATUS_SUCCESS = status);
     let m = m\<lparr>array := replicate (unat (num_cell m)) None, position := 0\<rparr>;
     let (status, m) = iterate_regions agent get_regions m;
     ASSERT (HSA_STATUS_SUCCESS = status);
     Some (\<lparr>num_handles = num_cell m, handle_array = array m\<rparr>, m)
   }"






text \<open>A runtime and a memory for the examples.\<close>

definition sample_rt :: "nat agent_rt" where
  "sample_rt =
    \<lparr>system_info = (\<lambda>_ t. (HSA_STATUS_SUCCESS, of_nat t, t + 1)), sleep = (\<lambda>n t. t + n),
     agent_info = (\<lambda>_ attribute. (HSA_STATUS_SUCCESS, \<lambda>_. if attribute = HSA_EXT_AGENT_INFO_MAX_IMAGE_RD_HANDLES then 128 else 64)),
     feature_info = (\<lambda>_. (HSA_STATUS_SUCCESS, {HSA_AGENT_FEATURE_KERNEL_DISPATCH})),
     device_info = (\<lambda>a. (HSA_STATUS_SUCCESS, if a = 5 then HSA_DEVICE_TYPE_GPU else HSA_DEVICE_TYPE_CPU)),
     segment_info = (\<lambda>r. (HSA_STATUS_SUCCESS, if r = 1 then HSA_REGION_SEGMENT_GROUP else HSA_REGION_SEGMENT_GLOBAL)),
     flags_info = (\<lambda>r. (HSA_STATUS_SUCCESS, if r = 3 then {HSA_REGION_GLOBAL_FLAG_KERNARG} else {}))\<rparr>"

definition sample_mem :: "'h iter_mem" where
  "sample_mem = \<lparr>num_cell = 3, array = [], position = 0, ret = None, out_of_bounds = False\<rparr>"

subsection \<open>Powers of two\<close>

lemma power_of_two_nat: "0 < n \<Longrightarrow> n AND (n - 1) = 0 \<longleftrightarrow> (\<exists>k. n = (2::nat) ^ k)"
proof (induction n rule: less_induct)
  case (less n)
  show ?case
  proof (cases "even n")
    case True
    then obtain m where m: "n = 2 * m" "0 < m" "m < n" using less.prems by (auto elim!: evenE)
    have "n - 1 = Suc (2 * (m - 1))" using m by simp
    then have "n AND (n - 1) = 2 * (m AND (m - 1))"
      using m(1) by (simp add: and_nat_rec [of "2 * m"])
    moreover have "(\<exists>k. n = 2 ^ k) \<longleftrightarrow> (\<exists>k. m = 2 ^ k)"
    proof
      assume "\<exists>k. n = 2 ^ k"
      then obtain k where "n = 2 ^ k" by blast
      then have "m = 2 ^ (k - 1)" using m(1) True by (cases k) auto
      then show "\<exists>k. m = 2 ^ k" by blast
    next
      assume "\<exists>k. m = 2 ^ k"
      then show "\<exists>k. n = 2 ^ k" using m(1) by (metis power_Suc)
    qed
    ultimately show ?thesis using less.IH [OF m(3,2)] by simp
  next
    case False
    then obtain m where m: "n = Suc (2 * m)" by (auto elim!: oddE)
    have "n AND (n - 1) = 2 * m" by (simp add: m and_nat_rec [of "Suc (2 * m)"])
    moreover have "(\<exists>k. n = 2 ^ k) \<longleftrightarrow> m = 0"
    proof
      assume "\<exists>k. n = 2 ^ k"
      then obtain k where k: "n = 2 ^ k" by blast
      then have "k = 0" using False by (cases k) auto
      then show "m = 0" using k m by simp
    qed (auto simp: m intro: exI [of _ 0])
    ultimately show ?thesis by simp
  qed
qed

lemma isPowerOfTwo_iff: "isPowerOfTwo x \<noteq> 0 \<longleftrightarrow> (\<exists>k < 32. unat x = 2 ^ k)"
proof (cases "x = 0")
  case True
  then show ?thesis by (simp add: isPowerOfTwo_def)
next
  case False
  then have pos: "0 < unat x" by (simp add: unat_gt_0)
  have "unat (x - 1) = unat x - 1" using False by (simp add: unat_minus_one)
  then have "x AND (x - 1) = 0 \<longleftrightarrow> unat x AND (unat x - 1) = 0"
    by (metis unsigned_and_eq unsigned_eq_0_iff)
  also have "\<dots> \<longleftrightarrow> (\<exists>k. unat x = 2 ^ k)" by (rule power_of_two_nat [OF pos])
  also have "\<dots> \<longleftrightarrow> (\<exists>k < 32. unat x = 2 ^ k)"
  proof -
    have "k < 32" if "unat x = 2 ^ k" for k
    proof -
      have "(2::nat) ^ k < 2 ^ 32" using unsigned_less [of x] by (simp add: that [symmetric])
      then show ?thesis by (rule power_less_imp_less_exp [rotated]) simp
    qed
    then show ?thesis by blast
  qed
  finally show ?thesis using False by (simp add: isPowerOfTwo_def)
qed

subsection \<open>Lists of handles\<close>

lemma increment_int_of_nat:
  assumes "k + 1 < 2 ^ 32"
  shows "increment_int (of_nat k) = of_nat (k + 1)"
proof -
  have k: "unat (of_nat k :: 64 word) = k" "unat (of_nat k :: 32 word) = k"
    using assms by (simp_all add: unat_of_nat)
  have "unat (of_nat k + 1 :: 32 word) = k + 1"
    using assms k(2) by (subst unat_add_lem [THEN iffD1]) simp_all
  moreover have "(ucast (of_nat k :: 64 word) :: 32 word) = of_nat k"
    using assms by (metis k(1) of_nat_unat)
  ultimately have low: "ucast (ucast (of_nat k :: 64 word) + 1 :: 32 word) = (of_nat (k + 1) :: 64 word)"
    by (metis of_nat_unat)
  have "unat (drop_bit 32 (of_nat k :: 64 word)) = 0"
    using assms by (simp add: drop_bit_eq_div unat_div_distrib k)
  then have "drop_bit 32 (of_nat k :: 64 word) = 0" by (simp add: unat_eq_0)
  then show ?thesis unfolding increment_int_def low by simp
qed

lemma count_handles:
  assumes "k + length hs < 2 ^ 32" "num_cell m = of_nat k"
  shows "fold (\<lambda>h m. m\<lparr>num_cell := increment_int (num_cell m)\<rparr>) hs m = m\<lparr>num_cell := of_nat (k + length hs)\<rparr>"
  using assms
proof (induction hs arbitrary: k m)
  case Nil
  then show ?case by simp
next
  case (Cons h hs)
  have "increment_int (num_cell m) = of_nat (k + 1)"
    unfolding Cons.prems(2) using Cons.prems(1) by (intro increment_int_of_nat) simp
  then show ?case
    using Cons.IH [of "k + 1" "m\<lparr>num_cell := of_nat (k + 1)\<rparr>"] Cons.prems(1) by simp
qed

lemma store_handles:
  assumes "position m + length hs \<le> length (array m)"
  shows "fold store_handle hs m =
    m\<lparr>array := take (position m) (array m) @ map Some hs @ drop (position m + length hs) (array m),
      position := position m + length hs\<rparr>"
  using assms
proof (induction hs arbitrary: m)
  case Nil
  then show ?case by simp
next
  case (Cons h hs)
  let ?m = "m\<lparr>array := (array m)[position m := Some h], position := position m + 1\<rparr>"
  have "store_handle h m = ?m" using Cons.prems by (simp add: store_handle_def)
  then show ?case
    using Cons.IH [of ?m] Cons.prems
    by (simp add: take_Suc_conv_app_nth drop_update_cancel)
qed

lemma listing:
  assumes "handle_iterator iterate hs" "length hs < 2 ^ 31"
  shows "iterate (\<lambda>h m. (HSA_STATUS_SUCCESS, m\<lparr>num_cell := increment_int (num_cell m)\<rparr>)) (m\<lparr>num_cell := 0\<rparr>) =
      (HSA_STATUS_SUCCESS, m\<lparr>num_cell := of_nat (length hs)\<rparr>)"
    and "iterate (\<lambda>h m. (HSA_STATUS_SUCCESS, store_handle h m))
        (m\<lparr>array := replicate (unat (of_nat (length hs) :: 64 word)) None, position := 0\<rparr>) =
      (HSA_STATUS_SUCCESS, m\<lparr>array := map Some hs, position := length hs\<rparr>)"
proof -
  have n: "unat (of_nat (length hs) :: 64 word) = length hs"
    using assms(2) by (simp add: unat_of_nat)
  show "iterate (\<lambda>h m. (HSA_STATUS_SUCCESS, m\<lparr>num_cell := increment_int (num_cell m)\<rparr>)) (m\<lparr>num_cell := 0\<rparr>) =
      (HSA_STATUS_SUCCESS, m\<lparr>num_cell := of_nat (length hs)\<rparr>)"
    using assms(2) count_handles [of 0 hs "m\<lparr>num_cell := 0\<rparr>"]
    by (subst handle_iterator.iterate_all [OF assms(1)]) (rule refl, simp)
  show "iterate (\<lambda>h m. (HSA_STATUS_SUCCESS, store_handle h m))
        (m\<lparr>array := replicate (unat (of_nat (length hs) :: 64 word)) None, position := 0\<rparr>) =
      (HSA_STATUS_SUCCESS, m\<lparr>array := map Some hs, position := length hs\<rparr>)"
    by (subst handle_iterator.iterate_all [OF assms(1)]) (rule refl, simp add: store_handles n)
qed

lemma get_agent_list_lists:
  assumes "handle_iterator iterate_agents agents" "length agents < 2 ^ 31"
  shows "\<exists>m'. get_agent_list iterate_agents m =
      Some (\<lparr>num_handles = of_nat (length agents), handle_array = map Some agents\<rparr>, m') \<and>
    out_of_bounds m' = out_of_bounds m"
  using listing [OF assms, of m] listing(2) [OF assms, of "m\<lparr>num_cell := of_nat (length agents)\<rparr>"]
  by (simp add: get_agent_list_def get_num_agents_def [abs_def] get_agents_def [abs_def])

text \<open>
  C33.  \<open>get_agent_list\<close> returns exactly the agents of the system, in the order of the runtime, with their
  number, and never writes outside of the array it allocated (for fewer than \<open>2 ^ 31\<close> agents, what an \<open>int\<close> can count).
\<close>

theorem get_agent_list_correct:
  assumes "handle_iterator iterate_agents agents" "length agents < 2 ^ 31"
  shows "\<exists>m'. get_agent_list iterate_agents m =
      Some (\<lparr>num_handles = of_nat (length agents), handle_array = map Some agents\<rparr>, m') \<and>
    out_of_bounds m' = out_of_bounds m"
  by (rule get_agent_list_lists [OF assms])

theorem get_agent_list_correct_witness:
  "\<exists>m'. get_agent_list (iterate_over [7, 5]) sample_mem =
      Some (\<lparr>num_handles = 2, handle_array = [Some 7, Some 5]\<rparr>, m') \<and> \<not> out_of_bounds m'"
  using get_agent_list_correct [where m = sample_mem, OF listed.handle_iterator_axioms [of "[7, 5]"]]
  by (simp add: sample_mem_def)

text \<open>The same holds of \<open>get_region_list\<close> and the memory regions of an agent.\<close>

theorem get_region_list_correct:
  assumes "handle_iterator (iterate_regions agent) regions" "length regions < 2 ^ 31"
  shows "\<exists>m'. get_region_list iterate_regions agent m =
      Some (\<lparr>num_handles = of_nat (length regions), handle_array = map Some regions\<rparr>, m') \<and>
    out_of_bounds m' = out_of_bounds m"
  using listing [OF assms, of m] listing(2) [OF assms, of "m\<lparr>num_cell := of_nat (length regions)\<rparr>"]
  by (simp add: get_region_list_def get_num_regions_def [abs_def] get_regions_def [abs_def])

theorem get_region_list_correct_witness:
  "\<exists>m'. get_region_list (\<lambda>agent. iterate_over [agent, 9]) 1 sample_mem =
      Some (\<lparr>num_handles = 2, handle_array = [Some 1, Some 9]\<rparr>, m') \<and> \<not> out_of_bounds m'"
  using get_region_list_correct [where m = sample_mem and agent = 1 and iterate_regions = "\<lambda>agent. iterate_over [agent, 9]",
      OF listed.handle_iterator_axioms]
  by (simp add: sample_mem_def)

subsection \<open>Selecting a handle\<close>












subsection \<open>What the checks establish\<close>

lemma run_Some:
  "(m \<bind> f) = Some x \<longleftrightarrow> (\<exists>y. m = Some y \<and> f y = Some x)" "ASSERT b = Some u \<longleftrightarrow> b"
  by (simp_all add: bind_eq_Some_conv ASSERT_def)

text \<open>
  C34.  \<open>isPowerOfTwo\<close> is true of exactly the powers of two that fit in 32 bits; in particular not of 0.
\<close>

theorem isPowerOfTwo_correct: "isPowerOfTwo x \<noteq> 0 \<longleftrightarrow> (\<exists>k \<le> 31. unat x = 2 ^ k)"
  unfolding isPowerOfTwo_iff by (simp add: less_Suc_eq_le numeral_eq_Suc)

abbreviation reported :: "('s, 'z) agent_rt_scheme \<Rightarrow> hsa_agent_t \<Rightarrow> hsa_agent_info_t \<Rightarrow> nat \<Rightarrow> 32 word" where
  "reported rt agent attribute \<equiv> snd (agent_info rt agent attribute)"

text \<open>
  When \<open>check_agent_info\<close> passes for an agent that dispatches kernels, its wavefront size is a power of two up
  to 256, its work-group dimensions are between 1 and the work-group size and fit in the grid, whose dimensions
  fit in the grid size, and its queue size is a power of two.
\<close>

theorem check_agent_info_sound:
  assumes "check_agent_info rt agent = Some ()" "feature_info rt agent = (HSA_STATUS_SUCCESS, {HSA_AGENT_FEATURE_KERNEL_DISPATCH})"
  shows "(\<exists>k \<le> 8. unat (reported rt agent HSA_AGENT_INFO_WAVEFRONT_SIZE 0) = 2 ^ k) \<and>
    (\<forall>d < 3. 0 < reported rt agent HSA_AGENT_INFO_WORKGROUP_MAX_DIM d \<and>
       reported rt agent HSA_AGENT_INFO_WORKGROUP_MAX_DIM d \<le> reported rt agent HSA_AGENT_INFO_WORKGROUP_MAX_SIZE 0 \<and>
       reported rt agent HSA_AGENT_INFO_WORKGROUP_MAX_DIM d \<le> reported rt agent HSA_AGENT_INFO_GRID_MAX_DIM d \<and>
       reported rt agent HSA_AGENT_INFO_GRID_MAX_DIM d \<le> reported rt agent HSA_AGENT_INFO_GRID_MAX_SIZE 0) \<and>
    (\<exists>k < 32. unat (reported rt agent HSA_AGENT_INFO_QUEUE_MAX_SIZE 0) = 2 ^ k)"
proof -
  have checks: "check_dispatch_info rt agent = Some ()"
    using assms by (simp add: check_agent_info_def case_prod_beta run_Some Let_def)
  note facts = checks [unfolded check_dispatch_info_def case_prod_beta run_Some Let_def]
  have "\<exists>k \<le> 8. unat (reported rt agent HSA_AGENT_INFO_WAVEFRONT_SIZE 0) = 2 ^ k"
  proof -
    obtain k where k: "unat (reported rt agent HSA_AGENT_INFO_WAVEFRONT_SIZE 0) = 2 ^ k"
      using facts by (auto simp: isPowerOfTwo_iff)
    have "reported rt agent HSA_AGENT_INFO_WAVEFRONT_SIZE 0 \<le> 256" using facts by simp
    then have "(2::nat) ^ k \<le> 2 ^ 8" by (simp add: word_le_nat_alt k)
    then have "k \<le> 8" by (rule power_le_imp_le_exp [rotated]) simp
    then show ?thesis using k by blast
  qed
  moreover have "\<forall>d < 3. 0 < reported rt agent HSA_AGENT_INFO_WORKGROUP_MAX_DIM d \<and>
       reported rt agent HSA_AGENT_INFO_WORKGROUP_MAX_DIM d \<le> reported rt agent HSA_AGENT_INFO_WORKGROUP_MAX_SIZE 0 \<and>
       reported rt agent HSA_AGENT_INFO_WORKGROUP_MAX_DIM d \<le> reported rt agent HSA_AGENT_INFO_GRID_MAX_DIM d \<and>
       reported rt agent HSA_AGENT_INFO_GRID_MAX_DIM d \<le> reported rt agent HSA_AGENT_INFO_GRID_MAX_SIZE 0"
    using facts by (auto simp: numeral_3_eq_3 numeral_2_eq_2 run_Some less_Suc_eq)
  moreover have "\<exists>k < 32. unat (reported rt agent HSA_AGENT_INFO_QUEUE_MAX_SIZE 0) = 2 ^ k"
    using facts by (simp add: isPowerOfTwo_iff)
  ultimately show ?thesis by blast
qed

theorem check_agent_info_sound_witness:
  "(\<exists>k \<le> 8. unat (reported sample_rt 7 HSA_AGENT_INFO_WAVEFRONT_SIZE 0) = 2 ^ k) \<and>
    check_agent_info sample_rt 7 = Some ()"
proof -
  have "isPowerOfTwo 64 \<noteq> 0" by (simp add: isPowerOfTwo_def)
  then have "check_agent_info sample_rt 7 = Some ()"
    by (simp add: check_agent_info_def check_dispatch_info_def sample_rt_def numeral_3_eq_3)
  then show ?thesis
    using check_agent_info_sound [of sample_rt 7] by (simp add: sample_rt_def)
qed

text \<open>
  The test of the device type in \<open>check_agent_info\<close> accepts every value: whatever else than a GPU an agent says it
  is, the outcome is that for a CPU.
\<close>

theorem check_accepts_any_device:
  assumes "d \<noteq> HSA_DEVICE_TYPE_GPU"
  shows "check_agent_info (rt\<lparr>device_info := \<lambda>_. (HSA_STATUS_SUCCESS, d)\<rparr>) agent =
    check_agent_info (rt\<lparr>device_info := \<lambda>_. (HSA_STATUS_SUCCESS, HSA_DEVICE_TYPE_CPU)\<rparr>) agent"
proof -
  have "check_dispatch_info (rt\<lparr>device_info := f\<rparr>) agent = check_dispatch_info rt agent" for f
    by (simp add: check_dispatch_info_def)
  then show ?thesis using assms by (simp add: check_agent_info_def cong: if_cong)
qed

theorem check_accepts_any_device_witness:
  "check_agent_info (sample_rt\<lparr>device_info := \<lambda>_. (HSA_STATUS_SUCCESS, HSA_DEVICE_TYPE_OTHER 17)\<rparr>) 7 = 
    check_agent_info (sample_rt\<lparr>device_info := \<lambda>_. (HSA_STATUS_SUCCESS, HSA_DEVICE_TYPE_CPU)\<rparr>) 7"
  by (rule check_accepts_any_device) simp

text \<open>
  A traversal of the agents with \<open>check_agent\<close> completes exactly when every agent passes the checks.
\<close>

theorem check_all_agents:
  assumes "handle_iterator iterate_agents agents"
  shows "iterate_agents (check_agent rt) (Some m) =
    (HSA_STATUS_SUCCESS, if \<forall>agent \<in> set agents. check_agent_info rt agent = Some () then Some m else None)"
proof -
  let ?step = "\<lambda>agent m. do { m \<leftarrow> m; check_agent_info rt agent; Some m }"
  have "iterate_agents (check_agent rt) (Some m) = (HSA_STATUS_SUCCESS, fold ?step agents (Some m))"
    by (rule handle_iterator.iterate_all [OF assms]) (simp add: check_agent_def)
  moreover have none: "fold ?step agents None = None" for agents
    by (induction agents) simp_all
  have "fold ?step agents (Some m) = (if \<forall>agent \<in> set agents. check_agent_info rt agent = Some () then Some m else None)"
    for agents
  proof (induction agents)
    case Nil
    then show ?case by simp
  next
    case (Cons agent agents)
    then show ?case using none by (cases "check_agent_info rt agent") simp_all
  qed
  ultimately show ?thesis by simp
qed

theorem check_all_agents_witness:
  "iterate_over [1, 2] (check_agent sample_rt) (Some (0 :: nat)) = (HSA_STATUS_SUCCESS, Some 0)"
proof -
  have "check_agent_info sample_rt agent = Some ()" if "agent \<noteq> 5" for agent
    using that by (simp add: check_agent_info_def check_dispatch_info_def sample_rt_def numeral_3_eq_3 isPowerOfTwo_def)
  then show ?thesis
    using check_all_agents [where rt = sample_rt and m = "0 :: nat", OF listed.handle_iterator_axioms [of "[1, 2]"]]
    by simp
qed

end
