(* ===== verification/Image_Utils.thy ===== *)
theory Image_Utils
  imports Agent_Utils
begin

text \<open>
  \<open>utils/image_utils.c\<close>: properties of image formats and geometries that the image tests use, and
  the table of the image extension.  The enumerations of \<open>hsa_ext_image.h\<close> have the members the code names and a last
  one for all other values.
\<close>

datatype hsa_ext_image_channel_type_t =
    HSA_EXT_IMAGE_CHANNEL_TYPE_UNORM_SHORT_555 | HSA_EXT_IMAGE_CHANNEL_TYPE_UNORM_SHORT_565
  | HSA_EXT_IMAGE_CHANNEL_TYPE_SNORM_INT8 | HSA_EXT_IMAGE_CHANNEL_TYPE_UNORM_INT8
  | HSA_EXT_IMAGE_CHANNEL_TYPE_UNSIGNED_INT8 | HSA_EXT_IMAGE_CHANNEL_TYPE_SIGNED_INT8
  | HSA_EXT_IMAGE_CHANNEL_TYPE_UNORM_SHORT_101010 | HSA_EXT_IMAGE_CHANNEL_TYPE_SNORM_INT16
  | HSA_EXT_IMAGE_CHANNEL_TYPE_UNORM_INT16 | HSA_EXT_IMAGE_CHANNEL_TYPE_HALF_FLOAT
  | HSA_EXT_IMAGE_CHANNEL_TYPE_SIGNED_INT16 | HSA_EXT_IMAGE_CHANNEL_TYPE_UNORM_INT24
  | HSA_EXT_IMAGE_CHANNEL_TYPE_SIGNED_INT32 | HSA_EXT_IMAGE_CHANNEL_TYPE_UNSIGNED_INT16
  | HSA_EXT_IMAGE_CHANNEL_TYPE_FLOAT | HSA_EXT_IMAGE_CHANNEL_TYPE_UNSIGNED_INT32 | HSA_EXT_IMAGE_CHANNEL_TYPE_OTHER

datatype hsa_ext_image_channel_order_t =
    HSA_EXT_IMAGE_CHANNEL_ORDER_A | HSA_EXT_IMAGE_CHANNEL_ORDER_R | HSA_EXT_IMAGE_CHANNEL_ORDER_RX
  | HSA_EXT_IMAGE_CHANNEL_ORDER_RG | HSA_EXT_IMAGE_CHANNEL_ORDER_RGX | HSA_EXT_IMAGE_CHANNEL_ORDER_RA
  | HSA_EXT_IMAGE_CHANNEL_ORDER_RGB | HSA_EXT_IMAGE_CHANNEL_ORDER_RGBX | HSA_EXT_IMAGE_CHANNEL_ORDER_RGBA
  | HSA_EXT_IMAGE_CHANNEL_ORDER_BGRA | HSA_EXT_IMAGE_CHANNEL_ORDER_ARGB | HSA_EXT_IMAGE_CHANNEL_ORDER_ABGR
  | HSA_EXT_IMAGE_CHANNEL_ORDER_SRGB | HSA_EXT_IMAGE_CHANNEL_ORDER_SRGBX | HSA_EXT_IMAGE_CHANNEL_ORDER_SRGBA
  | HSA_EXT_IMAGE_CHANNEL_ORDER_SBGRA | HSA_EXT_IMAGE_CHANNEL_ORDER_INTENSITY
  | HSA_EXT_IMAGE_CHANNEL_ORDER_LUMINANCE | HSA_EXT_IMAGE_CHANNEL_ORDER_DEPTH
  | HSA_EXT_IMAGE_CHANNEL_ORDER_DEPTH_STENCIL | HSA_EXT_IMAGE_CHANNEL_ORDER_OTHER

datatype hsa_ext_image_geometry_t =
    HSA_EXT_IMAGE_GEOMETRY_1D | HSA_EXT_IMAGE_GEOMETRY_1DA | HSA_EXT_IMAGE_GEOMETRY_1DB | HSA_EXT_IMAGE_GEOMETRY_2D
  | HSA_EXT_IMAGE_GEOMETRY_2DA | HSA_EXT_IMAGE_GEOMETRY_2DDEPTH | HSA_EXT_IMAGE_GEOMETRY_2DADEPTH
  | HSA_EXT_IMAGE_GEOMETRY_3D | HSA_EXT_IMAGE_GEOMETRY_OTHER

fun get_channel_type_bits :: "hsa_ext_image_channel_type_t \<Rightarrow> 32 word" where
  "get_channel_type_bits HSA_EXT_IMAGE_CHANNEL_TYPE_UNORM_SHORT_555 = 5"
| "get_channel_type_bits HSA_EXT_IMAGE_CHANNEL_TYPE_UNORM_SHORT_565 = 5"
| "get_channel_type_bits HSA_EXT_IMAGE_CHANNEL_TYPE_SNORM_INT8 = 7"
| "get_channel_type_bits HSA_EXT_IMAGE_CHANNEL_TYPE_UNORM_INT8 = 8"
| "get_channel_type_bits HSA_EXT_IMAGE_CHANNEL_TYPE_UNSIGNED_INT8 = 8"
| "get_channel_type_bits HSA_EXT_IMAGE_CHANNEL_TYPE_SIGNED_INT8 = 7"
| "get_channel_type_bits HSA_EXT_IMAGE_CHANNEL_TYPE_UNORM_SHORT_101010 = 10"
| "get_channel_type_bits HSA_EXT_IMAGE_CHANNEL_TYPE_SNORM_INT16 = 15"
| "get_channel_type_bits HSA_EXT_IMAGE_CHANNEL_TYPE_UNORM_INT16 = 16"
| "get_channel_type_bits HSA_EXT_IMAGE_CHANNEL_TYPE_HALF_FLOAT = 16"
| "get_channel_type_bits HSA_EXT_IMAGE_CHANNEL_TYPE_SIGNED_INT16 = 15"
| "get_channel_type_bits HSA_EXT_IMAGE_CHANNEL_TYPE_UNORM_INT24 = 24"
| "get_channel_type_bits HSA_EXT_IMAGE_CHANNEL_TYPE_SIGNED_INT32 = 31"
| "get_channel_type_bits HSA_EXT_IMAGE_CHANNEL_TYPE_UNSIGNED_INT16 = 16"
| "get_channel_type_bits HSA_EXT_IMAGE_CHANNEL_TYPE_FLOAT = 21"
| "get_channel_type_bits HSA_EXT_IMAGE_CHANNEL_TYPE_UNSIGNED_INT32 = 32"
| "get_channel_type_bits HSA_EXT_IMAGE_CHANNEL_TYPE_OTHER = 0"

definition get_kernel_index :: "hsa_ext_image_channel_type_t \<Rightarrow> nat" where
  "get_kernel_index channel_type =
     (if HSA_EXT_IMAGE_CHANNEL_TYPE_SIGNED_INT8 = channel_type \<or>
         HSA_EXT_IMAGE_CHANNEL_TYPE_SIGNED_INT16 = channel_type \<or>
         HSA_EXT_IMAGE_CHANNEL_TYPE_SIGNED_INT32 = channel_type then 0
      else if HSA_EXT_IMAGE_CHANNEL_TYPE_UNSIGNED_INT8 = channel_type \<or>
              HSA_EXT_IMAGE_CHANNEL_TYPE_UNSIGNED_INT16 = channel_type \<or>
              HSA_EXT_IMAGE_CHANNEL_TYPE_UNSIGNED_INT32 = channel_type then 1
      else 2)"

definition VERIFY_IMAGE_REGION_KERNEL_1D :: "string list" where
  "VERIFY_IMAGE_REGION_KERNEL_1D =
     [''&__verify_image_region_kernel_s32_1d'',
      ''&__verify_image_region_kernel_u32_1d'',
      ''&__verify_image_region_kernel_f32_1d'']"

definition VERIFY_IMAGE_REGION_KERNEL_1DA :: "string list" where
  "VERIFY_IMAGE_REGION_KERNEL_1DA =
     [''&__verify_image_region_kernel_s32_1da'',
      ''&__verify_image_region_kernel_u32_1da'',
      ''&__verify_image_region_kernel_f32_1da'']"

definition VERIFY_IMAGE_REGION_KERNEL_1DB :: "string list" where
  "VERIFY_IMAGE_REGION_KERNEL_1DB =
     [''&__verify_image_region_kernel_s32_1db'',
      ''&__verify_image_region_kernel_u32_1db'',
      ''&__verify_image_region_kernel_f32_1db'']"

definition VERIFY_IMAGE_REGION_KERNEL_2D :: "string list" where
  "VERIFY_IMAGE_REGION_KERNEL_2D =
     [''&__verify_image_region_kernel_s32_2d'',
      ''&__verify_image_region_kernel_u32_2d'',
      ''&__verify_image_region_kernel_f32_2d'']"

definition VERIFY_IMAGE_REGION_KERNEL_2DA :: "string list" where
  "VERIFY_IMAGE_REGION_KERNEL_2DA =
     [''&__verify_image_region_kernel_s32_2da'',
      ''&__verify_image_region_kernel_u32_2da'',
      ''&__verify_image_region_kernel_f32_2da'']"

definition VERIFY_IMAGE_REGION_KERNEL_2DDEPTH :: "string list" where
  "VERIFY_IMAGE_REGION_KERNEL_2DDEPTH =
     [''&__verify_image_region_kernel_s32_2ddepth'',
      ''&__verify_image_region_kernel_u32_2ddepth'',
      ''&__verify_image_region_kernel_f32_2ddepth'']"

definition VERIFY_IMAGE_REGION_KERNEL_2DADEPTH :: "string list" where
  "VERIFY_IMAGE_REGION_KERNEL_2DADEPTH =
     [''&__verify_image_region_kernel_s32_2dadepth'',
      ''&__verify_image_region_kernel_u32_2dadepth'',
      ''&__verify_image_region_kernel_f32_2dadepth'']"

definition VERIFY_IMAGE_REGION_KERNEL_3D :: "string list" where
  "VERIFY_IMAGE_REGION_KERNEL_3D =
     [''&__verify_image_region_kernel_s32_3d'',
      ''&__verify_image_region_kernel_u32_3d'',
      ''&__verify_image_region_kernel_f32_3d'']"

text \<open>
  For a geometry that the \<open>switch\<close> does not know the attribute is uninitialised when it is passed on, here
  \<open>None\<close>.  The dimension is returned together with the table of kernels and the attribute.
\<close>

fun geometry_case :: "hsa_ext_image_geometry_t \<Rightarrow> (nat \<times> hsa_agent_info_t \<times> string list) option" where
  "geometry_case HSA_EXT_IMAGE_GEOMETRY_1D =
     Some (1, HSA_EXT_AGENT_INFO_IMAGE_1D_MAX_ELEMENTS, VERIFY_IMAGE_REGION_KERNEL_1D)"
| "geometry_case HSA_EXT_IMAGE_GEOMETRY_1DA =
     Some (1, HSA_EXT_AGENT_INFO_IMAGE_1DA_MAX_ELEMENTS, VERIFY_IMAGE_REGION_KERNEL_1DA)"
| "geometry_case HSA_EXT_IMAGE_GEOMETRY_1DB =
     Some (1, HSA_EXT_AGENT_INFO_IMAGE_1DB_MAX_ELEMENTS, VERIFY_IMAGE_REGION_KERNEL_1DB)"
| "geometry_case HSA_EXT_IMAGE_GEOMETRY_2D =
     Some (2, HSA_EXT_AGENT_INFO_IMAGE_2D_MAX_ELEMENTS, VERIFY_IMAGE_REGION_KERNEL_2D)"
| "geometry_case HSA_EXT_IMAGE_GEOMETRY_2DA =
     Some (2, HSA_EXT_AGENT_INFO_IMAGE_2DA_MAX_ELEMENTS, VERIFY_IMAGE_REGION_KERNEL_2DA)"
| "geometry_case HSA_EXT_IMAGE_GEOMETRY_2DDEPTH =
     Some (2, HSA_EXT_AGENT_INFO_IMAGE_2DDEPTH_MAX_ELEMENTS, VERIFY_IMAGE_REGION_KERNEL_2DDEPTH)"
| "geometry_case HSA_EXT_IMAGE_GEOMETRY_2DADEPTH =
     Some (2, HSA_EXT_AGENT_INFO_IMAGE_2DADEPTH_MAX_ELEMENTS, VERIFY_IMAGE_REGION_KERNEL_2DADEPTH)"
| "geometry_case HSA_EXT_IMAGE_GEOMETRY_3D =
     Some (3, HSA_EXT_AGENT_INFO_IMAGE_3D_MAX_ELEMENTS, VERIFY_IMAGE_REGION_KERNEL_3D)"
| "geometry_case HSA_EXT_IMAGE_GEOMETRY_OTHER = None"

text \<open>
  The results are the dimension, the validation kernel and the array \<open>max_elements\<close>, whose elements the query does not
  write are overwritten with 1.
\<close>

definition get_geometry_info ::
  "('s, 'z) agent_rt_scheme \<Rightarrow> hsa_agent_t \<Rightarrow> hsa_ext_image_channel_type_t \<Rightarrow> hsa_ext_image_geometry_t \<Rightarrow>
   (nat \<times> 32 word list \<times> string) option"
where
  "get_geometry_info rt agent channel_type geometry = do {
     (image_dimension, max_elements_attribute, kernels) \<leftarrow> geometry_case geometry;
     let validation_kernel = kernels ! get_kernel_index channel_type;
     let (status, max_elements) = agent_info rt agent max_elements_attribute;
     ASSERT (HSA_STATUS_SUCCESS = status);
     Some (image_dimension,
       [max_elements 0, if 2 \<le> image_dimension then max_elements 1 else 1,
        if 3 \<le> image_dimension then max_elements 2 else 1],
       validation_kernel)
   }"

fun get_cmp_info :: "hsa_ext_image_channel_order_t \<Rightarrow> 32 word" where
  "get_cmp_info HSA_EXT_IMAGE_CHANNEL_ORDER_A = 0x0001"
| "get_cmp_info HSA_EXT_IMAGE_CHANNEL_ORDER_R = 0x1000"
| "get_cmp_info HSA_EXT_IMAGE_CHANNEL_ORDER_RX = 0x1000"
| "get_cmp_info HSA_EXT_IMAGE_CHANNEL_ORDER_RG = 0x1100"
| "get_cmp_info HSA_EXT_IMAGE_CHANNEL_ORDER_RGX = 0x1100"
| "get_cmp_info HSA_EXT_IMAGE_CHANNEL_ORDER_RA = 0x1001"
| "get_cmp_info HSA_EXT_IMAGE_CHANNEL_ORDER_RGB = 0x1110"
| "get_cmp_info HSA_EXT_IMAGE_CHANNEL_ORDER_RGBX = 0x1110"
| "get_cmp_info HSA_EXT_IMAGE_CHANNEL_ORDER_RGBA = 0x1111"
| "get_cmp_info HSA_EXT_IMAGE_CHANNEL_ORDER_BGRA = 0x1111"
| "get_cmp_info HSA_EXT_IMAGE_CHANNEL_ORDER_ARGB = 0x1111"
| "get_cmp_info HSA_EXT_IMAGE_CHANNEL_ORDER_ABGR = 0x1111"
| "get_cmp_info HSA_EXT_IMAGE_CHANNEL_ORDER_SRGB = 0x1110"
| "get_cmp_info HSA_EXT_IMAGE_CHANNEL_ORDER_SRGBX = 0x1110"
| "get_cmp_info HSA_EXT_IMAGE_CHANNEL_ORDER_SRGBA = 0x1111"
| "get_cmp_info HSA_EXT_IMAGE_CHANNEL_ORDER_SBGRA = 0x1111"
| "get_cmp_info HSA_EXT_IMAGE_CHANNEL_ORDER_INTENSITY = 0x1000"
| "get_cmp_info HSA_EXT_IMAGE_CHANNEL_ORDER_LUMINANCE = 0x1000"
| "get_cmp_info HSA_EXT_IMAGE_CHANNEL_ORDER_DEPTH = 0x1000"
| "get_cmp_info HSA_EXT_IMAGE_CHANNEL_ORDER_DEPTH_STENCIL = 0x1000"
| "get_cmp_info HSA_EXT_IMAGE_CHANNEL_ORDER_OTHER = 0x0000"

subsection \<open>The table of the image extension\<close>

text \<open>
  A function table is a record of function pointers \<open>'p\<close>; the table the runtime fills in for version 1.0 of the
  extension has the same members.  \<open>None\<close> is the null pointer.
\<close>

record 'p hsa_ext_image_pfn =
  hsa_ext_image_get_capability :: 'p
  hsa_ext_image_data_get_info :: 'p
  hsa_ext_image_create :: 'p
  hsa_ext_image_destroy :: 'p
  hsa_ext_image_copy :: 'p
  hsa_ext_image_import :: 'p
  hsa_ext_image_export :: 'p
  hsa_ext_image_clear :: 'p
  hsa_ext_sampler_create :: 'p
  hsa_ext_sampler_destroy :: 'p

record 'p image_ext_rt =
  images_supported :: "hsa_status_t \<times> bool"  \<comment> \<open>\<open>hsa_system_extension_supported(HSA_EXTENSION_IMAGES, 1, 0)\<close>\<close>
  images_table :: "hsa_status_t \<times> 'p hsa_ext_image_pfn"  \<comment> \<open>\<open>hsa_system_get_extension_table\<close> for it\<close>

definition get_image_fnc_tbl ::
  "('p, 'z) image_ext_rt_scheme \<Rightarrow> 'p hsa_ext_image_pfn option \<Rightarrow> hsa_status_t \<times> 'p hsa_ext_image_pfn option"
where
  "get_image_fnc_tbl rt table =
     (case table of
        None \<Rightarrow> (HSA_STATUS_ERROR_INVALID_ARGUMENT, None)
      | Some tbl \<Rightarrow>
          let (status, support) = images_supported rt in
          if HSA_STATUS_SUCCESS \<noteq> status then (status, Some tbl)
          else if \<not> support then (HSA_STATUS_ERROR, Some tbl)
          else let (status, table_1_00) = images_table rt in
          if HSA_STATUS_SUCCESS \<noteq> status then (status, Some tbl)
          else (status, Some (tbl
            \<lparr>hsa_ext_image_get_capability := hsa_ext_image_get_capability table_1_00,
             hsa_ext_image_data_get_info := hsa_ext_image_data_get_info table_1_00,
             hsa_ext_image_create := hsa_ext_image_create table_1_00,
             hsa_ext_image_destroy := hsa_ext_image_destroy table_1_00,
             hsa_ext_image_copy := hsa_ext_image_copy table_1_00,
             hsa_ext_image_import := hsa_ext_image_import table_1_00,
             hsa_ext_image_export := hsa_ext_image_export table_1_00,
             hsa_ext_image_clear := hsa_ext_image_clear table_1_00,
             hsa_ext_sampler_create := hsa_ext_sampler_create table_1_00,
             hsa_ext_sampler_destroy := hsa_ext_sampler_destroy table_1_00\<rparr>)))"

subsection \<open>Geometries\<close>

text \<open>The scheme of the kernel names: the class of the channel type and the geometry.\<close>

fun channel_class :: "hsa_ext_image_channel_type_t \<Rightarrow> string" where
  "channel_class HSA_EXT_IMAGE_CHANNEL_TYPE_SIGNED_INT8 = ''s32''"
| "channel_class HSA_EXT_IMAGE_CHANNEL_TYPE_SIGNED_INT16 = ''s32''"
| "channel_class HSA_EXT_IMAGE_CHANNEL_TYPE_SIGNED_INT32 = ''s32''"
| "channel_class HSA_EXT_IMAGE_CHANNEL_TYPE_UNSIGNED_INT8 = ''u32''"
| "channel_class HSA_EXT_IMAGE_CHANNEL_TYPE_UNSIGNED_INT16 = ''u32''"
| "channel_class HSA_EXT_IMAGE_CHANNEL_TYPE_UNSIGNED_INT32 = ''u32''"
| "channel_class _ = ''f32''"

fun geometry_name :: "hsa_ext_image_geometry_t \<Rightarrow> string" where
  "geometry_name HSA_EXT_IMAGE_GEOMETRY_1D = ''1d''"
| "geometry_name HSA_EXT_IMAGE_GEOMETRY_1DA = ''1da''"
| "geometry_name HSA_EXT_IMAGE_GEOMETRY_1DB = ''1db''"
| "geometry_name HSA_EXT_IMAGE_GEOMETRY_2D = ''2d''"
| "geometry_name HSA_EXT_IMAGE_GEOMETRY_2DA = ''2da''"
| "geometry_name HSA_EXT_IMAGE_GEOMETRY_2DDEPTH = ''2ddepth''"
| "geometry_name HSA_EXT_IMAGE_GEOMETRY_2DADEPTH = ''2dadepth''"
| "geometry_name HSA_EXT_IMAGE_GEOMETRY_3D = ''3d''"
| "geometry_name HSA_EXT_IMAGE_GEOMETRY_OTHER = ''''"

lemmas kernel_tables =
  VERIFY_IMAGE_REGION_KERNEL_1D_def VERIFY_IMAGE_REGION_KERNEL_1DA_def VERIFY_IMAGE_REGION_KERNEL_1DB_def
  VERIFY_IMAGE_REGION_KERNEL_2D_def VERIFY_IMAGE_REGION_KERNEL_2DA_def VERIFY_IMAGE_REGION_KERNEL_2DDEPTH_def
  VERIFY_IMAGE_REGION_KERNEL_2DADEPTH_def VERIFY_IMAGE_REGION_KERNEL_3D_def

lemma kernel_index_class:
  "get_kernel_index ct < 3" "[''s32'', ''u32'', ''f32''] ! get_kernel_index ct = channel_class ct"
  by (cases ct; simp add: get_kernel_index_def)+

lemma kernel_name:
  assumes "geometry_case g = Some (d, a, ks)"
  shows "ks ! get_kernel_index ct = ''&__verify_image_region_kernel_'' @ channel_class ct @ ''_'' @ geometry_name g"
proof -
  have "ks = map (\<lambda>c. ''&__verify_image_region_kernel_'' @ c @ ''_'' @ geometry_name g) [''s32'', ''u32'', ''f32'']"
    using assms by (cases g) (auto simp: kernel_tables)
  then show ?thesis
    using kernel_index_class [of ct] by (simp only: nth_map length_Cons list.size)
qed

text \<open>
  When \<open>get_geometry_info\<close> returns, the geometry is a known one with 1 to 3 dimensions, the kernel is the one named after
  the class of the channel type and the geometry, and the size in each dimension that the geometry lacks is 1.
\<close>

theorem get_geometry_info_correct:
  assumes "get_geometry_info rt agent ct g = Some (d, sizes, kern)"
  shows "d \<in> {1, 2, 3} \<and> length sizes = 3 \<and> (\<forall>i < 3. d \<le> i \<longrightarrow> sizes ! i = 1) \<and>
    kern = ''&__verify_image_region_kernel_'' @ channel_class ct @ ''_'' @ geometry_name g"
proof -
  obtain a ks where g: "geometry_case g = Some (d, a, ks)" and k: "kern = ks ! get_kernel_index ct"
    and sz: "sizes = [reported rt agent a 0, if 2 \<le> d then reported rt agent a 1 else 1,
      if 3 \<le> d then reported rt agent a 2 else 1]"
    using assms by (auto simp: get_geometry_info_def run_Some Let_def case_prod_beta)
  have d: "d \<in> {1, 2, 3}" using g by (cases g) auto
  have "sizes ! i = 1" if "i < 3" "d \<le> i" for i
  proof -
    have "i \<in> {1, 2}" using that d by auto
    then show ?thesis using that by (auto simp: sz)
  qed
  then show ?thesis using d by (simp add: sz k kernel_name [OF g])
qed

theorem get_geometry_info_correct_witness:
  "get_geometry_info sample_rt 7 HSA_EXT_IMAGE_CHANNEL_TYPE_SIGNED_INT16 HSA_EXT_IMAGE_GEOMETRY_2DA =
    Some (2, [64, 64, 1], ''&__verify_image_region_kernel_s32_2da'')"
proof -
  obtain kern where
    *: "get_geometry_info sample_rt 7 HSA_EXT_IMAGE_CHANNEL_TYPE_SIGNED_INT16 HSA_EXT_IMAGE_GEOMETRY_2DA =
      Some (2, [64, 64, 1], kern)"
    by (simp add: get_geometry_info_def sample_rt_def)
  then show ?thesis
    using get_geometry_info_correct [OF *] by simp
qed

end
