(* ===== verification/Finalize_Utils.thy ===== *)
theory Finalize_Utils
  imports Hsa_Api
begin

text \<open>
  \<open>utils/finalize_utils.c\<close>: loading a module from a file, finalizing modules into an executable, looking up
  its symbols, and the table of the extension.  The functions of the runtime and of the finalizer extension are the fields of \<open>fin_rt\<close>, a parameter of
  the model; handles are 64 bit words and an output that a call does not write is \<open>None\<close>.
\<close>

record 's fin_rt =
  program_create :: "32 word \<Rightarrow> 32 word \<Rightarrow> 32 word \<Rightarrow> 's \<Rightarrow> hsa_status_t \<times> 64 word option \<times> 's"
  program_add_module :: "64 word \<Rightarrow> 64 word \<Rightarrow> 's \<Rightarrow> hsa_status_t \<times> 's"
  agent_isa :: "hsa_agent_t \<Rightarrow> 's \<Rightarrow> hsa_status_t \<times> 64 word \<times> 's"
  program_finalize ::
    "64 word \<Rightarrow> 64 word \<Rightarrow> 32 word \<Rightarrow> 64 word \<Rightarrow> 32 word \<Rightarrow> 's \<Rightarrow> hsa_status_t \<times> 64 word option \<times> 's"
  executable_create :: "32 word \<Rightarrow> 's \<Rightarrow> hsa_status_t \<times> 64 word option \<times> 's"
  executable_load_code_object :: "64 word \<Rightarrow> hsa_agent_t \<Rightarrow> 64 word \<Rightarrow> 's \<Rightarrow> hsa_status_t \<times> 's"
  executable_freeze :: "64 word \<Rightarrow> 's \<Rightarrow> hsa_status_t \<times> 's"
  program_destroy :: "64 word \<Rightarrow> 's \<Rightarrow> hsa_status_t \<times> 's"

text \<open>A handle variable after a call that may write it.\<close>

definition written :: "64 word \<Rightarrow> 64 word option \<Rightarrow> 64 word" where
  "written old out = (case out of None \<Rightarrow> old | Some new \<Rightarrow> new)"

lemma written_simps [simp]: "written old None = old" "written old (Some new) = new"
  by (simp_all add: written_def)

subsection \<open>Finalizing an executable\<close>

fun add_modules :: "('s, 'z) fin_rt_scheme \<Rightarrow> 64 word \<Rightarrow> 64 word list \<Rightarrow> 's \<Rightarrow> hsa_status_t \<times> 's" where
  "add_modules rt program [] s = (HSA_STATUS_SUCCESS, s)"
| "add_modules rt program (m # modules) s =
     (let (status, s) = program_add_module rt program m s in
      if HSA_STATUS_SUCCESS \<noteq> status then (status, s) else add_modules rt program modules s)"

text \<open>
  The variables \<open>code_object\<close> and \<open>executable\<close> of the caller are passed in and out.  The inner part
  ends where the code jumps to \<open>exit\<close>; there the program is destroyed, the null program when none was created.
\<close>

definition build_executable ::
  "('s, 'z) fin_rt_scheme \<Rightarrow> 64 word \<Rightarrow> hsa_agent_t \<Rightarrow> 64 word list \<Rightarrow> 32 word \<Rightarrow> 32 word \<Rightarrow> 32 word \<Rightarrow> 64 word \<Rightarrow>
   64 word \<Rightarrow> 64 word \<Rightarrow> 's \<Rightarrow> hsa_status_t \<times> 64 word \<times> 64 word \<times> 's"
where
  "build_executable rt program agent modules profile code_object_type call_convention control_directives
     code_object executable s =
     (let (status, s) = add_modules rt program modules s in
      if HSA_STATUS_SUCCESS \<noteq> status then (status, code_object, executable, s) else
      let (status, isa, s) = agent_isa rt agent s in
      if HSA_STATUS_SUCCESS \<noteq> status then (status, code_object, executable, s) else
      let (status, out, s) = program_finalize rt program isa call_convention control_directives code_object_type s;
          code_object = written code_object out in
      if HSA_STATUS_SUCCESS \<noteq> status then (status, code_object, executable, s) else
      let (status, out, s) = executable_create rt profile s;
          executable = written executable out in
      if HSA_STATUS_SUCCESS \<noteq> status then (status, code_object, executable, s) else
      let (status, s) = executable_load_code_object rt executable agent code_object s in
      if HSA_STATUS_SUCCESS \<noteq> status then (status, code_object, executable, s) else
      let (status, s) = executable_freeze rt executable s in
      (status, code_object, executable, s))"

definition finalize_executable ::
  "('s, 'z) fin_rt_scheme \<Rightarrow> hsa_agent_t \<Rightarrow> 64 word list \<Rightarrow> 32 word \<Rightarrow> 32 word \<Rightarrow> 32 word \<Rightarrow> 32 word \<Rightarrow> 32 word \<Rightarrow>
   64 word \<Rightarrow> 64 word \<Rightarrow> 64 word \<Rightarrow> 's \<Rightarrow> hsa_status_t \<times> 64 word \<times> 64 word \<times> 's"
where
  "finalize_executable rt agent modules machine_model profile default_float_rounding_mode code_object_type
     call_convention control_directives code_object executable s =
     (let (status, out, s) = program_create rt machine_model profile default_float_rounding_mode s;
          program = written 0 out;
          (status, code_object, executable, s) =
            (if HSA_STATUS_SUCCESS \<noteq> status then (status, code_object, executable, s)
             else build_executable rt program agent modules profile code_object_type call_convention
                    control_directives code_object executable s);
          (_, s) = program_destroy rt program s
      in (status, code_object, executable, s))"

subsection \<open>What the runtime documents\<close>

text \<open>
  \<open>programs s\<close> are the programs that exist, \<open>executables s\<close> maps the executables to the code objects loaded into them, with the
  agents, and whether they are frozen.
\<close>

locale finalizer =
  fixes rt :: "('s, 'z) fin_rt_scheme"
    and programs :: "'s \<Rightarrow> 64 word set"
    and executables :: "'s \<Rightarrow> 64 word \<Rightarrow> ((hsa_agent_t \<times> 64 word) list \<times> bool) option"
  assumes create_program: "program_create rt mm pr rm s = (st, out, s') \<Longrightarrow>
      executables s' = executables s \<and>
      (if st = HSA_STATUS_SUCCESS
       then \<exists>p. out = Some p \<and> p \<notin> programs s \<and> programs s' = insert p (programs s)
       else out = None \<and> programs s' = programs s)"
    and null_program: "0 \<notin> programs s"
    and add_module: "program_add_module rt p m s = (st, s') \<Longrightarrow>
      executables s' = executables s \<and> programs s' = programs s"
    and isa: "agent_isa rt agent s = (st, i, s') \<Longrightarrow> executables s' = executables s \<and> programs s' = programs s"
    and finalize: "program_finalize rt p i cc d ty s = (st, out, s') \<Longrightarrow>
      executables s' = executables s \<and> programs s' = programs s \<and> (st = HSA_STATUS_SUCCESS \<longrightarrow> out \<noteq> None)"
    and create_executable: "executable_create rt pr s = (st, out, s') \<Longrightarrow>
      programs s' = programs s \<and>
      (if st = HSA_STATUS_SUCCESS
       then \<exists>e. out = Some e \<and> executables s e = None \<and> executables s' = (executables s)(e \<mapsto> ([], False))
       else executables s' = executables s)"
    and load: "executables s e = Some (cs, False) \<Longrightarrow> executable_load_code_object rt e agent c s = (st, s') \<Longrightarrow>
      programs s' = programs s \<and>
      (st = HSA_STATUS_SUCCESS \<longrightarrow> executables s' = (executables s)(e \<mapsto> (cs @ [(agent, c)], False)))"
    and freeze: "executables s e = Some (cs, False) \<Longrightarrow> executable_freeze rt e s = (st, s') \<Longrightarrow>
      programs s' = programs s \<and> (st = HSA_STATUS_SUCCESS \<longrightarrow> executables s' = (executables s)(e \<mapsto> (cs, True)))"
    and destroy_program: "program_destroy rt p s = (st, s') \<Longrightarrow>
      executables s' = executables s \<and> programs s' = programs s - {p}"
begin

lemma add_modules_frame:
  "add_modules rt p modules s = (st, s') \<Longrightarrow> executables s' = executables s \<and> programs s' = programs s"
proof (induction modules arbitrary: s)
  case Nil
  then show ?case by simp
next
  case (Cons m modules)
  obtain st1 s1 where 1: "program_add_module rt p m s = (st1, s1)" by (cases "program_add_module rt p m s")
  then show ?case
    using Cons add_module [OF 1] by (cases "st1 = HSA_STATUS_SUCCESS") auto
qed

text \<open>The inner part leaves the programs alone, and on success has made and frozen one new executable.\<close>

lemma build_executable_correct:
  assumes "build_executable rt p agent modules profile ty cc d c e s = (st, c', e', s')"
  shows "programs s' = programs s \<and>
    (st = HSA_STATUS_SUCCESS \<longrightarrow> executables s e' = None \<and> executables s' = (executables s)(e' \<mapsto> ([(agent, c')], True)))"
proof -
  obtain st1 s1 where 1: "add_modules rt p modules s = (st1, s1)"
    by (cases "add_modules rt p modules s")
  obtain st2 i s2 where 2: "agent_isa rt agent s1 = (st2, i, s2)"
    by (cases "agent_isa rt agent s1")
  obtain st3 o3 s3 where 3: "program_finalize rt p i cc d ty s2 = (st3, o3, s3)"
    by (cases "program_finalize rt p i cc d ty s2")
  obtain st4 o4 s4 where 4: "executable_create rt profile s3 = (st4, o4, s4)"
    by (cases "executable_create rt profile s3")
  obtain st5 s5 where 5: "executable_load_code_object rt (written e o4) agent (written c o3) s4 = (st5, s5)"
    by (cases "executable_load_code_object rt (written e o4) agent (written c o3) s4")
  obtain st6 s6 where 6: "executable_freeze rt (written e o4) s5 = (st6, s6)"
    by (cases "executable_freeze rt (written e o4) s5")
  note calls = 1 2 3 4 5 6
  note frames = add_modules_frame [OF 1] isa [OF 2] finalize [OF 3]
  show ?thesis
  proof (cases "st1 = HSA_STATUS_SUCCESS \<and> st2 = HSA_STATUS_SUCCESS \<and> st3 = HSA_STATUS_SUCCESS \<and> st4 = HSA_STATUS_SUCCESS")
    case False
    then show ?thesis
      using assms frames create_executable [OF 4]
      by (auto simp: build_executable_def Let_def calls split: if_splits)
  next
    case True
    obtain x where x: "o4 = Some x" "executables s3 x = None" "executables s4 = (executables s3)(x \<mapsto> ([], False))"
      "programs s4 = programs s3"
      using create_executable [OF 4] True by auto
    note 5 = 5 [unfolded x(1) written_simps] and 6 = 6 [unfolded x(1) written_simps]
    have 7: "executables s4 x = Some ([], False)" by (simp add: x)
    note load5 = load [OF 7 5]
    show ?thesis
    proof (cases "st5 = HSA_STATUS_SUCCESS")
      case False
      then show ?thesis
        using assms frames True x load5 by (simp add: build_executable_def Let_def 1 2 3 4 5)
    next
      case ok: True
      then have 8: "executables s5 x = Some ([(agent, written c o3)], False)"
        and e: "executables s5 = (executables s)(x \<mapsto> ([(agent, written c o3)], False))"
        using load5 x(3) frames by simp_all
      have "st = st6" "c' = written c o3" "e' = x" "s' = s6"
        using assms True ok x(1) by (simp_all add: build_executable_def Let_def 1 2 3 4 5 6)
      then show ?thesis
        using frames x load5 freeze [OF 8 6] e by simp
    qed
  qed
qed

lemma finalize_executable_spec:
  assumes "finalize_executable rt agent modules mm profile rm ty cc d c e s = (st, c', e', s')"
  shows "programs s' = programs s \<and>
    (st = HSA_STATUS_SUCCESS \<longrightarrow> executables s e' = None \<and> executables s' = (executables s)(e' \<mapsto> ([(agent, c')], True)))"
proof -
  obtain st1 out s1 where 1: "program_create rt mm profile rm s = (st1, out, s1)"
    by (cases "program_create rt mm profile rm s")
  let ?p = "written 0 out"
  show ?thesis
  proof (cases "st1 = HSA_STATUS_SUCCESS")
    case False
    obtain st2 s2 where 2: "program_destroy rt ?p s1 = (st2, s2)" by (cases "program_destroy rt ?p s1")
    have "?p = 0" "programs s1 = programs s"
      using create_program [OF 1] False by (simp_all add: written_def)
    then show ?thesis
      using assms False 1 2 destroy_program [OF 2] null_program [of s] by (auto simp: finalize_executable_def Let_def)
  next
    case True
    obtain p where p: "out = Some p" "p \<notin> programs s" "programs s1 = insert p (programs s)" "executables s1 = executables s"
      using create_program [OF 1] True by auto
    obtain st2 c2 e2 s2 where 2: "build_executable rt p agent modules profile ty cc d c e s1 = (st2, c2, e2, s2)"
      by (cases "build_executable rt p agent modules profile ty cc d c e s1")
    obtain st3 s3 where 3: "program_destroy rt p s2 = (st3, s3)" by (cases "program_destroy rt p s2")
    have "st = st2" "c' = c2" "e' = e2" "s' = s3"
      using assms True 1 2 3 p(1) by (simp_all add: finalize_executable_def Let_def written_def)
    then show ?thesis
      using build_executable_correct [OF 2] destroy_program [OF 3] p by auto
  qed
qed

end

text \<open>A runtime with room for one program and one executable satisfies it.\<close>

record ref_fin =
  has_program :: bool
  the_executable :: "((hsa_agent_t \<times> 64 word) list \<times> bool) option"

definition ref_programs :: "ref_fin \<Rightarrow> 64 word set" where
  "ref_programs s = (if has_program s then {1} else {})"

definition ref_executables :: "ref_fin \<Rightarrow> 64 word \<Rightarrow> ((hsa_agent_t \<times> 64 word) list \<times> bool) option" where
  "ref_executables s e = (if e = 2 then the_executable s else None)"

definition ref_fin_rt :: "ref_fin fin_rt" where
  "ref_fin_rt =
    \<lparr>program_create = (\<lambda>_ _ _ s. if has_program s then (HSA_STATUS_OTHER 0, None, s)
       else (HSA_STATUS_SUCCESS, Some 1, s\<lparr>has_program := True\<rparr>)),
     program_add_module = (\<lambda>_ _ s. (HSA_STATUS_SUCCESS, s)),
     agent_isa = (\<lambda>_ s. (HSA_STATUS_SUCCESS, 3, s)),
     program_finalize = (\<lambda>_ _ _ _ _ s. (HSA_STATUS_SUCCESS, Some 4, s)),
     executable_create = (\<lambda>_ s. case the_executable s of Some _ \<Rightarrow> (HSA_STATUS_OTHER 0, None, s)
       | None \<Rightarrow> (HSA_STATUS_SUCCESS, Some 2, s\<lparr>the_executable := Some ([], False)\<rparr>)),
     executable_load_code_object = (\<lambda>_ agent c s.
       (HSA_STATUS_SUCCESS, s\<lparr>the_executable := map_option (\<lambda>(cs, f). (cs @ [(agent, c)], f)) (the_executable s)\<rparr>)),
     executable_freeze = (\<lambda>_ s.
       (HSA_STATUS_SUCCESS, s\<lparr>the_executable := map_option (\<lambda>(cs, _). (cs, True)) (the_executable s)\<rparr>)),
     program_destroy = (\<lambda>p s. (HSA_STATUS_SUCCESS, if p = 1 then s\<lparr>has_program := False\<rparr> else s))\<rparr>"

interpretation ref_fin: finalizer ref_fin_rt ref_programs ref_executables
  by unfold_locales
    (auto simp: ref_fin_rt_def ref_programs_def ref_executables_def fun_eq_iff split: if_splits option.splits)

subsection \<open>The calls that are made\<close>

text \<open>
  The runtime that notes the calls of its functions, with the statuses they return; and what it means for a plan of calls to stop at
  the first error: each call is made when the one before it has succeeded, and the status of the last one is the result.
\<close>

datatype fin_call =
  Program_create | Add_module "64 word" | Agent_isa | Program_finalize | Executable_create | Load_code_object | Executable_freeze
  | Program_destroy "64 word"

definition noted :: "fin_call \<Rightarrow> hsa_status_t \<Rightarrow> 's \<Rightarrow> (fin_call \<times> hsa_status_t) list \<Rightarrow> 's \<times> (fin_call \<times> hsa_status_t) list" where
  "noted c st s log = (s, log @ [(c, st)])"

definition logged :: "('s, 'z) fin_rt_scheme \<Rightarrow> ('s \<times> (fin_call \<times> hsa_status_t) list) fin_rt" where
  "logged rt =
    \<lparr>program_create = (\<lambda>mm pr rm (s, log). let (st, out, s) = program_create rt mm pr rm s in (st, out, noted Program_create st s log)),
     program_add_module = (\<lambda>p m (s, log). let (st, s) = program_add_module rt p m s in (st, noted (Add_module m) st s log)),
     agent_isa = (\<lambda>agent (s, log). let (st, i, s) = agent_isa rt agent s in (st, i, noted Agent_isa st s log)),
     program_finalize = (\<lambda>p i cc d ty (s, log).
       let (st, out, s) = program_finalize rt p i cc d ty s in (st, out, noted Program_finalize st s log)),
     executable_create = (\<lambda>pr (s, log). let (st, out, s) = executable_create rt pr s in (st, out, noted Executable_create st s log)),
     executable_load_code_object = (\<lambda>e agent c (s, log).
       let (st, s) = executable_load_code_object rt e agent c s in (st, noted Load_code_object st s log)),
     executable_freeze = (\<lambda>e (s, log). let (st, s) = executable_freeze rt e s in (st, noted Executable_freeze st s log)),
     program_destroy = (\<lambda>p (s, log). let (st, s) = program_destroy rt p s in (st, noted (Program_destroy p) st s log))\<rparr>"

fun attempts :: "fin_call list \<Rightarrow> (fin_call \<times> hsa_status_t) list \<Rightarrow> hsa_status_t \<Rightarrow> bool" where
  "attempts [] [] st \<longleftrightarrow> st = HSA_STATUS_SUCCESS"
| "attempts (c # plan) ((c', st') # log) st \<longleftrightarrow>
     c' = c \<and> (if st' = HSA_STATUS_SUCCESS then attempts plan log st else log = [] \<and> st = st')"
| "attempts plan log st \<longleftrightarrow> False"

lemma attempts_append:
  "attempts plan log HSA_STATUS_SUCCESS \<Longrightarrow> attempts plan' log' st \<Longrightarrow> attempts (plan @ plan') (log @ log') st"
  "attempts plan log st \<Longrightarrow> st \<noteq> HSA_STATUS_SUCCESS \<Longrightarrow> attempts (plan @ plan') log st"
  by (induction plan log st rule: attempts.induct) (auto split: if_splits)

definition build_plan :: "fin_call list" where
  "build_plan = [Agent_isa, Program_finalize, Executable_create, Load_code_object, Executable_freeze]"

lemma add_modules_attempts:
  "add_modules (logged rt) p modules (s, l) = (st, s', l') \<Longrightarrow>
    add_modules rt p modules s = (st, s') \<and> (\<exists>log. l' = l @ log \<and> attempts (map Add_module modules) log st)"
proof (induction modules arbitrary: s l)
  case (Cons m modules)
  obtain st1 s1 where 1: "program_add_module rt p m s = (st1, s1)" by (cases "program_add_module rt p m s")
  then show ?case
    using Cons.prems Cons.IH [of s1 "l @ [(Add_module m, st1)]"]
    by (cases "st1 = HSA_STATUS_SUCCESS") (auto simp: logged_def noted_def)
qed simp

lemma build_executable_attempts:
  assumes "build_executable (logged rt) p agent modules profile ty cc d c e (s, l) = (st, c', e', s', l')"
  shows "build_executable rt p agent modules profile ty cc d c e s = (st, c', e', s') \<and>
    (\<exists>log. l' = l @ log \<and> attempts (map Add_module modules @ build_plan) log st)"
proof -
  obtain st1 s1 l1 where 0: "add_modules (logged rt) p modules (s, l) = (st1, s1, l1)"
    by (cases "add_modules (logged rt) p modules (s, l)")
  obtain log1 where 1: "add_modules rt p modules s = (st1, s1)" "l1 = l @ log1" "attempts (map Add_module modules) log1 st1"
    using add_modules_attempts [OF 0] by auto
  show ?thesis
  proof (cases "st1 = HSA_STATUS_SUCCESS")
    case False
    then show ?thesis using assms 0 1 attempts_append(2) [OF 1(3) False] by (auto simp: build_executable_def)
  next
    case True
    obtain st2 i s2 where 2: "agent_isa rt agent s1 = (st2, i, s2)" by (cases "agent_isa rt agent s1")
    obtain st3 o3 s3 where 3: "program_finalize rt p i cc d ty s2 = (st3, o3, s3)" by (cases "program_finalize rt p i cc d ty s2")
    obtain st4 o4 s4 where 4: "executable_create rt profile s3 = (st4, o4, s4)" by (cases "executable_create rt profile s3")
    obtain st5 s5 where 5: "executable_load_code_object rt (written e o4) agent (written c o3) s4 = (st5, s5)"
      by (cases "executable_load_code_object rt (written e o4) agent (written c o3) s4")
    obtain st6 s6 where 6: "executable_freeze rt (written e o4) s5 = (st6, s6)" by (cases "executable_freeze rt (written e o4) s5")
    let ?L = "\<lambda>c st s l. (s, l @ [(c, st)])"
    have steps: "agent_isa (logged rt) agent (s1, l) = (st2, i, ?L Agent_isa st2 s2 l)"
      "program_finalize (logged rt) p i cc d ty (s2, l) = (st3, o3, ?L Program_finalize st3 s3 l)"
      "executable_create (logged rt) profile (s3, l) = (st4, o4, ?L Executable_create st4 s4 l)"
      "executable_load_code_object (logged rt) (written e o4) agent (written c o3) (s4, l) = (st5, ?L Load_code_object st5 s5 l)"
      "executable_freeze (logged rt) (written e o4) (s5, l) = (st6, ?L Executable_freeze st6 s6 l)" for l
      by (simp_all add: logged_def noted_def 2 3 4 5 6)
    have "build_executable rt p agent modules profile ty cc d c e s = (st, c', e', s') \<and>
        (\<exists>log. l' = l1 @ log \<and> attempts build_plan log st)"
      using assms True
      by (auto simp: build_executable_def build_plan_def Let_def 0 1(1) 2 3 4 5 6 steps split: if_splits)
    then show ?thesis using 1(2) attempts_append(1) [OF 1(3) [unfolded True]] by fastforce
  qed
qed

lemma finalize_executable_attempts:
  assumes "finalize_executable (logged rt) agent modules mm profile rm ty cc d c e (s, []) = (st, c', e', s', log)"
  shows "finalize_executable rt agent modules mm profile rm ty cc d c e s = (st, c', e', s') \<and>
    (\<exists>calls p dst. log = calls @ [(Program_destroy p, dst)] \<and> attempts (Program_create # map Add_module modules @ build_plan) calls st)"
proof -
  obtain st1 out s1 where 1: "program_create rt mm profile rm s = (st1, out, s1)" by (cases "program_create rt mm profile rm s")
  show ?thesis
  proof (cases "st1 = HSA_STATUS_SUCCESS")
    case False
    then show ?thesis
      using assms 1 by (auto simp: finalize_executable_def logged_def noted_def Let_def split: prod.splits)
  next
    case True
    let ?l = "[(Program_create, st1)]"
    obtain st2 c2 e2 s2 l2 where 2: "build_executable (logged rt) (written 0 out) agent modules profile ty cc d c e (s1, ?l) =
        (st2, c2, e2, s2, l2)"
      by (cases "build_executable (logged rt) (written 0 out) agent modules profile ty cc d c e (s1, ?l)")
    obtain st3 s3 where 3: "program_destroy rt (written 0 out) s2 = (st3, s3)" by (cases "program_destroy rt (written 0 out) s2")
    have create: "program_create (logged rt) mm profile rm (s, []) = (st1, out, s1, ?l)"
      and destroy: "program_destroy (logged rt) (written 0 out) (s2, l2) = (st3, s3, l2 @ [(Program_destroy (written 0 out), st3)])"
      by (simp_all add: logged_def noted_def 1 3)
    show ?thesis
      using assms build_executable_attempts [OF 2] True by (auto simp: finalize_executable_def create destroy 1 2 [unfolded True] 3 Let_def)
  qed
qed

text \<open>
  C36.  \<open>finalize_executable\<close> makes its calls one after the other and stops at the first that fails: every call is made after all before it
  have succeeded, and the status of the last is returned.  Then, whichever that was, it destroys the program, as its only further call, and
  leaves no program behind.  When it reports success, the executable it returns is new, frozen, and holds exactly the code object it returns,
  loaded for the agent.
\<close>

theorem finalize_executable_correct:
  assumes "finalizer rt programs executables"
    and "finalize_executable (logged rt) agent modules mm profile rm ty cc d c e (s, []) = (st, c', e', s', log)"
  shows "finalize_executable rt agent modules mm profile rm ty cc d c e s = (st, c', e', s') \<and>
    (\<exists>calls p dst. log = calls @ [(Program_destroy p, dst)] \<and>
      attempts (Program_create # map Add_module modules @
        [Agent_isa, Program_finalize, Executable_create, Load_code_object, Executable_freeze]) calls st) \<and>
    programs s' = programs s \<and>
    (st = HSA_STATUS_SUCCESS \<longrightarrow> executables s e' = None \<and> executables s' = (executables s)(e' \<mapsto> ([(agent, c')], True)))"
  using finalize_executable_attempts [OF assms(2), unfolded build_plan_def] finalizer.finalize_executable_spec [OF assms(1)] by blast

theorem finalize_executable_correct_witness:
  "\<exists>s' log. finalize_executable (logged ref_fin_rt) 7 [11, 12] 0 0 0 0 0 0 0 0 (\<lparr>has_program = False, the_executable = None\<rparr>, []) =
      (HSA_STATUS_SUCCESS, 4, 2, s', log) \<and> ref_programs s' = {} \<and> ref_executables s' = [2 \<mapsto> ([(7, 4)], True)] \<and> length log = 9"
proof -
  obtain s' log where *: "finalize_executable (logged ref_fin_rt) 7 [11, 12] 0 0 0 0 0 0 0 0
      (\<lparr>has_program = False, the_executable = None\<rparr>, []) = (HSA_STATUS_SUCCESS, 4, 2, s', log)" "length log = 9"
    by (simp add: finalize_executable_def build_executable_def logged_def noted_def ref_fin_rt_def Let_def)
  then show ?thesis
    using finalize_executable_correct [OF ref_fin.finalizer_axioms *(1)]
    by (simp add: ref_programs_def ref_executables_def fun_eq_iff)
qed

subsection \<open>Symbols\<close>

text \<open>
  A symbol record has the fields that the function fills in; the other members of the \<open>struct\<close> are never
  written.  \<open>get_symbol\<close> and the attribute queries do not change the runtime.
\<close>

record symbol_record =
  symbol :: "64 word"
  kernel_object :: "64 word"
  kernarg_segment_size :: "32 word"
  kernarg_segment_alignment :: "32 word"
  group_segment_size :: "32 word"
  private_segment_size :: "32 word"

record symbol_rt =
  get_symbol :: "64 word \<Rightarrow> string \<Rightarrow> hsa_agent_t \<Rightarrow> 32 word \<Rightarrow> hsa_status_t \<times> 64 word"
  info_kernel_object :: "64 word \<Rightarrow> hsa_status_t \<times> 64 word"
  info_kernarg_segment_size :: "64 word \<Rightarrow> hsa_status_t \<times> 32 word"
  info_kernarg_segment_alignment :: "64 word \<Rightarrow> hsa_status_t \<times> 32 word"
  info_group_segment_size :: "64 word \<Rightarrow> hsa_status_t \<times> 32 word"
  info_private_segment_size :: "64 word \<Rightarrow> hsa_status_t \<times> 32 word"

text \<open>\<open>GET_SYMBOL_INFO\<close>: a query that stores its value, followed by the rest of the loop body when it succeeds.\<close>

definition GET_SYMBOL_INFO ::
  "hsa_status_t \<times> 'v \<Rightarrow> ('v \<Rightarrow> 'r \<Rightarrow> 'r) \<Rightarrow> 'r \<Rightarrow> ('r \<Rightarrow> hsa_status_t \<times> 'r) \<Rightarrow> hsa_status_t \<times> 'r"
where
  "GET_SYMBOL_INFO query upd r rest =
     (let (status, v) = query in
      if HSA_STATUS_SUCCESS \<noteq> status then (status, r) else rest (upd v r))"

definition get_executable_symbol ::
  "'z symbol_rt_scheme \<Rightarrow> 64 word \<Rightarrow> hsa_agent_t \<Rightarrow> 32 word \<Rightarrow> string \<Rightarrow> symbol_record \<Rightarrow> hsa_status_t \<times> symbol_record"
where
  "get_executable_symbol rt executable agent call_convention name r =
     GET_SYMBOL_INFO (get_symbol rt executable name agent call_convention) (\<lambda>v. symbol_update (\<lambda>_. v)) r (\<lambda>r.
     GET_SYMBOL_INFO (info_kernel_object rt (symbol r)) (\<lambda>v. kernel_object_update (\<lambda>_. v)) r (\<lambda>r.
     GET_SYMBOL_INFO (info_kernarg_segment_size rt (symbol r)) (\<lambda>v. kernarg_segment_size_update (\<lambda>_. v)) r (\<lambda>r.
     GET_SYMBOL_INFO (info_kernarg_segment_alignment rt (symbol r)) (\<lambda>v. kernarg_segment_alignment_update (\<lambda>_. v)) r (\<lambda>r.
     GET_SYMBOL_INFO (info_group_segment_size rt (symbol r)) (\<lambda>v. group_segment_size_update (\<lambda>_. v)) r (\<lambda>r.
     GET_SYMBOL_INFO (info_private_segment_size rt (symbol r)) (\<lambda>v. private_segment_size_update (\<lambda>_. v)) r (\<lambda>r.
     (HSA_STATUS_SUCCESS, r)))))))"

text \<open>
  The loop over the names, with the status of the last round; the variable is uninitialised, here \<open>None\<close>, until the
  first round.  The list of records has an element for each name.
\<close>

fun get_symbols_loop ::
  "'z symbol_rt_scheme \<Rightarrow> 64 word \<Rightarrow> hsa_agent_t \<Rightarrow> 32 word \<Rightarrow> hsa_status_t option \<Rightarrow> string list \<Rightarrow> symbol_record list \<Rightarrow>
   hsa_status_t option \<times> symbol_record list"
where
  "get_symbols_loop rt ex agent cc st (name # names) (r # rs) =
     (let (status, r) = get_executable_symbol rt ex agent cc name r in
      if HSA_STATUS_SUCCESS \<noteq> status then (Some status, r # rs)
      else let (st, rs) = get_symbols_loop rt ex agent cc (Some status) names rs in (st, r # rs))"
| "get_symbols_loop rt ex agent cc st names rs = (st, rs)"

definition get_executable_symbols ::
  "'z symbol_rt_scheme \<Rightarrow> 64 word \<Rightarrow> hsa_agent_t \<Rightarrow> 32 word \<Rightarrow> string list \<Rightarrow> symbol_record list \<Rightarrow>
   hsa_status_t option \<times> symbol_record list"
where
  "get_executable_symbols rt executable agent call_convention names rs =
     get_symbols_loop rt executable agent call_convention None names rs"

text \<open>A record that holds what the runtime reports of the kernel \<open>name\<close>.\<close>

definition complete ::
  "'z symbol_rt_scheme \<Rightarrow> 64 word \<Rightarrow> hsa_agent_t \<Rightarrow> 32 word \<Rightarrow> string \<Rightarrow> symbol_record \<Rightarrow> bool"
where
  "complete rt ex agent cc name r \<longleftrightarrow>
     get_symbol rt ex name agent cc = (HSA_STATUS_SUCCESS, symbol r) \<and>
     info_kernel_object rt (symbol r) = (HSA_STATUS_SUCCESS, kernel_object r) \<and>
     info_kernarg_segment_size rt (symbol r) = (HSA_STATUS_SUCCESS, kernarg_segment_size r) \<and>
     info_kernarg_segment_alignment rt (symbol r) = (HSA_STATUS_SUCCESS, kernarg_segment_alignment r) \<and>
     info_group_segment_size rt (symbol r) = (HSA_STATUS_SUCCESS, group_segment_size r) \<and>
     info_private_segment_size rt (symbol r) = (HSA_STATUS_SUCCESS, private_segment_size r)"

lemma get_executable_symbol_complete:
  "get_executable_symbol rt ex agent cc name r = (HSA_STATUS_SUCCESS, r') \<Longrightarrow> complete rt ex agent cc name r'"
  by (auto simp: get_executable_symbol_def GET_SYMBOL_INFO_def complete_def split: prod.splits if_splits)

lemma get_symbols_loop_prefix:
  assumes "get_symbols_loop rt ex agent cc st names rs = (st', rs')" "length rs = length names" "st \<in> {None, Some HSA_STATUS_SUCCESS}"
  shows "(st' = None \<longleftrightarrow> names = [] \<and> st = None) \<and> length rs' = length rs \<and>
    (\<exists>k \<le> length names. (\<forall>i < k. complete rt ex agent cc (names ! i) (rs' ! i)) \<and>
      (\<forall>i < length names. k < i \<longrightarrow> rs' ! i = rs ! i) \<and> (k = length names \<longleftrightarrow> st' \<in> {None, Some HSA_STATUS_SUCCESS}))"
  using assms
proof (induction names arbitrary: rs st rs' st')
  case Nil
  then show ?case by auto
next
  case (Cons name names)
  obtain r rest where rs: "rs = r # rest" using Cons.prems(2) by (cases rs) auto
  obtain st1 r1 where 1: "get_executable_symbol rt ex agent cc name r = (st1, r1)"
    by (cases "get_executable_symbol rt ex agent cc name r")
  show ?case
  proof (cases "st1 = HSA_STATUS_SUCCESS")
    case False
    then have "st' = Some st1" "rs' = r1 # rest" using Cons.prems(1) rs 1 by auto
    then show ?thesis using False rs Cons.prems(2) by (auto intro!: exI [of _ 0] simp: nth_Cons')
  next
    case True
    obtain st2 rest' where 2: "get_symbols_loop rt ex agent cc (Some HSA_STATUS_SUCCESS) names rest = (st2, rest')"
      by (cases "get_symbols_loop rt ex agent cc (Some HSA_STATUS_SUCCESS) names rest")
    have res: "st' = st2" "rs' = r1 # rest'" using Cons.prems(1) rs 1 2 True by auto
    have "length rest = length names" using Cons.prems(2) rs by simp
    from Cons.IH [OF 2 this] obtain k where k: "st2 \<noteq> None" "length rest' = length rest" "k \<le> length names"
      "\<forall>i < k. complete rt ex agent cc (names ! i) (rest' ! i)"
      "\<forall>i < length names. k < i \<longrightarrow> rest' ! i = rest ! i" "k = length names \<longleftrightarrow> st2 \<in> {None, Some HSA_STATUS_SUCCESS}"
      by auto
    have "complete rt ex agent cc name r1" using get_executable_symbol_complete 1 True by blast
    then show ?thesis
      using k rs res by (intro conjI exI [of _ "Suc k"]) (auto simp: nth_Cons' less_Suc_eq_0_disj)
  qed
qed

text \<open>
  \<open>get_executable_symbols\<close> fills in the records in order up to the first name for which a query fails, and
  leaves those after it as they were; with success all records hold what the runtime reports of their kernels.  Without any name
  the status it returns is uninitialised.
\<close>

theorem get_executable_symbols_correct:
  assumes "get_executable_symbols rt ex agent cc names rs = (st, rs')" "length rs = length names"
  shows "(st = None \<longleftrightarrow> names = []) \<and> length rs' = length rs \<and>
    (\<exists>k \<le> length names. (\<forall>i < k. complete rt ex agent cc (names ! i) (rs' ! i)) \<and>
      (\<forall>i < length names. k < i \<longrightarrow> rs' ! i = rs ! i) \<and> (k = length names \<longleftrightarrow> st \<in> {None, Some HSA_STATUS_SUCCESS}))"
  using get_symbols_loop_prefix [OF assms(1) [unfolded get_executable_symbols_def] assms(2) insertI1]
  by (simp only: simp_thms)

definition sample_symbol_rt :: symbol_rt where
  "sample_symbol_rt =
    \<lparr>get_symbol = (\<lambda>_ name _ _. if name = ''a'' then (HSA_STATUS_SUCCESS, 5) else (HSA_STATUS_ERROR, 0)),
     info_kernel_object = (\<lambda>x. (HSA_STATUS_SUCCESS, x + 1)), info_kernarg_segment_size = (\<lambda>_. (HSA_STATUS_SUCCESS, 16)),
     info_kernarg_segment_alignment = (\<lambda>_. (HSA_STATUS_SUCCESS, 8)), info_group_segment_size = (\<lambda>_. (HSA_STATUS_SUCCESS, 0)),
     info_private_segment_size = (\<lambda>_. (HSA_STATUS_SUCCESS, 0))\<rparr>"

theorem get_executable_symbols_correct_witness:
  "let r0 = \<lparr>symbol = 0, kernel_object = 0, kernarg_segment_size = 0, kernarg_segment_alignment = 0,
      group_segment_size = 0, private_segment_size = 0\<rparr>;
    (st, rs) = get_executable_symbols sample_symbol_rt 1 2 0 [''a'', ''b'', ''a''] [r0, r0, r0]
   in st = Some HSA_STATUS_ERROR \<and> length rs = 3 \<and> kernel_object (rs ! 0) = 6 \<and> rs ! 2 = r0"
proof -
  let ?r0 = "\<lparr>symbol = 0, kernel_object = 0, kernarg_segment_size = 0, kernarg_segment_alignment = 0,
      group_segment_size = 0, private_segment_size = 0\<rparr>"
  obtain rs where *: "get_executable_symbols sample_symbol_rt 1 2 0 [''a'', ''b'', ''a''] [?r0, ?r0, ?r0] =
      (Some HSA_STATUS_ERROR, rs)" "kernel_object (rs ! 0) = 6" "rs ! 2 = ?r0"
    by (simp add: get_executable_symbols_def get_executable_symbol_def GET_SYMBOL_INFO_def sample_symbol_rt_def)
  then show ?thesis
    using get_executable_symbols_correct [OF *(1)] by simp
qed

subsection \<open>Modules\<close>

text \<open>
  A module is a pointer to the block of the heap that holds it; the null pointer is 0.  The outcomes of the calls of the C library
  on one file are parameters: whether the file opens and the two seeks succeed, the position \<open>ftell\<close> reports, the
  address of the block \<open>malloc\<close> gives, and the characters \<open>fread\<close> delivers when asked for that many.  The result of
  \<open>load_module_from_file\<close> is \<open>None\<close> when the code has no defined behaviour, and else the return code with the new value of
  the variable \<open>*module\<close> and the new heap.  Note that \<open>rc\<close> holds the result of the last \<open>fseek\<close>, 0, from there on.
\<close>

type_synonym heap = "nat \<rightharpoonup> char list"

definition free :: "nat \<Rightarrow> heap \<Rightarrow> heap option" where
  "free p h = (if p = 0 then Some h else if h p = None then None else Some (h(p := None)))"

record file_io =
  fopen_ok :: bool
  seek_end_ok :: bool
  ftell_size :: nat
  seek_set_ok :: bool
  malloc :: "nat \<Rightarrow> heap \<Rightarrow> nat"
  fread_chars :: "nat \<Rightarrow> char list"

definition load_module_from_file :: "file_io \<Rightarrow> nat \<Rightarrow> heap \<Rightarrow> (int \<times> nat \<times> heap) option" where
  "load_module_from_file io module h =
     (if \<not> fopen_ok io then None  \<comment> \<open>\<open>fclose(NULL)\<close>\<close>
      else if \<not> seek_end_ok io then Some (-1, module, h)
      else let file_size = ftell_size io in
      if \<not> seek_set_ok io then Some (-1, module, h)
      else let buf = malloc io file_size h in
      if buf = 0 then Some (0, module, h)
      else let block = replicate file_size (CHR 0x00); read_chars = fread_chars io file_size; read_size = length read_chars;
               h = h(buf \<mapsto> read_chars @ drop read_size block) in
      if read_size \<noteq> file_size then do { h \<leftarrow> free buf h; Some (0, module, h) }
      else Some (0, buf, h))"

definition destroy_module :: "nat \<Rightarrow> heap \<Rightarrow> heap option" where
  "destroy_module module h = (let buf = module in if buf \<noteq> 0 then free buf h else Some h)"

text \<open>\<open>malloc\<close> gives the null pointer or an address that is not in use.\<close>

definition fresh_malloc :: "file_io \<Rightarrow> heap \<Rightarrow> bool" where
  "fresh_malloc io h \<longleftrightarrow> (\<forall>n. malloc io n h = 0 \<or> h (malloc io n h) = None)"

lemma free_new: "p \<noteq> 0 \<Longrightarrow> h p = None \<Longrightarrow> free p (h(p \<mapsto> x)) = Some h"
  by (auto simp: free_def fun_eq_iff)

lemma load_module_cases:
  assumes "fresh_malloc io h" "fopen_ok io"
  defines "buf \<equiv> malloc io (ftell_size io) h" and "read_chars \<equiv> fread_chars io (ftell_size io)"
  shows "load_module_from_file io module h = Some
    (if \<not> (seek_end_ok io \<and> seek_set_ok io) then (-1, module, h)
     else if buf \<noteq> 0 \<and> length read_chars = ftell_size io then (0, buf, h(buf \<mapsto> read_chars)) else (0, module, h))"
proof -
  have "buf = 0 \<or> h buf = None" using assms(1) by (simp add: fresh_malloc_def buf_def)
  then show ?thesis using assms(2) by (auto simp: load_module_from_file_def Let_def buf_def read_chars_def free_new)
qed

text \<open>
  C37.  The return code 0 of \<open>load_module_from_file\<close> does not mean that the module is there: with it the caller has the
  contents of the file exactly when the allocation and the read were complete, and otherwise its old module with the heap as it
  was.  The code \<open>-1\<close> is returned for a failed seek only, and for a file that cannot be opened the behaviour is undefined.
\<close>

theorem load_module_from_file_outcomes:
  assumes "fresh_malloc io h"
  shows "(load_module_from_file io module h = None \<longleftrightarrow> \<not> fopen_ok io) \<and>
    (load_module_from_file io module h = Some (-1, module, h) \<longleftrightarrow> fopen_ok io \<and> \<not> (seek_end_ok io \<and> seek_set_ok io)) \<and>
    (fopen_ok io \<and> seek_end_ok io \<and> seek_set_ok io \<longrightarrow> load_module_from_file io module h =
      (let buf = malloc io (ftell_size io) h in
       Some (if buf \<noteq> 0 \<and> length (fread_chars io (ftell_size io)) = ftell_size io
             then (0, buf, h(buf \<mapsto> fread_chars io (ftell_size io))) else (0, module, h))))"
proof (cases "fopen_ok io")
  case False
  then show ?thesis by (simp add: load_module_from_file_def)
next
  case True
  then show ?thesis using load_module_cases [OF assms, of module] by (simp add: Let_def)
qed

definition sample_io :: "nat \<Rightarrow> file_io" where
  "sample_io n = \<lparr>fopen_ok = True, seek_end_ok = True, ftell_size = n, seek_set_ok = True, malloc = (\<lambda>_ _. 1),
     fread_chars = (\<lambda>n. take n ''ab'')\<rparr>"

lemma sample_io [simp]: "fresh_malloc (sample_io n) Map.empty"
  by (simp add: fresh_malloc_def sample_io_def)

theorem load_module_from_file_outcomes_witness: "load_module_from_file (sample_io 3) 0 Map.empty = Some (0, 0, Map.empty)"
  using load_module_from_file_outcomes [OF sample_io, of 3 0] by (simp add: sample_io_def)

text \<open>
  C38.  Loading a module into a variable that holds no module, then destroying what the variable holds, leaves the heap as it was, whatever
  the calls of the C library return; in between the variable holds the whole file, or still none.
\<close>

theorem load_destroy_module:
  assumes "fresh_malloc io h" "load_module_from_file io 0 h = Some (rc, module, h')"
  shows "destroy_module module h' = Some h \<and> (module \<noteq> 0 \<longrightarrow> rc = 0 \<and> h' module = Some (fread_chars io (ftell_size io)))"
proof -
  have "fopen_ok io" by (rule ccontr) (use assms(2) in \<open>simp add: load_module_from_file_def\<close>)
  then have "(rc, module, h') = (0, malloc io (ftell_size io) h, h(malloc io (ftell_size io) h \<mapsto> fread_chars io (ftell_size io))) \<and>
      malloc io (ftell_size io) h \<noteq> 0 \<or> (module, h') = (0, h)"
    using assms(2) load_module_cases [OF assms(1), of 0] by (auto split: if_splits)
  moreover have "malloc io (ftell_size io) h = 0 \<or> h (malloc io (ftell_size io) h) = None"
    using assms(1) by (simp add: fresh_malloc_def)
  ultimately show ?thesis by (auto simp: destroy_module_def free_new)
qed

theorem load_destroy_module_witness:
  "load_module_from_file (sample_io 2) 0 Map.empty = Some (0, 1, [1 \<mapsto> ''ab'']) \<and> destroy_module 1 [1 \<mapsto> ''ab''] = Some Map.empty"
proof -
  have *: "load_module_from_file (sample_io 2) 0 Map.empty = Some (0, 1, [1 \<mapsto> ''ab''])"
    by (simp add: load_module_from_file_def sample_io_def)
  then show ?thesis using load_destroy_module [OF sample_io *] by blast
qed

subsection \<open>The table of the finalizer extension\<close>

text \<open>The entries are pointers to functions, of any type \<open>'p\<close>; a null pointer for the table is \<open>None\<close>.\<close>

record 'p hsa_ext_finalizer_pfn =
  hsa_ext_program_create :: 'p
  hsa_ext_program_destroy :: 'p
  hsa_ext_program_add_module :: 'p
  hsa_ext_program_iterate_modules :: 'p
  hsa_ext_program_get_info :: 'p
  hsa_ext_program_finalize :: 'p

record 'p finalizer_ext_rt =
  finalizer_supported :: "hsa_status_t \<times> bool"  \<comment> \<open>\<open>hsa_system_extension_supported(HSA_EXTENSION_FINALIZER, 1, 0)\<close>\<close>
  finalizer_table :: "hsa_status_t \<times> 'p hsa_ext_finalizer_pfn"  \<comment> \<open>\<open>hsa_system_get_extension_table\<close> for it\<close>

definition get_finalization_fnc_tbl ::
  "('p, 'z) finalizer_ext_rt_scheme \<Rightarrow> 'p hsa_ext_finalizer_pfn option \<Rightarrow> hsa_status_t \<times> 'p hsa_ext_finalizer_pfn option"
where
  "get_finalization_fnc_tbl rt table =
     (case table of
        None \<Rightarrow> (HSA_STATUS_ERROR_INVALID_ARGUMENT, None)
      | Some tbl \<Rightarrow>
          let (status, support) = finalizer_supported rt in
          if HSA_STATUS_SUCCESS \<noteq> status then (status, Some tbl)
          else if \<not> support then (HSA_STATUS_ERROR, Some tbl)
          else let (status, table_1_00) = finalizer_table rt in
          if HSA_STATUS_SUCCESS \<noteq> status then (status, Some tbl)
          else (status, Some (tbl
            \<lparr>hsa_ext_program_create := hsa_ext_program_create table_1_00,
             hsa_ext_program_destroy := hsa_ext_program_destroy table_1_00,
             hsa_ext_program_add_module := hsa_ext_program_add_module table_1_00,
             hsa_ext_program_iterate_modules := hsa_ext_program_iterate_modules table_1_00,
             hsa_ext_program_get_info := hsa_ext_program_get_info table_1_00,
             hsa_ext_program_finalize := hsa_ext_program_finalize table_1_00\<rparr>)))"

text \<open>
  \<open>get_finalization_fnc_tbl\<close> succeeds exactly when it has a table to fill in and the runtime supports the extension and
  gives its table; then the result is that table, every entry of it, and otherwise the table of the caller is unchanged.
\<close>

theorem get_finalization_fnc_tbl_correct:
  "get_finalization_fnc_tbl rt table = (status, table') \<longleftrightarrow>
    (if table \<noteq> None \<and> finalizer_supported rt = (HSA_STATUS_SUCCESS, True) \<and> fst (finalizer_table rt) = HSA_STATUS_SUCCESS
     then status = HSA_STATUS_SUCCESS \<and> table' = Some (snd (finalizer_table rt))
     else table' = table \<and> status = (if table = None then HSA_STATUS_ERROR_INVALID_ARGUMENT
       else if fst (finalizer_supported rt) \<noteq> HSA_STATUS_SUCCESS then fst (finalizer_supported rt)
       else if \<not> snd (finalizer_supported rt) then HSA_STATUS_ERROR else fst (finalizer_table rt)))"
  by (cases table; cases "finalizer_supported rt"; cases "finalizer_table rt") (auto simp: get_finalization_fnc_tbl_def)

end
