(* ===== verification/Queue_Utils.thy ===== *)
theory Queue_Utils
  imports Hsa_Api
begin

text \<open>
  \<open>utils/queue_utils.c\<close>: writing packets to a user mode queue of the runtime, a ring that the packet processor of the
  agent reads.  A packet is its header and its body, the other 62 bytes.  The indices are 64 bit words and wrap
  around.  \<open>launched\<close> is a history variable: the packets that the packet processor has taken so far.
\<close>

record 'b packet =
  header :: "16 word"
  body :: 'b

record 'b queue =
  queue_size :: "32 word"
  ring :: "'b packet list"
  write_index :: "64 word"
  read_index :: "64 word"
  doorbell :: "64 word list"  \<comment> \<open>the values stored to the doorbell signal, the last one first\<close>
  launched :: "'b packet list"

text \<open>
  The functions of the runtime.  The packet processor runs concurrently, so each call may find that it has taken packets in the
  meantime; \<open>tick\<close> is what it does between two stores of the code.
\<close>

record 'b queue_rt =
  hsa_queue_add_write_index :: "64 word \<Rightarrow> 'b queue \<Rightarrow> 64 word \<times> 'b queue"
  hsa_queue_load_read_index :: "'b queue \<Rightarrow> 64 word \<times> 'b queue"
  hsa_signal_store_doorbell :: "64 word \<Rightarrow> 'b queue \<Rightarrow> 'b queue"
  tick :: "'b queue \<Rightarrow> 'b queue"

text \<open>A loop that calls \<open>load\<close>, such as for the read index, while its result is \<open>full\<close>; \<open>None\<close> when it never ends.\<close>

partial_function (option) wait_while :: "('q \<Rightarrow> 'v \<times> 'q) \<Rightarrow> ('v \<Rightarrow> bool) \<Rightarrow> 'q \<Rightarrow> 'q option"
where
  "wait_while load full q =
     (let (r, q) = load q in if full r then wait_while load full q else Some q)"

text \<open>
  Such a loop ends when each call keeps an invariant and does not increase a measure, and the measure decreases sooner or later as long
  as the result is \<open>full\<close>.
\<close>

lemma wait_while_returns:
  assumes "Inv s"
    and keeps: "\<And>s. Inv s \<Longrightarrow> Inv (snd (load s)) \<and> m (snd (load s)) \<le> (m s :: nat)"
    and progress: "\<And>s. Inv s \<Longrightarrow> full (fst (load s)) \<Longrightarrow> \<exists>k. m (((\<lambda>s. snd (load s)) ^^ k) s) < m s"
  obtains s0 where "Inv s0" "\<not> full (fst (load s0))" "wait_while load full s = Some (snd (load s0))"
proof -
  have "\<exists>s0. Inv s0 \<and> \<not> full (fst (load s0)) \<and> wait_while load full s = Some (snd (load s0))"
    using assms(1)
  proof (induction "m s" arbitrary: s rule: less_induct)
    case less
    have later: "\<exists>s0. Inv s0 \<and> \<not> full (fst (load s0)) \<and> wait_while load full s1 = Some (snd (load s0))"
      if "Inv s1" "m s1 \<le> m s" "m (((\<lambda>s. snd (load s)) ^^ k) s1) < m s" for k s1
      using that
    proof (induction k arbitrary: s1)
      case 0
      then show ?case using less.hyps [of s1] by simp
    next
      case (Suc k)
      have next_one: "Inv (snd (load s1))" "m (snd (load s1)) \<le> m s"
        using keeps [OF Suc.prems(1)] Suc.prems(2) by simp_all
      have "m (((\<lambda>s. snd (load s)) ^^ k) (snd (load s1))) < m s"
        using Suc.prems(3) by (simp only: funpow_Suc_right comp_apply)
      note Suc.IH [OF next_one this]
      then show ?case
        using Suc.prems(1) by (cases "full (fst (load s1))") (auto simp: wait_while.simps [of _ _ s1] case_prod_beta)
    qed
    show ?case
    proof (cases "full (fst (load s))")
      case True
      then show ?thesis using progress [OF less.prems] later [OF less.prems order_refl] by blast
    next
      case False
      then show ?thesis using less.prems by (auto simp: wait_while.simps [of _ _ s] case_prod_beta)
    qed
  qed
  then show thesis using that by blast
qed

text \<open>The copy of the body of a packet, followed by the atomic store of its header.\<close>

definition slot :: "'b queue \<Rightarrow> 64 word \<Rightarrow> nat" where
  "slot q w = unat (w AND ucast (queue_size q - 1))"

definition store_packet :: "('b, 'z) queue_rt_scheme \<Rightarrow> 64 word \<Rightarrow> 'b packet \<Rightarrow> 'b queue \<Rightarrow> 'b queue" where
  "store_packet rt w p q =
     (let i = slot q w;
          q = tick rt q;
          q = q\<lparr>ring := (ring q)[i := (ring q ! i)\<lparr>body := body p\<rparr>]\<rparr>;
          q = tick rt q
      in q\<lparr>ring := (ring q)[i := (ring q ! i)\<lparr>header := header p\<rparr>]\<rparr>)"

definition enqueue_dispatch_packet_at ::
  "('b, 'z) queue_rt_scheme \<Rightarrow> 64 word \<Rightarrow> 'b packet \<Rightarrow> 'b queue \<Rightarrow> 'b queue option"
where
  "enqueue_dispatch_packet_at rt w p q = do {
     q \<leftarrow> wait_while (hsa_queue_load_read_index rt) (\<lambda>r. w - r > ucast (queue_size q)) q;
     let q = store_packet rt w p q;
     Some (hsa_signal_store_doorbell rt w q)
   }"

definition enqueue_dispatch_packet :: "('b, 'z) queue_rt_scheme \<Rightarrow> 'b packet \<Rightarrow> 'b queue \<Rightarrow> 'b queue option" where
  "enqueue_dispatch_packet rt p q =
     (let (w, q) = hsa_queue_add_write_index rt 1 q in enqueue_dispatch_packet_at rt w p q)"

text \<open>
  The packets of one pass of the outer loop: it reads the array from its first element in every pass, and increments the
  write index after each packet.
\<close>

fun store_packets :: "('b, 'z) queue_rt_scheme \<Rightarrow> 64 word \<Rightarrow> 'b packet list \<Rightarrow> 'b queue \<Rightarrow> 64 word \<times> 'b queue" where
  "store_packets rt w [] q = (w, q)"
| "store_packets rt w (p # ps) q = store_packets rt (w + 1) ps (store_packet rt w p q)"

partial_function (option) enqueue_dispatch_packets_at ::
  "('b, 'z) queue_rt_scheme \<Rightarrow> 64 word \<Rightarrow> 32 word \<Rightarrow> 'b packet list \<Rightarrow> 'b queue \<Rightarrow> 'b queue option"
where
  "enqueue_dispatch_packets_at rt w packet_count packet q =
     (if 0 < packet_count then do {
        let dispatch_count = (if packet_count > queue_size q then queue_size q else packet_count);
        q \<leftarrow> wait_while (hsa_queue_load_read_index rt)
               (\<lambda>r. w + ucast dispatch_count - r > ucast (queue_size q)) q;
        let (w, q) = store_packets rt w (take (unat dispatch_count) packet) q;
        let q = hsa_signal_store_doorbell rt w q;
        enqueue_dispatch_packets_at rt w (packet_count - dispatch_count) packet q
      } else Some q)"

definition enqueue_dispatch_packets ::
  "('b, 'z) queue_rt_scheme \<Rightarrow> 32 word \<Rightarrow> 'b packet list \<Rightarrow> 'b queue \<Rightarrow> 'b queue option"
where
  "enqueue_dispatch_packets rt packet_count packet q =
     (if 0 < packet_count then
        let (w, q) = hsa_queue_add_write_index rt (ucast packet_count) q in
        enqueue_dispatch_packets_at rt w packet_count packet q
      else Some q)"

subsection \<open>The packet processor\<close>

text \<open>
  It takes the packet at the read index when its header is \<open>valid\<close>, that is, has a packet type other than the
  invalid one, then makes the header invalid and advances the read index.  The law \<open>progress\<close> idealises it: while the code looks at the
  read index again and again, a valid packet is taken sooner or later, whether the doorbell has been rung for it or not.
\<close>

definition launch :: "16 word \<Rightarrow> 'b queue \<Rightarrow> 'b queue" where
  "launch blank q =
     (let i = slot q (read_index q); p = ring q ! i in
      q\<lparr>launched := launched q @ [p], ring := (ring q)[i := p\<lparr>header := blank\<rparr>], read_index := read_index q + 1\<rparr>)"

inductive processed :: "(16 word \<Rightarrow> bool) \<Rightarrow> 16 word \<Rightarrow> 'b queue \<Rightarrow> 'b queue \<Rightarrow> bool" for valid blank where
  idle: "processed valid blank q q"
| takes: "processed valid blank q q' \<Longrightarrow> valid (header (ring q' ! slot q' (read_index q'))) \<Longrightarrow>
    processed valid blank q (launch blank q')"

locale packet_processor =
  fixes rt :: "('b, 'z) queue_rt_scheme" and valid :: "16 word \<Rightarrow> bool" and blank :: "16 word"
  assumes invalid: "\<not> valid blank"
    and add_write_index: "hsa_queue_add_write_index rt n q = (w, q') \<Longrightarrow>
      w = write_index q \<and> processed valid blank (q\<lparr>write_index := write_index q + n\<rparr>) q'"
    and load_read_index: "hsa_queue_load_read_index rt q = (r, q') \<Longrightarrow> processed valid blank q q' \<and> r = read_index q'"
    and store_doorbell: "processed valid blank (q\<lparr>doorbell := v # doorbell q\<rparr>) (hsa_signal_store_doorbell rt v q)"
    and ticks: "processed valid blank q (tick rt q)"
    and progress: "valid (header (ring q ! slot q (read_index q))) \<Longrightarrow>
      \<exists>k. read_index (((\<lambda>q. snd (hsa_queue_load_read_index rt q)) ^^ k) q) \<noteq> read_index q"

subsection \<open>Indices\<close>

definition power_of_two_size :: "'b queue \<Rightarrow> bool" where
  "power_of_two_size q \<longleftrightarrow> (\<exists>m < 32. unat (queue_size q) = 2 ^ m)"

lemma slot_mod:
  assumes "power_of_two_size q"
  shows "slot q (of_nat n) = n mod unat (queue_size q)"
proof -
  obtain m where m: "m < 32" "unat (queue_size q) = 2 ^ m"
    using assms by (auto simp: power_of_two_size_def)
  have "queue_size q \<noteq> 0" using m(2) by (metis power_eq_0_iff unat_0 zero_neq_numeral)
  then have "unat (queue_size q - 1) = 2 ^ m - 1"
    using m(2) by (simp add: unat_minus_one)
  then have "(ucast (queue_size q - 1) :: 64 word) = of_nat (2 ^ m - 1)"
    by (metis of_nat_unat)
  also have "\<dots> = mask m" by (simp add: mask_eq_exp_minus_1 of_nat_diff)
  finally have "slot q (of_nat n) = unat (take_bit m (of_nat n :: 64 word))"
    by (simp add: slot_def take_bit_eq_mask)
  also have "\<dots> = (n mod 2 ^ 64) mod 2 ^ m"
    unfolding unsigned_take_bit_eq unat_of_nat by (simp add: take_bit_eq_mod)
  also have "\<dots> = n mod 2 ^ m"
    using m(1) by (intro mod_mod_cancel le_imp_power_dvd) simp
  finally show ?thesis by (simp add: m(2))
qed

lemma index_distance:
  assumes "rd \<le> wr" "wr - rd < 2 ^ 64"
  shows "unat (of_nat wr - of_nat rd :: 64 word) = wr - rd"
proof -
  have "(of_nat wr - of_nat rd :: 64 word) = of_nat (wr - rd)" using assms(1) by (simp add: of_nat_diff)
  then show ?thesis using assms(2) by (simp only: unat_of_nat) simp
qed

subsection \<open>The queue as a sequence of packets\<close>

text \<open>
  \<open>queue_rep q rd xs\<close>: the read index has counted \<open>rd\<close> packets, and the ring holds the packets \<open>xs\<close> from there on, all with
  valid headers, and no other packet with one.
\<close>

definition queue_rep :: "(16 word \<Rightarrow> bool) \<Rightarrow> 'b queue \<Rightarrow> nat \<Rightarrow> 'b packet list \<Rightarrow> bool" where
  "queue_rep valid q rd xs \<longleftrightarrow>
     power_of_two_size q \<and> length (ring q) = unat (queue_size q) \<and> read_index q = of_nat rd \<and>
     length xs \<le> unat (queue_size q) \<and>
     (\<forall>i < length xs. ring q ! ((rd + i) mod unat (queue_size q)) = xs ! i \<and> valid (header (xs ! i))) \<and>
     (\<forall>i < unat (queue_size q). length xs \<le> i \<longrightarrow>
        \<not> valid (header (ring q ! ((rd + i) mod unat (queue_size q)))))"

lemma queue_repD:
  assumes "queue_rep valid q rd xs"
  shows "power_of_two_size q" "length (ring q) = unat (queue_size q)" "read_index q = of_nat rd"
    and "length xs \<le> unat (queue_size q)" "0 < unat (queue_size q)" "unat (queue_size q) < 2 ^ 32"
    and "\<And>i. i < length xs \<Longrightarrow> ring q ! ((rd + i) mod unat (queue_size q)) = xs ! i"
    and "\<And>i. i < length xs \<Longrightarrow> valid (header (xs ! i))"
    and "\<And>i. i < unat (queue_size q) \<Longrightarrow> length xs \<le> i \<Longrightarrow>
      \<not> valid (header (ring q ! ((rd + i) mod unat (queue_size q))))"
proof -
  show pow: "power_of_two_size q" using assms by (simp add: queue_rep_def)
  then show "0 < unat (queue_size q)" by (auto simp: power_of_two_size_def)
  show "unat (queue_size q) < 2 ^ 32" using unsigned_less [of "queue_size q"] by simp
qed (use assms in \<open>simp_all add: queue_rep_def\<close>)

lemma same_slot:
  assumes "i < n" "j < n"
  shows "(rd + i) mod n = (rd + j) mod n \<longleftrightarrow> i = (j::nat)"
proof -
  have *: "i = j" if "(rd + i) mod n = (rd + j) mod n" "i \<le> j" "j < n" for i j
  proof -
    have "n dvd j - i" using that(1,2) mod_eq_dvd_iff_nat [of "rd + i" "rd + j" n] by simp
    then show ?thesis using that(2,3) by (auto dest: dvd_imp_le)
  qed
  show ?thesis
    using *[of i j] *[of j i] assms by (metis nat_le_linear)
qed

text \<open>The packet processor takes the first packet of the sequence.\<close>

lemma launch_rep:
  assumes rep: "queue_rep valid q rd (x # xs)" and blank: "\<not> valid blank"
  shows "queue_rep valid (launch blank q) (rd + 1) xs" "launched (launch blank q) = launched q @ [x]"
proof -
  let ?n = "unat (queue_size q)" and ?q = "launch blank q"
  note D = queue_repD [OF rep]
  have slot: "slot q (read_index q) = rd mod ?n" using slot_mod [OF D(1)] D(3) by simp
  have x: "ring q ! (rd mod ?n) = x" using D(7) [of 0] by simp
  have ring: "ring ?q = (ring q)[rd mod ?n := x\<lparr>header := blank\<rparr>]" and sz: "queue_size ?q = queue_size q"
    by (simp_all add: launch_def Let_def slot x)
  show "launched ?q = launched q @ [x]" by (simp add: launch_def Let_def slot x)
  have other: "ring ?q ! ((rd + 1 + i) mod ?n) = ring q ! ((rd + Suc i) mod ?n)" if "Suc i < ?n" for i
  proof -
    have "(rd + Suc i) mod ?n \<noteq> rd mod ?n" using same_slot [of "Suc i" ?n 0 rd] that D(5) by simp
    then show ?thesis by (simp add: ring)
  qed
  have last: "ring ?q ! ((rd + 1 + i) mod ?n) = x\<lparr>header := blank\<rparr>" if "Suc i = ?n" for i
  proof -
    have "(rd + 1 + i) mod ?n = rd mod ?n" using that by (metis add.assoc mod_add_self2 plus_1_eq_Suc)
    moreover have "rd mod ?n < length (ring q)" using D(2,5) by simp
    ultimately show ?thesis by (simp add: ring)
  qed
  show "queue_rep valid ?q (rd + 1) xs"
    unfolding queue_rep_def sz
  proof (intro conjI allI impI)
    show "power_of_two_size ?q" using D(1) by (simp add: power_of_two_size_def sz)
    show "length (ring ?q) = ?n" using D(2) by (simp add: ring)
    show "read_index ?q = of_nat (rd + 1)" using D(3) by (simp add: launch_def Let_def)
    show "length xs \<le> ?n" using D(4) by simp
  next
    fix i assume "i < length xs"
    then show "ring ?q ! ((rd + 1 + i) mod ?n) = xs ! i" "valid (header (xs ! i))"
      using D(4) D(7,8) [of "Suc i"] other [of i] by simp_all
  next
    fix i assume i: "i < ?n" "length xs \<le> i"
    show "\<not> valid (header (ring ?q ! ((rd + 1 + i) mod ?n)))"
    proof (cases "Suc i = ?n")
      case True
      then show ?thesis using last blank by simp
    next
      case False
      then show ?thesis using i other [of i] D(9) [of "Suc i"] by simp
    qed
  qed
qed

lemma nothing_to_launch:
  assumes "queue_rep valid q rd []"
  shows "\<not> valid (header (ring q ! slot q (read_index q)))"
  using queue_repD(3,5,9) [OF assms] slot_mod [OF queue_repD(1) [OF assms], of rd] by (metis add_0_right list.size(3) order_refl)

lemma first_to_launch:
  assumes "queue_rep valid q rd xs" "xs \<noteq> []"
  shows "valid (header (ring q ! slot q (read_index q)))"
  using queue_repD(3) [OF assms(1)] queue_repD(7,8) [OF assms(1), of 0] slot_mod [OF queue_repD(1) [OF assms(1)], of rd] assms(2)
  by simp

text \<open>What the packet processor has done between two points of the code: taken a prefix of the sequence.\<close>

lemma processed_rep:
  assumes "processed valid blank q q'" "queue_rep valid q rd xs" "\<not> valid blank"
  obtains k where "k \<le> length xs" "queue_rep valid q' (rd + k) (drop k xs)" "launched q' = launched q @ take k xs"
    "queue_size q' = queue_size q" "write_index q' = write_index q" "doorbell q' = doorbell q"
proof -
  have "\<exists>k \<le> length xs. queue_rep valid q' (rd + k) (drop k xs) \<and> launched q' = launched q @ take k xs \<and>
    queue_size q' = queue_size q \<and> write_index q' = write_index q \<and> doorbell q' = doorbell q"
    using assms
  proof (induction rule: processed.induct)
    case (idle q)
    then show ?case by (intro exI [of _ 0]) simp
  next
    case (takes q q')
    then obtain k where k: "k \<le> length xs" "queue_rep valid q' (rd + k) (drop k xs)" "launched q' = launched q @ take k xs"
      "queue_size q' = queue_size q" "write_index q' = write_index q" "doorbell q' = doorbell q"
      by blast
    have "drop k xs \<noteq> []" using nothing_to_launch takes.hyps(2) k(2) by metis
    then obtain y ys where y: "drop k xs = y # ys" by (cases "drop k xs") auto
    then have k': "k < length xs" "y = xs ! k" "ys = drop (Suc k) xs"
      by (metis drop_all leI list.distinct(1)) (metis y drop_all leI list.distinct(1) Cons_nth_drop_Suc list.inject)+
    note L = launch_rep [OF k(2) [unfolded y] takes.prems(2)]
    show ?case
      using k L k' by (intro exI [of _ "Suc k"]) (simp add: take_Suc_conv_app_nth launch_def Let_def)
  qed
  then show thesis using that by blast
qed

text \<open>
  The specification of a queue: \<open>submitted valid q ps wr k\<close> says that \<open>ps\<close> are the packets taken by the packet processor
  followed by those still in the ring, at most \<open>k\<close> of them, and that \<open>wr\<close> packets have been counted.
\<close>

definition submitted :: "(16 word \<Rightarrow> bool) \<Rightarrow> 'b queue \<Rightarrow> 'b packet list \<Rightarrow> nat \<Rightarrow> nat \<Rightarrow> bool" where
  "submitted valid q ps wr k \<longleftrightarrow>
     (\<exists>rd xs. queue_rep valid q rd xs \<and> launched q @ xs = ps \<and> rd + length xs = wr \<and> length xs \<le> k)"

text \<open>The parts of a queue that the packet processor leaves alone.\<close>

abbreviation same_queue :: "'b queue \<Rightarrow> 'b queue \<Rightarrow> bool" where
  "same_queue q q' \<equiv> queue_size q' = queue_size q \<and> write_index q' = write_index q"

lemma processed_submitted:
  assumes "processed valid blank q q'" "submitted valid q ps wr k" "\<not> valid blank"
  shows "submitted valid q' ps wr k \<and> same_queue q q' \<and> doorbell q' = doorbell q"
proof -
  obtain rd xs where xs: "queue_rep valid q rd xs" "launched q @ xs = ps" "rd + length xs = wr" "length xs \<le> k"
    using assms(2) by (auto simp: submitted_def)
  obtain n where n: "n \<le> length xs" "queue_rep valid q' (rd + n) (drop n xs)" "launched q' = launched q @ take n xs"
    "queue_size q' = queue_size q" "write_index q' = write_index q" "doorbell q' = doorbell q"
    using processed_rep [OF assms(1) xs(1) assms(3)] by blast
  have "submitted valid q' ps wr k"
    unfolding submitted_def using xs n by (intro exI [of _ "rd + n"] exI [of _ "drop n xs"]) auto
  then show ?thesis using n by simp
qed

lemma processed_launched: "processed valid blank q q' \<Longrightarrow> \<exists>ys. launched q' = launched q @ ys"
  by (induction rule: processed.induct) (auto simp: launch_def Let_def)

lemma submitted_read_index:
  "submitted valid q ps wr k \<Longrightarrow> read_index q = of_nat (wr - (length ps - length (launched q)))"
  by (auto simp: submitted_def queue_rep_def)

lemma submitted_cong:
  assumes "queue_size q' = queue_size q" "read_index q' = read_index q" "launched q' = launched q" "ring q' = ring q"
  shows "submitted valid q' ps wr k = submitted valid q ps wr k"
  using assms by (simp add: submitted_def queue_rep_def power_of_two_size_def)

text \<open>The test \<open>full\<close> of a waiting loop says that there is no room for \<open>c\<close> more packets.\<close>

definition full_test :: "(64 word \<Rightarrow> bool) \<Rightarrow> 32 word \<Rightarrow> nat \<Rightarrow> nat \<Rightarrow> bool" where
  "full_test full sz c wr \<longleftrightarrow> (\<forall>rd n. n \<le> unat sz \<longrightarrow> rd + n = wr \<longrightarrow> (full (of_nat rd) \<longleftrightarrow> unat sz < n + c))"

lemma room_test:
  assumes "c \<le> unat sz"
  shows "full_test (\<lambda>r. of_nat wr + of_nat c - r > (ucast sz :: 64 word)) sz c wr"
  unfolding full_test_def
proof (intro allI impI)
  fix rd n assume n: "n \<le> unat sz" "rd + n = wr"
  have sz: "unat sz < 2 ^ 32" using unsigned_less [of sz] by simp
  then have "unat (of_nat (rd + n + c) - of_nat rd :: 64 word) = n + c"
    using index_distance [of rd "rd + n + c"] n(1) assms by simp
  moreover have "unat (ucast sz :: 64 word) = unat sz"
    using sz by (simp add: unsigned_ucast_eq take_bit_nat_eq_self)
  ultimately show "of_nat wr + of_nat c - of_nat rd > (ucast sz :: 64 word) \<longleftrightarrow> unat sz < n + c"
    unfolding word_less_nat_alt n(2) [symmetric] of_nat_add by (simp add: algebra_simps)
qed

text \<open>Writing to the slot after the last packet: the body first, while the slot is not valid, then the header.\<close>

lemma free_slot:
  assumes "submitted valid q ps wr k" "k < unat (queue_size q)"
  defines "i \<equiv> wr mod unat (queue_size q)"
  shows "\<not> valid (header (ring q ! i))" "i < length (ring q)"
proof -
  obtain rd xs where xs: "queue_rep valid q rd xs" "rd + length xs = wr" "length xs \<le> k"
    using assms(1) by (auto simp: submitted_def)
  then show "\<not> valid (header (ring q ! i))" "i < length (ring q)"
    using queue_repD(2,5) [OF xs(1)] queue_repD(9) [OF xs(1), of "length xs"] assms(2) by (simp_all add: i_def)
qed

lemma write_invalid:
  assumes "submitted valid q ps wr k" "k < unat (queue_size q)" "\<not> valid (header x)"
  defines "i \<equiv> wr mod unat (queue_size q)"
  shows "submitted valid (q\<lparr>ring := (ring q)[i := x]\<rparr>) ps wr k"
proof -
  let ?n = "unat (queue_size q)" and ?q = "q\<lparr>ring := (ring q)[i := x]\<rparr>"
  obtain rd xs where xs: "queue_rep valid q rd xs" "launched q @ xs = ps" "rd + length xs = wr" "length xs \<le> k"
    using assms(1) by (auto simp: submitted_def)
  note D = queue_repD [OF xs(1)]
  have i: "i < length (ring q)" using D(2,5) by (simp add: i_def)
  have len: "length xs < ?n" using xs(4) assms(2) by simp
  have other: "ring ?q ! ((rd + j) mod ?n) = ring q ! ((rd + j) mod ?n)" if "j < ?n" "j \<noteq> length xs" for j
    using same_slot [OF that(1) len, of rd] that(2) by (simp add: i_def xs(3) [symmetric])
  have new: "ring ?q ! ((rd + length xs) mod ?n) = x"
    using i by (simp add: i_def xs(3))
  have "queue_rep valid ?q rd xs"
    unfolding queue_rep_def
  proof (intro conjI allI impI)
    fix j assume "j < length xs"
    then show "ring ?q ! ((rd + j) mod unat (queue_size ?q)) = xs ! j" "valid (header (xs ! j))"
      using other [of j] D(7,8) len by simp_all
  next
    fix j assume j: "j < unat (queue_size ?q)" "length xs \<le> j"
    then show "\<not> valid (header (ring ?q ! ((rd + j) mod unat (queue_size ?q))))"
      using D(9) [of j] other [of j] new assms(3) by (cases "j = length xs") simp_all
  qed (use D len in \<open>simp_all add: power_of_two_size_def\<close>)
  then show ?thesis using xs by (auto simp: submitted_def)
qed

lemma write_body:
  assumes "submitted valid q ps wr k" "k < unat (queue_size q)"
  defines "i \<equiv> wr mod unat (queue_size q)"
  shows "submitted valid (q\<lparr>ring := (ring q)[i := (ring q ! i)\<lparr>body := b\<rparr>]\<rparr>) ps wr k"
  unfolding i_def by (rule write_invalid [OF assms(1,2)]) (use free_slot(1) [OF assms(1,2)] in simp)

lemma write_header:
  assumes "submitted valid q ps wr k" "k < unat (queue_size q)" "valid (header p)"
  defines "i \<equiv> wr mod unat (queue_size q)"
  assumes "body (ring q ! i) = body p"
  shows "submitted valid (q\<lparr>ring := (ring q)[i := (ring q ! i)\<lparr>header := header p\<rparr>]\<rparr>) (ps @ [p]) (wr + 1) (k + 1)"
proof -
  let ?n = "unat (queue_size q)" and ?q = "q\<lparr>ring := (ring q)[i := (ring q ! i)\<lparr>header := header p\<rparr>]\<rparr>"
  obtain rd xs where xs: "queue_rep valid q rd xs" "launched q @ xs = ps" "rd + length xs = wr" "length xs \<le> k"
    using assms(1) by (auto simp: submitted_def)
  note D = queue_repD [OF xs(1)]
  have i: "i < length (ring q)" using D(2,5) by (simp add: i_def)
  have len: "length xs < ?n" using xs(4) assms(2) by simp
  have other: "ring ?q ! ((rd + j) mod ?n) = ring q ! ((rd + j) mod ?n)" if "j < ?n" "j \<noteq> length xs" for j
    using same_slot [OF that(1) len, of rd] that(2) by (simp add: i_def xs(3) [symmetric])
  have new: "ring ?q ! ((rd + length xs) mod ?n) = p"
    using i assms(5) by (simp add: i_def xs(3))
  have "queue_rep valid ?q rd (xs @ [p])"
    unfolding queue_rep_def
  proof (intro conjI allI impI)
    fix j assume "j < length (xs @ [p])"
    then show "ring ?q ! ((rd + j) mod unat (queue_size ?q)) = (xs @ [p]) ! j" "valid (header ((xs @ [p]) ! j))"
      using other [of j] new D(7,8) len assms(3) by (cases "j = length xs"; simp add: nth_append)+
  next
    fix j assume j: "j < unat (queue_size ?q)" "length (xs @ [p]) \<le> j"
    then show "\<not> valid (header (ring ?q ! ((rd + j) mod unat (queue_size ?q))))"
      using D(9) [of j] other [of j] by simp
  qed (use D len in \<open>simp_all add: power_of_two_size_def\<close>)
  then show ?thesis
    unfolding submitted_def using xs by (intro exI [of _ rd] exI [of _ "xs @ [p]"]) simp
qed

lemma processed_bodies: "processed valid blank q q' \<Longrightarrow> map body (ring q') = map body (ring q)"
proof (induction rule: processed.induct)
  case (takes q q')
  have "map body ((ring q')[i := (ring q' ! i)\<lparr>header := blank\<rparr>]) = map body (ring q')" for i
    by (cases "i < length (ring q')") (simp_all add: map_update list_update_same_conv list_update_beyond)
  then show ?case using takes.IH by (simp add: launch_def Let_def)
qed simp

lemma submitted_size: "submitted valid q ps wr k \<Longrightarrow> power_of_two_size q \<and> length (ring q) = unat (queue_size q)"
  by (auto simp: submitted_def queue_rep_def)

lemma submitted_mono: "submitted valid q ps wr k \<Longrightarrow> k \<le> k' \<Longrightarrow> submitted valid q ps wr k'"
  by (auto simp: submitted_def)

text \<open>What a batch appends: each pass of the outer loop takes its packets from the front of the array.\<close>

function passes_of :: "nat \<Rightarrow> nat \<Rightarrow> 'a list \<Rightarrow> 'a list" where
  "passes_of sz n ps = (if n = 0 \<or> sz = 0 then [] else take (min n sz) ps @ passes_of sz (n - sz) ps)"
  by pat_completeness auto
termination by (relation "measure (\<lambda>(sz, n, ps). n)") auto

declare passes_of.simps [simp del]

subsection \<open>The code implements it\<close>

context packet_processor
begin

lemma store_packet_submitted:
  assumes sub: "submitted valid q ps wr k" and k: "k < unat (queue_size q)" and p: "valid (header p)"
  shows "submitted valid (store_packet rt (of_nat wr) p q) (ps @ [p]) (wr + 1) (k + 1) \<and>
    same_queue q (store_packet rt (of_nat wr) p q) \<and> doorbell (store_packet rt (of_nat wr) p q) = doorbell q"
proof -
  let ?i = "wr mod unat (queue_size q)"
  let ?q1 = "tick rt q"
  let ?q2 = "?q1\<lparr>ring := (ring ?q1)[?i := (ring ?q1 ! ?i)\<lparr>body := body p\<rparr>]\<rparr>"
  let ?q3 = "tick rt ?q2"
  have i: "slot q (of_nat wr) = ?i" using submitted_size [OF sub] by (simp add: slot_mod)
  have 1: "submitted valid ?q1 ps wr k" "same_queue q ?q1" "doorbell ?q1 = doorbell q"
    using processed_submitted [OF ticks sub invalid] by simp_all
  have 2: "submitted valid ?q2 ps wr k"
    using write_body [OF 1(1)] k 1(2) by simp
  have 3: "submitted valid ?q3 ps wr k" "same_queue ?q2 ?q3" "doorbell ?q3 = doorbell ?q2"
    using processed_submitted [OF ticks 2 invalid] by simp_all
  have len: "?i < length (ring ?q1)" "length (ring ?q3) = length (ring ?q1)"
    using submitted_size [OF 1(1)] submitted_size [OF 3(1)] 1(2) 3(2) k by simp_all
  have "map body (ring ?q3) ! ?i = map body (ring ?q2) ! ?i"
    using processed_bodies [OF ticks] by metis
  then have b: "body (ring ?q3 ! ?i) = body p" using len by simp
  have "submitted valid (?q3\<lparr>ring := (ring ?q3)[?i := (ring ?q3 ! ?i)\<lparr>header := header p\<rparr>]\<rparr>) (ps @ [p]) (wr + 1) (k + 1)"
    using write_header [OF 3(1) _ p] k b 1(2) 3(2) by simp
  then show ?thesis using 1 3 by (simp add: store_packet_def Let_def i)
qed

lemma store_packets_submitted:
  assumes "submitted valid q ps wr k" "k + length ps' \<le> unat (queue_size q)" "\<forall>p \<in> set ps'. valid (header p)"
  shows "fst (store_packets rt (of_nat wr) ps' q) = of_nat (wr + length ps') \<and>
    submitted valid (snd (store_packets rt (of_nat wr) ps' q)) (ps @ ps') (wr + length ps') (k + length ps') \<and>
    same_queue q (snd (store_packets rt (of_nat wr) ps' q))"
  using assms
proof (induction ps' arbitrary: q ps wr k)
  case Nil
  then show ?case by simp
next
  case (Cons p ps')
  let ?q = "store_packet rt (of_nat wr) p q"
  have "submitted valid ?q (ps @ [p]) (wr + 1) (k + 1)" "same_queue q ?q"
    using store_packet_submitted [OF Cons.prems(1), of p] Cons.prems(2,3) by simp_all
  then show ?case
    using Cons.IH [of ?q "ps @ [p]" "wr + 1" "k + 1"] Cons.prems(2,3) by (simp add: add.commute)
qed

text \<open>
  The waiting loop ends: while there is not enough room the ring is not empty, so that the packet processor makes
  progress, and takes one more packet.
\<close>

lemma wait_while_submitted:
  assumes "submitted valid q ps wr k" "queue_size q = sz" "full_test full sz c wr" "c \<le> unat sz"
  shows "\<exists>q'. wait_while (hsa_queue_load_read_index rt) full q = Some q' \<and>
    submitted valid q' ps wr (min k (unat sz - c)) \<and> same_queue q q' \<and> doorbell q' = doorbell q"
proof -
  let ?load = "hsa_queue_load_read_index rt" and ?m = "\<lambda>q. length ps - length (launched q)"
  let ?Inv = "\<lambda>q'. submitted valid q' ps wr k \<and> same_queue q q' \<and> doorbell q' = doorbell q"
  have loaded: "processed valid blank q (snd (?load q))" "fst (?load q) = read_index (snd (?load q))" for q
    using load_read_index [of q] by (cases "?load q"; simp)+
  have keeps: "?Inv (snd (?load q1)) \<and> ?m (snd (?load q1)) \<le> ?m q1" if "?Inv q1" for q1
    using processed_submitted [OF loaded(1), of q1 ps wr k] that invalid processed_launched [OF loaded(1) [of q1]] by auto
  have steps: "?Inv (((\<lambda>q. snd (?load q)) ^^ k) q1) \<and> ?m (((\<lambda>q. snd (?load q)) ^^ k) q1) \<le> ?m q1" if "?Inv q1" for k q1
    using that by (induction k) (simp, use keeps in fastforce)
  have "\<exists>k. ?m (((\<lambda>q. snd (?load q)) ^^ k) q1) < ?m q1" if q1: "?Inv q1" "full (fst (?load q1))" for q1
  proof -
    let ?q = "snd (?load q1)"
    have q: "?Inv ?q" "?m ?q \<le> ?m q1" using keeps [OF q1(1)] by simp_all
    then obtain rd xs where xs: "queue_rep valid ?q rd xs" "launched ?q @ xs = ps" "rd + length xs = wr"
      by (auto simp: submitted_def)
    have "unat sz < length xs + c"
      using assms(2,3) q1(2) q(1) loaded(2) [of q1] queue_repD(3,4) [OF xs(1)] xs(3) by (simp add: full_test_def)
    then have "xs \<noteq> []" using assms(4) by auto
    then have "valid (header (ring ?q ! slot ?q (read_index ?q)))" by (rule first_to_launch [OF xs(1)])
    then obtain k where k: "read_index (((\<lambda>q. snd (?load q)) ^^ k) ?q) \<noteq> read_index ?q"
      using progress by blast
    have "?m (((\<lambda>q. snd (?load q)) ^^ k) ?q) \<noteq> ?m ?q"
      using k submitted_read_index steps [OF q(1), of k] q(1) by metis
    then have "?m (((\<lambda>q. snd (?load q)) ^^ Suc k) q1) < ?m q1"
      using steps [OF q(1), of k] q(2) by (simp only: funpow_Suc_right comp_apply) linarith
    then show ?thesis by blast
  qed
  from wait_while_returns [where Inv = ?Inv and m = ?m and load = ?load and full = full, OF _ keeps this] assms(1)
  obtain q1 where q1: "?Inv q1" "\<not> full (fst (?load q1))" "wait_while ?load full q = Some (snd (?load q1))" by blast
  let ?q = "snd (?load q1)"
  have q: "?Inv ?q" using keeps [OF q1(1)] by simp
  then obtain rd xs where xs: "queue_rep valid ?q rd xs" "launched ?q @ xs = ps" "rd + length xs = wr" "length xs \<le> k"
    by (auto simp: submitted_def)
  have "\<not> unat sz < length xs + c"
    using assms(2,3) q1(2) q loaded(2) [of q1] queue_repD(3,4) [OF xs(1)] xs(3) by (simp add: full_test_def)
  then have "submitted valid ?q ps wr (min k (unat sz - c))" using xs by (auto simp: submitted_def)
  then show ?thesis using q1(3) q by blast
qed

text \<open>The index is reserved first; the queue counts as submitted up to it.\<close>

lemma reserve:
  assumes sub: "submitted valid q ps wr k" and "hsa_queue_add_write_index rt n q = (w, q')"
  shows "w = write_index q \<and> submitted valid q' ps wr k \<and> queue_size q' = queue_size q \<and>
    write_index q' = write_index q + n \<and> doorbell q' = doorbell q"
proof -
  let ?q = "q\<lparr>write_index := write_index q + n\<rparr>"
  have p: "w = write_index q" "processed valid blank ?q q'" using add_write_index [OF assms(2)] by simp_all
  have "submitted valid ?q ps wr k" using sub by (simp add: submitted_cong [of ?q q])
  from processed_submitted [OF p(2) this invalid] show ?thesis using p(1) by simp
qed

lemma ring_doorbell:
  assumes sub: "submitted valid q ps wr k"
  shows "submitted valid (hsa_signal_store_doorbell rt v q) ps wr k \<and> same_queue q (hsa_signal_store_doorbell rt v q) \<and>
    doorbell (hsa_signal_store_doorbell rt v q) = v # doorbell q"
proof -
  have "submitted valid (q\<lparr>doorbell := v # doorbell q\<rparr>) ps wr k"
    using sub by (simp add: submitted_cong [of "q\<lparr>doorbell := v # doorbell q\<rparr>" q])
  from processed_submitted [OF store_doorbell this invalid] show ?thesis by simp
qed

text \<open>
  A single packet.  The loop waits for \<open>delta \<le> queue->size\<close>, which holds even when the ring is full, so that there has to
  be room at the call.
\<close>

lemma enqueue_one:
  assumes sub: "submitted valid q ps wr k" and k: "k < unat (queue_size q)"
    and w: "write_index q = of_nat wr" and p: "valid (header p)"
  shows "\<exists>q'. enqueue_dispatch_packet rt p q = Some q' \<and> submitted valid q' (ps @ [p]) (wr + 1) (k + 1) \<and>
    queue_size q' = queue_size q \<and> write_index q' = of_nat (wr + 1) \<and> doorbell q' = of_nat wr # doorbell q"
proof -
  obtain w1 q1 where q1: "hsa_queue_add_write_index rt 1 q = (w1, q1)"
    by (cases "hsa_queue_add_write_index rt 1 q")
  note R = reserve [OF sub q1]
  have s1: "submitted valid q1 ps wr k" using R by simp
  from wait_while_submitted [OF s1 refl room_test [OF le0] le0] obtain q2 where
    wait: "wait_while (hsa_queue_load_read_index rt) (\<lambda>r. of_nat wr + of_nat 0 - r > ucast (queue_size q1)) q1 = Some q2"
    and q2: "submitted valid q2 ps wr (min k (unat (queue_size q1) - 0))" "same_queue q1 q2" "doorbell q2 = doorbell q1"
    by blast
  have waited: "wait_while (hsa_queue_load_read_index rt) (\<lambda>r. w1 - r > ucast (queue_size q1)) q1 = Some q2"
    using wait R w by simp
  have sub2: "submitted valid q2 ps wr k" using q2(1) by (rule submitted_mono) simp
  let ?q3 = "store_packet rt (of_nat wr) p q2"
  have 3: "submitted valid ?q3 (ps @ [p]) (wr + 1) (k + 1)" "same_queue q2 ?q3" "doorbell ?q3 = doorbell q2"
    using store_packet_submitted [OF sub2 _ p] k q2(2) R by simp_all
  note 4 = ring_doorbell [OF 3(1), of "of_nat wr"]
  show ?thesis
    using q1 waited 3 4 R w q2(2,3) by (simp add: enqueue_dispatch_packet_def enqueue_dispatch_packet_at_def)
qed

text \<open>A batch.\<close>

lemma enqueue_batch:
  assumes "submitted valid q ps wr k" "\<forall>p \<in> set packet. valid (header p)" "unat count \<le> length packet"
  shows "\<exists>q'. enqueue_dispatch_packets_at rt (of_nat wr) count packet q = Some q' \<and>
    submitted valid q' (ps @ passes_of (unat (queue_size q)) (unat count) packet) (wr + unat count) (unat (queue_size q)) \<and>
    same_queue q q'"
  using assms(1,3)
proof (induction "unat count" arbitrary: count q ps wr k rule: less_induct)
  case less
  let ?n = "unat (queue_size q)"
  obtain rd xs where rep: "queue_rep valid q rd xs" using less.prems(1) by (auto simp: submitted_def)
  note D = queue_repD [OF rep]
  have sub: "submitted valid q ps wr ?n" using less.prems(1) D by (auto simp: submitted_def dest: queue_repD(4))
  show ?case
  proof (cases "count = 0")
    case True
    then show ?thesis using sub by (simp add: enqueue_dispatch_packets_at.simps passes_of.simps)
  next
    case False
    then have pos: "0 < count" "0 < unat count" by (simp_all add: word_gt_0 unat_gt_0)
    define dc where "dc = (if count > queue_size q then queue_size q else count)"
    have dc: "unat dc = min (unat count) ?n" "unat dc \<le> ?n" "0 < unat dc" "unat (count - dc) = unat count - unat dc"
      using D(5) pos(2) by (auto simp: dc_def word_less_nat_alt word_le_nat_alt unat_sub min_def)
    have c: "(of_nat (unat dc) :: 64 word) = ucast dc" by simp
    from wait_while_submitted [OF less.prems(1) refl room_test [OF dc(2)] dc(2), unfolded c] obtain q1
      where wait: "wait_while (hsa_queue_load_read_index rt) (\<lambda>r. of_nat wr + ucast dc - r > ucast (queue_size q)) q = Some q1"
      and q1: "submitted valid q1 ps wr (?n - unat dc)" "same_queue q q1"
      by (blast intro: submitted_mono min.cobounded2)
    let ?ps = "take (unat dc) packet"
    have len: "length ?ps = unat dc" using dc(1) less.prems(2) by simp
    let ?r = "store_packets rt (of_nat wr) ?ps q1"
    have "\<forall>p \<in> set ?ps. valid (header p)" using assms(2) by (auto dest: in_set_takeD)
    moreover have "?n - unat dc + length ?ps \<le> unat (queue_size q1)" using len dc(2) q1(2) by simp
    ultimately have st: "fst ?r = of_nat (wr + unat dc)" "submitted valid (snd ?r) (ps @ ?ps) (wr + unat dc) ?n" "same_queue q (snd ?r)"
      using store_packets_submitted [OF q1(1), of ?ps] len dc(2) q1(2) by simp_all
    let ?q3 = "hsa_signal_store_doorbell rt (of_nat (wr + unat dc)) (snd ?r)"
    have 3: "submitted valid ?q3 (ps @ ?ps) (wr + unat dc) ?n" "same_queue q ?q3"
      using ring_doorbell [OF st(2)] st(3) by simp_all
    have step: "enqueue_dispatch_packets_at rt (of_nat wr) count packet q =
        enqueue_dispatch_packets_at rt (of_nat (wr + unat dc)) (count - dc) packet ?q3"
      using pos(1) wait st(1)
      by (subst enqueue_dispatch_packets_at.simps) (simp add: dc_def [symmetric] Let_def case_prod_beta)
    have "unat (count - dc) < unat count" "unat (count - dc) \<le> length packet"
      using dc pos(2) less.prems(2) by linarith+
    from less.hyps [OF this(1) 3(1) this(2)] obtain q4 where
      q4: "enqueue_dispatch_packets_at rt (of_nat (wr + unat dc)) (count - dc) packet ?q3 = Some q4"
      "submitted valid q4 ((ps @ ?ps) @ passes_of ?n (unat (count - dc)) packet) (wr + unat dc + unat (count - dc)) ?n"
      "same_queue q q4"
      using 3(2) by auto
    have ps: "passes_of ?n (unat count) packet = ?ps @ passes_of ?n (unat (count - dc)) packet"
      using pos(2) D(5) dc by (subst passes_of.simps) (auto simp: min_def passes_of.simps [of _ 0])
    have wr: "wr + unat dc + unat (count - dc) = wr + unat count" using dc by simp
    show ?thesis using step q4(1,3) q4(2) [unfolded wr append_assoc] ps by simp
  qed
qed

end

context packet_processor
begin

lemma enqueue_all:
  assumes sub: "submitted valid q ps wr k" and w: "write_index q = of_nat wr"
    and "\<forall>p \<in> set packet. valid (header p)" "unat count \<le> length packet"
  shows "\<exists>q' k'. enqueue_dispatch_packets rt count packet q = Some q' \<and>
    submitted valid q' (ps @ passes_of (unat (queue_size q)) (unat count) packet) (wr + unat count) k' \<and>
    queue_size q' = queue_size q \<and> write_index q' = of_nat (wr + unat count)"
proof (cases "count = 0")
  case True
  then show ?thesis using sub w by (auto simp: enqueue_dispatch_packets_def passes_of.simps)
next
  case False
  obtain w1 q1 where q1: "hsa_queue_add_write_index rt (ucast count) q = (w1, q1)"
    by (cases "hsa_queue_add_write_index rt (ucast count) q")
  note R = reserve [OF sub q1]
  have s1: "submitted valid q1 ps wr k" and sz: "queue_size q1 = queue_size q" using R by simp_all
  from enqueue_batch [OF s1 assms(3,4)] obtain q' where
    q': "enqueue_dispatch_packets_at rt (of_nat wr) count packet q1 = Some q'"
    "submitted valid q' (ps @ passes_of (unat (queue_size q)) (unat count) packet) (wr + unat count) (unat (queue_size q))"
    "same_queue q1 q'"
    unfolding sz by blast
  have "0 < count" using False by (simp add: word_gt_0)
  then have "enqueue_dispatch_packets rt count packet q = Some q'"
    using q1 q'(1) R w by (simp add: enqueue_dispatch_packets_def)
  moreover have "queue_size q' = queue_size q" "write_index q' = of_nat (wr + unat count)"
    using q'(3) R w by simp_all
  ultimately show ?thesis using q'(2) by blast
qed

end

lemma passes_of_fits: "count \<le> n \<Longrightarrow> passes_of n count packet = take count packet"
  by (simp add: passes_of.simps [of n count] passes_of.simps [of n 0])

lemma passes_of_repeats:
  "0 < sz \<Longrightarrow> passes_of sz n ps = concat (replicate (n div sz) (take sz ps)) @ take (n mod sz) ps"
proof (induction n rule: less_induct)
  case (less n)
  show ?case
  proof (cases "n < sz")
    case True
    then show ?thesis using less.prems by (cases "n = 0") (simp_all add: passes_of.simps [of sz] passes_of.simps [of _ 0])
  next
    case False
    then have "n div sz = Suc ((n - sz) div sz)" "n mod sz = (n - sz) mod sz"
      using less.prems by (simp_all add: le_div_geq le_mod_geq)
    then show ?thesis
      using False less.prems less.IH [of "n - sz"] by (subst passes_of.simps) simp
  qed
qed

subsection \<open>A packet processor\<close>

text \<open>It takes one packet, if there is one, whenever the read index is loaded, and none at other times.\<close>

definition sample_valid :: "16 word \<Rightarrow> bool" where
  "sample_valid h \<longleftrightarrow> h \<noteq> 1"

definition take_one :: "'b queue \<Rightarrow> 'b queue" where
  "take_one q = (if sample_valid (header (ring q ! slot q (read_index q))) then launch 1 q else q)"

definition sample_queue_rt :: "'b queue_rt" where
  "sample_queue_rt =
    \<lparr>hsa_queue_add_write_index = (\<lambda>n q. (write_index q, q\<lparr>write_index := write_index q + n\<rparr>)),
     hsa_queue_load_read_index = (\<lambda>q. let q = take_one q in (read_index q, q)),
     hsa_signal_store_doorbell = (\<lambda>v q. q\<lparr>doorbell := v # doorbell q\<rparr>),
     tick = (\<lambda>q. q)\<rparr>"

interpretation sample: packet_processor sample_queue_rt sample_valid 1
proof unfold_locales
  fix q q' :: "'b queue" and r
  assume "hsa_queue_load_read_index sample_queue_rt q = (r, q')"
  then show "processed sample_valid 1 q q' \<and> r = read_index q'"
    by (auto simp: sample_queue_rt_def Let_def take_one_def intro: processed.takes [OF processed.idle] processed.idle
        split: if_splits)
next
  fix q :: "'b queue"
  assume "sample_valid (header (ring q ! slot q (read_index q)))"
  then show "\<exists>k. read_index (((\<lambda>q. snd (hsa_queue_load_read_index sample_queue_rt q)) ^^ k) q) \<noteq> read_index q"
    by (intro exI [of _ 1]) (simp add: sample_queue_rt_def Let_def take_one_def launch_def)
qed (auto simp: sample_queue_rt_def sample_valid_def intro: processed.idle)

definition sample_queue :: "nat queue" where
  "sample_queue = \<lparr>queue_size = 2, ring = [\<lparr>header = 1, body = 0\<rparr>, \<lparr>header = 1, body = 0\<rparr>],
     write_index = 0, read_index = 0, doorbell = [], launched = []\<rparr>"

lemma sample_queue_submitted: "submitted sample_valid sample_queue [] 0 0" "write_index sample_queue = of_nat 0"
proof -
  have "power_of_two_size sample_queue"
    by (auto simp: power_of_two_size_def sample_queue_def intro: exI [of _ 1])
  moreover have "\<forall>i < 2. header (ring sample_queue ! i) = 1"
    by (simp add: sample_queue_def numeral_2_eq_2 All_less_Suc)
  moreover have "unat (queue_size sample_queue) = 2" by (simp add: sample_queue_def)
  ultimately have "queue_rep sample_valid sample_queue 0 []"
    by (simp add: queue_rep_def sample_valid_def) (simp add: sample_queue_def)
  then show "submitted sample_valid sample_queue [] 0 0" "write_index sample_queue = of_nat 0"
    by (auto simp: submitted_def sample_queue_def intro: exI [of _ 0])
qed

definition full_queue :: "nat queue" where
  "full_queue = sample_queue\<lparr>ring := [\<lparr>header = 2, body = 5\<rparr>, \<lparr>header = 2, body = 6\<rparr>], write_index := 2\<rparr>"

lemma full_queue_rep: "queue_rep sample_valid full_queue 0 [\<lparr>header = 2, body = 5\<rparr>, \<lparr>header = 2, body = 6\<rparr>]"
proof -
  have "power_of_two_size full_queue"
    by (auto simp: power_of_two_size_def full_queue_def sample_queue_def intro: exI [of _ 1])
  moreover have "unat (queue_size full_queue) = 2" by (simp add: full_queue_def sample_queue_def)
  ultimately show ?thesis
    by (simp add: queue_rep_def sample_valid_def full_queue_def sample_queue_def less_Suc_eq numeral_2_eq_2)
qed

text \<open>A packet processor that does nothing for now.\<close>

definition idle_queue_rt :: "'b queue_rt" where
  "idle_queue_rt = sample_queue_rt\<lparr>hsa_queue_load_read_index := \<lambda>q. (read_index q, q)\<rparr>"

subsection \<open>Properties\<close>

text \<open>
  C25.  When there is room in the ring, \<open>enqueue_dispatch_packet\<close> returns, and implements the insertion at the end of the
  sequence of submitted packets: all others are still launched or in the ring, in their order, and the packet is complete
  whenever the packet processor can see it.  It stores the index of the packet to the doorbell.
\<close>

theorem enqueue_dispatch_packet_correct:
  assumes "packet_processor rt valid blank"
    and "submitted valid q ps wr k" "k < unat (queue_size q)" "write_index q = of_nat wr" "valid (header p)"
  shows "\<exists>q'. enqueue_dispatch_packet rt p q = Some q' \<and> submitted valid q' (ps @ [p]) (wr + 1) (k + 1) \<and>
    queue_size q' = queue_size q \<and> write_index q' = of_nat (wr + 1) \<and> doorbell q' = of_nat wr # doorbell q"
  using assms by (rule packet_processor.enqueue_one)

theorem enqueue_dispatch_packet_correct_witness:
  "\<exists>q'. enqueue_dispatch_packet sample_queue_rt \<lparr>header = 2, body = 7\<rparr> sample_queue = Some q' \<and>
    submitted sample_valid q' [\<lparr>header = 2, body = 7\<rparr>] 1 1 \<and> doorbell q' = [0]"
  using enqueue_dispatch_packet_correct [OF sample.packet_processor_axioms sample_queue_submitted(1) _ sample_queue_submitted(2),
      of "\<lparr>header = 2, body = 7\<rparr>"]
  by (auto simp: sample_queue_def sample_valid_def)

text \<open>
  C27.  When the ring is full the loop of \<open>enqueue_dispatch_packet_at\<close> does not wait, since it tests for more packets than fit: a packet
  enqueued before the packet processor has gone on replaces the oldest packet that is waiting, which is lost.
\<close>

theorem enqueue_overwrites_when_full:
  assumes "queue_rep valid q rd xs" "length xs = unat (queue_size q)" "write_index q = of_nat (rd + length xs)" "valid (header p)"
  shows "\<exists>q'. enqueue_dispatch_packet idle_queue_rt p q = Some q' \<and> queue_rep valid q' rd (p # tl xs) \<and>
    launched q' = launched q"
proof -
  note D = queue_repD [OF assms(1)]
  let ?n = "unat (queue_size q)" and ?wr = "rd + length xs"
  define w where "w = (of_nat ?wr :: 64 word)"
  let ?q = "q\<lparr>write_index := w + 1\<rparr>"
  have "unat (w - of_nat rd) = ?n"
    unfolding w_def using index_distance [of rd ?wr] D(6) assms(2) by simp
  then have "\<not> ucast (queue_size q) < w - read_index q"
    using D(3,6) by (simp add: word_less_nat_alt unsigned_ucast_eq take_bit_nat_eq_self)
  then have wait: "wait_while (\<lambda>q. (read_index q, q)) (\<lambda>r. w - r > ucast (queue_size q)) ?q = Some ?q"
    by (simp add: wait_while.simps)
  have "slot q w = ?wr mod ?n" unfolding w_def using D(1) by (rule slot_mod)
  then have i: "slot ?q w = rd mod ?n"
    using assms(2) by (simp add: slot_def)
  have il: "rd mod ?n < length (ring q)" using D(2,5) by simp
  let ?q' = "?q\<lparr>ring := (ring q)[rd mod ?n := p], doorbell := w # doorbell q\<rparr>"
  have same: "x\<lparr>body := body p, header := header p\<rparr> = p" for x by (cases x; cases p) simp
  have "enqueue_dispatch_packet idle_queue_rt p q = Some ?q'"
    using wait i il assms(3)
    by (simp add: same enqueue_dispatch_packet_def enqueue_dispatch_packet_at_def store_packet_def Let_def
        idle_queue_rt_def sample_queue_rt_def w_def [symmetric] del: of_nat_add)
  moreover have "queue_rep valid ?q' rd (p # tl xs)"
  proof -
    have other: "(ring q)[rd mod ?n := p] ! ((rd + j) mod ?n) = ring q ! ((rd + j) mod ?n)" if "0 < j" "j < ?n" for j
      using same_slot [OF that(2) D(5), of rd] that(1) by simp
    have len: "length (p # tl xs) = length xs" using assms(2) D(5) by (cases xs) simp_all
    show ?thesis
      unfolding queue_rep_def len
    proof (intro conjI allI impI)
      fix j assume "j < length xs"
      then show "ring ?q' ! ((rd + j) mod unat (queue_size ?q')) = (p # tl xs) ! j" "valid (header ((p # tl xs) ! j))"
        using other [of j] D(7,8) [of j] il assms(2,4) by (cases j; simp add: nth_tl)+
    qed (use D assms(2) in \<open>simp_all add: power_of_two_size_def\<close>)
  qed
  ultimately show ?thesis by (intro exI [of _ ?q']) simp
qed

theorem enqueue_overwrites_when_full_witness:
  "\<exists>q'. enqueue_dispatch_packet idle_queue_rt \<lparr>header = 3, body = 9\<rparr> full_queue = Some q' \<and>
    queue_rep sample_valid q' 0 [\<lparr>header = 3, body = 9\<rparr>, \<lparr>header = 2, body = 6\<rparr>] \<and> launched q' = []"
  using enqueue_overwrites_when_full [OF full_queue_rep, of "\<lparr>header = 3, body = 9\<rparr>"]
  by (simp add: full_queue_def sample_queue_def sample_valid_def)

text \<open>
  C26.  \<open>enqueue_dispatch_packets\<close> returns with all packets submitted, in the order of the array, when they fit in the queue; it waits
  until there is room for them.
\<close>

theorem enqueue_dispatch_packets_correct:
  assumes "packet_processor rt valid blank"
    and "submitted valid q ps wr k" "write_index q = of_nat wr" "\<forall>p \<in> set packet. valid (header p)"
    and "unat count \<le> length packet" "unat count \<le> unat (queue_size q)"
  shows "\<exists>q' k'. enqueue_dispatch_packets rt count packet q = Some q' \<and>
    submitted valid q' (ps @ take (unat count) packet) (wr + unat count) k' \<and>
    queue_size q' = queue_size q \<and> write_index q' = of_nat (wr + unat count)"
  using passes_of_fits [OF assms(6)] packet_processor.enqueue_all [OF assms(1-5)] by metis

theorem enqueue_dispatch_packets_correct_witness:
  "\<exists>q' k'. enqueue_dispatch_packets sample_queue_rt 2 [\<lparr>header = 2, body = 7\<rparr>, \<lparr>header = 4, body = 8\<rparr>] sample_queue = Some q' \<and>
    submitted sample_valid q' [\<lparr>header = 2, body = 7\<rparr>, \<lparr>header = 4, body = 8\<rparr>] 2 k'"
  using enqueue_dispatch_packets_correct [OF sample.packet_processor_axioms sample_queue_submitted,
      of "[\<lparr>header = 2, body = 7\<rparr>, \<lparr>header = 4, body = 8\<rparr>]" 2]
  by (simp add: sample_queue_def sample_valid_def) (auto simp: numeral_2_eq_2)

text \<open>
  C28.  A batch of any number of packets larger than the queue goes in several passes, and every pass begins at the first packet of the array again: the
  first \<open>queue->size\<close> packets are submitted once in every full pass, the last pass submits the first of them once more, and the packets
  of the array beyond them are never submitted.
\<close>

theorem enqueue_dispatch_packets_repeats:
  assumes "packet_processor rt valid blank"
    and "submitted valid q ps wr k" "write_index q = of_nat wr" "\<forall>p \<in> set packet. valid (header p)"
    and "unat count \<le> length packet" "unat (queue_size q) < unat count"
  shows "\<exists>q' k'. enqueue_dispatch_packets rt count packet q = Some q' \<and>
    submitted valid q' (ps @ concat (replicate (unat count div unat (queue_size q)) (take (unat (queue_size q)) packet)) @
      take (unat count mod unat (queue_size q)) packet) (wr + unat count) k'"
proof -
  have "0 < unat (queue_size q)" using submitted_size [OF assms(2)] by (auto simp: power_of_two_size_def)
  then show ?thesis using passes_of_repeats packet_processor.enqueue_all [OF assms(1-5)] by metis
qed

theorem enqueue_dispatch_packets_repeats_witness:
  "\<exists>q' k'. enqueue_dispatch_packets sample_queue_rt 3
      [\<lparr>header = 2, body = 7\<rparr>, \<lparr>header = 4, body = 8\<rparr>, \<lparr>header = 5, body = 9\<rparr>] sample_queue = Some q' \<and>
    submitted sample_valid q' [\<lparr>header = 2, body = 7\<rparr>, \<lparr>header = 4, body = 8\<rparr>, \<lparr>header = 2, body = 7\<rparr>] 3 k'"
  using enqueue_dispatch_packets_repeats [OF sample.packet_processor_axioms sample_queue_submitted,
      of "[\<lparr>header = 2, body = 7\<rparr>, \<lparr>header = 4, body = 8\<rparr>, \<lparr>header = 5, body = 9\<rparr>]" 3]
  by (auto simp: sample_queue_def sample_valid_def)

end
