(* ===== verification/Framework.thy ===== *)
theory Framework
  imports Prelude
begin

text \<open>
  \<open>utils/framework.h\<close>: the macros that turn test functions into a program, on top of the library Check.  The
  library is not part of the repository: its functions are the fields of \<open>check\<close>, a parameter, and the locale \<open>check_library\<close>
  states what the macros rely on.  \<open>reference_check\<close> is a library that satisfies it.

  A test function \<open>int test_...()\<close> is a run on the state \<open>'s\<close> of its process that ends with an \<open>int\<close>, or with
  \<open>None\<close> when an assertion fails.  Pointers to the objects of Check are handles \<open>'h\<close>.
\<close>

record ('h, 't, 'c) check =
  suite_create :: "string \<Rightarrow> 'c \<Rightarrow> 'h \<times> 'c"
  srunner_create :: "'h \<Rightarrow> 'c \<Rightarrow> 'h \<times> 'c"
  tcase_create :: "string \<Rightarrow> 'c \<Rightarrow> 'h \<times> 'c"
  tcase_add_test :: "'h \<Rightarrow> 't \<Rightarrow> 'c \<Rightarrow> 'c"
  suite_add_tcase :: "'h \<Rightarrow> 'h \<Rightarrow> 'c \<Rightarrow> 'c"
  srunner_run_all :: "'h \<Rightarrow> 'c \<Rightarrow> 'c"
  srunner_ntests_failed :: "'h \<Rightarrow> 'c \<Rightarrow> nat"
  srunner_free :: "'h \<Rightarrow> 'c \<Rightarrow> 'c"

subsection \<open>The macros\<close>

definition EXIT_SUCCESS :: int where "EXIT_SUCCESS = 0"

definition EXIT_FAILURE :: int where "EXIT_FAILURE = -1"

definition DEFINE_TEST :: "('s \<Rightarrow> ('i::zero \<times> 's) option) \<Rightarrow> 's \<Rightarrow> 's option" where
  "DEFINE_TEST f s = do {
     (error, s) \<leftarrow> f s;
     ASSERT (error = 0);
     Some s
   }"

text \<open>The variables \<open>suite\<close> and \<open>runner\<close> that the macro declares are its results.\<close>

definition INITIALIZE_TESTSUITE :: "('h, 't, 'c) check \<Rightarrow> string \<Rightarrow> 'c \<Rightarrow> 'h \<times> 'h \<times> 'c" where
  "INITIALIZE_TESTSUITE lib name c =
     (let (suite, c) = suite_create lib name c;
          (runner, c) = srunner_create lib suite c
      in (suite, runner, c))"

definition ADD_TEST :: "('h, 't, 'c) check \<Rightarrow> 'h \<Rightarrow> string \<Rightarrow> 't \<Rightarrow> 'c \<Rightarrow> 'c" where
  "ADD_TEST lib suite name t c =
     (let (test_case, c) = tcase_create lib name c;
          c = tcase_add_test lib test_case t c
      in suite_add_tcase lib suite test_case c)"

definition RUN_TESTS :: "('h, 't, 'c) check \<Rightarrow> 'h \<Rightarrow> 'c \<Rightarrow> int \<times> 'c" where
  "RUN_TESTS lib runner c =
     (let c = srunner_run_all lib runner c;
          number_failed = srunner_ntests_failed lib runner c;
          c = srunner_free lib runner c
      in (if number_failed = 0 then EXIT_SUCCESS else EXIT_FAILURE, c))"

text \<open>
  The program of a suite.  Its header declares test functions, the macro \<open>DEFINE_TEST\<close> is applied to some of them, and
  \<open>main\<close> applies \<open>ADD_TEST\<close> to tests one after the other; a test without a definition or a declaration is
  \<open>None\<close>, all that is modelled of what the compiler rejects.  \<open>tests\<close> gives the functions; \<open>name\<close> is the string that the preprocessor makes of the test.
\<close>

definition suite_main ::
  "('h, 's \<Rightarrow> 's option, 'c) check \<Rightarrow> ('n \<Rightarrow> string) \<Rightarrow> 'n list \<Rightarrow> 'n list \<Rightarrow> 'n list \<Rightarrow>
   ('n \<Rightarrow> 's \<Rightarrow> ('i::zero \<times> 's) option) \<Rightarrow> 'c \<Rightarrow> (int \<times> 'c) option"
where
  "suite_main lib name declared defined added tests c =
     (if set defined \<subseteq> set declared \<and> set added \<subseteq> set defined then
        let (suite, runner, c) = INITIALIZE_TESTSUITE lib [] c;
            c = fold (\<lambda>n. ADD_TEST lib suite (name n) (DEFINE_TEST (tests n))) added c
        in Some (RUN_TESTS lib runner c)
      else None)"

subsection \<open>The library\<close>

text \<open>
  What the objects hold: a suite its test cases, a test case its tests, a runner its suite and, after a run, the number of
  tests that failed.  Every test runs in a process of its own, from the state \<open>s0\<close> in which the runner is.
\<close>

record ('h, 't) check_objects =
  suites :: "'h \<rightharpoonup> 'h list"
  tcases :: "'h \<rightharpoonup> 't list"
  runners :: "'h \<rightharpoonup> 'h"
  failures :: "'h \<rightharpoonup> nat"

locale check_library =
  fixes lib :: "('h, 's \<Rightarrow> 's option, 'c) check" and objects :: "'c \<Rightarrow> ('h, 's \<Rightarrow> 's option) check_objects" and s0 :: 's
  assumes create_suite: "suite_create lib name c = (h, c') \<Longrightarrow>
      objects c' = (objects c)\<lparr>suites := (suites (objects c))(h \<mapsto> [])\<rparr>"
    and create_runner: "srunner_create lib s c = (h, c') \<Longrightarrow>
      objects c' = (objects c)\<lparr>runners := (runners (objects c))(h \<mapsto> s)\<rparr>"
    and create_tcase: "tcase_create lib name c = (h, c') \<Longrightarrow> h \<notin> dom (tcases (objects c)) \<and>
      objects c' = (objects c)\<lparr>tcases := (tcases (objects c))(h \<mapsto> [])\<rparr>"
    and add_test: "tcases (objects c) h = Some ts \<Longrightarrow>
      objects (tcase_add_test lib h t c) = (objects c)\<lparr>tcases := (tcases (objects c))(h \<mapsto> ts @ [t])\<rparr>"
    and add_tcase: "suites (objects c) h = Some tcs \<Longrightarrow>
      objects (suite_add_tcase lib h tc c) = (objects c)\<lparr>suites := (suites (objects c))(h \<mapsto> tcs @ [tc])\<rparr>"
    and run_all: "runners (objects c) r = Some s \<Longrightarrow> suites (objects c) s = Some tcs \<Longrightarrow>
      objects (srunner_run_all lib r c) = (objects c)\<lparr>failures := (failures (objects c))
        (r \<mapsto> length (filter (\<lambda>t. t s0 = None) (concat (map (\<lambda>tc. the (tcases (objects c) tc)) tcs))))\<rparr>"
    and ntests_failed: "failures (objects c) r = Some n \<Longrightarrow> srunner_ntests_failed lib r c = n"
begin

lemma ADD_TEST_objects:
  assumes "suites (objects c) suite = Some tcs" "set tcs \<subseteq> dom (tcases (objects c))"
  shows "\<exists>tc. tc \<notin> dom (tcases (objects c)) \<and> objects (ADD_TEST lib suite name t c) =
    (objects c)\<lparr>suites := (suites (objects c))(suite \<mapsto> tcs @ [tc]), tcases := (tcases (objects c))(tc \<mapsto> [t])\<rparr>"
proof -
  obtain tc c1 where 1: "tcase_create lib name c = (tc, c1)" by (cases "tcase_create lib name c")
  note o1 = create_tcase [OF 1]
  have o2: "objects (tcase_add_test lib tc t c1) = (objects c)\<lparr>tcases := (tcases (objects c))(tc \<mapsto> [t])\<rparr>"
    using add_test [of c1 tc "[]" t] o1 by simp
  have "objects (suite_add_tcase lib suite tc (tcase_add_test lib tc t c1)) =
    (objects c)\<lparr>suites := (suites (objects c))(suite \<mapsto> tcs @ [tc]), tcases := (tcases (objects c))(tc \<mapsto> [t])\<rparr>"
    using add_tcase [of "tcase_add_test lib tc t c1" suite tcs tc] o2 assms(1) by simp
  then show ?thesis using 1 o1 by (intro exI [of _ tc]) (simp add: ADD_TEST_def Let_def)
qed

lemma added_objects:
  assumes "suites (objects c) suite = Some tcs" "set tcs \<subseteq> dom (tcases (objects c))"
    and "runners (objects c) r = Some suite"
  shows "let o' = objects (fold (\<lambda>n. ADD_TEST lib suite (name n) (f n)) ns c) in
    runners o' r = Some suite \<and> (\<exists>tcs'. suites o' suite = Some (tcs @ tcs') \<and>
      set (tcs @ tcs') \<subseteq> dom (tcases o') \<and> (\<forall>tc \<in> set tcs. tcases o' tc = tcases (objects c) tc) \<and>
      map (\<lambda>tc. the (tcases o' tc)) tcs' = map (\<lambda>n. [f n]) ns)"
  using assms
proof (induction ns arbitrary: c tcs)
  case Nil
  then show ?case by simp
next
  case (Cons n ns)
  let ?c = "ADD_TEST lib suite (name n) (f n) c"
  obtain tc where tc: "tc \<notin> dom (tcases (objects c))"
    "objects ?c = (objects c)\<lparr>suites := (suites (objects c))(suite \<mapsto> tcs @ [tc]),
       tcases := (tcases (objects c))(tc \<mapsto> [f n])\<rparr>"
    using ADD_TEST_objects [OF Cons.prems(1,2)] by blast
  let ?o = "objects (fold (\<lambda>n. ADD_TEST lib suite (name n) (f n)) ns ?c)"
  have c: "suites (objects ?c) suite = Some (tcs @ [tc])" "set (tcs @ [tc]) \<subseteq> dom (tcases (objects ?c))"
    "runners (objects ?c) r = Some suite"
    using Cons.prems tc by auto
  obtain tcs' where
    ih: "runners ?o r = Some suite" "suites ?o suite = Some ((tcs @ [tc]) @ tcs')"
    "set ((tcs @ [tc]) @ tcs') \<subseteq> dom (tcases ?o)"
    "\<forall>t \<in> set (tcs @ [tc]). tcases ?o t = tcases (objects ?c) t"
    "map (\<lambda>tc. the (tcases ?o tc)) tcs' = map (\<lambda>n. [f n]) ns"
    using Cons.IH [OF c] unfolding Let_def by blast
  have "tc \<notin> set tcs" using Cons.prems(2) tc(1) by blast
  then have "\<forall>t \<in> set tcs. tcases ?o t = tcases (objects c) t" "tcases ?o tc = Some [f n]"
    using ih(4) tc(2) by auto
  then show ?case
    using ih by (simp add: Let_def)
qed

text \<open>The exit code of a suite is 0 exactly when every added test passes.\<close>

lemma suite_main_exit:
  assumes "set defined \<subseteq> set declared" "set added \<subseteq> set defined"
  shows "\<exists>c'. suite_main lib name declared defined added tests c =
    Some (if \<forall>n \<in> set added. passes (tests n s0) (\<lambda>(error, s). error = 0) then EXIT_SUCCESS else EXIT_FAILURE, c')"
proof -
  obtain suite c1 where 1: "suite_create lib [] c = (suite, c1)" by (cases "suite_create lib [] c")
  obtain r c2 where 2: "srunner_create lib suite c1 = (r, c2)" by (cases "srunner_create lib suite c1")
  have "suites (objects c2) suite = Some []" "runners (objects c2) r = Some suite"
    using create_suite [OF 1] create_runner [OF 2] by simp_all
  then obtain tcs where o3: "runners (objects (fold (\<lambda>n. ADD_TEST lib suite (name n) (DEFINE_TEST (tests n))) added c2)) r = Some suite"
    "suites (objects (fold (\<lambda>n. ADD_TEST lib suite (name n) (DEFINE_TEST (tests n))) added c2)) suite = Some tcs"
    "map (\<lambda>tc. the (tcases (objects (fold (\<lambda>n. ADD_TEST lib suite (name n) (DEFINE_TEST (tests n))) added c2)) tc)) tcs =
      map (\<lambda>n. [DEFINE_TEST (tests n)]) added"
    using added_objects [of c2 suite "[]" r name "\<lambda>n. DEFINE_TEST (tests n)" added] by (auto simp: Let_def)
  define c3 where "c3 = fold (\<lambda>n. ADD_TEST lib suite (name n) (DEFINE_TEST (tests n))) added c2"
  have "failures (objects (srunner_run_all lib r c3)) r =
      Some (length (filter (\<lambda>t. t s0 = None) (concat (map (\<lambda>n. [DEFINE_TEST (tests n)]) added))))"
    using run_all [OF o3(1,2)] o3(3) by (simp add: c3_def [symmetric])
  then have "srunner_ntests_failed lib r (srunner_run_all lib r c3) =
      length (filter (\<lambda>n. DEFINE_TEST (tests n) s0 = None) added)"
    using ntests_failed by (simp add: concat_map_singleton filter_map comp_def)
  moreover have "DEFINE_TEST (tests n) s0 = None \<longleftrightarrow> \<not> passes (tests n s0) (\<lambda>(error, s). error = 0)" for n
    by (cases "tests n s0") (auto simp: DEFINE_TEST_def ASSERT_def)
  ultimately have "srunner_ntests_failed lib r (srunner_run_all lib r c3) = 0 \<longleftrightarrow>
      (\<forall>n \<in> set added. passes (tests n s0) (\<lambda>(error, s). error = 0))"
    by (simp only: length_0_conv filter_empty_conv not_not)
  then show ?thesis
    using assms 1 2 by (simp add: suite_main_def INITIALIZE_TESTSUITE_def RUN_TESTS_def Let_def c3_def [symmetric])
qed

end

subsection \<open>A library\<close>

text \<open>The objects of each kind are numbered in the order of their creation.\<close>

record 't ref_check =
  ref_suites :: "nat list list"
  ref_tcases :: "'t list list"
  ref_runners :: "nat list"
  ref_failures :: "nat \<rightharpoonup> nat"

definition nth_object :: "'a list \<Rightarrow> nat \<rightharpoonup> 'a" where
  "nth_object xs i = (if i < length xs then Some (xs ! i) else None)"

definition ref_objects :: "'t ref_check \<Rightarrow> (nat, 't) check_objects" where
  "ref_objects c = \<lparr>suites = nth_object (ref_suites c), tcases = nth_object (ref_tcases c),
     runners = nth_object (ref_runners c), failures = ref_failures c\<rparr>"

definition reference_check :: "'s \<Rightarrow> (nat, 's \<Rightarrow> 's option, ('s \<Rightarrow> 's option) ref_check) check" where
  "reference_check s0 =
    \<lparr>suite_create = (\<lambda>name c. (length (ref_suites c), c\<lparr>ref_suites := ref_suites c @ [[]]\<rparr>)),
     srunner_create = (\<lambda>s c. (length (ref_runners c), c\<lparr>ref_runners := ref_runners c @ [s]\<rparr>)),
     tcase_create = (\<lambda>name c. (length (ref_tcases c), c\<lparr>ref_tcases := ref_tcases c @ [[]]\<rparr>)),
     tcase_add_test = (\<lambda>h t c. c\<lparr>ref_tcases := (ref_tcases c)[h := ref_tcases c ! h @ [t]]\<rparr>),
     suite_add_tcase = (\<lambda>h tc c. c\<lparr>ref_suites := (ref_suites c)[h := ref_suites c ! h @ [tc]]\<rparr>),
     srunner_run_all = (\<lambda>r c. c\<lparr>ref_failures := (ref_failures c)(r \<mapsto>
       length (filter (\<lambda>t. t s0 = None) (concat (map (\<lambda>tc. the (nth_object (ref_tcases c) tc))
         (ref_suites c ! (ref_runners c ! r)))))) \<rparr>),
     srunner_ntests_failed = (\<lambda>r c. the (ref_failures c r)),
     srunner_free = (\<lambda>r c. c)\<rparr>"

definition no_objects :: "'t ref_check" where
  "no_objects = \<lparr>ref_suites = [], ref_tcases = [], ref_runners = [], ref_failures = Map.empty\<rparr>"

lemma nth_object_append [simp]: "nth_object (xs @ [x]) = (nth_object xs)(length xs \<mapsto> x)"
  by (auto simp: nth_object_def fun_eq_iff nth_append)

lemma nth_object_update: "nth_object xs i = Some x \<Longrightarrow> nth_object (xs[i := y]) = (nth_object xs)(i \<mapsto> y)"
  by (auto simp: nth_object_def fun_eq_iff split: if_splits)

lemma nth_object_Some: "nth_object xs i = Some x \<longleftrightarrow> i < length xs \<and> xs ! i = x"
  by (simp add: nth_object_def)

interpretation ref_check: check_library "reference_check s0" ref_objects s0
  by unfold_locales
    (auto simp: reference_check_def ref_objects_def nth_object_update nth_object_Some [THEN iffD1]
      dest: nth_object_Some [THEN iffD1] split: if_splits)

end
