(* ===== verification/Suites.thy ===== *)
theory Suites
  imports Framework "HOL-Library.Multiset" "HOL-Library.List_Lexorder" "HOL-Library.Char_ord"
begin

text \<open>
  The programs of the test suites, \<open>hsa_*.c\<close> and \<open>hsa_*.h\<close> in the directories of \<open>core/\<close> and in \<open>extensions/ext_api\<close> and
  \<open>extensions/finalization\<close>: the tests each header declares, the tests \<open>DEFINE_TEST\<close> is applied to, those that \<open>main\<close>
  adds, and \<open>main\<close> itself.  Lines that are commented out are not part of the lists.  The functions of the tests are an argument, by
  their names.
\<close>

subsection \<open>\<open>core/agent/hsa_agent\<close>\<close>

definition hsa_agent_declared :: "string list" where
  "hsa_agent_declared =
     [''iterate_null_data'', ''iterate_terminate'', ''query_attributes'', ''concurrent_query'',
      ''concurrent_iterate'', ''query_system_attributes'']"

definition hsa_agent_defined :: "string list" where
  "hsa_agent_defined =
     [''concurrent_iterate'', ''iterate_null_data'', ''iterate_terminate'', ''query_attributes'',
      ''concurrent_query'', ''query_system_attributes'']"

definition hsa_agent_added :: "string list" where
  "hsa_agent_added =
     [''concurrent_iterate'', ''iterate_null_data'', ''iterate_terminate'', ''query_attributes'',
      ''concurrent_query'', ''query_system_attributes'']"

definition hsa_agent_main where
  "hsa_agent_main lib tests c = suite_main lib id hsa_agent_declared hsa_agent_defined hsa_agent_added tests c"

subsection \<open>\<open>core/api/hsa_api\<close>\<close>

definition hsa_api_declared :: "string list" where
  "hsa_api_declared =
     [''hsa_init'', ''hsa_init_MAX'', ''hsa_shut_down'', ''hsa_shut_down_not_initialized'',
      ''hsa_shut_down_after_shut_down'', ''hsa_status_string'', ''hsa_status_string_not_initialized'',
      ''hsa_status_string_invalid_status'', ''hsa_status_string_invalid_ptr'', ''hsa_iterate_agents'',
      ''hsa_iterate_agents_not_initialized'', ''hsa_iterate_agents_invalid_callback'', ''hsa_agent_get_info'',
      ''hsa_agent_get_info_not_initialized'', ''hsa_agent_get_info_invalid_agent'',
      ''hsa_agent_get_info_invalid_attribute'', ''hsa_agent_get_info_invalid_ptr'',
      ''hsa_agent_extension_supported'', ''hsa_agent_extension_supported_not_initialized'',
      ''hsa_agent_extension_supported_invalid_agent'', ''hsa_agent_extension_supported_invalid_extension'',
      ''hsa_agent_extension_supported_null_result_ptr'', ''hsa_agent_get_exception_policies'',
      ''hsa_agent_get_exception_policies_not_initialized'', ''hsa_agent_get_exception_policies_invalid_agent'',
      ''hsa_agent_get_exception_policies_null_mask_ptr'', ''hsa_agent_get_exception_policies_invalid_profile'',
      ''hsa_system_extension_supported'', ''hsa_system_extension_supported_not_initialized'',
      ''hsa_system_extension_supported_invalid_extension'', ''hsa_system_extension_supported_null_result_ptr'',
      ''hsa_system_get_extension_table'', ''hsa_system_get_extension_table_not_initialized'',
      ''hsa_system_get_extension_table_invalid_extension'', ''hsa_system_get_extension_table_null_table_ptr'',
      ''hsa_system_get_info'', ''hsa_system_get_info_not_initialized'', ''hsa_system_get_info_invalid_attribute'',
      ''hsa_system_get_info_invalid_ptr'', ''hsa_signal_create'', ''hsa_signal_create_not_initialized'',
      ''hsa_signal_create_null_signal'', ''hsa_signal_create_invalid_arg'', ''hsa_signal_destroy'',
      ''hsa_signal_destroy_not_initialized'', ''hsa_signal_destroy_invalid_arg'',
      ''hsa_signal_destroy_invalid_signal'', ''hsa_signal_load_acquire'', ''hsa_signal_load_relaxed'',
      ''hsa_signal_store_release'', ''hsa_signal_store_relaxed'', ''hsa_signal_exchange_acq_rel'',
      ''hsa_signal_exchange_acquire'', ''hsa_signal_exchange_relaxed'', ''hsa_signal_exchange_release'',
      ''hsa_signal_cas_acq_rel'', ''hsa_signal_cas_acquire'', ''hsa_signal_cas_relaxed'', ''hsa_signal_cas_release'',
      ''hsa_signal_add_acq_rel'', ''hsa_signal_add_acquire'', ''hsa_signal_add_relaxed'', ''hsa_signal_add_release'',
      ''hsa_signal_subtract_acq_rel'', ''hsa_signal_subtract_acquire'', ''hsa_signal_subtract_relaxed'',
      ''hsa_signal_subtract_release'', ''hsa_signal_and_acq_rel'', ''hsa_signal_and_acquire'',
      ''hsa_signal_and_relaxed'', ''hsa_signal_and_release'', ''hsa_signal_or_acq_rel'', ''hsa_signal_or_acquire'',
      ''hsa_signal_or_relaxed'', ''hsa_signal_or_release'', ''hsa_signal_xor_acq_rel'', ''hsa_signal_xor_acquire'',
      ''hsa_signal_xor_relaxed'', ''hsa_signal_xor_release'', ''hsa_queue_create'',
      ''hsa_queue_create_not_initialized'', ''hsa_queue_create_out_of_resources'',
      ''hsa_queue_create_invalid_agent'', ''hsa_queue_create_invalid_queue_creation'',
      ''hsa_queue_create_invalid_argument'', ''hsa_queue_destroy'', ''hsa_queue_destroy_not_initialized'',
      ''hsa_queue_destroy_invalid_queue'', ''hsa_queue_destroy_invalid_argument'', ''hsa_queue_inactivate'',
      ''hsa_queue_inactivate_not_initialized'', ''hsa_queue_inactivate_invalid_queue'',
      ''hsa_queue_inactivate_invalid_argument'', ''hsa_queue_load_read_index_acquire'',
      ''hsa_queue_load_read_index_relaxed'', ''hsa_queue_load_store_write_index_acquire_relaxed'',
      ''hsa_queue_load_store_write_index_relaxed_release'', ''hsa_queue_cas_write_index_acq_rel'',
      ''hsa_queue_cas_write_index_acquire'', ''hsa_queue_cas_write_index_relaxed'',
      ''hsa_queue_cas_write_index_release'', ''hsa_queue_add_write_index_acq_rel'',
      ''hsa_queue_add_write_index_acquire'', ''hsa_queue_add_write_index_relaxed'',
      ''hsa_queue_add_write_index_release'', ''hsa_memory_allocate_not_initialized'',
      ''hsa_memory_allocate_null_ptr'', ''hsa_memory_allocate_zero_size'',
      ''hsa_memory_allocate_invalid_allocation'', ''hsa_memory_allocate_invalid_region'', ''hsa_memory_allocate'',
      ''hsa_memory_free'', ''hsa_memory_free_not_initialized'', ''hsa_memory_register'',
      ''hsa_memory_register_not_initialized'', ''hsa_memory_register_invalid_argument'', ''hsa_memory_deregister'',
      ''hsa_memory_deregister_not_initialized'', ''hsa_region_get_info'', ''hsa_region_get_info_not_initialized'',
      ''hsa_region_get_info_invalid_region'', ''hsa_region_get_info_invalid_argument'',
      ''hsa_agent_iterate_regions'', ''hsa_agent_iterate_regions_not_initialized'',
      ''hsa_agent_iterate_regions_invalid_argument'', ''hsa_agent_iterate_regions_invalid_agent'',
      ''hsa_isa_get_info'', ''hsa_isa_get_info_not_initialized'', ''hsa_isa_get_info_invalid_isa'',
      ''hsa_isa_get_info_index_out_of_range'', ''hsa_isa_get_info_invalid_attribute'',
      ''hsa_isa_get_info_invalid_null_value'', ''hsa_code_object_get_info'', ''hsa_code_symbol_get_info'',
      ''hsa_executable_create'', ''hsa_executable_create_not_initialized'',
      ''hsa_executable_create_invalid_argument'', ''hsa_executable_create_out_of_resources'',
      ''hsa_executable_destroy'', ''hsa_executable_destroy_not_initialized'',
      ''hsa_executable_destroy_invalid_executable'', ''hsa_executable_load_code_object'',
      ''hsa_executable_load_code_object_not_initialized'', ''hsa_executable_load_code_object_invalid_executable'',
      ''hsa_executable_load_code_object_invalid_agent'', ''hsa_executable_load_code_object_invalid_code_object'',
      ''hsa_executable_load_code_object_frozen_executable'', ''hsa_executable_get_info'',
      ''hsa_executable_symbol_get_info'', ''hsa_soft_queue_create'', ''hsa_isa_from_name'',
      ''hsa_isa_from_name_null_name'', ''hsa_isa_from_name_null_isa'', ''hsa_isa_from_name_invalid_isa_name'',
      ''hsa_isa_compatible'', ''hsa_isa_compatible_invalid_isa'', ''hsa_isa_compatible_null_result'']"

definition hsa_api_defined :: "string list" where
  "hsa_api_defined =
     [''hsa_init'', ''hsa_init_MAX'', ''hsa_shut_down'', ''hsa_shut_down_not_initialized'',
      ''hsa_shut_down_after_shut_down'', ''hsa_status_string'', ''hsa_status_string_not_initialized'',
      ''hsa_status_string_invalid_status'', ''hsa_status_string_invalid_ptr'', ''hsa_iterate_agents'',
      ''hsa_iterate_agents_not_initialized'', ''hsa_iterate_agents_invalid_callback'', ''hsa_agent_get_info'',
      ''hsa_agent_get_info_not_initialized'', ''hsa_agent_get_info_invalid_agent'',
      ''hsa_agent_get_info_invalid_attribute'', ''hsa_agent_get_info_invalid_ptr'',
      ''hsa_agent_extension_supported'', ''hsa_agent_extension_supported_not_initialized'',
      ''hsa_agent_extension_supported_invalid_agent'', ''hsa_agent_extension_supported_invalid_extension'',
      ''hsa_agent_extension_supported_null_result_ptr'', ''hsa_agent_get_exception_policies'',
      ''hsa_agent_get_exception_policies_not_initialized'', ''hsa_agent_get_exception_policies_invalid_agent'',
      ''hsa_agent_get_exception_policies_null_mask_ptr'', ''hsa_agent_get_exception_policies_invalid_profile'',
      ''hsa_system_extension_supported'', ''hsa_system_extension_supported_not_initialized'',
      ''hsa_system_extension_supported_invalid_extension'', ''hsa_system_extension_supported_null_result_ptr'',
      ''hsa_system_get_extension_table'', ''hsa_system_get_extension_table_not_initialized'',
      ''hsa_system_get_extension_table_invalid_extension'', ''hsa_system_get_extension_table_null_table_ptr'',
      ''hsa_system_get_info'', ''hsa_system_get_info_not_initialized'', ''hsa_system_get_info_invalid_attribute'',
      ''hsa_system_get_info_invalid_ptr'', ''hsa_signal_create'', ''hsa_signal_create_not_initialized'',
      ''hsa_signal_create_null_signal'', ''hsa_signal_create_invalid_arg'', ''hsa_signal_destroy'',
      ''hsa_signal_destroy_not_initialized'', ''hsa_signal_destroy_invalid_arg'',
      ''hsa_signal_destroy_invalid_signal'', ''hsa_signal_load_acquire'', ''hsa_signal_load_relaxed'',
      ''hsa_signal_store_release'', ''hsa_signal_store_relaxed'', ''hsa_signal_exchange_acq_rel'',
      ''hsa_signal_exchange_acquire'', ''hsa_signal_exchange_relaxed'', ''hsa_signal_exchange_release'',
      ''hsa_signal_cas_acq_rel'', ''hsa_signal_cas_acquire'', ''hsa_signal_cas_relaxed'', ''hsa_signal_cas_release'',
      ''hsa_signal_add_acq_rel'', ''hsa_signal_add_acquire'', ''hsa_signal_add_relaxed'', ''hsa_signal_add_release'',
      ''hsa_signal_subtract_acq_rel'', ''hsa_signal_subtract_acquire'', ''hsa_signal_subtract_relaxed'',
      ''hsa_signal_subtract_release'', ''hsa_signal_and_acq_rel'', ''hsa_signal_and_acquire'',
      ''hsa_signal_and_relaxed'', ''hsa_signal_and_release'', ''hsa_signal_or_acq_rel'', ''hsa_signal_or_acquire'',
      ''hsa_signal_or_relaxed'', ''hsa_signal_or_release'', ''hsa_signal_xor_acq_rel'', ''hsa_signal_xor_acquire'',
      ''hsa_signal_xor_relaxed'', ''hsa_signal_xor_release'', ''hsa_queue_create'',
      ''hsa_queue_create_not_initialized'', ''hsa_queue_create_out_of_resources'',
      ''hsa_queue_create_invalid_agent'', ''hsa_queue_create_invalid_queue_creation'',
      ''hsa_queue_create_invalid_argument'', ''hsa_queue_destroy'', ''hsa_queue_destroy_not_initialized'',
      ''hsa_queue_destroy_invalid_queue'', ''hsa_queue_destroy_invalid_argument'', ''hsa_queue_inactivate'',
      ''hsa_queue_inactivate_not_initialized'', ''hsa_queue_inactivate_invalid_queue'',
      ''hsa_queue_inactivate_invalid_argument'', ''hsa_queue_load_read_index_acquire'',
      ''hsa_queue_load_read_index_relaxed'', ''hsa_queue_load_store_write_index_acquire_relaxed'',
      ''hsa_queue_load_store_write_index_relaxed_release'', ''hsa_queue_cas_write_index_acq_rel'',
      ''hsa_queue_cas_write_index_acquire'', ''hsa_queue_cas_write_index_relaxed'',
      ''hsa_queue_cas_write_index_release'', ''hsa_queue_add_write_index_acq_rel'',
      ''hsa_queue_add_write_index_acquire'', ''hsa_queue_add_write_index_relaxed'',
      ''hsa_queue_add_write_index_release'', ''hsa_memory_allocate'', ''hsa_memory_allocate_not_initialized'',
      ''hsa_memory_allocate_null_ptr'', ''hsa_memory_allocate_zero_size'',
      ''hsa_memory_allocate_invalid_allocation'', ''hsa_memory_allocate_invalid_region'', ''hsa_memory_free'',
      ''hsa_memory_free_not_initialized'', ''hsa_memory_register'', ''hsa_memory_register_not_initialized'',
      ''hsa_memory_register_invalid_argument'', ''hsa_memory_deregister'', ''hsa_memory_deregister_not_initialized'',
      ''hsa_region_get_info'', ''hsa_region_get_info_not_initialized'', ''hsa_region_get_info_invalid_region'',
      ''hsa_region_get_info_invalid_argument'', ''hsa_agent_iterate_regions'',
      ''hsa_agent_iterate_regions_not_initialized'', ''hsa_agent_iterate_regions_invalid_argument'',
      ''hsa_agent_iterate_regions_invalid_agent'', ''hsa_isa_get_info'', ''hsa_isa_get_info_not_initialized'',
      ''hsa_isa_get_info_invalid_isa'', ''hsa_isa_get_info_index_out_of_range'',
      ''hsa_isa_get_info_invalid_attribute'', ''hsa_isa_get_info_invalid_null_value'', ''hsa_code_object_get_info'',
      ''hsa_code_symbol_get_info'', ''hsa_executable_create'', ''hsa_executable_create_not_initialized'',
      ''hsa_executable_create_invalid_argument'', ''hsa_executable_create_out_of_resources'',
      ''hsa_executable_destroy'', ''hsa_executable_destroy_not_initialized'',
      ''hsa_executable_destroy_invalid_executable'', ''hsa_executable_load_code_object'',
      ''hsa_executable_load_code_object_not_initialized'', ''hsa_executable_load_code_object_invalid_executable'',
      ''hsa_executable_load_code_object_invalid_agent'', ''hsa_executable_load_code_object_invalid_code_object'',
      ''hsa_executable_load_code_object_frozen_executable'', ''hsa_executable_get_info'',
      ''hsa_executable_symbol_get_info'', ''hsa_soft_queue_create'', ''hsa_isa_from_name'',
      ''hsa_isa_from_name_null_name'', ''hsa_isa_from_name_null_isa'', ''hsa_isa_from_name_invalid_isa_name'',
      ''hsa_isa_compatible'', ''hsa_isa_compatible_invalid_isa'', ''hsa_isa_compatible_null_result'']"

definition hsa_api_added :: "string list" where
  "hsa_api_added =
     [''hsa_init'', ''hsa_shut_down'', ''hsa_shut_down_not_initialized'', ''hsa_shut_down_after_shut_down'',
      ''hsa_status_string'', ''hsa_status_string_not_initialized'', ''hsa_status_string_invalid_status'',
      ''hsa_status_string_invalid_ptr'', ''hsa_iterate_agents'', ''hsa_iterate_agents_not_initialized'',
      ''hsa_iterate_agents_invalid_callback'', ''hsa_agent_get_info'', ''hsa_agent_get_info_not_initialized'',
      ''hsa_agent_get_info_invalid_agent'', ''hsa_agent_get_info_invalid_attribute'',
      ''hsa_agent_get_info_invalid_ptr'', ''hsa_agent_extension_supported'',
      ''hsa_agent_extension_supported_not_initialized'', ''hsa_agent_extension_supported_invalid_agent'',
      ''hsa_agent_extension_supported_invalid_extension'', ''hsa_agent_extension_supported_null_result_ptr'',
      ''hsa_agent_get_exception_policies'', ''hsa_agent_get_exception_policies_not_initialized'',
      ''hsa_agent_get_exception_policies_invalid_agent'', ''hsa_agent_get_exception_policies_null_mask_ptr'',
      ''hsa_agent_get_exception_policies_invalid_profile'', ''hsa_system_extension_supported'',
      ''hsa_system_extension_supported_not_initialized'', ''hsa_system_extension_supported_invalid_extension'',
      ''hsa_system_extension_supported_null_result_ptr'', ''hsa_system_get_extension_table'',
      ''hsa_system_get_extension_table_not_initialized'', ''hsa_system_get_extension_table_invalid_extension'',
      ''hsa_system_get_extension_table_null_table_ptr'', ''hsa_system_get_info'',
      ''hsa_system_get_info_not_initialized'', ''hsa_system_get_info_invalid_attribute'',
      ''hsa_system_get_info_invalid_ptr'', ''hsa_signal_create'', ''hsa_signal_create_not_initialized'',
      ''hsa_signal_create_null_signal'', ''hsa_signal_create_invalid_arg'', ''hsa_signal_destroy'',
      ''hsa_signal_destroy_not_initialized'', ''hsa_signal_destroy_invalid_arg'',
      ''hsa_signal_destroy_invalid_signal'', ''hsa_signal_load_acquire'', ''hsa_signal_load_relaxed'',
      ''hsa_signal_store_release'', ''hsa_signal_store_relaxed'', ''hsa_signal_exchange_acq_rel'',
      ''hsa_signal_exchange_acquire'', ''hsa_signal_exchange_relaxed'', ''hsa_signal_exchange_release'',
      ''hsa_signal_cas_acq_rel'', ''hsa_signal_cas_acquire'', ''hsa_signal_cas_relaxed'', ''hsa_signal_cas_release'',
      ''hsa_signal_add_acq_rel'', ''hsa_signal_add_acquire'', ''hsa_signal_add_relaxed'', ''hsa_signal_add_release'',
      ''hsa_signal_subtract_acq_rel'', ''hsa_signal_subtract_acquire'', ''hsa_signal_subtract_relaxed'',
      ''hsa_signal_subtract_release'', ''hsa_signal_and_acq_rel'', ''hsa_signal_and_acquire'',
      ''hsa_signal_and_relaxed'', ''hsa_signal_and_release'', ''hsa_signal_or_acq_rel'', ''hsa_signal_or_acquire'',
      ''hsa_signal_or_relaxed'', ''hsa_signal_or_release'', ''hsa_signal_xor_acq_rel'', ''hsa_signal_xor_acquire'',
      ''hsa_signal_xor_relaxed'', ''hsa_signal_xor_release'', ''hsa_queue_create'',
      ''hsa_queue_create_not_initialized'', ''hsa_queue_create_out_of_resources'',
      ''hsa_queue_create_invalid_agent'', ''hsa_queue_create_invalid_queue_creation'',
      ''hsa_queue_create_invalid_argument'', ''hsa_queue_destroy'', ''hsa_queue_destroy_not_initialized'',
      ''hsa_queue_destroy_invalid_queue'', ''hsa_queue_destroy_invalid_argument'', ''hsa_queue_inactivate'',
      ''hsa_queue_inactivate_not_initialized'', ''hsa_queue_inactivate_invalid_queue'',
      ''hsa_queue_inactivate_invalid_argument'', ''hsa_queue_load_read_index_acquire'',
      ''hsa_queue_load_read_index_relaxed'', ''hsa_queue_load_store_write_index_acquire_relaxed'',
      ''hsa_queue_load_store_write_index_relaxed_release'', ''hsa_queue_cas_write_index_acq_rel'',
      ''hsa_queue_cas_write_index_acquire'', ''hsa_queue_cas_write_index_relaxed'',
      ''hsa_queue_cas_write_index_release'', ''hsa_queue_add_write_index_acq_rel'',
      ''hsa_queue_add_write_index_acquire'', ''hsa_queue_add_write_index_relaxed'',
      ''hsa_queue_add_write_index_release'', ''hsa_memory_allocate'', ''hsa_memory_allocate_not_initialized'',
      ''hsa_memory_allocate_null_ptr'', ''hsa_memory_allocate_zero_size'',
      ''hsa_memory_allocate_invalid_allocation'', ''hsa_memory_allocate_invalid_region'', ''hsa_memory_free'',
      ''hsa_memory_free_not_initialized'', ''hsa_memory_register'', ''hsa_memory_register_not_initialized'',
      ''hsa_memory_register_invalid_argument'', ''hsa_memory_deregister'', ''hsa_memory_deregister_not_initialized'',
      ''hsa_region_get_info'', ''hsa_region_get_info_not_initialized'', ''hsa_region_get_info_invalid_region'',
      ''hsa_region_get_info_invalid_argument'', ''hsa_agent_iterate_regions'',
      ''hsa_agent_iterate_regions_not_initialized'', ''hsa_agent_iterate_regions_invalid_argument'',
      ''hsa_agent_iterate_regions_invalid_agent'', ''hsa_isa_get_info'', ''hsa_isa_get_info_not_initialized'',
      ''hsa_isa_get_info_invalid_isa'', ''hsa_isa_get_info_index_out_of_range'',
      ''hsa_isa_get_info_invalid_attribute'', ''hsa_isa_get_info_invalid_null_value'', ''hsa_code_object_get_info'',
      ''hsa_code_symbol_get_info'', ''hsa_executable_create'', ''hsa_executable_create_not_initialized'',
      ''hsa_executable_create_invalid_argument'', ''hsa_executable_create_out_of_resources'',
      ''hsa_executable_destroy'', ''hsa_executable_destroy_not_initialized'',
      ''hsa_executable_destroy_invalid_executable'', ''hsa_executable_load_code_object'',
      ''hsa_executable_load_code_object_not_initialized'', ''hsa_executable_load_code_object_invalid_executable'',
      ''hsa_executable_load_code_object_invalid_agent'', ''hsa_executable_load_code_object_invalid_code_object'',
      ''hsa_executable_load_code_object_frozen_executable'', ''hsa_executable_get_info'',
      ''hsa_executable_symbol_get_info'', ''hsa_soft_queue_create'', ''hsa_isa_from_name'',
      ''hsa_isa_from_name_null_name'', ''hsa_isa_from_name_null_isa'', ''hsa_isa_from_name_invalid_isa_name'',
      ''hsa_isa_compatible'', ''hsa_isa_compatible_invalid_isa'', ''hsa_isa_compatible_null_result'']"

definition hsa_api_main where
  "hsa_api_main lib tests c = suite_main lib id hsa_api_declared hsa_api_defined hsa_api_added tests c"

subsection \<open>\<open>core/aql/hsa_aql\<close>\<close>

definition hsa_aql_declared :: "string list" where
  "hsa_aql_declared =
     [''aql_launch_size'', ''aql_barrier_bit_set'', ''aql_barrier_bit_not_set'',
      ''aql_barrier_cross_queue_dependency'', ''aql_barrier_cross_queue_dependency_negative_value'',
      ''aql_barrier_multiple_barriers'', ''aql_barrier_and'', ''aql_barrier_or'', ''aql_group_memory'',
      ''aql_group_memory_overspecified'', ''aql_private_memory'', ''aql_private_memory_overspecified'',
      ''aql_zero_wg_size'']"

definition hsa_aql_defined :: "string list" where
  "hsa_aql_defined =
     [''aql_launch_size'', ''aql_barrier_bit_not_set'', ''aql_barrier_bit_set'',
      ''aql_barrier_cross_queue_dependency'', ''aql_barrier_cross_queue_dependency_negative_value'',
      ''aql_barrier_multiple_barriers'', ''aql_barrier_and'', ''aql_barrier_or'', ''aql_group_memory'',
      ''aql_group_memory_overspecified'', ''aql_private_memory'', ''aql_private_memory_overspecified'',
      ''aql_zero_wg_size'']"

definition hsa_aql_added :: "string list" where
  "hsa_aql_added =
     [''aql_launch_size'', ''aql_barrier_bit_not_set'', ''aql_barrier_bit_set'',
      ''aql_barrier_cross_queue_dependency'', ''aql_barrier_cross_queue_dependency_negative_value'',
      ''aql_barrier_multiple_barriers'', ''aql_barrier_and'', ''aql_barrier_or'', ''aql_group_memory'',
      ''aql_group_memory_overspecified'', ''aql_private_memory'', ''aql_private_memory_overspecified'',
      ''aql_zero_wg_size'']"

definition hsa_aql_main where
  "hsa_aql_main lib tests c = suite_main lib id hsa_aql_declared hsa_aql_defined hsa_aql_added tests c"

subsection \<open>\<open>core/async/hsa_async\<close>\<close>

definition hsa_async_declared :: "string list" where
  "hsa_async_declared =
     [''async_invalid_kernel_object'', ''async_invalid_group_memory'', ''async_invalid_dimensions'',
      ''async_invalid_workgroup_size'', ''async_invalid_packet'']"

definition hsa_async_defined :: "string list" where
  "hsa_async_defined =
     [''async_invalid_kernel_object'', ''async_invalid_group_memory'', ''async_invalid_dimensions'',
      ''async_invalid_workgroup_size'', ''async_invalid_packet'']"

definition hsa_async_added :: "string list" where
  "hsa_async_added =
     [''async_invalid_kernel_object'', ''async_invalid_group_memory'', ''async_invalid_dimensions'',
      ''async_invalid_workgroup_size'', ''async_invalid_packet'']"

definition hsa_async_main where
  "hsa_async_main lib tests c = suite_main lib id hsa_async_declared hsa_async_defined hsa_async_added tests c"

subsection \<open>\<open>core/code/hsa_code\<close>\<close>

definition hsa_code_declared :: "string list" where
  "hsa_code_declared =
     [''code_define_global_agent'', ''code_define_global_program'', ''code_define_readonly_agent'',
      ''code_mixed_scope'', ''code_module_scope_symbol'', ''code_program_scope_symbol'',
      ''code_multiple_executables'', ''code_serialize_deserialize'', ''code_iterate_symbols'',
      ''code_kernarg_alignment'', ''code_recursive_kernel_function'']"

definition hsa_code_defined :: "string list" where
  "hsa_code_defined =
     [''code_define_global_agent'', ''code_define_global_program'', ''code_define_readonly_agent'',
      ''code_mixed_scope'', ''code_module_scope_symbol'', ''code_program_scope_symbol'',
      ''code_multiple_executables'', ''code_serialize_deserialize'', ''code_iterate_symbols'',
      ''code_kernarg_alignment'', ''code_recursive_kernel_function'']"

definition hsa_code_added :: "string list" where
  "hsa_code_added =
     [''code_define_global_agent'', ''code_define_global_program'', ''code_define_readonly_agent'',
      ''code_mixed_scope'', ''code_module_scope_symbol'', ''code_program_scope_symbol'',
      ''code_multiple_executables'', ''code_serialize_deserialize'', ''code_iterate_symbols'',
      ''code_kernarg_alignment'', ''code_recursive_kernel_function'']"

definition hsa_code_main where
  "hsa_code_main lib tests c = suite_main lib id hsa_code_declared hsa_code_defined hsa_code_added tests c"

subsection \<open>\<open>core/init/hsa_init\<close>\<close>

definition hsa_init_declared :: "string list" where
  "hsa_init_declared =
     [''concurrent_init'', ''concurrent_shutdown'', ''concurrent_init_shutdown'', ''refcount'', ''reinitialize'']"

definition hsa_init_defined :: "string list" where
  "hsa_init_defined =
     [''concurrent_init'', ''concurrent_shutdown'', ''concurrent_init_shutdown'', ''refcount'', ''reinitialize'']"

definition hsa_init_added :: "string list" where
  "hsa_init_added =
     [''concurrent_init'', ''concurrent_shutdown'', ''concurrent_init_shutdown'', ''refcount'', ''reinitialize'']"

definition hsa_init_main where
  "hsa_init_main lib tests c = suite_main lib id hsa_init_declared hsa_init_defined hsa_init_added tests c"

subsection \<open>\<open>core/memory/hsa_memory\<close>\<close>

definition hsa_memory_declared :: "string list" where
  "hsa_memory_declared =
     [''memory_allocate_max_size'', ''memory_allocate_zero_size'', ''memory_assign_agent'',
      ''memory_allocated_vector_copy_heap'', ''memory_allocated_vector_copy_stack'',
      ''memory_group_dynamic_allocation'', ''memory_copy_allocated_to_allocated'',
      ''memory_copy_allocated_to_registered'', ''memory_copy_registered_to_allocated'',
      ''memory_copy_registered_to_registered'', ''memory_vector_copy_between_stack_and_heap'',
      ''memory_vector_copy_heap_not_registered'', ''memory_vector_copy_heap_registered'',
      ''memory_vector_copy_stack_not_registered'', ''memory_vector_copy_stack_registered'',
      ''memory_minimum_region'', ''memory_region_concurrent_get_info'', ''memory_region_alignment'',
      ''memory_register_subrange'', ''memory_concurrent_allocate'', ''memory_concurrent_free'',
      ''memory_concurrent_register'', ''memory_concurrent_deregister'', ''memory_basic_allocate_free'',
      ''memory_basic_register_deregister'', ''memory_coherence_after_register'', ''memory_copy_system_and_global'']"

definition hsa_memory_defined :: "string list" where
  "hsa_memory_defined =
     [''memory_allocate_max_size'', ''memory_allocate_zero_size'', ''memory_assign_agent'',
      ''memory_allocated_vector_copy_heap'', ''memory_allocated_vector_copy_stack'',
      ''memory_group_dynamic_allocation'', ''memory_copy_allocated_to_allocated'',
      ''memory_copy_allocated_to_registered'', ''memory_copy_registered_to_allocated'',
      ''memory_copy_registered_to_registered'', ''memory_vector_copy_between_stack_and_heap'',
      ''memory_vector_copy_heap_not_registered'', ''memory_vector_copy_heap_registered'',
      ''memory_vector_copy_stack_not_registered'', ''memory_vector_copy_stack_registered'',
      ''memory_minimum_region'', ''memory_region_concurrent_get_info'', ''memory_region_alignment'',
      ''memory_register_subrange'', ''memory_concurrent_allocate'', ''memory_concurrent_free'',
      ''memory_concurrent_register'', ''memory_concurrent_deregister'', ''memory_basic_allocate_free'',
      ''memory_basic_register_deregister'', ''memory_coherence_after_register'', ''memory_copy_system_and_global'']"

definition hsa_memory_added :: "string list" where
  "hsa_memory_added =
     [''memory_allocate_max_size'', ''memory_allocate_zero_size'', ''memory_assign_agent'',
      ''memory_allocated_vector_copy_heap'', ''memory_allocated_vector_copy_stack'',
      ''memory_group_dynamic_allocation'', ''memory_copy_allocated_to_allocated'',
      ''memory_copy_allocated_to_registered'', ''memory_copy_registered_to_allocated'',
      ''memory_copy_registered_to_registered'', ''memory_vector_copy_between_stack_and_heap'',
      ''memory_vector_copy_heap_not_registered'', ''memory_vector_copy_heap_registered'',
      ''memory_vector_copy_stack_not_registered'', ''memory_vector_copy_stack_registered'',
      ''memory_minimum_region'', ''memory_region_concurrent_get_info'', ''memory_region_alignment'',
      ''memory_register_subrange'', ''memory_concurrent_allocate'', ''memory_concurrent_free'',
      ''memory_concurrent_register'', ''memory_concurrent_deregister'', ''memory_basic_allocate_free'',
      ''memory_basic_register_deregister'', ''memory_coherence_after_register'', ''memory_copy_system_and_global'']"

definition hsa_memory_main where
  "hsa_memory_main lib tests c = suite_main lib id hsa_memory_declared hsa_memory_defined hsa_memory_added tests c"

subsection \<open>\<open>core/memory/atomics/hsa_memory_atomics\<close>\<close>

definition hsa_memory_atomics_declared :: "string list" where
  "hsa_memory_atomics_declared =
     [''memory_add_atomic'', ''memory_and_atomic'', ''memory_cas_atomic'', ''memory_decrement_atomic'',
      ''memory_exchange_atomic'', ''memory_increment_atomic'', ''memory_load_store_atomic'',
      ''memory_maximum_atomic'', ''memory_minimum_atomic'', ''memory_or_atomic'', ''memory_subtract_atomic'',
      ''memory_xor_atomic'']"

definition hsa_memory_atomics_defined :: "string list" where
  "hsa_memory_atomics_defined =
     [''memory_add_atomic'', ''memory_and_atomic'', ''memory_cas_atomic'', ''memory_decrement_atomic'',
      ''memory_exchange_atomic'', ''memory_increment_atomic'', ''memory_load_store_atomic'',
      ''memory_maximum_atomic'', ''memory_minimum_atomic'', ''memory_or_atomic'', ''memory_subtract_atomic'',
      ''memory_xor_atomic'']"

definition hsa_memory_atomics_added :: "string list" where
  "hsa_memory_atomics_added =
     [''memory_add_atomic'', ''memory_and_atomic'', ''memory_cas_atomic'', ''memory_decrement_atomic'',
      ''memory_exchange_atomic'', ''memory_increment_atomic'', ''memory_load_store_atomic'',
      ''memory_maximum_atomic'', ''memory_minimum_atomic'', ''memory_or_atomic'', ''memory_subtract_atomic'',
      ''memory_xor_atomic'']"

definition hsa_memory_atomics_main where
  "hsa_memory_atomics_main lib tests c = suite_main lib id hsa_memory_atomics_declared hsa_memory_atomics_defined hsa_memory_atomics_added tests c"

subsection \<open>\<open>core/queue/hsa_queue\<close>\<close>

definition hsa_queue_declared :: "string list" where
  "hsa_queue_declared =
     [''concurrent_queue_create'', ''queue_callback'', ''queue_create_concurrent'', ''queue_create_parameters'',
      ''queue_destroy_concurrent'', ''queue_dispatch_concurrent'', ''queue_multi_gap'', ''queue_multiple_queues'',
      ''queue_multiple_dispatch'', ''queue_full'', ''queue_inactivate'', ''queue_size_create'',
      ''queue_write_index_add_acq_rel_ordering'', ''queue_write_index_add_acquire_release_ordering'',
      ''queue_write_index_add_atomic'', ''queue_write_index_cas_acq_rel_ordering'',
      ''queue_write_index_cas_acquire_release_ordering'', ''queue_write_index_cas_atomic'',
      ''queue_write_index_load_store_atomic'']"

definition hsa_queue_defined :: "string list" where
  "hsa_queue_defined =
     [''queue_create_concurrent'', ''queue_create_parameters'', ''queue_callback'', ''queue_destroy_concurrent'',
      ''queue_dispatch_concurrent'', ''queue_full'', ''queue_multiple_dispatch'', ''queue_inactivate'',
      ''queue_size_create'', ''queue_multiple_queues'', ''queue_multi_gap'',
      ''queue_write_index_add_acq_rel_ordering'', ''queue_write_index_add_acquire_release_ordering'',
      ''queue_write_index_add_atomic'', ''queue_write_index_cas_acq_rel_ordering'',
      ''queue_write_index_cas_acquire_release_ordering'', ''queue_write_index_cas_atomic'',
      ''queue_write_index_load_store_atomic'']"

definition hsa_queue_added :: "string list" where
  "hsa_queue_added =
     [''queue_create_parameters'', ''queue_callback'', ''queue_create_concurrent'', ''queue_destroy_concurrent'',
      ''queue_dispatch_concurrent'', ''queue_full'', ''queue_multiple_dispatch'', ''queue_inactivate'',
      ''queue_size_create'', ''queue_multiple_queues'', ''queue_multi_gap'',
      ''queue_write_index_add_acq_rel_ordering'', ''queue_write_index_add_acquire_release_ordering'',
      ''queue_write_index_add_atomic'', ''queue_write_index_cas_acq_rel_ordering'',
      ''queue_write_index_cas_acquire_release_ordering'', ''queue_write_index_cas_atomic'']"

definition hsa_queue_main where
  "hsa_queue_main lib tests c = suite_main lib id hsa_queue_declared hsa_queue_defined hsa_queue_added tests c"

subsection \<open>\<open>core/signals/hsa_signals\<close>\<close>

definition hsa_signals_declared :: "string list" where
  "hsa_signals_declared =
     [''signal_create_concurrent'', ''signal_create_initial_value'', ''signal_create_max_consumers'',
      ''signal_create_one_consumers'', ''signal_create_zero_consumers'', ''signal_destroy_concurrent'',
      ''signal_kernel_multi_set'', ''signal_kernel_multi_wait'', ''signal_kernel_set'', ''signal_kernel_wait'',
      ''signal_wait_acquire_add'', ''signal_wait_acquire_and'', ''signal_wait_acquire_cas'',
      ''signal_wait_acquire_exchange'', ''signal_wait_acquire_or'', ''signal_wait_acquire_subtract'',
      ''signal_wait_acquire_xor'', ''signal_wait_relaxed_add'', ''signal_wait_relaxed_and'',
      ''signal_wait_relaxed_cas'', ''signal_wait_relaxed_exchange'', ''signal_wait_relaxed_or'',
      ''signal_wait_relaxed_subtract'', ''signal_wait_relaxed_xor'', ''signal_wait_conditions'',
      ''signal_wait_expectancy'', ''signal_wait_satisfied_conditions'', ''signal_wait_store_release'',
      ''signal_wait_store_relaxed'', ''signal_wait_acquire_timeout'', ''signal_wait_relaxed_timeout'',
      ''signal_store_release_load_acquire_ordering'', ''signal_store_release_load_acquire_ordering_transitive'',
      ''signal_load_store_atomic'', ''signal_add_acq_rel_ordering'', ''signal_add_acq_rel_ordering_transitive'',
      ''signal_add_acquire_release_ordering'', ''signal_add_acquire_release_ordering_transitive'',
      ''signal_add_atomic_acq_rel'', ''signal_add_atomic_acquire'', ''signal_add_atomic_release'',
      ''signal_add_atomic_relaxed'', ''signal_and_acq_rel_ordering'', ''signal_and_acq_rel_ordering_transitive'',
      ''signal_and_acquire_release_ordering'', ''signal_and_acquire_release_ordering_transitive'',
      ''signal_and_atomic_acq_rel'', ''signal_and_atomic_acquire'', ''signal_and_atomic_release'',
      ''signal_and_atomic_relaxed'', ''signal_cas_acq_rel_ordering'', ''signal_cas_acq_rel_ordering_transitive'',
      ''signal_cas_acquire_release_ordering'', ''signal_cas_acquire_release_ordering_transitive'',
      ''signal_cas_atomic_acq_rel'', ''signal_cas_atomic_acquire'', ''signal_cas_atomic_release'',
      ''signal_cas_atomic_relaxed'', ''signal_exchange_acq_rel_ordering'',
      ''signal_exchange_acq_rel_ordering_transitive'', ''signal_exchange_acquire_release_ordering'',
      ''signal_exchange_acquire_release_ordering_transitive'', ''signal_exchange_atomic_acq_rel'',
      ''signal_exchange_atomic_acquire'', ''signal_exchange_atomic_release'', ''signal_exchange_atomic_relaxed'',
      ''signal_or_acq_rel_ordering'', ''signal_or_acq_rel_ordering_transitive'',
      ''signal_or_acquire_release_ordering'', ''signal_or_acquire_release_ordering_transitive'',
      ''signal_or_atomic_acq_rel'', ''signal_or_atomic_acquire'', ''signal_or_atomic_release'',
      ''signal_or_atomic_relaxed'', ''signal_subtract_acq_rel_ordering'',
      ''signal_subtract_acq_rel_ordering_transitive'', ''signal_subtract_acquire_release_ordering_transitive'',
      ''signal_subtract_atomic_acq_rel'', ''signal_subtract_atomic_acquire'', ''signal_subtract_atomic_release'',
      ''signal_subtract_atomic_relaxed'', ''signal_xor_acq_rel_ordering'',
      ''signal_xor_acq_rel_ordering_transitive'', ''signal_xor_acquire_release_ordering'',
      ''signal_xor_acquire_release_ordering_transitive'', ''signal_xor_atomic_acq_rel'',
      ''signal_xor_atomic_acquire'', ''signal_xor_atomic_release'', ''signal_xor_atomic_relaxed'']"

definition hsa_signals_defined :: "string list" where
  "hsa_signals_defined =
     [''signal_create_concurrent'', ''signal_create_initial_value'', ''signal_create_max_consumers'',
      ''signal_create_one_consumers'', ''signal_create_zero_consumers'', ''signal_destroy_concurrent'',
      ''signal_kernel_multi_set'', ''signal_kernel_multi_wait'', ''signal_kernel_set'', ''signal_kernel_wait'',
      ''signal_wait_acquire_add'', ''signal_wait_relaxed_add'', ''signal_wait_acquire_and'',
      ''signal_wait_relaxed_and'', ''signal_wait_acquire_cas'', ''signal_wait_relaxed_cas'',
      ''signal_wait_conditions'', ''signal_wait_satisfied_conditions'', ''signal_wait_expectancy'',
      ''signal_wait_acquire_exchange'', ''signal_wait_relaxed_exchange'', ''signal_wait_acquire_or'',
      ''signal_wait_relaxed_or'', ''signal_wait_store_relaxed'', ''signal_wait_store_release'',
      ''signal_wait_acquire_subtract'', ''signal_wait_relaxed_subtract'', ''signal_wait_acquire_xor'',
      ''signal_wait_relaxed_xor'', ''signal_wait_acquire_timeout'', ''signal_wait_relaxed_timeout'',
      ''signal_store_release_load_acquire_ordering'', ''signal_store_release_load_acquire_ordering_transitive'',
      ''signal_load_store_atomic'', ''signal_add_acq_rel_ordering'', ''signal_add_acq_rel_ordering_transitive'',
      ''signal_add_acquire_release_ordering'', ''signal_add_acquire_release_ordering_transitive'',
      ''signal_add_atomic_acq_rel'', ''signal_add_atomic_acquire'', ''signal_add_atomic_release'',
      ''signal_add_atomic_relaxed'', ''signal_and_acq_rel_ordering'', ''signal_and_acq_rel_ordering_transitive'',
      ''signal_and_acquire_release_ordering'', ''signal_and_acquire_release_ordering_transitive'',
      ''signal_and_atomic_acq_rel'', ''signal_and_atomic_acquire'', ''signal_and_atomic_release'',
      ''signal_and_atomic_relaxed'', ''signal_cas_acq_rel_ordering'', ''signal_cas_acq_rel_ordering_transitive'',
      ''signal_cas_acquire_release_ordering'', ''signal_cas_acquire_release_ordering_transitive'',
      ''signal_cas_atomic_acq_rel'', ''signal_cas_atomic_acquire'', ''signal_cas_atomic_release'',
      ''signal_cas_atomic_relaxed'', ''signal_exchange_acq_rel_ordering'',
      ''signal_exchange_acq_rel_ordering_transitive'', ''signal_exchange_acquire_release_ordering'',
      ''signal_exchange_acquire_release_ordering_transitive'', ''signal_exchange_atomic_acq_rel'',
      ''signal_exchange_atomic_acquire'', ''signal_exchange_atomic_release'', ''signal_exchange_atomic_relaxed'',
      ''signal_or_acq_rel_ordering'', ''signal_or_acq_rel_ordering_transitive'',
      ''signal_or_acquire_release_ordering'', ''signal_or_acquire_release_ordering_transitive'',
      ''signal_or_atomic_acq_rel'', ''signal_or_atomic_acquire'', ''signal_or_atomic_release'',
      ''signal_or_atomic_relaxed'', ''signal_subtract_acq_rel_ordering'',
      ''signal_subtract_acq_rel_ordering_transitive'', ''signal_subtract_acquire_release_ordering_transitive'',
      ''signal_subtract_atomic_acq_rel'', ''signal_subtract_atomic_acquire'', ''signal_subtract_atomic_release'',
      ''signal_subtract_atomic_relaxed'', ''signal_xor_acq_rel_ordering'',
      ''signal_xor_acq_rel_ordering_transitive'', ''signal_xor_acquire_release_ordering'',
      ''signal_xor_acquire_release_ordering_transitive'', ''signal_xor_atomic_acq_rel'',
      ''signal_xor_atomic_acquire'', ''signal_xor_atomic_release'', ''signal_xor_atomic_relaxed'']"

definition hsa_signals_added :: "string list" where
  "hsa_signals_added =
     [''signal_create_concurrent'', ''signal_create_initial_value'', ''signal_create_max_consumers'',
      ''signal_create_one_consumers'', ''signal_create_zero_consumers'', ''signal_destroy_concurrent'',
      ''signal_kernel_multi_set'', ''signal_kernel_multi_wait'', ''signal_kernel_set'', ''signal_kernel_wait'',
      ''signal_wait_acquire_add'', ''signal_wait_relaxed_add'', ''signal_wait_acquire_and'',
      ''signal_wait_relaxed_and'', ''signal_wait_acquire_cas'', ''signal_wait_relaxed_cas'',
      ''signal_wait_conditions'', ''signal_wait_satisfied_conditions'', ''signal_wait_expectancy'',
      ''signal_wait_acquire_exchange'', ''signal_wait_relaxed_exchange'', ''signal_wait_acquire_or'',
      ''signal_wait_relaxed_or'', ''signal_wait_store_relaxed'', ''signal_wait_store_release'',
      ''signal_wait_acquire_subtract'', ''signal_wait_relaxed_subtract'', ''signal_wait_acquire_xor'',
      ''signal_wait_relaxed_xor'', ''signal_wait_acquire_timeout'', ''signal_wait_relaxed_timeout'',
      ''signal_store_release_load_acquire_ordering'', ''signal_store_release_load_acquire_ordering_transitive'',
      ''signal_load_store_atomic'', ''signal_add_acq_rel_ordering'', ''signal_add_acq_rel_ordering_transitive'',
      ''signal_add_acquire_release_ordering'', ''signal_add_acquire_release_ordering_transitive'',
      ''signal_add_atomic_acq_rel'', ''signal_add_atomic_acquire'', ''signal_add_atomic_release'',
      ''signal_add_atomic_relaxed'', ''signal_and_acq_rel_ordering'', ''signal_and_acq_rel_ordering_transitive'',
      ''signal_and_acquire_release_ordering'', ''signal_and_acquire_release_ordering_transitive'',
      ''signal_and_atomic_acq_rel'', ''signal_and_atomic_acquire'', ''signal_and_atomic_release'',
      ''signal_and_atomic_relaxed'', ''signal_cas_acq_rel_ordering'', ''signal_cas_acq_rel_ordering_transitive'',
      ''signal_cas_acquire_release_ordering'', ''signal_cas_acquire_release_ordering_transitive'',
      ''signal_cas_atomic_acq_rel'', ''signal_cas_atomic_acquire'', ''signal_cas_atomic_release'',
      ''signal_cas_atomic_relaxed'', ''signal_exchange_acq_rel_ordering'',
      ''signal_exchange_acq_rel_ordering_transitive'', ''signal_exchange_acquire_release_ordering'',
      ''signal_exchange_acquire_release_ordering_transitive'', ''signal_exchange_atomic_acq_rel'',
      ''signal_exchange_atomic_acquire'', ''signal_exchange_atomic_release'', ''signal_exchange_atomic_relaxed'',
      ''signal_or_acq_rel_ordering'', ''signal_or_acq_rel_ordering_transitive'',
      ''signal_or_acquire_release_ordering'', ''signal_or_acquire_release_ordering_transitive'',
      ''signal_or_atomic_acq_rel'', ''signal_or_atomic_acquire'', ''signal_or_atomic_release'',
      ''signal_or_atomic_relaxed'', ''signal_subtract_acq_rel_ordering'',
      ''signal_subtract_acq_rel_ordering_transitive'', ''signal_subtract_acquire_release_ordering_transitive'',
      ''signal_subtract_atomic_acq_rel'', ''signal_subtract_atomic_acquire'', ''signal_subtract_atomic_release'',
      ''signal_subtract_atomic_relaxed'', ''signal_xor_acq_rel_ordering'',
      ''signal_xor_acq_rel_ordering_transitive'', ''signal_xor_acquire_release_ordering'',
      ''signal_xor_acquire_release_ordering_transitive'', ''signal_xor_atomic_acq_rel'',
      ''signal_xor_atomic_acquire'', ''signal_xor_atomic_release'', ''signal_xor_atomic_relaxed'']"

definition hsa_signals_main where
  "hsa_signals_main lib tests c = suite_main lib id hsa_signals_declared hsa_signals_defined hsa_signals_added tests c"

subsection \<open>\<open>extensions/ext_api/hsa_ext_api\<close>\<close>

definition hsa_ext_api_declared :: "string list" where
  "hsa_ext_api_declared =
     [''hsa_ext_program_create'', ''hsa_ext_program_create_not_initialized'',
      ''hsa_ext_program_create_invalid_argument'', ''hsa_ext_program_destroy'',
      ''hsa_ext_program_destroy_not_initialized'', ''hsa_ext_program_destroy_invalid_program'',
      ''hsa_ext_program_finalize'', ''hsa_ext_program_finalize_not_initialized'',
      ''hsa_ext_program_finalize_invalid_program'', ''hsa_ext_program_finalize_invalid_isa'',
      ''hsa_ext_program_finalize_directive_mismatch'']"

definition hsa_ext_api_defined :: "string list" where
  "hsa_ext_api_defined =
     [''hsa_ext_program_create'', ''hsa_ext_program_create_not_initialized'',
      ''hsa_ext_program_create_invalid_argument'', ''hsa_ext_program_destroy'',
      ''hsa_ext_program_destroy_not_initialized'', ''hsa_ext_program_destroy_invalid_program'',
      ''hsa_ext_program_finalize'', ''hsa_ext_program_finalize_not_initialized'',
      ''hsa_ext_program_finalize_invalid_program'', ''hsa_ext_program_finalize_invalid_isa'',
      ''hsa_ext_program_finalize_directive_mismatch'']"

definition hsa_ext_api_added :: "string list" where
  "hsa_ext_api_added =
     [''hsa_ext_program_create'', ''hsa_ext_program_create_not_initialized'',
      ''hsa_ext_program_create_invalid_argument'', ''hsa_ext_program_destroy'',
      ''hsa_ext_program_destroy_not_initialized'', ''hsa_ext_program_destroy_invalid_program'',
      ''hsa_ext_program_finalize'', ''hsa_ext_program_finalize_not_initialized'',
      ''hsa_ext_program_finalize_invalid_program'', ''hsa_ext_program_finalize_invalid_isa'',
      ''hsa_ext_program_finalize_directive_mismatch'']"

definition hsa_ext_api_main where
  "hsa_ext_api_main lib tests c = suite_main lib id hsa_ext_api_declared hsa_ext_api_defined hsa_ext_api_added tests c"

subsection \<open>\<open>extensions/finalization/hsa_finalization\<close>\<close>

definition hsa_finalization_declared :: "string list" where
  "hsa_finalization_declared =
     [''finalization_concurrent_finalization'', ''finalization_control_directives_max_dynamic_group_size'',
      ''finalization_control_directives_max_flat_grid_size'',
      ''finalization_control_directives_max_flat_workgroup_size'',
      ''finalization_control_directives_required_grid_size'',
      ''finalization_control_directives_required_workgroup_size'', ''finalization_control_directives_required_dim'',
      ''finalization_dependent_modules'', ''finalization_incompatible_module'', ''finalization_invalid_module'',
      ''finalization_module_already_included'', ''finalization_module_count'', ''finalization_multiple_modules'',
      ''finalization_out_of_resources'']"

definition hsa_finalization_defined :: "string list" where
  "hsa_finalization_defined =
     [''finalization_concurrent_finalization'', ''finalization_control_directives_max_dynamic_group_size'',
      ''finalization_control_directives_max_flat_grid_size'',
      ''finalization_control_directives_max_flat_workgroup_size'',
      ''finalization_control_directives_required_grid_size'',
      ''finalization_control_directives_required_workgroup_size'', ''finalization_control_directives_required_dim'',
      ''finalization_dependent_modules'', ''finalization_incompatible_module'', ''finalization_invalid_module'',
      ''finalization_module_already_included'', ''finalization_module_count'', ''finalization_multiple_modules'',
      ''finalization_out_of_resources'']"

definition hsa_finalization_added :: "string list" where
  "hsa_finalization_added =
     [''finalization_concurrent_finalization'', ''finalization_control_directives_max_dynamic_group_size'',
      ''finalization_control_directives_max_flat_grid_size'',
      ''finalization_control_directives_max_flat_workgroup_size'',
      ''finalization_control_directives_required_grid_size'',
      ''finalization_control_directives_required_workgroup_size'', ''finalization_control_directives_required_dim'',
      ''finalization_dependent_modules'', ''finalization_incompatible_module'', ''finalization_invalid_module'',
      ''finalization_module_already_included'', ''finalization_module_count'', ''finalization_multiple_modules'',
      ''finalization_out_of_resources'']"

definition hsa_finalization_main where
  "hsa_finalization_main lib tests c = suite_main lib id hsa_finalization_declared hsa_finalization_defined hsa_finalization_added tests c"
subsection \<open>The tests of the programs\<close>

text \<open>
  Each header declares its tests once.  The lists of a suite are compared as multisets, by which the order of the lines
  does not count; that names are distinct is seen on the sorted list, where only neighbours are compared.
\<close>

lemma distinct_sorted:
  assumes "mset xs = mset ys" "sorted_wrt (<) (ys :: string list)"
  shows "distinct xs"
proof -
  have "distinct ys" using assms(2) strict_sorted_iff by blast
  then show ?thesis using assms(1) by (metis mset_eq_imp_distinct_iff)
qed

lemmas sorted_neighbours = sorted_wrt2 [OF transp_on_less]

lemma registered_sets:
  assumes "distinct declared" "mset declared = mset defined + mset undefined_tests"
    and "mset defined = mset added + mset dropped_tests"
  shows "set defined \<subseteq> set declared" "set added \<subseteq> set defined" "distinct added"
    and "set added = set declared - set (undefined_tests @ dropped_tests)"
proof -
  have m: "mset declared = mset (added @ dropped_tests @ undefined_tests)" using assms(2,3) by simp
  then have d: "distinct (added @ dropped_tests @ undefined_tests)"
    using assms(1) mset_eq_imp_distinct_iff by blast
  have s: "set declared = set (added @ dropped_tests @ undefined_tests)" using m by (rule mset_eq_setD)
  show "distinct added" using d by simp
  show "set added = set declared - set (undefined_tests @ dropped_tests)" using d unfolding s by auto
  show "set added \<subseteq> set defined" using assms(3) mset_eq_setD [of defined "added @ dropped_tests"] by simp
  show "set defined \<subseteq> set declared" using assms(2) mset_eq_setD [of declared "defined @ undefined_tests"] by simp
qed

lemma hsa_agent_distinct: "distinct hsa_agent_declared"
proof (rule distinct_sorted)
  show "mset hsa_agent_declared = mset
     [''concurrent_iterate'', ''concurrent_query'', ''iterate_null_data'', ''iterate_terminate'',
      ''query_attributes'', ''query_system_attributes'']"
    by (simp add: hsa_agent_declared_def add_mset_commute)
qed (unfold sorted_neighbours, simp add: less_char_def)

lemma hsa_agent_registered: "mset hsa_agent_declared = mset hsa_agent_defined + mset []" "mset hsa_agent_defined = mset hsa_agent_added + mset []"
  by (simp_all add: hsa_agent_declared_def hsa_agent_defined_def hsa_agent_added_def add_mset_commute)

lemma hsa_api_distinct: "distinct hsa_api_declared"
proof (rule distinct_sorted)
  show "mset hsa_api_declared = mset
     [''hsa_agent_extension_supported'', ''hsa_agent_extension_supported_invalid_agent'',
      ''hsa_agent_extension_supported_invalid_extension'', ''hsa_agent_extension_supported_not_initialized'',
      ''hsa_agent_extension_supported_null_result_ptr'', ''hsa_agent_get_exception_policies'',
      ''hsa_agent_get_exception_policies_invalid_agent'', ''hsa_agent_get_exception_policies_invalid_profile'',
      ''hsa_agent_get_exception_policies_not_initialized'', ''hsa_agent_get_exception_policies_null_mask_ptr'',
      ''hsa_agent_get_info'', ''hsa_agent_get_info_invalid_agent'', ''hsa_agent_get_info_invalid_attribute'',
      ''hsa_agent_get_info_invalid_ptr'', ''hsa_agent_get_info_not_initialized'', ''hsa_agent_iterate_regions'',
      ''hsa_agent_iterate_regions_invalid_agent'', ''hsa_agent_iterate_regions_invalid_argument'',
      ''hsa_agent_iterate_regions_not_initialized'', ''hsa_code_object_get_info'', ''hsa_code_symbol_get_info'',
      ''hsa_executable_create'', ''hsa_executable_create_invalid_argument'',
      ''hsa_executable_create_not_initialized'', ''hsa_executable_create_out_of_resources'',
      ''hsa_executable_destroy'', ''hsa_executable_destroy_invalid_executable'',
      ''hsa_executable_destroy_not_initialized'', ''hsa_executable_get_info'', ''hsa_executable_load_code_object'',
      ''hsa_executable_load_code_object_frozen_executable'', ''hsa_executable_load_code_object_invalid_agent'',
      ''hsa_executable_load_code_object_invalid_code_object'',
      ''hsa_executable_load_code_object_invalid_executable'', ''hsa_executable_load_code_object_not_initialized'',
      ''hsa_executable_symbol_get_info'', ''hsa_init'', ''hsa_init_MAX'', ''hsa_isa_compatible'',
      ''hsa_isa_compatible_invalid_isa'', ''hsa_isa_compatible_null_result'', ''hsa_isa_from_name'',
      ''hsa_isa_from_name_invalid_isa_name'', ''hsa_isa_from_name_null_isa'', ''hsa_isa_from_name_null_name'',
      ''hsa_isa_get_info'', ''hsa_isa_get_info_index_out_of_range'', ''hsa_isa_get_info_invalid_attribute'',
      ''hsa_isa_get_info_invalid_isa'', ''hsa_isa_get_info_invalid_null_value'',
      ''hsa_isa_get_info_not_initialized'', ''hsa_iterate_agents'', ''hsa_iterate_agents_invalid_callback'',
      ''hsa_iterate_agents_not_initialized'', ''hsa_memory_allocate'', ''hsa_memory_allocate_invalid_allocation'',
      ''hsa_memory_allocate_invalid_region'', ''hsa_memory_allocate_not_initialized'',
      ''hsa_memory_allocate_null_ptr'', ''hsa_memory_allocate_zero_size'', ''hsa_memory_deregister'',
      ''hsa_memory_deregister_not_initialized'', ''hsa_memory_free'', ''hsa_memory_free_not_initialized'',
      ''hsa_memory_register'', ''hsa_memory_register_invalid_argument'', ''hsa_memory_register_not_initialized'',
      ''hsa_queue_add_write_index_acq_rel'', ''hsa_queue_add_write_index_acquire'',
      ''hsa_queue_add_write_index_relaxed'', ''hsa_queue_add_write_index_release'',
      ''hsa_queue_cas_write_index_acq_rel'', ''hsa_queue_cas_write_index_acquire'',
      ''hsa_queue_cas_write_index_relaxed'', ''hsa_queue_cas_write_index_release'', ''hsa_queue_create'',
      ''hsa_queue_create_invalid_agent'', ''hsa_queue_create_invalid_argument'',
      ''hsa_queue_create_invalid_queue_creation'', ''hsa_queue_create_not_initialized'',
      ''hsa_queue_create_out_of_resources'', ''hsa_queue_destroy'', ''hsa_queue_destroy_invalid_argument'',
      ''hsa_queue_destroy_invalid_queue'', ''hsa_queue_destroy_not_initialized'', ''hsa_queue_inactivate'',
      ''hsa_queue_inactivate_invalid_argument'', ''hsa_queue_inactivate_invalid_queue'',
      ''hsa_queue_inactivate_not_initialized'', ''hsa_queue_load_read_index_acquire'',
      ''hsa_queue_load_read_index_relaxed'', ''hsa_queue_load_store_write_index_acquire_relaxed'',
      ''hsa_queue_load_store_write_index_relaxed_release'', ''hsa_region_get_info'',
      ''hsa_region_get_info_invalid_argument'', ''hsa_region_get_info_invalid_region'',
      ''hsa_region_get_info_not_initialized'', ''hsa_shut_down'', ''hsa_shut_down_after_shut_down'',
      ''hsa_shut_down_not_initialized'', ''hsa_signal_add_acq_rel'', ''hsa_signal_add_acquire'',
      ''hsa_signal_add_relaxed'', ''hsa_signal_add_release'', ''hsa_signal_and_acq_rel'', ''hsa_signal_and_acquire'',
      ''hsa_signal_and_relaxed'', ''hsa_signal_and_release'', ''hsa_signal_cas_acq_rel'', ''hsa_signal_cas_acquire'',
      ''hsa_signal_cas_relaxed'', ''hsa_signal_cas_release'', ''hsa_signal_create'',
      ''hsa_signal_create_invalid_arg'', ''hsa_signal_create_not_initialized'', ''hsa_signal_create_null_signal'',
      ''hsa_signal_destroy'', ''hsa_signal_destroy_invalid_arg'', ''hsa_signal_destroy_invalid_signal'',
      ''hsa_signal_destroy_not_initialized'', ''hsa_signal_exchange_acq_rel'', ''hsa_signal_exchange_acquire'',
      ''hsa_signal_exchange_relaxed'', ''hsa_signal_exchange_release'', ''hsa_signal_load_acquire'',
      ''hsa_signal_load_relaxed'', ''hsa_signal_or_acq_rel'', ''hsa_signal_or_acquire'', ''hsa_signal_or_relaxed'',
      ''hsa_signal_or_release'', ''hsa_signal_store_relaxed'', ''hsa_signal_store_release'',
      ''hsa_signal_subtract_acq_rel'', ''hsa_signal_subtract_acquire'', ''hsa_signal_subtract_relaxed'',
      ''hsa_signal_subtract_release'', ''hsa_signal_xor_acq_rel'', ''hsa_signal_xor_acquire'',
      ''hsa_signal_xor_relaxed'', ''hsa_signal_xor_release'', ''hsa_soft_queue_create'', ''hsa_status_string'',
      ''hsa_status_string_invalid_ptr'', ''hsa_status_string_invalid_status'', ''hsa_status_string_not_initialized'',
      ''hsa_system_extension_supported'', ''hsa_system_extension_supported_invalid_extension'',
      ''hsa_system_extension_supported_not_initialized'', ''hsa_system_extension_supported_null_result_ptr'',
      ''hsa_system_get_extension_table'', ''hsa_system_get_extension_table_invalid_extension'',
      ''hsa_system_get_extension_table_not_initialized'', ''hsa_system_get_extension_table_null_table_ptr'',
      ''hsa_system_get_info'', ''hsa_system_get_info_invalid_attribute'', ''hsa_system_get_info_invalid_ptr'',
      ''hsa_system_get_info_not_initialized'']"
    by (simp add: hsa_api_declared_def add_mset_commute)
qed (unfold sorted_neighbours, simp add: less_char_def)

lemma hsa_api_registered: "mset hsa_api_declared = mset hsa_api_defined + mset []" "mset hsa_api_defined = mset hsa_api_added + mset [''hsa_init_MAX'']"
  by (simp_all add: hsa_api_declared_def hsa_api_defined_def hsa_api_added_def add_mset_commute)

lemma hsa_aql_distinct: "distinct hsa_aql_declared"
proof (rule distinct_sorted)
  show "mset hsa_aql_declared = mset
     [''aql_barrier_and'', ''aql_barrier_bit_not_set'', ''aql_barrier_bit_set'',
      ''aql_barrier_cross_queue_dependency'', ''aql_barrier_cross_queue_dependency_negative_value'',
      ''aql_barrier_multiple_barriers'', ''aql_barrier_or'', ''aql_group_memory'',
      ''aql_group_memory_overspecified'', ''aql_launch_size'', ''aql_private_memory'',
      ''aql_private_memory_overspecified'', ''aql_zero_wg_size'']"
    by (simp add: hsa_aql_declared_def add_mset_commute)
qed (unfold sorted_neighbours, simp add: less_char_def)

lemma hsa_aql_registered: "mset hsa_aql_declared = mset hsa_aql_defined + mset []" "mset hsa_aql_defined = mset hsa_aql_added + mset []"
  by (simp_all add: hsa_aql_declared_def hsa_aql_defined_def hsa_aql_added_def add_mset_commute)

lemma hsa_async_distinct: "distinct hsa_async_declared"
proof (rule distinct_sorted)
  show "mset hsa_async_declared = mset
     [''async_invalid_dimensions'', ''async_invalid_group_memory'', ''async_invalid_kernel_object'',
      ''async_invalid_packet'', ''async_invalid_workgroup_size'']"
    by (simp add: hsa_async_declared_def add_mset_commute)
qed (unfold sorted_neighbours, simp add: less_char_def)

lemma hsa_async_registered: "mset hsa_async_declared = mset hsa_async_defined + mset []" "mset hsa_async_defined = mset hsa_async_added + mset []"
  by (simp_all add: hsa_async_declared_def hsa_async_defined_def hsa_async_added_def add_mset_commute)

lemma hsa_code_distinct: "distinct hsa_code_declared"
proof (rule distinct_sorted)
  show "mset hsa_code_declared = mset
     [''code_define_global_agent'', ''code_define_global_program'', ''code_define_readonly_agent'',
      ''code_iterate_symbols'', ''code_kernarg_alignment'', ''code_mixed_scope'', ''code_module_scope_symbol'',
      ''code_multiple_executables'', ''code_program_scope_symbol'', ''code_recursive_kernel_function'',
      ''code_serialize_deserialize'']"
    by (simp add: hsa_code_declared_def add_mset_commute)
qed (unfold sorted_neighbours, simp add: less_char_def)

lemma hsa_code_registered: "mset hsa_code_declared = mset hsa_code_defined + mset []" "mset hsa_code_defined = mset hsa_code_added + mset []"
  by (simp_all add: hsa_code_declared_def hsa_code_defined_def hsa_code_added_def add_mset_commute)

lemma hsa_init_distinct: "distinct hsa_init_declared"
proof (rule distinct_sorted)
  show "mset hsa_init_declared = mset
     [''concurrent_init'', ''concurrent_init_shutdown'', ''concurrent_shutdown'', ''refcount'', ''reinitialize'']"
    by (simp add: hsa_init_declared_def add_mset_commute)
qed (unfold sorted_neighbours, simp add: less_char_def)

lemma hsa_init_registered: "mset hsa_init_declared = mset hsa_init_defined + mset []" "mset hsa_init_defined = mset hsa_init_added + mset []"
  by (simp_all add: hsa_init_declared_def hsa_init_defined_def hsa_init_added_def add_mset_commute)

lemma hsa_memory_distinct: "distinct hsa_memory_declared"
proof (rule distinct_sorted)
  show "mset hsa_memory_declared = mset
     [''memory_allocate_max_size'', ''memory_allocate_zero_size'', ''memory_allocated_vector_copy_heap'',
      ''memory_allocated_vector_copy_stack'', ''memory_assign_agent'', ''memory_basic_allocate_free'',
      ''memory_basic_register_deregister'', ''memory_coherence_after_register'', ''memory_concurrent_allocate'',
      ''memory_concurrent_deregister'', ''memory_concurrent_free'', ''memory_concurrent_register'',
      ''memory_copy_allocated_to_allocated'', ''memory_copy_allocated_to_registered'',
      ''memory_copy_registered_to_allocated'', ''memory_copy_registered_to_registered'',
      ''memory_copy_system_and_global'', ''memory_group_dynamic_allocation'', ''memory_minimum_region'',
      ''memory_region_alignment'', ''memory_region_concurrent_get_info'', ''memory_register_subrange'',
      ''memory_vector_copy_between_stack_and_heap'', ''memory_vector_copy_heap_not_registered'',
      ''memory_vector_copy_heap_registered'', ''memory_vector_copy_stack_not_registered'',
      ''memory_vector_copy_stack_registered'']"
    by (simp add: hsa_memory_declared_def add_mset_commute)
qed (unfold sorted_neighbours, simp add: less_char_def)

lemma hsa_memory_registered: "mset hsa_memory_declared = mset hsa_memory_defined + mset []" "mset hsa_memory_defined = mset hsa_memory_added + mset []"
  by (simp_all add: hsa_memory_declared_def hsa_memory_defined_def hsa_memory_added_def add_mset_commute)

lemma hsa_memory_atomics_distinct: "distinct hsa_memory_atomics_declared"
proof (rule distinct_sorted)
  show "mset hsa_memory_atomics_declared = mset
     [''memory_add_atomic'', ''memory_and_atomic'', ''memory_cas_atomic'', ''memory_decrement_atomic'',
      ''memory_exchange_atomic'', ''memory_increment_atomic'', ''memory_load_store_atomic'',
      ''memory_maximum_atomic'', ''memory_minimum_atomic'', ''memory_or_atomic'', ''memory_subtract_atomic'',
      ''memory_xor_atomic'']"
    by (simp add: hsa_memory_atomics_declared_def add_mset_commute)
qed (unfold sorted_neighbours, simp add: less_char_def)

lemma hsa_memory_atomics_registered: "mset hsa_memory_atomics_declared = mset hsa_memory_atomics_defined + mset []" "mset hsa_memory_atomics_defined = mset hsa_memory_atomics_added + mset []"
  by (simp_all add: hsa_memory_atomics_declared_def hsa_memory_atomics_defined_def hsa_memory_atomics_added_def add_mset_commute)

lemma hsa_queue_distinct: "distinct hsa_queue_declared"
proof (rule distinct_sorted)
  show "mset hsa_queue_declared = mset
     [''concurrent_queue_create'', ''queue_callback'', ''queue_create_concurrent'', ''queue_create_parameters'',
      ''queue_destroy_concurrent'', ''queue_dispatch_concurrent'', ''queue_full'', ''queue_inactivate'',
      ''queue_multi_gap'', ''queue_multiple_dispatch'', ''queue_multiple_queues'', ''queue_size_create'',
      ''queue_write_index_add_acq_rel_ordering'', ''queue_write_index_add_acquire_release_ordering'',
      ''queue_write_index_add_atomic'', ''queue_write_index_cas_acq_rel_ordering'',
      ''queue_write_index_cas_acquire_release_ordering'', ''queue_write_index_cas_atomic'',
      ''queue_write_index_load_store_atomic'']"
    by (simp add: hsa_queue_declared_def add_mset_commute)
qed (unfold sorted_neighbours, simp add: less_char_def)

lemma hsa_queue_registered: "mset hsa_queue_declared = mset hsa_queue_defined + mset [''concurrent_queue_create'']" "mset hsa_queue_defined = mset hsa_queue_added + mset [''queue_write_index_load_store_atomic'']"
  by (simp_all add: hsa_queue_declared_def hsa_queue_defined_def hsa_queue_added_def add_mset_commute)

lemma hsa_signals_distinct: "distinct hsa_signals_declared"
proof (rule distinct_sorted)
  show "mset hsa_signals_declared = mset
     [''signal_add_acq_rel_ordering'', ''signal_add_acq_rel_ordering_transitive'',
      ''signal_add_acquire_release_ordering'', ''signal_add_acquire_release_ordering_transitive'',
      ''signal_add_atomic_acq_rel'', ''signal_add_atomic_acquire'', ''signal_add_atomic_relaxed'',
      ''signal_add_atomic_release'', ''signal_and_acq_rel_ordering'', ''signal_and_acq_rel_ordering_transitive'',
      ''signal_and_acquire_release_ordering'', ''signal_and_acquire_release_ordering_transitive'',
      ''signal_and_atomic_acq_rel'', ''signal_and_atomic_acquire'', ''signal_and_atomic_relaxed'',
      ''signal_and_atomic_release'', ''signal_cas_acq_rel_ordering'', ''signal_cas_acq_rel_ordering_transitive'',
      ''signal_cas_acquire_release_ordering'', ''signal_cas_acquire_release_ordering_transitive'',
      ''signal_cas_atomic_acq_rel'', ''signal_cas_atomic_acquire'', ''signal_cas_atomic_relaxed'',
      ''signal_cas_atomic_release'', ''signal_create_concurrent'', ''signal_create_initial_value'',
      ''signal_create_max_consumers'', ''signal_create_one_consumers'', ''signal_create_zero_consumers'',
      ''signal_destroy_concurrent'', ''signal_exchange_acq_rel_ordering'',
      ''signal_exchange_acq_rel_ordering_transitive'', ''signal_exchange_acquire_release_ordering'',
      ''signal_exchange_acquire_release_ordering_transitive'', ''signal_exchange_atomic_acq_rel'',
      ''signal_exchange_atomic_acquire'', ''signal_exchange_atomic_relaxed'', ''signal_exchange_atomic_release'',
      ''signal_kernel_multi_set'', ''signal_kernel_multi_wait'', ''signal_kernel_set'', ''signal_kernel_wait'',
      ''signal_load_store_atomic'', ''signal_or_acq_rel_ordering'', ''signal_or_acq_rel_ordering_transitive'',
      ''signal_or_acquire_release_ordering'', ''signal_or_acquire_release_ordering_transitive'',
      ''signal_or_atomic_acq_rel'', ''signal_or_atomic_acquire'', ''signal_or_atomic_relaxed'',
      ''signal_or_atomic_release'', ''signal_store_release_load_acquire_ordering'',
      ''signal_store_release_load_acquire_ordering_transitive'', ''signal_subtract_acq_rel_ordering'',
      ''signal_subtract_acq_rel_ordering_transitive'', ''signal_subtract_acquire_release_ordering_transitive'',
      ''signal_subtract_atomic_acq_rel'', ''signal_subtract_atomic_acquire'', ''signal_subtract_atomic_relaxed'',
      ''signal_subtract_atomic_release'', ''signal_wait_acquire_add'', ''signal_wait_acquire_and'',
      ''signal_wait_acquire_cas'', ''signal_wait_acquire_exchange'', ''signal_wait_acquire_or'',
      ''signal_wait_acquire_subtract'', ''signal_wait_acquire_timeout'', ''signal_wait_acquire_xor'',
      ''signal_wait_conditions'', ''signal_wait_expectancy'', ''signal_wait_relaxed_add'',
      ''signal_wait_relaxed_and'', ''signal_wait_relaxed_cas'', ''signal_wait_relaxed_exchange'',
      ''signal_wait_relaxed_or'', ''signal_wait_relaxed_subtract'', ''signal_wait_relaxed_timeout'',
      ''signal_wait_relaxed_xor'', ''signal_wait_satisfied_conditions'', ''signal_wait_store_relaxed'',
      ''signal_wait_store_release'', ''signal_xor_acq_rel_ordering'', ''signal_xor_acq_rel_ordering_transitive'',
      ''signal_xor_acquire_release_ordering'', ''signal_xor_acquire_release_ordering_transitive'',
      ''signal_xor_atomic_acq_rel'', ''signal_xor_atomic_acquire'', ''signal_xor_atomic_relaxed'',
      ''signal_xor_atomic_release'']"
    by (simp add: hsa_signals_declared_def add_mset_commute)
qed (unfold sorted_neighbours, simp add: less_char_def)

lemma hsa_signals_registered: "mset hsa_signals_declared = mset hsa_signals_defined + mset []" "mset hsa_signals_defined = mset hsa_signals_added + mset []"
  by (simp_all add: hsa_signals_declared_def hsa_signals_defined_def hsa_signals_added_def add_mset_commute)

lemma hsa_ext_api_distinct: "distinct hsa_ext_api_declared"
proof (rule distinct_sorted)
  show "mset hsa_ext_api_declared = mset
     [''hsa_ext_program_create'', ''hsa_ext_program_create_invalid_argument'',
      ''hsa_ext_program_create_not_initialized'', ''hsa_ext_program_destroy'',
      ''hsa_ext_program_destroy_invalid_program'', ''hsa_ext_program_destroy_not_initialized'',
      ''hsa_ext_program_finalize'', ''hsa_ext_program_finalize_directive_mismatch'',
      ''hsa_ext_program_finalize_invalid_isa'', ''hsa_ext_program_finalize_invalid_program'',
      ''hsa_ext_program_finalize_not_initialized'']"
    by (simp add: hsa_ext_api_declared_def add_mset_commute)
qed (unfold sorted_neighbours, simp add: less_char_def)

lemma hsa_ext_api_registered: "mset hsa_ext_api_declared = mset hsa_ext_api_defined + mset []" "mset hsa_ext_api_defined = mset hsa_ext_api_added + mset []"
  by (simp_all add: hsa_ext_api_declared_def hsa_ext_api_defined_def hsa_ext_api_added_def add_mset_commute)

lemma hsa_finalization_distinct: "distinct hsa_finalization_declared"
proof (rule distinct_sorted)
  show "mset hsa_finalization_declared = mset
     [''finalization_concurrent_finalization'', ''finalization_control_directives_max_dynamic_group_size'',
      ''finalization_control_directives_max_flat_grid_size'',
      ''finalization_control_directives_max_flat_workgroup_size'', ''finalization_control_directives_required_dim'',
      ''finalization_control_directives_required_grid_size'',
      ''finalization_control_directives_required_workgroup_size'', ''finalization_dependent_modules'',
      ''finalization_incompatible_module'', ''finalization_invalid_module'',
      ''finalization_module_already_included'', ''finalization_module_count'', ''finalization_multiple_modules'',
      ''finalization_out_of_resources'']"
    by (simp add: hsa_finalization_declared_def add_mset_commute)
qed (unfold sorted_neighbours, simp add: less_char_def)

lemma hsa_finalization_registered: "mset hsa_finalization_declared = mset hsa_finalization_defined + mset []" "mset hsa_finalization_defined = mset hsa_finalization_added + mset []"
  by (simp_all add: hsa_finalization_declared_def hsa_finalization_defined_def hsa_finalization_added_def add_mset_commute)
text \<open>\<open>main\<close> uses only tests that are defined and declared, and its exit code is 0 exactly when all tests with the given names pass.\<close>

definition runs_exactly ::
  "('h, 's \<Rightarrow> 's option, 'c) check \<Rightarrow> 's \<Rightarrow>
   (('h, 's \<Rightarrow> 's option, 'c) check \<Rightarrow> (string \<Rightarrow> 's \<Rightarrow> (int \<times> 's) option) \<Rightarrow> 'c \<Rightarrow> (int \<times> 'c) option) \<Rightarrow> string set \<Rightarrow> bool"
where
  "runs_exactly lib s0 main names \<longleftrightarrow> (\<forall>tests c. \<exists>c'. main lib tests c =
     Some (if \<forall>n \<in> names. passes (tests n s0) (\<lambda>(error, s). error = 0) then EXIT_SUCCESS else EXIT_FAILURE, c'))"

lemma runs_exactly_success:
  assumes "runs_exactly lib s0 main names" "\<And>n. n \<in> names \<Longrightarrow> passes (tests n s0) (\<lambda>(error, s). error = 0)"
  shows "\<exists>c'. main lib tests c = Some (EXIT_SUCCESS, c')"
proof -
  obtain c' where "main lib tests c = Some (if \<forall>n \<in> names. passes (tests n s0) (\<lambda>(error, s). error = 0)
      then EXIT_SUCCESS else EXIT_FAILURE, c')"
    using assms(1) unfolding runs_exactly_def by blast
  then show ?thesis using assms(2) by simp
qed

lemma runs_exactly_main:
  assumes "check_library lib objects s0"
    and main: "\<And>tests c. main lib tests c = suite_main lib id declared defined added tests c"
    and names: "distinct declared" "mset declared = mset defined + mset undefined_tests"
      "mset defined = mset added + mset dropped_tests"
  shows "runs_exactly lib s0 main (set declared - set (undefined_tests @ dropped_tests))"
proof -
  note r = registered_sets [OF names]
  show ?thesis
    unfolding runs_exactly_def main r(4) [symmetric]
    by (intro allI check_library.suite_main_exit [OF assms(1) r(1,2)])
qed

subsection \<open>Properties\<close>

text \<open>
  C31.  For each of the twelve suites: the tests that \<open>main\<close> adds have a \<open>DEFINE_TEST\<close>, and those a declaration in the header, and the program ends with the
  exit code 0 exactly when all tests that its header declares pass.  There are three exceptions, tests that are declared and not run:
  \<open>hsa_init_MAX\<close> of \<open>hsa_api\<close>, whose \<open>ADD_TEST\<close> is commented out, and two of \<open>hsa_queue\<close>, \<open>queue_write_index_load_store_atomic\<close>, likewise, and
  \<open>concurrent_queue_create\<close>, which has no \<open>DEFINE_TEST\<close>.
\<close>

theorem suites_run_their_tests:
  assumes "check_library lib objects s0"
  shows "runs_exactly lib s0 hsa_agent_main (set hsa_agent_declared) \<and>
    runs_exactly lib s0 hsa_api_main (set hsa_api_declared - {''hsa_init_MAX''}) \<and>
    runs_exactly lib s0 hsa_aql_main (set hsa_aql_declared) \<and>
    runs_exactly lib s0 hsa_async_main (set hsa_async_declared) \<and>
    runs_exactly lib s0 hsa_code_main (set hsa_code_declared) \<and>
    runs_exactly lib s0 hsa_init_main (set hsa_init_declared) \<and>
    runs_exactly lib s0 hsa_memory_main (set hsa_memory_declared) \<and>
    runs_exactly lib s0 hsa_memory_atomics_main (set hsa_memory_atomics_declared) \<and>
    runs_exactly lib s0 hsa_queue_main (set hsa_queue_declared - {''concurrent_queue_create'', ''queue_write_index_load_store_atomic''}) \<and>
    runs_exactly lib s0 hsa_signals_main (set hsa_signals_declared) \<and>
    runs_exactly lib s0 hsa_ext_api_main (set hsa_ext_api_declared) \<and>
    runs_exactly lib s0 hsa_finalization_main (set hsa_finalization_declared)"
  using runs_exactly_main [where main = hsa_agent_main, OF assms hsa_agent_main_def hsa_agent_distinct hsa_agent_registered]
    runs_exactly_main [where main = hsa_api_main, OF assms hsa_api_main_def hsa_api_distinct hsa_api_registered]
    runs_exactly_main [where main = hsa_aql_main, OF assms hsa_aql_main_def hsa_aql_distinct hsa_aql_registered]
    runs_exactly_main [where main = hsa_async_main, OF assms hsa_async_main_def hsa_async_distinct hsa_async_registered]
    runs_exactly_main [where main = hsa_code_main, OF assms hsa_code_main_def hsa_code_distinct hsa_code_registered]
    runs_exactly_main [where main = hsa_init_main, OF assms hsa_init_main_def hsa_init_distinct hsa_init_registered]
    runs_exactly_main [where main = hsa_memory_main, OF assms hsa_memory_main_def hsa_memory_distinct hsa_memory_registered]
    runs_exactly_main [where main = hsa_memory_atomics_main, OF assms hsa_memory_atomics_main_def hsa_memory_atomics_distinct hsa_memory_atomics_registered]
    runs_exactly_main [where main = hsa_queue_main, OF assms hsa_queue_main_def hsa_queue_distinct hsa_queue_registered]
    runs_exactly_main [where main = hsa_signals_main, OF assms hsa_signals_main_def hsa_signals_distinct hsa_signals_registered]
    runs_exactly_main [where main = hsa_ext_api_main, OF assms hsa_ext_api_main_def hsa_ext_api_distinct hsa_ext_api_registered]
    runs_exactly_main [where main = hsa_finalization_main, OF assms hsa_finalization_main_def hsa_finalization_distinct hsa_finalization_registered]
  by simp

theorem suites_run_their_tests_witness:
  "\<exists>c'. hsa_async_main (reference_check (0 :: nat)) (\<lambda>n s. Some (0 :: int, s)) no_objects = Some (EXIT_SUCCESS, c')"
proof -
  have "runs_exactly (reference_check (0 :: nat)) 0 hsa_async_main (set hsa_async_declared)"
    using suites_run_their_tests [OF ref_check.check_library_axioms [of "0 :: nat"]] by (elim conjE)
  then show ?thesis by (rule runs_exactly_success) simp
qed

text \<open>
  Test functions that are implemented in \<open>core/signals\<close> and are in no list of its suite, so that no program runs them.
\<close>

theorem unregistered_signal_tests:
  "set hsa_signals_declared \<inter>
   {''signal_update_basic'', ''signal_handle_width'', ''signal_value_width'',
    ''signal_add_release_ordering'', ''signal_and_release_ordering'', ''signal_or_release_ordering'',
    ''signal_xor_release_ordering'', ''signal_subtract_release_ordering'', ''signal_subtract_acquire_ordering'',
    ''signal_wait_multiple_agents'', ''signal_wait_timeout'', ''signal_wait_store''} = {}"
  by (simp add: hsa_signals_declared_def)

end
