(* ===== verification/Image_Suites.thy ===== *)
theory Image_Suites
  imports Framework Image_Utils "HOL-Library.Multiset"
begin

text \<open>
  The macros of the programs of the image tests, \<open>extensions/images/clear/hsa_image_clear\<close>, \<open>extensions/images/copy/hsa_image_copy\<close> and
  \<open>extensions/images/import_export/hsa_image_import_export\<close> (\<open>.h\<close> and \<open>.c\<close>).  Their arguments are tokens of the preprocessor, which
  are pasted into the names of test functions and of the enumeration members.
\<close>

datatype type_token =
    SNORM_INT8 | SNORM_INT16 | UNORM_INT8 | UNORM_INT16 | UNORM_INT24 | UNORM_SHORT_555 | UNORM_SHORT_565
  | UNORM_SHORT_101010 | SIGNED_INT8 | SIGNED_INT16 | SIGNED_INT32 | UNSIGNED_INT8 | UNSIGNED_INT16 | UNSIGNED_INT32
  | HALF_FLOAT | FLOAT

datatype order_token =
    CO_A | CO_R | CO_RX | CO_RG | CO_RGX | CO_RA | CO_RGB | CO_RGBX | CO_RGBA | CO_BGRA | CO_ARGB | CO_ABGR | CO_SRGB | CO_SRGBX
  | CO_SRGBA | CO_SBGRA | CO_INTENSITY | CO_LUMINANCE | CO_DEPTH | CO_DEPTH_STENCIL

datatype geometry_token =
    GEO_1D | GEO_2D | GEO_3D | GEO_1DA | GEO_2DA | GEO_1DB | GEO_2DDEPTH | GEO_2DADEPTH

text \<open>The text of a token.\<close>

fun type_text :: "type_token \<Rightarrow> string" where
  "type_text SNORM_INT8 = ''SNORM_INT8''"
| "type_text SNORM_INT16 = ''SNORM_INT16''"
| "type_text UNORM_INT8 = ''UNORM_INT8''"
| "type_text UNORM_INT16 = ''UNORM_INT16''"
| "type_text UNORM_INT24 = ''UNORM_INT24''"
| "type_text UNORM_SHORT_555 = ''UNORM_SHORT_555''"
| "type_text UNORM_SHORT_565 = ''UNORM_SHORT_565''"
| "type_text UNORM_SHORT_101010 = ''UNORM_SHORT_101010''"
| "type_text SIGNED_INT8 = ''SIGNED_INT8''"
| "type_text SIGNED_INT16 = ''SIGNED_INT16''"
| "type_text SIGNED_INT32 = ''SIGNED_INT32''"
| "type_text UNSIGNED_INT8 = ''UNSIGNED_INT8''"
| "type_text UNSIGNED_INT16 = ''UNSIGNED_INT16''"
| "type_text UNSIGNED_INT32 = ''UNSIGNED_INT32''"
| "type_text HALF_FLOAT = ''HALF_FLOAT''"
| "type_text FLOAT = ''FLOAT''"

fun order_text :: "order_token \<Rightarrow> string" where
  "order_text CO_A = ''A''"
| "order_text CO_R = ''R''"
| "order_text CO_RX = ''RX''"
| "order_text CO_RG = ''RG''"
| "order_text CO_RGX = ''RGX''"
| "order_text CO_RA = ''RA''"
| "order_text CO_RGB = ''RGB''"
| "order_text CO_RGBX = ''RGBX''"
| "order_text CO_RGBA = ''RGBA''"
| "order_text CO_BGRA = ''BGRA''"
| "order_text CO_ARGB = ''ARGB''"
| "order_text CO_ABGR = ''ABGR''"
| "order_text CO_SRGB = ''SRGB''"
| "order_text CO_SRGBX = ''SRGBX''"
| "order_text CO_SRGBA = ''SRGBA''"
| "order_text CO_SBGRA = ''SBGRA''"
| "order_text CO_INTENSITY = ''INTENSITY''"
| "order_text CO_LUMINANCE = ''LUMINANCE''"
| "order_text CO_DEPTH = ''DEPTH''"
| "order_text CO_DEPTH_STENCIL = ''DEPTH_STENCIL''"

fun geometry_text :: "geometry_token \<Rightarrow> string" where
  "geometry_text GEO_1D = ''1D''"
| "geometry_text GEO_2D = ''2D''"
| "geometry_text GEO_3D = ''3D''"
| "geometry_text GEO_1DA = ''1DA''"
| "geometry_text GEO_2DA = ''2DA''"
| "geometry_text GEO_1DB = ''1DB''"
| "geometry_text GEO_2DDEPTH = ''2DDEPTH''"
| "geometry_text GEO_2DADEPTH = ''2DADEPTH''"

text \<open>The members of the enumerations with a token at the end of their names.\<close>

fun CHANNEL_TYPE :: "type_token \<Rightarrow> hsa_ext_image_channel_type_t" where
  "CHANNEL_TYPE SNORM_INT8 = HSA_EXT_IMAGE_CHANNEL_TYPE_SNORM_INT8"
| "CHANNEL_TYPE SNORM_INT16 = HSA_EXT_IMAGE_CHANNEL_TYPE_SNORM_INT16"
| "CHANNEL_TYPE UNORM_INT8 = HSA_EXT_IMAGE_CHANNEL_TYPE_UNORM_INT8"
| "CHANNEL_TYPE UNORM_INT16 = HSA_EXT_IMAGE_CHANNEL_TYPE_UNORM_INT16"
| "CHANNEL_TYPE UNORM_INT24 = HSA_EXT_IMAGE_CHANNEL_TYPE_UNORM_INT24"
| "CHANNEL_TYPE UNORM_SHORT_555 = HSA_EXT_IMAGE_CHANNEL_TYPE_UNORM_SHORT_555"
| "CHANNEL_TYPE UNORM_SHORT_565 = HSA_EXT_IMAGE_CHANNEL_TYPE_UNORM_SHORT_565"
| "CHANNEL_TYPE UNORM_SHORT_101010 = HSA_EXT_IMAGE_CHANNEL_TYPE_UNORM_SHORT_101010"
| "CHANNEL_TYPE SIGNED_INT8 = HSA_EXT_IMAGE_CHANNEL_TYPE_SIGNED_INT8"
| "CHANNEL_TYPE SIGNED_INT16 = HSA_EXT_IMAGE_CHANNEL_TYPE_SIGNED_INT16"
| "CHANNEL_TYPE SIGNED_INT32 = HSA_EXT_IMAGE_CHANNEL_TYPE_SIGNED_INT32"
| "CHANNEL_TYPE UNSIGNED_INT8 = HSA_EXT_IMAGE_CHANNEL_TYPE_UNSIGNED_INT8"
| "CHANNEL_TYPE UNSIGNED_INT16 = HSA_EXT_IMAGE_CHANNEL_TYPE_UNSIGNED_INT16"
| "CHANNEL_TYPE UNSIGNED_INT32 = HSA_EXT_IMAGE_CHANNEL_TYPE_UNSIGNED_INT32"
| "CHANNEL_TYPE HALF_FLOAT = HSA_EXT_IMAGE_CHANNEL_TYPE_HALF_FLOAT"
| "CHANNEL_TYPE FLOAT = HSA_EXT_IMAGE_CHANNEL_TYPE_FLOAT"

fun CHANNEL_ORDER :: "order_token \<Rightarrow> hsa_ext_image_channel_order_t" where
  "CHANNEL_ORDER CO_A = HSA_EXT_IMAGE_CHANNEL_ORDER_A"
| "CHANNEL_ORDER CO_R = HSA_EXT_IMAGE_CHANNEL_ORDER_R"
| "CHANNEL_ORDER CO_RX = HSA_EXT_IMAGE_CHANNEL_ORDER_RX"
| "CHANNEL_ORDER CO_RG = HSA_EXT_IMAGE_CHANNEL_ORDER_RG"
| "CHANNEL_ORDER CO_RGX = HSA_EXT_IMAGE_CHANNEL_ORDER_RGX"
| "CHANNEL_ORDER CO_RA = HSA_EXT_IMAGE_CHANNEL_ORDER_RA"
| "CHANNEL_ORDER CO_RGB = HSA_EXT_IMAGE_CHANNEL_ORDER_RGB"
| "CHANNEL_ORDER CO_RGBX = HSA_EXT_IMAGE_CHANNEL_ORDER_RGBX"
| "CHANNEL_ORDER CO_RGBA = HSA_EXT_IMAGE_CHANNEL_ORDER_RGBA"
| "CHANNEL_ORDER CO_BGRA = HSA_EXT_IMAGE_CHANNEL_ORDER_BGRA"
| "CHANNEL_ORDER CO_ARGB = HSA_EXT_IMAGE_CHANNEL_ORDER_ARGB"
| "CHANNEL_ORDER CO_ABGR = HSA_EXT_IMAGE_CHANNEL_ORDER_ABGR"
| "CHANNEL_ORDER CO_SRGB = HSA_EXT_IMAGE_CHANNEL_ORDER_SRGB"
| "CHANNEL_ORDER CO_SRGBX = HSA_EXT_IMAGE_CHANNEL_ORDER_SRGBX"
| "CHANNEL_ORDER CO_SRGBA = HSA_EXT_IMAGE_CHANNEL_ORDER_SRGBA"
| "CHANNEL_ORDER CO_SBGRA = HSA_EXT_IMAGE_CHANNEL_ORDER_SBGRA"
| "CHANNEL_ORDER CO_INTENSITY = HSA_EXT_IMAGE_CHANNEL_ORDER_INTENSITY"
| "CHANNEL_ORDER CO_LUMINANCE = HSA_EXT_IMAGE_CHANNEL_ORDER_LUMINANCE"
| "CHANNEL_ORDER CO_DEPTH = HSA_EXT_IMAGE_CHANNEL_ORDER_DEPTH"
| "CHANNEL_ORDER CO_DEPTH_STENCIL = HSA_EXT_IMAGE_CHANNEL_ORDER_DEPTH_STENCIL"

fun GEOMETRY :: "geometry_token \<Rightarrow> hsa_ext_image_geometry_t" where
  "GEOMETRY GEO_1D = HSA_EXT_IMAGE_GEOMETRY_1D"
| "GEOMETRY GEO_2D = HSA_EXT_IMAGE_GEOMETRY_2D"
| "GEOMETRY GEO_3D = HSA_EXT_IMAGE_GEOMETRY_3D"
| "GEOMETRY GEO_1DA = HSA_EXT_IMAGE_GEOMETRY_1DA"
| "GEOMETRY GEO_2DA = HSA_EXT_IMAGE_GEOMETRY_2DA"
| "GEOMETRY GEO_1DB = HSA_EXT_IMAGE_GEOMETRY_1DB"
| "GEOMETRY GEO_2DDEPTH = HSA_EXT_IMAGE_GEOMETRY_2DDEPTH"
| "GEOMETRY GEO_2DADEPTH = HSA_EXT_IMAGE_GEOMETRY_2DADEPTH"

record hsa_ext_image_format =
  channel_type :: hsa_ext_image_channel_type_t
  channel_order :: hsa_ext_image_channel_order_t

type_synonym image_test = "type_token \<times> order_token \<times> geometry_token"

text \<open>The separator \<open>__sep__\<close> is an underscore in all uses of the macros.\<close>

fun image_test_name :: "string \<Rightarrow> image_test \<Rightarrow> string" where
  "image_test_name prefix (ty, ord, geo) =
     prefix @ type_text ty @ ''_'' @ order_text ord @ ''_'' @ geometry_text geo"

text \<open>
  The three macros that define a test function have the same body but for the function they call, \<open>test_image_clear\<close>,
  \<open>test_image_copy\<close> or \<open>test_image_import_export\<close>, whose result they ignore.
\<close>

definition IMAGE_TEST ::
  "(hsa_ext_image_format \<Rightarrow> hsa_ext_image_geometry_t \<Rightarrow> 's \<Rightarrow> (int \<times> 's) option) \<Rightarrow> image_test \<Rightarrow> 's \<Rightarrow> (int \<times> 's) option"
where
  "IMAGE_TEST test_image t s =
     (case t of (ty, ord, geo) \<Rightarrow> do {
        let image_format = \<lparr>channel_type = CHANNEL_TYPE ty, channel_order = CHANNEL_ORDER ord\<rparr>;
        let image_geometry = GEOMETRY geo;
        (_, s) \<leftarrow> test_image image_format image_geometry s;
        Some (0, s)
      })"

definition IMAGE_CLEAR_TEST where
  "IMAGE_CLEAR_TEST test_image_clear t s = IMAGE_TEST test_image_clear t s"

definition IMAGE_COPY_TEST where
  "IMAGE_COPY_TEST test_image_copy t s = IMAGE_TEST test_image_copy t s"

definition IMAGE_IMPORT_EXPORT_TEST where
  "IMAGE_IMPORT_EXPORT_TEST test_image_import_export t s = IMAGE_TEST test_image_import_export t s"

named_theorems suite_tables \<open>the tables of the programs\<close>

subsection \<open>Rows of tests\<close>

text \<open>
  The lists of tests are sorted by channel type and channel order; a row of a table is an order with the geometries
  of its lines.
\<close>

definition test_rows :: "type_token \<Rightarrow> (order_token \<times> geometry_token list) list \<Rightarrow> image_test list" where
  "test_rows ty rows = concat (map (\<lambda>(ord, geos). map (\<lambda>geo. (ty, ord, geo)) geos) rows)"

definition colour_geometries :: "geometry_token list" where
  "colour_geometries = [GEO_1D, GEO_2D, GEO_3D, GEO_1DA, GEO_2DA, GEO_1DB]"

definition depth_geometries :: "geometry_token list" where
  "depth_geometries = [GEO_2DDEPTH, GEO_2DADEPTH]"

lemma set_test_rows: "(ty', ord, geo) \<in> set (test_rows ty rows) \<longleftrightarrow>
    ty' = ty \<and> (\<exists>geos. (ord, geos) \<in> set rows \<and> geo \<in> set geos)"
  by (auto simp: test_rows_def)

lemma distinct_test_rows:
  assumes "distinct (map fst rows)" "list_all (\<lambda>(ord, geos). distinct geos) rows"
  shows "distinct (test_rows ty rows)"
  using assms
proof (induction rows)
  case Nil
  then show ?case by (simp add: test_rows_def)
next
  case (Cons r rows)
  obtain ord geos where r: "r = (ord, geos)" by (cases r)
  have split: "test_rows ty (r # rows) = map (\<lambda>geo. (ty, ord, geo)) geos @ test_rows ty rows"
    by (simp add: test_rows_def r)
  have "(ty, ord, geo) \<notin> set (test_rows ty rows)" for geo
    using Cons.prems(1) r by (force simp: set_test_rows)
  then show ?case
    unfolding split using Cons r by (auto simp: distinct_map inj_on_def)
qed

text \<open>The tables of different types have no test in common.\<close>

fun typed_tables :: "(type_token \<times> image_test list) list \<Rightarrow> bool" where
  "typed_tables [] = True"
| "typed_tables ((ty, ts) # tables) = (distinct ts \<and> (\<forall>t \<in> set ts. fst t = ty) \<and> ty \<notin> fst ` set tables \<and> typed_tables tables)"

lemma typed_tables_fst: "typed_tables tables \<Longrightarrow> (ty, ts) \<in> set tables \<Longrightarrow> t \<in> set ts \<Longrightarrow> fst t = ty"
  by (induction tables rule: typed_tables.induct) auto

lemma typed_tables_distinct: "typed_tables tables \<Longrightarrow> distinct (concat (map snd tables))"
proof (induction tables rule: typed_tables.induct)
  case (2 ty ts tables)
  have "fst t \<noteq> ty" if "(ty', ts') \<in> set tables" "t \<in> set ts'" for ty' ts' t
    using typed_tables_fst [OF _ that] that(1) "2.prems" by force
  then have "set ts \<inter> set (concat (map snd tables)) = {}"
    using "2.prems" by fastforce
  then show ?case using 2 by simp
qed simp

lemma fst_test_rows: "\<forall>t \<in> set (test_rows ty rows). fst t = ty"
  by (auto simp: test_rows_def)

subsection \<open>Names\<close>

text \<open>Two tests of a program have different names.\<close>

lemma type_text_inj: "type_text ty @ CHR ''_'' # xs = type_text ty' @ CHR ''_'' # ys \<Longrightarrow> ty = ty' \<and> xs = ys"
  by (cases ty; cases ty') simp_all

lemma order_text_inj: "order_text ord @ CHR ''_'' # geometry_text geo = order_text ord' @ CHR ''_'' # geometry_text geo' \<Longrightarrow>
    ord = ord' \<and> geometry_text geo = geometry_text geo'"
  by (cases ord; cases ord'; simp; cases geo; cases geo'; simp)

lemma geometry_text_inj: "geometry_text geo = geometry_text geo' \<Longrightarrow> geo = geo'"
  by (cases geo; cases geo') simp_all

lemma image_test_name_inj: "image_test_name prefix t = image_test_name prefix t' \<longleftrightarrow> t = t'"
  by (cases t; cases t') (auto dest!: type_text_inj order_text_inj geometry_text_inj)

lemma distinct_names: "distinct (map (image_test_name prefix) ts) = distinct ts"
  by (simp add: distinct_map inj_on_def image_test_name_inj)

subsection \<open>The exit code of an image suite\<close>

lemma IMAGE_TEST_passes:
  "passes (IMAGE_TEST f (ty, ord, geo) s) (\<lambda>(error, s). error = 0) \<longleftrightarrow>
   passes (f \<lparr>channel_type = CHANNEL_TYPE ty, channel_order = CHANNEL_ORDER ord\<rparr> (GEOMETRY geo) s) (\<lambda>_. True)"
  by (auto simp: IMAGE_TEST_def passes_def split: option.splits bind_splits)

lemma image_suite_exit:
  assumes "check_library lib objects s0"
    and test: "\<And>f t s. IMAGE f t s = IMAGE_TEST f t s"
    and main: "\<And>lib f c. main lib f c = suite_main lib (image_test_name prefix) declared defined added (IMAGE f) c"
    and sets: "set defined \<subseteq> set declared" "set added = set declared" "set added \<subseteq> set defined"
  shows "\<exists>c'. main lib f c = Some
    (if \<forall>(ty, ord, geo) \<in> set declared. passes (f
         \<lparr>channel_type = CHANNEL_TYPE ty, channel_order = CHANNEL_ORDER ord\<rparr> (GEOMETRY geo) s0) (\<lambda>_. True)
     then EXIT_SUCCESS else EXIT_FAILURE, c')"
proof -
  have "(\<forall>t \<in> set added. passes (IMAGE f t s0) (\<lambda>(error, s). error = 0)) \<longleftrightarrow>
      (\<forall>(ty, ord, geo) \<in> set declared. passes (f
         \<lparr>channel_type = CHANNEL_TYPE ty, channel_order = CHANNEL_ORDER ord\<rparr> (GEOMETRY geo) s0) (\<lambda>_. True))"
    unfolding sets(2) test using IMAGE_TEST_passes by fastforce
  then show ?thesis
    using check_library.suite_main_exit [OF assms(1) sets(1,3), of "image_test_name prefix" "IMAGE f" c]
    by (simp add: main)
qed

end
