(* ===== verification/Image_Copy_Suite.thy ===== *)
theory Image_Copy_Suite
  imports Image_Suites
begin

text \<open>
  The program \<open>extensions/images/copy/hsa_image_copy\<close>: its test functions, the tests of Check, and \<open>main\<close>, channel type by
  channel type.
\<close>

subsection \<open>The test functions, in the header.\<close>

definition image_copy_tests_SNORM_INT8 :: "image_test list" where [suite_tables]:
  "image_copy_tests_SNORM_INT8 = test_rows SNORM_INT8
     [(CO_A, colour_geometries), (CO_R, colour_geometries), (CO_RX, colour_geometries), (CO_RG, colour_geometries),
      (CO_RGX, colour_geometries), (CO_RA, colour_geometries), (CO_RGBA, colour_geometries),
      (CO_BGRA, colour_geometries), (CO_ARGB, colour_geometries), (CO_ABGR, colour_geometries),
      (CO_INTENSITY, colour_geometries), (CO_LUMINANCE, depth_geometries)]"

definition image_copy_tests_SNORM_INT16 :: "image_test list" where [suite_tables]:
  "image_copy_tests_SNORM_INT16 = test_rows SNORM_INT16
     [(CO_A, colour_geometries), (CO_R, colour_geometries), (CO_RX, colour_geometries), (CO_RG, colour_geometries),
      (CO_RGX, colour_geometries), (CO_RA, colour_geometries), (CO_RGBA, colour_geometries),
      (CO_INTENSITY, colour_geometries), (CO_LUMINANCE, depth_geometries)]"

definition image_copy_tests_UNORM_INT8 :: "image_test list" where [suite_tables]:
  "image_copy_tests_UNORM_INT8 = test_rows UNORM_INT8
     [(CO_A, colour_geometries), (CO_R, colour_geometries), (CO_RX, colour_geometries), (CO_RG, colour_geometries),
      (CO_RGX, colour_geometries), (CO_RA, colour_geometries), (CO_RGBA, colour_geometries),
      (CO_BGRA, colour_geometries), (CO_ARGB, colour_geometries), (CO_ABGR, colour_geometries),
      (CO_SRGB, colour_geometries), (CO_SRGBX, colour_geometries), (CO_SRGBA, colour_geometries),
      (CO_SBGRA, colour_geometries), (CO_INTENSITY, colour_geometries), (CO_LUMINANCE, depth_geometries)]"

definition image_copy_tests_UNORM_INT16 :: "image_test list" where [suite_tables]:
  "image_copy_tests_UNORM_INT16 = test_rows UNORM_INT16
     [(CO_A, colour_geometries), (CO_R, colour_geometries), (CO_RX, colour_geometries), (CO_RG, colour_geometries),
      (CO_RGX, colour_geometries), (CO_RA, colour_geometries), (CO_RGBA, colour_geometries),
      (CO_INTENSITY, colour_geometries), (CO_LUMINANCE, depth_geometries), (CO_DEPTH, depth_geometries)]"

definition image_copy_tests_UNORM_INT24 :: "image_test list" where [suite_tables]:
  "image_copy_tests_UNORM_INT24 = test_rows UNORM_INT24
     [(CO_DEPTH, depth_geometries), (CO_DEPTH_STENCIL, depth_geometries)]"

definition image_copy_tests_UNORM_SHORT_555 :: "image_test list" where [suite_tables]:
  "image_copy_tests_UNORM_SHORT_555 = test_rows UNORM_SHORT_555
     [(CO_RGB, colour_geometries), (CO_RGBX, colour_geometries)]"

definition image_copy_tests_UNORM_SHORT_565 :: "image_test list" where [suite_tables]:
  "image_copy_tests_UNORM_SHORT_565 = test_rows UNORM_SHORT_565
     [(CO_RGB, colour_geometries), (CO_RGBX, colour_geometries)]"

definition image_copy_tests_UNORM_SHORT_101010 :: "image_test list" where [suite_tables]:
  "image_copy_tests_UNORM_SHORT_101010 = test_rows UNORM_SHORT_101010
     [(CO_RGB, colour_geometries), (CO_RGBX, colour_geometries)]"

definition image_copy_tests_SIGNED_INT8 :: "image_test list" where [suite_tables]:
  "image_copy_tests_SIGNED_INT8 = test_rows SIGNED_INT8
     [(CO_A, colour_geometries), (CO_R, colour_geometries), (CO_RX, colour_geometries), (CO_RG, colour_geometries),
      (CO_RGX, colour_geometries), (CO_RA, colour_geometries), (CO_RGBA, colour_geometries),
      (CO_BGRA, colour_geometries), (CO_ARGB, colour_geometries), (CO_ABGR, colour_geometries)]"

definition image_copy_tests_SIGNED_INT16 :: "image_test list" where [suite_tables]:
  "image_copy_tests_SIGNED_INT16 = test_rows SIGNED_INT16
     [(CO_A, colour_geometries), (CO_R, colour_geometries), (CO_RX, colour_geometries), (CO_RG, colour_geometries),
      (CO_RGX, colour_geometries), (CO_RA, colour_geometries), (CO_RGBA, colour_geometries)]"

definition image_copy_tests_SIGNED_INT32 :: "image_test list" where [suite_tables]:
  "image_copy_tests_SIGNED_INT32 = test_rows SIGNED_INT32
     [(CO_A, colour_geometries), (CO_R, colour_geometries), (CO_RX, colour_geometries), (CO_RG, colour_geometries),
      (CO_RGX, colour_geometries), (CO_RA, colour_geometries), (CO_RGBA, colour_geometries)]"

definition image_copy_tests_UNSIGNED_INT8 :: "image_test list" where [suite_tables]:
  "image_copy_tests_UNSIGNED_INT8 = test_rows UNSIGNED_INT8
     [(CO_A, colour_geometries), (CO_R, colour_geometries), (CO_RX, colour_geometries), (CO_RG, colour_geometries),
      (CO_RGX, colour_geometries), (CO_RA, colour_geometries), (CO_RGBA, colour_geometries),
      (CO_BGRA, colour_geometries), (CO_ARGB, colour_geometries), (CO_ABGR, colour_geometries)]"

definition image_copy_tests_UNSIGNED_INT16 :: "image_test list" where [suite_tables]:
  "image_copy_tests_UNSIGNED_INT16 = test_rows UNSIGNED_INT16
     [(CO_A, colour_geometries), (CO_R, colour_geometries), (CO_RX, colour_geometries), (CO_RG, colour_geometries),
      (CO_RGX, colour_geometries), (CO_RA, colour_geometries), (CO_RGBA, colour_geometries)]"

definition image_copy_tests_UNSIGNED_INT32 :: "image_test list" where [suite_tables]:
  "image_copy_tests_UNSIGNED_INT32 = test_rows UNSIGNED_INT32
     [(CO_A, colour_geometries), (CO_R, colour_geometries), (CO_RX, colour_geometries), (CO_RG, colour_geometries),
      (CO_RGX, colour_geometries), (CO_RA, colour_geometries), (CO_RGBA, colour_geometries)]"

definition image_copy_tests_HALF_FLOAT :: "image_test list" where [suite_tables]:
  "image_copy_tests_HALF_FLOAT = test_rows HALF_FLOAT
     [(CO_A, colour_geometries), (CO_R, colour_geometries), (CO_RX, colour_geometries), (CO_RG, colour_geometries),
      (CO_RGX, colour_geometries), (CO_RA, colour_geometries), (CO_RGBA, colour_geometries),
      (CO_INTENSITY, colour_geometries), (CO_LUMINANCE, depth_geometries)]"

definition image_copy_tests_FLOAT :: "image_test list" where [suite_tables]:
  "image_copy_tests_FLOAT = test_rows FLOAT
     [(CO_A, colour_geometries), (CO_R, colour_geometries), (CO_RX, colour_geometries), (CO_RG, colour_geometries),
      (CO_RGX, colour_geometries), (CO_RA, colour_geometries), (CO_RGBA, colour_geometries),
      (CO_INTENSITY, colour_geometries), (CO_LUMINANCE, depth_geometries), (CO_DEPTH, depth_geometries),
      (CO_DEPTH_STENCIL, depth_geometries)]"

definition image_copy_tests :: "image_test list" where
  "image_copy_tests =
     concat [image_copy_tests_SNORM_INT8, image_copy_tests_SNORM_INT16, image_copy_tests_UNORM_INT8,
      image_copy_tests_UNORM_INT16, image_copy_tests_UNORM_INT24, image_copy_tests_UNORM_SHORT_555,
      image_copy_tests_UNORM_SHORT_565, image_copy_tests_UNORM_SHORT_101010, image_copy_tests_SIGNED_INT8,
      image_copy_tests_SIGNED_INT16, image_copy_tests_SIGNED_INT32, image_copy_tests_UNSIGNED_INT8,
      image_copy_tests_UNSIGNED_INT16, image_copy_tests_UNSIGNED_INT32, image_copy_tests_HALF_FLOAT,
      image_copy_tests_FLOAT]"

subsection \<open>The uses of the macro that defines tests of Check.\<close>

definition image_copy_defined_SNORM_INT8 :: "image_test list" where [suite_tables]:
  "image_copy_defined_SNORM_INT8 = test_rows SNORM_INT8
     [(CO_A, colour_geometries), (CO_R, colour_geometries), (CO_RX, colour_geometries), (CO_RG, colour_geometries),
      (CO_RGX, colour_geometries), (CO_RA, colour_geometries), (CO_RGBA, colour_geometries),
      (CO_BGRA, colour_geometries), (CO_ARGB, colour_geometries), (CO_ABGR, colour_geometries),
      (CO_INTENSITY, colour_geometries), (CO_LUMINANCE, depth_geometries)]"

definition image_copy_defined_SNORM_INT16 :: "image_test list" where [suite_tables]:
  "image_copy_defined_SNORM_INT16 = test_rows SNORM_INT16
     [(CO_A, colour_geometries), (CO_R, colour_geometries), (CO_RX, colour_geometries), (CO_RG, colour_geometries),
      (CO_RGX, colour_geometries), (CO_RA, colour_geometries), (CO_RGBA, colour_geometries),
      (CO_INTENSITY, colour_geometries), (CO_LUMINANCE, depth_geometries)]"

definition image_copy_defined_UNORM_INT8 :: "image_test list" where [suite_tables]:
  "image_copy_defined_UNORM_INT8 = test_rows UNORM_INT8
     [(CO_A, colour_geometries), (CO_R, colour_geometries), (CO_RX, colour_geometries), (CO_RG, colour_geometries),
      (CO_RGX, colour_geometries), (CO_RA, colour_geometries), (CO_RGBA, colour_geometries),
      (CO_BGRA, colour_geometries), (CO_ARGB, colour_geometries), (CO_ABGR, colour_geometries),
      (CO_SRGB, colour_geometries), (CO_SRGBX, colour_geometries), (CO_SRGBA, colour_geometries),
      (CO_SBGRA, colour_geometries), (CO_INTENSITY, colour_geometries), (CO_LUMINANCE, depth_geometries)]"

definition image_copy_defined_UNORM_INT16 :: "image_test list" where [suite_tables]:
  "image_copy_defined_UNORM_INT16 = test_rows UNORM_INT16
     [(CO_A, colour_geometries), (CO_R, colour_geometries), (CO_RX, colour_geometries), (CO_RG, colour_geometries),
      (CO_RGX, colour_geometries), (CO_RA, colour_geometries), (CO_RGBA, colour_geometries),
      (CO_INTENSITY, colour_geometries), (CO_LUMINANCE, depth_geometries), (CO_DEPTH, depth_geometries)]"

definition image_copy_defined_UNORM_INT24 :: "image_test list" where [suite_tables]:
  "image_copy_defined_UNORM_INT24 = test_rows UNORM_INT24
     [(CO_DEPTH, depth_geometries), (CO_DEPTH_STENCIL, depth_geometries)]"

definition image_copy_defined_UNORM_SHORT_555 :: "image_test list" where [suite_tables]:
  "image_copy_defined_UNORM_SHORT_555 = test_rows UNORM_SHORT_555
     [(CO_RGB, colour_geometries), (CO_RGBX, colour_geometries)]"

definition image_copy_defined_UNORM_SHORT_565 :: "image_test list" where [suite_tables]:
  "image_copy_defined_UNORM_SHORT_565 = test_rows UNORM_SHORT_565
     [(CO_RGB, colour_geometries), (CO_RGBX, colour_geometries)]"

definition image_copy_defined_UNORM_SHORT_101010 :: "image_test list" where [suite_tables]:
  "image_copy_defined_UNORM_SHORT_101010 = test_rows UNORM_SHORT_101010
     [(CO_RGB, colour_geometries), (CO_RGBX, colour_geometries)]"

definition image_copy_defined_SIGNED_INT8 :: "image_test list" where [suite_tables]:
  "image_copy_defined_SIGNED_INT8 = test_rows SIGNED_INT8
     [(CO_A, colour_geometries), (CO_R, colour_geometries), (CO_RX, colour_geometries), (CO_RG, colour_geometries),
      (CO_RGX, colour_geometries), (CO_RA, colour_geometries), (CO_RGBA, colour_geometries),
      (CO_BGRA, colour_geometries), (CO_ARGB, colour_geometries), (CO_ABGR, colour_geometries)]"

definition image_copy_defined_SIGNED_INT16 :: "image_test list" where [suite_tables]:
  "image_copy_defined_SIGNED_INT16 = test_rows SIGNED_INT16
     [(CO_A, colour_geometries), (CO_R, colour_geometries), (CO_RX, colour_geometries), (CO_RG, colour_geometries),
      (CO_RGX, colour_geometries), (CO_RA, colour_geometries), (CO_RGBA, colour_geometries)]"

definition image_copy_defined_SIGNED_INT32 :: "image_test list" where [suite_tables]:
  "image_copy_defined_SIGNED_INT32 = test_rows SIGNED_INT32
     [(CO_A, colour_geometries), (CO_R, colour_geometries), (CO_RX, colour_geometries), (CO_RG, colour_geometries),
      (CO_RGX, colour_geometries), (CO_RA, colour_geometries), (CO_RGBA, colour_geometries)]"

definition image_copy_defined_UNSIGNED_INT8 :: "image_test list" where [suite_tables]:
  "image_copy_defined_UNSIGNED_INT8 = test_rows UNSIGNED_INT8
     [(CO_A, colour_geometries), (CO_R, colour_geometries), (CO_RX, colour_geometries), (CO_RG, colour_geometries),
      (CO_RGX, colour_geometries), (CO_RA, colour_geometries), (CO_RGBA, colour_geometries),
      (CO_BGRA, colour_geometries), (CO_ARGB, colour_geometries), (CO_ABGR, colour_geometries)]"

definition image_copy_defined_UNSIGNED_INT16 :: "image_test list" where [suite_tables]:
  "image_copy_defined_UNSIGNED_INT16 = test_rows UNSIGNED_INT16
     [(CO_A, colour_geometries), (CO_R, colour_geometries), (CO_RX, colour_geometries), (CO_RG, colour_geometries),
      (CO_RGX, colour_geometries), (CO_RA, colour_geometries), (CO_RGBA, colour_geometries)]"

definition image_copy_defined_UNSIGNED_INT32 :: "image_test list" where [suite_tables]:
  "image_copy_defined_UNSIGNED_INT32 = test_rows UNSIGNED_INT32
     [(CO_A, colour_geometries), (CO_R, colour_geometries), (CO_RX, colour_geometries), (CO_RG, colour_geometries),
      (CO_RGX, colour_geometries), (CO_RA, colour_geometries), (CO_RGBA, colour_geometries)]"

definition image_copy_defined_HALF_FLOAT :: "image_test list" where [suite_tables]:
  "image_copy_defined_HALF_FLOAT = test_rows HALF_FLOAT
     [(CO_A, colour_geometries), (CO_R, colour_geometries), (CO_RX, colour_geometries), (CO_RG, colour_geometries),
      (CO_RGX, colour_geometries), (CO_RA, colour_geometries), (CO_RGBA, colour_geometries),
      (CO_INTENSITY, colour_geometries), (CO_LUMINANCE, depth_geometries)]"

definition image_copy_defined_FLOAT :: "image_test list" where [suite_tables]:
  "image_copy_defined_FLOAT = test_rows FLOAT
     [(CO_A, colour_geometries), (CO_R, colour_geometries), (CO_RX, colour_geometries), (CO_RG, colour_geometries),
      (CO_RGX, colour_geometries), (CO_RA, colour_geometries), (CO_RGBA, colour_geometries),
      (CO_INTENSITY, colour_geometries), (CO_LUMINANCE, depth_geometries), (CO_DEPTH, depth_geometries),
      (CO_DEPTH_STENCIL, depth_geometries)]"

definition image_copy_defined :: "image_test list" where
  "image_copy_defined =
     concat [image_copy_defined_SNORM_INT8, image_copy_defined_SNORM_INT16, image_copy_defined_UNORM_INT8,
      image_copy_defined_UNORM_INT16, image_copy_defined_UNORM_INT24, image_copy_defined_UNORM_SHORT_555,
      image_copy_defined_UNORM_SHORT_565, image_copy_defined_UNORM_SHORT_101010, image_copy_defined_SIGNED_INT8,
      image_copy_defined_SIGNED_INT16, image_copy_defined_SIGNED_INT32, image_copy_defined_UNSIGNED_INT8,
      image_copy_defined_UNSIGNED_INT16, image_copy_defined_UNSIGNED_INT32, image_copy_defined_HALF_FLOAT,
      image_copy_defined_FLOAT]"

subsection \<open>The tests that \<open>main\<close> adds.\<close>

definition image_copy_added_SNORM_INT8 :: "image_test list" where [suite_tables]:
  "image_copy_added_SNORM_INT8 = test_rows SNORM_INT8
     [(CO_A, colour_geometries), (CO_R, colour_geometries), (CO_RX, colour_geometries), (CO_RG, colour_geometries),
      (CO_RGX, colour_geometries), (CO_RA, colour_geometries), (CO_RGBA, colour_geometries),
      (CO_BGRA, colour_geometries), (CO_ARGB, colour_geometries), (CO_ABGR, colour_geometries),
      (CO_INTENSITY, colour_geometries), (CO_LUMINANCE, depth_geometries)]"

definition image_copy_added_SNORM_INT16 :: "image_test list" where [suite_tables]:
  "image_copy_added_SNORM_INT16 = test_rows SNORM_INT16
     [(CO_A, colour_geometries), (CO_R, colour_geometries), (CO_RX, colour_geometries), (CO_RG, colour_geometries),
      (CO_RGX, colour_geometries), (CO_RA, colour_geometries), (CO_RGBA, colour_geometries),
      (CO_INTENSITY, colour_geometries), (CO_LUMINANCE, depth_geometries)]"

definition image_copy_added_UNORM_INT8 :: "image_test list" where [suite_tables]:
  "image_copy_added_UNORM_INT8 = test_rows UNORM_INT8
     [(CO_A, colour_geometries), (CO_R, colour_geometries), (CO_RX, colour_geometries), (CO_RG, colour_geometries),
      (CO_RGX, colour_geometries), (CO_RA, colour_geometries), (CO_RGBA, colour_geometries),
      (CO_BGRA, colour_geometries), (CO_ARGB, colour_geometries), (CO_ABGR, colour_geometries),
      (CO_SRGB, colour_geometries), (CO_SRGBX, colour_geometries), (CO_SRGBA, colour_geometries),
      (CO_SBGRA, colour_geometries), (CO_INTENSITY, colour_geometries), (CO_LUMINANCE, depth_geometries)]"

definition image_copy_added_UNORM_INT16 :: "image_test list" where [suite_tables]:
  "image_copy_added_UNORM_INT16 = test_rows UNORM_INT16
     [(CO_A, colour_geometries), (CO_R, colour_geometries), (CO_RX, colour_geometries), (CO_RG, colour_geometries),
      (CO_RGX, colour_geometries), (CO_RA, colour_geometries), (CO_RGBA, colour_geometries),
      (CO_INTENSITY, colour_geometries), (CO_LUMINANCE, depth_geometries), (CO_DEPTH, depth_geometries)]"

definition image_copy_added_UNORM_INT24 :: "image_test list" where [suite_tables]:
  "image_copy_added_UNORM_INT24 = test_rows UNORM_INT24
     [(CO_DEPTH, depth_geometries), (CO_DEPTH_STENCIL, depth_geometries)]"

definition image_copy_added_UNORM_SHORT_555 :: "image_test list" where [suite_tables]:
  "image_copy_added_UNORM_SHORT_555 = test_rows UNORM_SHORT_555
     [(CO_RGB, colour_geometries), (CO_RGBX, colour_geometries)]"

definition image_copy_added_UNORM_SHORT_565 :: "image_test list" where [suite_tables]:
  "image_copy_added_UNORM_SHORT_565 = test_rows UNORM_SHORT_565
     [(CO_RGB, colour_geometries), (CO_RGBX, colour_geometries)]"

definition image_copy_added_UNORM_SHORT_101010 :: "image_test list" where [suite_tables]:
  "image_copy_added_UNORM_SHORT_101010 = test_rows UNORM_SHORT_101010
     [(CO_RGB, colour_geometries), (CO_RGBX, colour_geometries)]"

definition image_copy_added_SIGNED_INT8 :: "image_test list" where [suite_tables]:
  "image_copy_added_SIGNED_INT8 = test_rows SIGNED_INT8
     [(CO_A, colour_geometries), (CO_R, colour_geometries), (CO_RX, colour_geometries), (CO_RG, colour_geometries),
      (CO_RGX, colour_geometries), (CO_RA, colour_geometries), (CO_RGBA, colour_geometries),
      (CO_BGRA, colour_geometries), (CO_ARGB, colour_geometries), (CO_ABGR, colour_geometries)]"

definition image_copy_added_SIGNED_INT16 :: "image_test list" where [suite_tables]:
  "image_copy_added_SIGNED_INT16 = test_rows SIGNED_INT16
     [(CO_A, colour_geometries), (CO_R, colour_geometries), (CO_RX, colour_geometries), (CO_RG, colour_geometries),
      (CO_RGX, colour_geometries), (CO_RA, colour_geometries), (CO_RGBA, colour_geometries)]"

definition image_copy_added_SIGNED_INT32 :: "image_test list" where [suite_tables]:
  "image_copy_added_SIGNED_INT32 = test_rows SIGNED_INT32
     [(CO_A, colour_geometries), (CO_R, colour_geometries), (CO_RX, colour_geometries), (CO_RG, colour_geometries),
      (CO_RGX, colour_geometries), (CO_RA, colour_geometries), (CO_RGBA, colour_geometries)]"

definition image_copy_added_UNSIGNED_INT8 :: "image_test list" where [suite_tables]:
  "image_copy_added_UNSIGNED_INT8 = test_rows UNSIGNED_INT8
     [(CO_A, colour_geometries), (CO_R, colour_geometries), (CO_RX, colour_geometries), (CO_RG, colour_geometries),
      (CO_RGX, colour_geometries), (CO_RA, colour_geometries), (CO_RGBA, colour_geometries),
      (CO_BGRA, colour_geometries), (CO_ARGB, colour_geometries), (CO_ABGR, colour_geometries)]"

definition image_copy_added_UNSIGNED_INT16 :: "image_test list" where [suite_tables]:
  "image_copy_added_UNSIGNED_INT16 = test_rows UNSIGNED_INT16
     [(CO_A, colour_geometries), (CO_R, colour_geometries), (CO_RX, colour_geometries), (CO_RG, colour_geometries),
      (CO_RGX, colour_geometries), (CO_RA, colour_geometries), (CO_RGBA, colour_geometries)]"

definition image_copy_added_UNSIGNED_INT32 :: "image_test list" where [suite_tables]:
  "image_copy_added_UNSIGNED_INT32 = test_rows UNSIGNED_INT32
     [(CO_A, colour_geometries), (CO_R, colour_geometries), (CO_RX, colour_geometries), (CO_RG, colour_geometries),
      (CO_RGX, colour_geometries), (CO_RA, colour_geometries), (CO_RGBA, colour_geometries)]"

definition image_copy_added_HALF_FLOAT :: "image_test list" where [suite_tables]:
  "image_copy_added_HALF_FLOAT = test_rows HALF_FLOAT
     [(CO_A, colour_geometries), (CO_R, colour_geometries), (CO_RX, colour_geometries), (CO_RG, colour_geometries),
      (CO_RGX, colour_geometries), (CO_RA, colour_geometries), (CO_RGBA, colour_geometries),
      (CO_INTENSITY, colour_geometries), (CO_LUMINANCE, depth_geometries)]"

definition image_copy_added_FLOAT :: "image_test list" where [suite_tables]:
  "image_copy_added_FLOAT = test_rows FLOAT
     [(CO_A, colour_geometries), (CO_R, colour_geometries), (CO_RX, colour_geometries), (CO_RG, colour_geometries),
      (CO_RGX, colour_geometries), (CO_RA, colour_geometries), (CO_RGBA, colour_geometries),
      (CO_INTENSITY, colour_geometries), (CO_LUMINANCE, depth_geometries), (CO_DEPTH, depth_geometries),
      (CO_DEPTH_STENCIL, depth_geometries)]"

text \<open>The first lines of \<open>main\<close> add tests that come again below.\<close>

definition image_copy_added_first :: "image_test list" where
  "image_copy_added_first = [(SNORM_INT8, CO_A, GEO_1DA), (SNORM_INT8, CO_R, GEO_1DA), (SNORM_INT16, CO_R, GEO_1DA)]"

definition image_copy_added :: "image_test list" where
  "image_copy_added = image_copy_added_first @
     concat [image_copy_added_SNORM_INT8, image_copy_added_SNORM_INT16, image_copy_added_UNORM_INT8,
      image_copy_added_UNORM_INT16, image_copy_added_UNORM_INT24, image_copy_added_UNORM_SHORT_555,
      image_copy_added_UNORM_SHORT_565, image_copy_added_UNORM_SHORT_101010, image_copy_added_SIGNED_INT8,
      image_copy_added_SIGNED_INT16, image_copy_added_SIGNED_INT32, image_copy_added_UNSIGNED_INT8,
      image_copy_added_UNSIGNED_INT16, image_copy_added_UNSIGNED_INT32, image_copy_added_HALF_FLOAT,
      image_copy_added_FLOAT]"

definition image_copy_main where
  "image_copy_main lib test_image_copy c =
     suite_main lib (image_test_name ''image_copy_'') image_copy_tests image_copy_defined image_copy_added
       (IMAGE_COPY_TEST test_image_copy) c"

subsection \<open>The lists agree\<close>

lemma image_copy_defined_eq: "image_copy_defined = image_copy_tests"
  by (simp only: image_copy_defined_def image_copy_tests_def suite_tables)

lemma image_copy_added_eq: "image_copy_added = image_copy_added_first @ image_copy_tests"
  by (simp only: image_copy_added_def image_copy_tests_def suite_tables)

lemma image_copy_distinct: "distinct image_copy_tests"
proof -
  have "typed_tables
    [(SNORM_INT8, image_copy_tests_SNORM_INT8), (SNORM_INT16, image_copy_tests_SNORM_INT16),
     (UNORM_INT8, image_copy_tests_UNORM_INT8), (UNORM_INT16, image_copy_tests_UNORM_INT16),
     (UNORM_INT24, image_copy_tests_UNORM_INT24), (UNORM_SHORT_555, image_copy_tests_UNORM_SHORT_555),
     (UNORM_SHORT_565, image_copy_tests_UNORM_SHORT_565), (UNORM_SHORT_101010, image_copy_tests_UNORM_SHORT_101010),
     (SIGNED_INT8, image_copy_tests_SIGNED_INT8), (SIGNED_INT16, image_copy_tests_SIGNED_INT16),
     (SIGNED_INT32, image_copy_tests_SIGNED_INT32), (UNSIGNED_INT8, image_copy_tests_UNSIGNED_INT8),
     (UNSIGNED_INT16, image_copy_tests_UNSIGNED_INT16), (UNSIGNED_INT32, image_copy_tests_UNSIGNED_INT32),
     (HALF_FLOAT, image_copy_tests_HALF_FLOAT), (FLOAT, image_copy_tests_FLOAT)]"
    (is "typed_tables ?tables")
    by (simp add: fst_test_rows distinct_test_rows suite_tables colour_geometries_def depth_geometries_def)
  then have "distinct (concat (map snd ?tables))" by (rule typed_tables_distinct)
  then show ?thesis by (simp add: image_copy_tests_def)
qed

subsection \<open>Properties\<close>

lemma image_copy_sets: "set image_copy_defined \<subseteq> set image_copy_tests" "set image_copy_added = set image_copy_tests"
  "set image_copy_added \<subseteq> set image_copy_defined"
  by (auto simp: image_copy_defined_eq image_copy_added_eq image_copy_added_first_def image_copy_tests_def
      image_copy_tests_SNORM_INT8_def image_copy_tests_SNORM_INT16_def set_test_rows colour_geometries_def)

text \<open>
  The program of the image copy tests compiles and ends with the exit code 0 exactly when \<open>test_image_copy\<close> passes for all
  formats and geometries of the header, all of them different; \<open>main\<close> adds each, and three of them twice.
\<close>

theorem image_copy_main_exit:
  assumes "check_library lib objects s0"
  shows "(\<exists>c'. image_copy_main lib test_image_copy c = Some
      (if \<forall>(ty, ord, geo) \<in> set image_copy_tests. passes (test_image_copy
           \<lparr>channel_type = CHANNEL_TYPE ty, channel_order = CHANNEL_ORDER ord\<rparr> (GEOMETRY geo) s0) (\<lambda>_. True)
       then EXIT_SUCCESS else EXIT_FAILURE, c')) \<and>
    distinct (map (image_test_name ''image_copy_'') image_copy_tests) \<and>
    mset image_copy_added = mset image_copy_tests +
      {#(SNORM_INT8, CO_A, GEO_1DA), (SNORM_INT8, CO_R, GEO_1DA), (SNORM_INT16, CO_R, GEO_1DA)#}"
  using image_suite_exit [where IMAGE = IMAGE_COPY_TEST and main = image_copy_main, OF assms IMAGE_COPY_TEST_def image_copy_main_def
      image_copy_sets] image_copy_distinct
  by (simp add: distinct_names image_copy_added_eq image_copy_added_first_def)

theorem image_copy_main_exit_witness:
  "\<exists>c'. image_copy_main (reference_check (0 :: nat)) (\<lambda>_ _ s. Some (0, s)) no_objects = Some (EXIT_SUCCESS, c')"
  using image_copy_main_exit [OF ref_check.check_library_axioms [of "0 :: nat"],
      of "\<lambda>_ _ s. Some (0, s)" no_objects]
  by simp

end
