(* ===== verification/Image_Import_Export_Suite.thy ===== *)
theory Image_Import_Export_Suite
  imports Image_Suites
begin

text \<open>
  The program \<open>extensions/images/import_export/hsa_image_import_export\<close>: its test functions, the tests of Check, and \<open>main\<close>,
  channel type by channel type.
\<close>

definition all_geometries :: "geometry_token list" where
  "all_geometries = [GEO_1D, GEO_2D, GEO_3D, GEO_1DA, GEO_2DA, GEO_1DB, GEO_2DDEPTH, GEO_2DADEPTH]"

text \<open>The 160 lines of a channel type, which are the same for each.\<close>

definition all_rows :: "(order_token \<times> geometry_token list) list" where
  "all_rows =
     [(CO_A, all_geometries), (CO_R, all_geometries), (CO_RX, all_geometries), (CO_RG, all_geometries),
      (CO_RGX, all_geometries), (CO_RA, all_geometries), (CO_RGB, all_geometries), (CO_RGBX, all_geometries),
      (CO_RGBA, all_geometries), (CO_BGRA, all_geometries), (CO_ARGB, all_geometries), (CO_ABGR, all_geometries),
      (CO_SRGB, all_geometries), (CO_SRGBX, all_geometries), (CO_SRGBA, all_geometries), (CO_SBGRA, all_geometries),
      (CO_INTENSITY, all_geometries), (CO_LUMINANCE, all_geometries), (CO_DEPTH, all_geometries),
      (CO_DEPTH_STENCIL, all_geometries)]"

subsection \<open>The test functions, in the header.\<close>

definition image_import_export_tests_SNORM_INT8 :: "image_test list" where [suite_tables]:
  "image_import_export_tests_SNORM_INT8 = test_rows SNORM_INT8 all_rows"

definition image_import_export_tests_SNORM_INT16 :: "image_test list" where [suite_tables]:
  "image_import_export_tests_SNORM_INT16 = test_rows SNORM_INT16 all_rows"

definition image_import_export_tests_UNORM_INT8 :: "image_test list" where [suite_tables]:
  "image_import_export_tests_UNORM_INT8 = test_rows UNORM_INT8 all_rows"

definition image_import_export_tests_UNORM_INT16 :: "image_test list" where [suite_tables]:
  "image_import_export_tests_UNORM_INT16 = test_rows UNORM_INT16 all_rows"

definition image_import_export_tests_UNORM_INT24 :: "image_test list" where [suite_tables]:
  "image_import_export_tests_UNORM_INT24 = test_rows UNORM_INT24 all_rows"

definition image_import_export_tests_UNORM_SHORT_555 :: "image_test list" where [suite_tables]:
  "image_import_export_tests_UNORM_SHORT_555 = test_rows UNORM_SHORT_555 all_rows"

definition image_import_export_tests_UNORM_SHORT_565 :: "image_test list" where [suite_tables]:
  "image_import_export_tests_UNORM_SHORT_565 = test_rows UNORM_SHORT_565 all_rows"

definition image_import_export_tests_UNORM_SHORT_101010 :: "image_test list" where [suite_tables]:
  "image_import_export_tests_UNORM_SHORT_101010 = test_rows UNORM_SHORT_101010 all_rows"

definition image_import_export_tests_SIGNED_INT8 :: "image_test list" where [suite_tables]:
  "image_import_export_tests_SIGNED_INT8 = test_rows SIGNED_INT8 all_rows"

definition image_import_export_tests_SIGNED_INT16 :: "image_test list" where [suite_tables]:
  "image_import_export_tests_SIGNED_INT16 = test_rows SIGNED_INT16 all_rows"

definition image_import_export_tests_SIGNED_INT32 :: "image_test list" where [suite_tables]:
  "image_import_export_tests_SIGNED_INT32 = test_rows SIGNED_INT32 all_rows"

definition image_import_export_tests_UNSIGNED_INT8 :: "image_test list" where [suite_tables]:
  "image_import_export_tests_UNSIGNED_INT8 = test_rows UNSIGNED_INT8 all_rows"

definition image_import_export_tests_UNSIGNED_INT16 :: "image_test list" where [suite_tables]:
  "image_import_export_tests_UNSIGNED_INT16 = test_rows UNSIGNED_INT16 all_rows"

definition image_import_export_tests_UNSIGNED_INT32 :: "image_test list" where [suite_tables]:
  "image_import_export_tests_UNSIGNED_INT32 = test_rows UNSIGNED_INT32 all_rows"

definition image_import_export_tests_HALF_FLOAT :: "image_test list" where [suite_tables]:
  "image_import_export_tests_HALF_FLOAT = test_rows HALF_FLOAT all_rows"

definition image_import_export_tests_FLOAT :: "image_test list" where [suite_tables]:
  "image_import_export_tests_FLOAT = test_rows FLOAT all_rows"

definition image_import_export_tests :: "image_test list" where
  "image_import_export_tests =
     concat [image_import_export_tests_SNORM_INT8, image_import_export_tests_SNORM_INT16,
      image_import_export_tests_UNORM_INT8, image_import_export_tests_UNORM_INT16,
      image_import_export_tests_UNORM_INT24, image_import_export_tests_UNORM_SHORT_555,
      image_import_export_tests_UNORM_SHORT_565, image_import_export_tests_UNORM_SHORT_101010,
      image_import_export_tests_SIGNED_INT8, image_import_export_tests_SIGNED_INT16,
      image_import_export_tests_SIGNED_INT32, image_import_export_tests_UNSIGNED_INT8,
      image_import_export_tests_UNSIGNED_INT16, image_import_export_tests_UNSIGNED_INT32,
      image_import_export_tests_HALF_FLOAT, image_import_export_tests_FLOAT]"

subsection \<open>The uses of the macro that defines tests of Check.\<close>

definition image_import_export_defined_SNORM_INT8 :: "image_test list" where [suite_tables]:
  "image_import_export_defined_SNORM_INT8 = test_rows SNORM_INT8 all_rows"

definition image_import_export_defined_SNORM_INT16 :: "image_test list" where [suite_tables]:
  "image_import_export_defined_SNORM_INT16 = test_rows SNORM_INT16 all_rows"

definition image_import_export_defined_UNORM_INT8 :: "image_test list" where [suite_tables]:
  "image_import_export_defined_UNORM_INT8 = test_rows UNORM_INT8 all_rows"

definition image_import_export_defined_UNORM_INT16 :: "image_test list" where [suite_tables]:
  "image_import_export_defined_UNORM_INT16 = test_rows UNORM_INT16 all_rows"

definition image_import_export_defined_UNORM_INT24 :: "image_test list" where [suite_tables]:
  "image_import_export_defined_UNORM_INT24 = test_rows UNORM_INT24 all_rows"

definition image_import_export_defined_UNORM_SHORT_555 :: "image_test list" where [suite_tables]:
  "image_import_export_defined_UNORM_SHORT_555 = test_rows UNORM_SHORT_555 all_rows"

definition image_import_export_defined_UNORM_SHORT_565 :: "image_test list" where [suite_tables]:
  "image_import_export_defined_UNORM_SHORT_565 = test_rows UNORM_SHORT_565 all_rows"

definition image_import_export_defined_UNORM_SHORT_101010 :: "image_test list" where [suite_tables]:
  "image_import_export_defined_UNORM_SHORT_101010 = test_rows UNORM_SHORT_101010 all_rows"

definition image_import_export_defined_SIGNED_INT8 :: "image_test list" where [suite_tables]:
  "image_import_export_defined_SIGNED_INT8 = test_rows SIGNED_INT8 all_rows"

definition image_import_export_defined_SIGNED_INT16 :: "image_test list" where [suite_tables]:
  "image_import_export_defined_SIGNED_INT16 = test_rows SIGNED_INT16 all_rows"

definition image_import_export_defined_SIGNED_INT32 :: "image_test list" where [suite_tables]:
  "image_import_export_defined_SIGNED_INT32 = test_rows SIGNED_INT32 all_rows"

definition image_import_export_defined_UNSIGNED_INT8 :: "image_test list" where [suite_tables]:
  "image_import_export_defined_UNSIGNED_INT8 = test_rows UNSIGNED_INT8 all_rows"

definition image_import_export_defined_UNSIGNED_INT16 :: "image_test list" where [suite_tables]:
  "image_import_export_defined_UNSIGNED_INT16 = test_rows UNSIGNED_INT16 all_rows"

definition image_import_export_defined_UNSIGNED_INT32 :: "image_test list" where [suite_tables]:
  "image_import_export_defined_UNSIGNED_INT32 = test_rows UNSIGNED_INT32 all_rows"

definition image_import_export_defined_HALF_FLOAT :: "image_test list" where [suite_tables]:
  "image_import_export_defined_HALF_FLOAT = test_rows HALF_FLOAT all_rows"

definition image_import_export_defined_FLOAT :: "image_test list" where [suite_tables]:
  "image_import_export_defined_FLOAT = test_rows FLOAT all_rows"

definition image_import_export_defined :: "image_test list" where
  "image_import_export_defined =
     concat [image_import_export_defined_SNORM_INT8, image_import_export_defined_SNORM_INT16,
      image_import_export_defined_UNORM_INT8, image_import_export_defined_UNORM_INT16,
      image_import_export_defined_UNORM_INT24, image_import_export_defined_UNORM_SHORT_555,
      image_import_export_defined_UNORM_SHORT_565, image_import_export_defined_UNORM_SHORT_101010,
      image_import_export_defined_SIGNED_INT8, image_import_export_defined_SIGNED_INT16,
      image_import_export_defined_SIGNED_INT32, image_import_export_defined_UNSIGNED_INT8,
      image_import_export_defined_UNSIGNED_INT16, image_import_export_defined_UNSIGNED_INT32,
      image_import_export_defined_HALF_FLOAT, image_import_export_defined_FLOAT]"

subsection \<open>The tests that \<open>main\<close> adds.\<close>

definition image_import_export_added_SNORM_INT8 :: "image_test list" where [suite_tables]:
  "image_import_export_added_SNORM_INT8 = test_rows SNORM_INT8 all_rows"

definition image_import_export_added_SNORM_INT16 :: "image_test list" where [suite_tables]:
  "image_import_export_added_SNORM_INT16 = test_rows SNORM_INT16 all_rows"

definition image_import_export_added_UNORM_INT8 :: "image_test list" where [suite_tables]:
  "image_import_export_added_UNORM_INT8 = test_rows UNORM_INT8 all_rows"

definition image_import_export_added_UNORM_INT16 :: "image_test list" where [suite_tables]:
  "image_import_export_added_UNORM_INT16 = test_rows UNORM_INT16 all_rows"

definition image_import_export_added_UNORM_INT24 :: "image_test list" where [suite_tables]:
  "image_import_export_added_UNORM_INT24 = test_rows UNORM_INT24 all_rows"

definition image_import_export_added_UNORM_SHORT_555 :: "image_test list" where [suite_tables]:
  "image_import_export_added_UNORM_SHORT_555 = test_rows UNORM_SHORT_555 all_rows"

definition image_import_export_added_UNORM_SHORT_565 :: "image_test list" where [suite_tables]:
  "image_import_export_added_UNORM_SHORT_565 = test_rows UNORM_SHORT_565 all_rows"

definition image_import_export_added_UNORM_SHORT_101010 :: "image_test list" where [suite_tables]:
  "image_import_export_added_UNORM_SHORT_101010 = test_rows UNORM_SHORT_101010 all_rows"

definition image_import_export_added_SIGNED_INT8 :: "image_test list" where [suite_tables]:
  "image_import_export_added_SIGNED_INT8 = test_rows SIGNED_INT8 all_rows"

definition image_import_export_added_SIGNED_INT16 :: "image_test list" where [suite_tables]:
  "image_import_export_added_SIGNED_INT16 = test_rows SIGNED_INT16 all_rows"

definition image_import_export_added_SIGNED_INT32 :: "image_test list" where [suite_tables]:
  "image_import_export_added_SIGNED_INT32 = test_rows SIGNED_INT32 all_rows"

definition image_import_export_added_UNSIGNED_INT8 :: "image_test list" where [suite_tables]:
  "image_import_export_added_UNSIGNED_INT8 = test_rows UNSIGNED_INT8 all_rows"

definition image_import_export_added_UNSIGNED_INT16 :: "image_test list" where [suite_tables]:
  "image_import_export_added_UNSIGNED_INT16 = test_rows UNSIGNED_INT16 all_rows"

definition image_import_export_added_UNSIGNED_INT32 :: "image_test list" where [suite_tables]:
  "image_import_export_added_UNSIGNED_INT32 = test_rows UNSIGNED_INT32 all_rows"

definition image_import_export_added_HALF_FLOAT :: "image_test list" where [suite_tables]:
  "image_import_export_added_HALF_FLOAT = test_rows HALF_FLOAT all_rows"

definition image_import_export_added_FLOAT :: "image_test list" where [suite_tables]:
  "image_import_export_added_FLOAT = test_rows FLOAT all_rows"

definition image_import_export_added :: "image_test list" where
  "image_import_export_added =
     concat [image_import_export_added_SNORM_INT8, image_import_export_added_SNORM_INT16,
      image_import_export_added_UNORM_INT8, image_import_export_added_UNORM_INT16,
      image_import_export_added_UNORM_INT24, image_import_export_added_UNORM_SHORT_555,
      image_import_export_added_UNORM_SHORT_565, image_import_export_added_UNORM_SHORT_101010,
      image_import_export_added_SIGNED_INT8, image_import_export_added_SIGNED_INT16,
      image_import_export_added_SIGNED_INT32, image_import_export_added_UNSIGNED_INT8,
      image_import_export_added_UNSIGNED_INT16, image_import_export_added_UNSIGNED_INT32,
      image_import_export_added_HALF_FLOAT, image_import_export_added_FLOAT]"

definition image_import_export_main where
  "image_import_export_main lib test_image_import_export c =
     suite_main lib (image_test_name ''image_import_export_'') image_import_export_tests image_import_export_defined image_import_export_added
       (IMAGE_IMPORT_EXPORT_TEST test_image_import_export) c"

subsection \<open>The lists agree\<close>

lemma image_import_export_defined_eq: "image_import_export_defined = image_import_export_tests"
  by (simp only: image_import_export_defined_def image_import_export_tests_def suite_tables)

lemma image_import_export_added_eq: "image_import_export_added = image_import_export_tests"
  by (simp only: image_import_export_added_def image_import_export_tests_def suite_tables)

lemma image_import_export_distinct: "distinct image_import_export_tests"
proof -
  have "typed_tables
    [(SNORM_INT8, image_import_export_tests_SNORM_INT8), (SNORM_INT16, image_import_export_tests_SNORM_INT16),
     (UNORM_INT8, image_import_export_tests_UNORM_INT8), (UNORM_INT16, image_import_export_tests_UNORM_INT16),
     (UNORM_INT24, image_import_export_tests_UNORM_INT24),
     (UNORM_SHORT_555, image_import_export_tests_UNORM_SHORT_555),
     (UNORM_SHORT_565, image_import_export_tests_UNORM_SHORT_565),
     (UNORM_SHORT_101010, image_import_export_tests_UNORM_SHORT_101010),
     (SIGNED_INT8, image_import_export_tests_SIGNED_INT8), (SIGNED_INT16, image_import_export_tests_SIGNED_INT16),
     (SIGNED_INT32, image_import_export_tests_SIGNED_INT32),
     (UNSIGNED_INT8, image_import_export_tests_UNSIGNED_INT8),
     (UNSIGNED_INT16, image_import_export_tests_UNSIGNED_INT16),
     (UNSIGNED_INT32, image_import_export_tests_UNSIGNED_INT32), (HALF_FLOAT, image_import_export_tests_HALF_FLOAT),
     (FLOAT, image_import_export_tests_FLOAT)]"
    (is "typed_tables ?tables")
    by (simp add: fst_test_rows distinct_test_rows suite_tables all_rows_def all_geometries_def)
  then have "distinct (concat (map snd ?tables))" by (rule typed_tables_distinct)
  then show ?thesis by (simp add: image_import_export_tests_def)
qed

subsection \<open>Properties\<close>

lemma image_import_export_sets:
  "set image_import_export_defined \<subseteq> set image_import_export_tests" "set image_import_export_added = set image_import_export_tests"
  "set image_import_export_added \<subseteq> set image_import_export_defined"
  by (simp_all add: image_import_export_defined_eq image_import_export_added_eq)

lemma every_order_geometry: "\<exists>geos. (ord, geos) \<in> set all_rows \<and> geo \<in> set geos"
  by (cases ord; cases geo; simp add: all_rows_def all_geometries_def)

lemma every_test: "t \<in> set image_import_export_tests"
proof -
  obtain ty ord geo where t: "t = (ty, ord, geo)" by (cases t)
  show ?thesis unfolding t using every_order_geometry [of ord geo]
    by (cases ty; simp add: image_import_export_tests_def set_test_rows suite_tables)
qed

lemma set_image_import_export_tests: "set image_import_export_tests = UNIV"
  by (simp add: set_eq_iff every_test)

text \<open>
  C32.  The program of the import and export tests ends with the exit code 0 exactly when \<open>test_image_import_export\<close> passes for
  every combination of a channel type, a channel order and a geometry; each is added once, under a name of its own.
\<close>

theorem image_import_export_main_exit:
  assumes "check_library lib objects s0"
  shows "(\<exists>c'. image_import_export_main lib test_image_import_export c = Some
      (if \<forall>ty ord geo. passes (test_image_import_export
           \<lparr>channel_type = CHANNEL_TYPE ty, channel_order = CHANNEL_ORDER ord\<rparr> (GEOMETRY geo) s0) (\<lambda>_. True)
       then EXIT_SUCCESS else EXIT_FAILURE, c')) \<and>
    distinct (map (image_test_name ''image_import_export_'') image_import_export_added)"
  using image_suite_exit [where IMAGE = IMAGE_IMPORT_EXPORT_TEST and main = image_import_export_main, OF assms IMAGE_IMPORT_EXPORT_TEST_def
      image_import_export_main_def image_import_export_sets] image_import_export_distinct
  by (simp add: distinct_names image_import_export_added_eq set_image_import_export_tests)

theorem image_import_export_main_exit_witness:
  "\<exists>c'. image_import_export_main (reference_check (0 :: nat)) (\<lambda>_ _ s. Some (0, s)) no_objects = Some (EXIT_SUCCESS, c')"
  using image_import_export_main_exit [OF ref_check.check_library_axioms [of "0 :: nat"],
      of "\<lambda>_ _ s. Some (0, s)" no_objects]
  by simp

end
