(* ===== verification/Spinning.thy ===== *)
theory Spinning
  imports Test_Group_Barrier
begin

text \<open>
  Threads that wait for each other by reading shared data in a loop, such as
  \<open>while (hsa_signal_cas_acquire(y, 1, 0) != 1);\<close>, and return from the middle of a loop.

  The memory of a group of such threads is \<open>'s shared\<close>: the state \<open>'s\<close>, with where the thread that made the last access goes on,
  or \<open>None\<close> once an assertion has failed.  A thread goes on to its \<open>Next\<close> access, makes the same access \<open>Again\<close>, makes a
  \<open>Restart\<close> at the first access of its function (the end of a \<open>while (1)\<close> that is all of it), or has come to a \<open>Return\<close>.
  So the functions of these threads are lists of accesses, as in \<open>Test_Group\<close>.

  An endless sequence \<open>sched\<close> says which thread makes the next access.  The threads are run until all
  of them have ended; the outcome is \<open>None\<close> when an assertion fails, or when they do not end.  A \<open>fair\<close> schedule gives
  every thread a turn again and again.
\<close>

datatype flow = Next | Again | Restart | Return

type_synonym 's shared = "(flow \<times> 's) option"
type_synonym 's access = "'s shared \<Rightarrow> 's shared"
type_synonym 's threads = "'s access list list \<times> 's shared"  \<comment> \<open>what each thread has to do, and the memory\<close>

fun go_on :: "flow \<Rightarrow> 'a list \<Rightarrow> 'a \<Rightarrow> 'a list \<Rightarrow> 'a list" where
  "go_on Next body a as = as"
| "go_on Again body a as = a # as"
| "go_on Restart body a as = body"
| "go_on Return body a as = []"

definition thread_step :: "'s access list list \<Rightarrow> nat \<Rightarrow> 's threads \<Rightarrow> 's threads" where
  "thread_step fs i c =
     (case c of (ts, m) \<Rightarrow>
        if i < length ts \<and> ts ! i \<noteq> [] then
          let a = hd (ts ! i); m' = a m in
          (case m' of
             None \<Rightarrow> (ts, None)
           | Some (fl, _) \<Rightarrow> (ts[i := go_on fl (fs ! i) a (tl (ts ! i))], m'))
        else c)"

definition ended :: "'s threads \<Rightarrow> bool" where
  "ended c \<longleftrightarrow> (\<forall>t \<in> set (fst c). t = [])"

partial_function (option) run_threads :: "'s access list list \<Rightarrow> (nat \<Rightarrow> nat) \<Rightarrow> nat \<Rightarrow> 's threads \<Rightarrow> 's option" where
  "run_threads fs sched k c =
     (case snd c of
        None \<Rightarrow> None
      | Some (_, s) \<Rightarrow> if ended c then Some s else run_threads fs sched (Suc k) (thread_step fs (sched k) c))"

text \<open>
  \<open>test_group_start\<close>, \<open>test_group_wait\<close> of a group of such threads; and \<open>pthread_create\<close> of some functions, then \<open>pthread_join\<close>.
\<close>

definition run_functions :: "(nat \<Rightarrow> nat) \<Rightarrow> 's access list list \<Rightarrow> 's \<Rightarrow> 's option" where
  "run_functions sched fs s = run_threads fs sched 0 (fs, Some (Next, s))"

definition run_group :: "(nat \<Rightarrow> nat) \<Rightarrow> ('d, 's shared) test_group \<Rightarrow> 's \<Rightarrow> 's option" where
  "run_group sched g s = run_functions sched (group_bodies g) s"

definition fair :: "nat \<Rightarrow> (nat \<Rightarrow> nat) \<Rightarrow> bool" where
  "fair n sched \<longleftrightarrow> (\<forall>i < n. \<forall>k. \<exists>k' \<ge> k. sched k' = i)"

lemma fair_round_robin: "0 < n \<Longrightarrow> fair n (\<lambda>k. k mod n)"
proof (unfold fair_def, intro allI impI)
  fix i k assume "i < n"
  then show "\<exists>k' \<ge> k. k' mod n = i"
    by (intro exI [of _ "k * n + i"]) (auto intro: trans_le_add1)
qed

text \<open>
  The first steps of a run.  An outcome \<open>None\<close> of \<open>run_functions\<close> does not say whether an assertion fails or the threads do not end; a
  configuration after \<open>k\<close> steps without a memory says the former.
\<close>

fun after_steps :: "'s access list list \<Rightarrow> (nat \<Rightarrow> nat) \<Rightarrow> nat \<Rightarrow> 's threads \<Rightarrow> 's threads" where
  "after_steps fs sched 0 c = c"
| "after_steps fs sched (Suc k) c = thread_step fs (sched k) (after_steps fs sched k c)"

subsection \<open>Accesses\<close>

text \<open>The accesses of C code to the state, an operation \<open>op\<close> with a result.\<close>

definition access :: "('s \<Rightarrow> (flow \<times> 's) option) \<Rightarrow> 's access" where
  "access f m = (case m of None \<Rightarrow> None | Some (_, s) \<Rightarrow> f s)"

text \<open>A call without a result, or whose result is not used.\<close>

definition call :: "('s \<Rightarrow> 's) \<Rightarrow> 's access" where
  "call f = access (\<lambda>s. Some (Next, f s))"

definition ignore :: "('s \<Rightarrow> 'v \<times> 's) \<Rightarrow> 's access" where
  "ignore op = call (\<lambda>s. snd (op s))"

text \<open>\<open>value = op; ASSERT(value == v)\<close>\<close>

definition expect :: "('s \<Rightarrow> 'v \<times> 's) \<Rightarrow> 'v \<Rightarrow> 's access" where
  "expect op v = access (\<lambda>s. let (x, s) = op s in if x = v then Some (Next, s) else None)"

text \<open>\<open>while (op != v);\<close>\<close>

definition spin :: "('s \<Rightarrow> 'v \<times> 's) \<Rightarrow> 'v \<Rightarrow> 's access" where
  "spin op v = access (\<lambda>s. let (x, s) = op s in Some (if x = v then Next else Again, s))"

text \<open>\<open>while ((value = op) != v) if (value == stop) return;\<close>\<close>

definition spin_or_return :: "('s \<Rightarrow> 'v \<times> 's) \<Rightarrow> 'v \<Rightarrow> 'v \<Rightarrow> 's access" where
  "spin_or_return op v stop =
     access (\<lambda>s. let (x, s) = op s in Some (if x = v then Next else if x = stop then Return else Again, s))"

text \<open>A call that blocks: it returns \<open>None\<close> when it is not over, and is then taken up again.\<close>

definition await :: "('s \<Rightarrow> 'v option \<times> 's) \<Rightarrow> 's access" where
  "await op = access (\<lambda>s. let (r, s) = op s in Some (case r of None \<Rightarrow> Again | Some _ \<Rightarrow> Next, s))"

text \<open>\<open>while (1)\<close> around a body that is all of the function: after the last access it starts again.\<close>

definition and_restart :: "'s access \<Rightarrow> 's access" where
  "and_restart a m = (case a m of Some (Next, s) \<Rightarrow> Some (Restart, s) | m' \<Rightarrow> m')"

definition while_1 :: "'s access list \<Rightarrow> 's access list" where
  "while_1 body = butlast body @ [and_restart (last body)]"

subsection \<open>Where the threads get to\<close>

text \<open>
  \<open>leads fs R P\<close>: from a configuration with \<open>P\<close> the threads come to one with a property that \<open>R\<close> accepts.  Some thread
  \<open>i\<close> can be relied on to bring them closer to it, while the others keep \<open>P\<close> or bring them closer as well.
\<close>

inductive leads ::
  "'s access list list \<Rightarrow> (('s threads \<Rightarrow> bool) \<Rightarrow> bool) \<Rightarrow> ('s threads \<Rightarrow> bool) \<Rightarrow> bool" for fs R
where
  there: "R P \<Longrightarrow> leads fs R P"
| closer: "i < length fs \<Longrightarrow>
    (\<And>c. P c \<Longrightarrow> snd c \<noteq> None \<and> \<not> ended c) \<Longrightarrow>
    (\<And>c. P c \<Longrightarrow> \<exists>P'. leads fs R P' \<and> P' (thread_step fs i c)) \<Longrightarrow>
    (\<And>c j. P c \<Longrightarrow> P (thread_step fs j c) \<or> (\<exists>P'. leads fs R P' \<and> P' (thread_step fs j c))) \<Longrightarrow> leads fs R P"

text \<open>The threads have ended in a state with \<open>Q\<close>: under a fair schedule they do.\<close>

definition all_end :: "('s \<Rightarrow> bool) \<Rightarrow> ('s threads \<Rightarrow> bool) \<Rightarrow> bool" where
  "all_end Q P \<longleftrightarrow> (\<forall>c. P c \<longrightarrow> ended c \<and> (\<exists>fl s. snd c = Some (fl, s) \<and> Q s))"

lemma run_step:
  "snd c \<noteq> None \<Longrightarrow> \<not> ended c \<Longrightarrow>
   run_threads fs sched k c = run_threads fs sched (Suc k) (thread_step fs (sched k) c)"
  by (subst run_threads.simps) (auto split: option.split)

lemma run_from_step:
  assumes "\<And>k'. k' < k \<Longrightarrow> snd (after_steps fs sched k' c) \<noteq> None \<and> \<not> ended (after_steps fs sched k' c)"
  shows "run_threads fs sched 0 c = run_threads fs sched k (after_steps fs sched k c)"
  using assms by (induction k) (simp_all add: run_step)

lemma leads_run:
  assumes "leads fs (all_end Q) P" "fair (length fs) sched" "P c"
  shows "passes (run_threads fs sched k c) Q"
  using assms(1,3)
proof (induction arbitrary: c k rule: leads.induct)
  case (there P)
  then obtain fl s where "ended c" "snd c = Some (fl, s)" "Q s" unfolding all_end_def by blast
  then show ?case by (simp add: run_threads.simps)
next
  case (closer i P)
  obtain k' where k': "k \<le> k'" "sched k' = i"
    using assms(2) closer.hyps(1) by (auto simp: fair_def)
  have step: "run_threads fs sched k c = run_threads fs sched (Suc k) (thread_step fs (sched k) c)" if "P c" for k c
    using closer.hyps(2) [OF that] by (blast intro: run_step)
  show ?case
    using k' closer.prems
  proof (induction "k' - k" arbitrary: k c)
    case 0
    then have "sched k = i" by simp
    then show ?case
      unfolding step [OF 0(4)] using closer.IH(1) [OF 0(4)] by blast
  next
    case (Suc n)
    let ?c = "thread_step fs (sched k) c"
    show ?case
      unfolding step [OF Suc.prems(3)] using closer.IH(2) [OF Suc.prems(3), of "sched k"]
    proof
      assume "P ?c"
      then show "passes (run_threads fs sched (Suc k) ?c) Q"
        using Suc by (intro Suc.hyps(1)) auto
    qed blast
  qed
qed

text \<open>An assertion has failed, or the threads wait for ever: whatever the schedule, they do not end.\<close>

definition doomed :: "'s access list list \<Rightarrow> ('s threads \<Rightarrow> bool) \<Rightarrow> bool" where
  "doomed fs P \<longleftrightarrow> (\<exists>P'. (\<forall>c. P c \<longrightarrow> P' c) \<and>
     (\<forall>c. P' c \<longrightarrow> snd c = None \<or> \<not> ended c \<and> (\<forall>j. P' (thread_step fs j c))))"

lemma never_ends:
  assumes "\<And>c. P c \<Longrightarrow> snd c = None \<or> \<not> ended c \<and> (\<forall>j. P (thread_step fs j c))" "P c"
  shows "run_threads fs sched k c = None"
proof -
  have "fs' = fs \<longrightarrow> \<not> P c" if "run_threads fs' sched k c = Some r" for fs' k c r
    using that
  proof (rule run_threads.raw_induct [where P = "\<lambda>fs' _ _ c _. fs' = fs \<longrightarrow> \<not> P c", rotated])
    fix run fs' sched k c r
    assume IH: "\<And>fs' sched k c r. run fs' sched k c = Some r \<Longrightarrow> fs' = fs \<longrightarrow> \<not> P c"
      and body: "(case snd c of None \<Rightarrow> None
        | Some (_, s) \<Rightarrow> if ended c then Some s else run fs' sched (Suc k) (thread_step fs' (sched k) c)) = Some r"
    show "fs' = fs \<longrightarrow> \<not> P c"
      using body assms(1) [of c] IH [of fs' sched "Suc k" "thread_step fs' (sched k) c"]
      by (auto split: option.splits if_splits)
  qed
  then show ?thesis using assms(2) by (metis not_Some_eq)
qed

lemma leads_never:
  assumes "leads fs (doomed fs) P" "P c"
  shows "run_threads fs sched k c = None"
proof (rule never_ends)
  let ?P = "\<lambda>c. \<exists>P. leads fs (doomed fs) P \<and> P c"
  show "?P c" using assms by blast
  fix c assume "?P c"
  then obtain P where P: "leads fs (doomed fs) P" "P c" by blast
  then show "snd c = None \<or> \<not> ended c \<and> (\<forall>j. ?P (thread_step fs j c))"
  proof (cases rule: leads.cases)
    case there
    then obtain P' where P': "\<And>c. P c \<Longrightarrow> P' c"
      "\<And>c. P' c \<Longrightarrow> snd c = None \<or> \<not> ended c \<and> (\<forall>j. P' (thread_step fs j c))"
      unfolding doomed_def by blast
    then have "leads fs (doomed fs) P'" by (intro leads.there) (unfold doomed_def, blast)
    then show ?thesis using P' P(2) by blast
  next
    case (closer i)
    then show ?thesis using P by blast
  qed
qed

text \<open>Configurations with a given state of the threads and an assertion on the memory.\<close>

definition at :: "'s access list list \<Rightarrow> ('s \<Rightarrow> bool) \<Rightarrow> 's threads \<Rightarrow> bool" where
  "at ts I c \<longleftrightarrow> fst c = ts \<and> (\<exists>fl s. snd c = Some (fl, s) \<and> I s)"

definition effect :: "'s access \<Rightarrow> ('s \<Rightarrow> bool) \<Rightarrow> flow \<Rightarrow> ('s \<Rightarrow> bool) \<Rightarrow> bool" where
  "effect a I fl I' \<longleftrightarrow> (\<forall>fl0 s. I s \<longrightarrow> (\<exists>s'. a (Some (fl0, s)) = Some (fl, s') \<and> I' s'))"

lemma effect_access: "effect (access f) I fl I' \<longleftrightarrow> (\<forall>s. I s \<longrightarrow> (\<exists>s'. f s = Some (fl, s') \<and> I' s'))"
  by (simp add: effect_def access_def)

lemma at_step:
  assumes "at ts I c" "i < length ts" "ts ! i = a # as" "effect a I fl I'"
  shows "at (ts[i := go_on fl (fs ! i) a as]) I' (thread_step fs i c)"
proof -
  obtain fl0 s where c: "c = (ts, Some (fl0, s))" "I s"
    using assms(1) by (cases c) (auto simp: at_def)
  then obtain s' where "a (Some (fl0, s)) = Some (fl, s')" "I' s'"
    using assms(4) by (auto simp: effect_def)
  then show ?thesis using c assms(2,3) by (simp add: thread_step_def at_def)
qed

text \<open>One step of a run under a given schedule.\<close>

lemma run_at:
  assumes "at ts I c" "sched k < length ts" "ts ! sched k = a # as" "effect a I fl I'"
    and "\<And>c'. at (ts[sched k := go_on fl (fs ! sched k) a as]) I' c' \<Longrightarrow> run_threads fs sched (Suc k) c' = result"
  shows "run_threads fs sched k c = result"
proof -
  have "snd c \<noteq> None" "\<not> ended c"
    using assms(1-3) nth_mem [OF assms(2)] by (auto simp: at_def ended_def)
  then show ?thesis using assms(5) [OF at_step [OF assms(1-4)]] by (simp add: run_step)
qed

lemma run_at_fails:
  assumes "at ts I c" "sched k < length ts" "ts ! sched k = a # as" "\<And>fl s. I s \<Longrightarrow> a (Some (fl, s)) = None"
  shows "run_threads fs sched k c = None"
proof -
  have "snd c \<noteq> None" "\<not> ended c"
    using assms(1-3) nth_mem [OF assms(2)] by (auto simp: at_def ended_def)
  moreover have "snd (thread_step fs (sched k) c) = None"
    using assms by (auto simp: at_def thread_step_def split: prod.split)
  ultimately show ?thesis by (simp add: run_step run_threads.simps [of fs sched "Suc k"])
qed

text \<open>A thread that waits has ended, or its next access only repeats itself.\<close>

definition waits :: "('s \<Rightarrow> bool) \<Rightarrow> 's access list \<Rightarrow> bool" where
  "waits I t \<longleftrightarrow> t = [] \<or> effect (hd t) I Again I"

lemma at_waits:
  assumes "at ts I c" "j < length ts \<Longrightarrow> waits I (ts ! j)"
  shows "at ts I (thread_step fs j c)"
proof (cases "j < length ts \<and> ts ! j \<noteq> []")
  case True
  then have eff: "ts ! j = hd (ts ! j) # tl (ts ! j)" "effect (hd (ts ! j)) I Again I"
    using assms(2) by (auto simp: waits_def)
  then show ?thesis
    using at_step [OF assms(1) _ eff] True by (metis go_on.simps(2) list_update_id)
next
  case False
  then show ?thesis using assms(1) by (auto simp: thread_step_def at_def split: prod.split)
qed

text \<open>
  The next access of thread \<open>i\<close> leads on.  Each of the other threads waits, or its next access leads on, too.
\<close>

lemma leads_step_or:
  assumes "i < length ts" "length ts = length fs" "ts ! i = a # as" "effect a I fl I'"
    and others: "\<And>j. j < length ts \<Longrightarrow> j \<noteq> i \<Longrightarrow> waits I (ts ! j) \<or>
      (\<exists>b bs fl I''. ts ! j = b # bs \<and> effect b I fl I'' \<and> leads fs R (at (ts[j := go_on fl (fs ! j) b bs]) I''))"
    and "leads fs R (at (ts[i := go_on fl (fs ! i) a as]) I')"
  shows "leads fs R (at ts I)"
proof (rule leads.closer)
  show "i < length fs" using assms(1,2) by simp
next
  fix c assume c: "at ts I c"
  then show "snd c \<noteq> None \<and> \<not> ended c"
    using assms(1,3) nth_mem [OF assms(1)] by (auto simp: at_def ended_def)
  show *: "\<exists>P'. leads fs R P' \<and> P' (thread_step fs i c)"
    using assms(6) at_step [OF c assms(1,3,4)] by blast
  fix j
  show "at ts I (thread_step fs j c) \<or> (\<exists>P'. leads fs R P' \<and> P' (thread_step fs j c))"
  proof (cases "j = i \<or> (j < length ts \<longrightarrow> waits I (ts ! j))")
    case True
    then show ?thesis using at_waits [OF c, where fs = fs and j = j] * by blast
  next
    case False
    then show ?thesis using others [of j] at_step [OF c] by blast
  qed
qed

lemma leads_step:
  assumes "i < length ts" "length ts = length fs" "ts ! i = a # as" "effect a I fl I'"
    and "\<And>j. j < length ts \<Longrightarrow> j \<noteq> i \<Longrightarrow> waits I (ts ! j)"
    and "leads fs R (at (ts[i := go_on fl (fs ! i) a as]) I')"
  shows "leads fs R (at ts I)"
  using assms by (intro leads_step_or [of i ts fs a as I fl I']) auto

text \<open>Threads that have ended, or are about to return, come to their ends in any order.\<close>

lemma leads_return:
  assumes "length ts = length fs" "\<And>t. t \<in> set ts \<Longrightarrow> t \<noteq> [] \<Longrightarrow> effect (hd t) I Return I"
  shows "leads fs (all_end I) (at ts I)"
  using assms
proof (induction "length (filter (\<lambda>t. t \<noteq> []) ts)" arbitrary: ts rule: less_induct)
  case less
  show ?case
  proof (cases "\<exists>i < length ts. ts ! i \<noteq> []")
    case False
    then have "\<forall>t \<in> set ts. t = []" by (metis in_set_conv_nth)
    then show ?thesis by (intro leads.there) (auto simp: all_end_def at_def ended_def)
  next
    case True
    have next_one: "leads fs (all_end I) (at (ts[i := []]) I)" if i: "i < length ts" "ts ! i \<noteq> []" for i
    proof (rule less.hyps)
      show "length (filter (\<lambda>t. t \<noteq> []) (ts[i := []])) < length (filter (\<lambda>t. t \<noteq> []) ts)"
        using i by (subst (2) id_take_nth_drop [OF i(1)]) (simp add: upd_conv_take_nth_drop [OF i(1)])
      show "length (ts[i := []]) = length fs" using less.prems(1) by simp
      fix t assume "t \<in> set (ts[i := []])" "t \<noteq> []"
      then show "effect (hd t) I Return I"
        using less.prems(2) [of t] set_update_subset_insert [of ts i "[]"] by blast
    qed
    have returns: "effect (hd (ts ! i)) I Return I" if "i < length ts" "ts ! i \<noteq> []" for i
      using that less.prems(2) nth_mem by blast
    obtain i where i: "i < length ts" "ts ! i \<noteq> []" using True by blast
    show ?thesis
    proof (rule leads_step_or [OF i(1) less.prems(1) _ returns [OF i]])
      show "ts ! i = hd (ts ! i) # tl (ts ! i)" using i by simp
      show "leads fs (all_end I) (at (ts[i := go_on Return (fs ! i) (hd (ts ! i)) (tl (ts ! i))]) I)"
        using next_one [OF i] by simp
      fix j assume j: "j < length ts"
      show "waits I (ts ! j) \<or> (\<exists>b bs fl I''. ts ! j = b # bs \<and> effect b I fl I'' \<and>
          leads fs (all_end I) (at (ts[j := go_on fl (fs ! j) b bs]) I''))"
      proof (cases "ts ! j = []")
        case False
        then show ?thesis using returns [OF j] next_one [OF j] by (metis go_on.simps(4) list.collapse)
      qed (simp add: waits_def)
    qed
  qed
qed

text \<open>
  A run of one thread, the accesses \<open>as\<close>, during which the accesses in \<open>W\<close> of others only repeat themselves.
\<close>

inductive block :: "'s access set \<Rightarrow> 's access list \<Rightarrow> ('s \<Rightarrow> bool) \<Rightarrow> ('s \<Rightarrow> bool) \<Rightarrow> bool" for W where
  block_Nil: "block W [] I I"
| block_Cons: "effect a I Next I1 \<Longrightarrow> (\<And>b. b \<in> W \<Longrightarrow> effect b I Again I) \<Longrightarrow> block W as I1 I' \<Longrightarrow> block W (a # as) I I'"

lemma block_same:
  assumes "\<And>a. a \<in> set as \<Longrightarrow> effect a I Next I" "\<And>b. b \<in> W \<Longrightarrow> effect b I Again I"
  shows "block W as I I"
  using assms(1) by (induction as) (auto intro: block_Nil block_Cons [OF _ assms(2)])

lemma block_append: "block W as I J \<Longrightarrow> block W bs J K \<Longrightarrow> block W (as @ bs) I K"
  by (induction rule: block.induct) (auto intro: block.intros)

lemma block_loop:
  assumes "\<And>ii. ii < n \<Longrightarrow> block W (f ii) (J ii) (J (Suc ii))"
  shows "block W (concat (map f [0..<n])) (J 0) (J n)"
  using assms by (induction n) (auto intro: block_Nil block_append)

lemma leads_block:
  assumes "block W as I I'" "i < length ts" "length ts = length fs" "ts ! i = as @ rest"
    and "\<And>j. j < length ts \<Longrightarrow> j \<noteq> i \<Longrightarrow> ts ! j = [] \<or> hd (ts ! j) \<in> W"
    and "leads fs R (at (ts[i := rest]) I')"
  shows "leads fs R (at ts I)"
  using assms
proof (induction arbitrary: ts rule: block.induct)
  case (block_Nil I)
  then show ?case by (metis append_Nil list_update_id)
next
  case (block_Cons a I I1 as I')
  have "leads fs R (at (ts[i := as @ rest]) I1)"
    using block_Cons.prems by (intro block_Cons.IH) auto
  then show ?case
    using block_Cons by (intro leads_step [of i ts fs a "as @ rest" I Next I1]) (auto simp: waits_def)
qed

text \<open>A round of a thread that repeats its body for ever.\<close>

lemma block_snocD:
  assumes "block W (as @ [a]) I J"
  obtains I' where "block W as I I'" "effect a I' Next J" "\<forall>b \<in> W. effect b I' Again I'"
  using assms
proof (induction as arbitrary: I thesis)
  case Nil
  then show ?case by (auto elim!: block.cases [of W "[a]"] block.cases [of W "[]"] intro: block_Nil)
next
  case (Cons b as)
  from Cons.prems(2) obtain I1 where I1: "effect b I Next I1" "\<And>b. b \<in> W \<Longrightarrow> effect b I Again I" "block W (as @ [a]) I1 J"
    by (auto elim: block.cases)
  from Cons.IH [OF _ I1(3)] show ?case using Cons.prems(1) block_Cons [OF I1(1,2)] by metis
qed

lemma effect_and_restart:
  assumes "effect a I Next J"
  shows "effect (and_restart a) I Restart J"
  unfolding effect_def
proof (intro allI impI)
  fix fl0 s assume "I s"
  then obtain s' where "a (Some (fl0, s)) = Some (Next, s')" "J s'" using assms by (auto simp: effect_def)
  then show "\<exists>s'. and_restart a (Some (fl0, s)) = Some (Restart, s') \<and> J s'" by (simp add: and_restart_def)
qed

lemma leads_while_1:
  assumes "block W b I J" "b \<noteq> []" "i < length ts" "length ts = length fs" "ts ! i = while_1 b" "fs ! i = while_1 b"
    and others: "\<And>j. j < length ts \<Longrightarrow> j \<noteq> i \<Longrightarrow> ts ! j = [] \<or> hd (ts ! j) \<in> W"
    and "leads fs R (at ts J)"
  shows "leads fs R (at ts I)"
proof -
  have "block W (butlast b @ [last b]) I J" using assms(1,2) by simp
  then obtain I' where I': "block W (butlast b) I I'" "effect (last b) I' Next J" "\<forall>b \<in> W. effect b I' Again I'"
    by (rule block_snocD)
  have "effect (and_restart (last b)) I' Restart J" by (rule effect_and_restart [OF I'(2)])
  moreover have same: "ts[i := while_1 b] = ts" using assms(5) by (metis list_update_id)
  ultimately have last: "leads fs R (at (ts[i := [and_restart (last b)]]) I')"
  proof (rule_tac leads_step [where i = i and a = "and_restart (last b)" and as = "[]" and fl = Restart and I' = J])
    fix j assume "j < length (ts[i := [and_restart (last b)]])" "j \<noteq> i"
    then show "waits I' (ts[i := [and_restart (last b)]] ! j)"
      using others [of j] I'(3) by (auto simp: waits_def)
  qed (use assms(3,4,6,8) same in simp_all)
  have "ts ! i = butlast b @ [and_restart (last b)]" using assms(5) by (simp add: while_1_def)
  then show ?thesis
    by (rule leads_block [OF I'(1) assms(3,4)]) (use others last in blast)+
qed

subsection \<open>Two threads that take turns\<close>

text \<open>
  Each of two threads repeats a loop body \<open>n\<close> times; the first access of a body waits for the turn of its thread, which is
  given in \<open>I1\<close> to the first and in \<open>I2\<close> to the second thread.
\<close>

lemma turn_1:
  assumes "b1 = w1 # c1" "block W b1 I I'" "r2 = [] \<or> hd r2 \<in> W" "length fs = 2" "leads fs R (at [r1, r2] I')"
  shows "leads fs R (at [b1 @ r1, r2] I)"
  by (rule leads_block [OF assms(2), where i = 0 and rest = r1])
    (use assms(3-5) in \<open>auto simp: less_Suc_eq numeral_2_eq_2\<close>)

lemma turn_2:
  assumes "b2 = w2 # c2" "block W b2 I I'" "r1 = [] \<or> hd r1 \<in> W" "length fs = 2" "leads fs R (at [r1, r2] I')"
  shows "leads fs R (at [r1, b2 @ r2] I)"
  by (rule leads_block [OF assms(2), where i = 1 and rest = r2])
    (use assms(3-5) in \<open>auto simp: less_Suc_eq numeral_2_eq_2\<close>)

lemma hd_repeated: "concat (replicate n (w # c)) = [] \<or> hd (concat (replicate n (w # c))) \<in> {w}"
  by (cases n) simp_all

lemma take_turns:
  assumes body1: "b1 = w1 # c1" "block {w2} b1 I1 I2" and body2: "b2 = w2 # c2" "block {w1} b2 I2 I1"
    and fs: "length fs = 2"
  shows "leads fs (all_end I1) (at [concat (replicate n b1), concat (replicate n b2)] I1)"
    and "leads fs (all_end I2) (at [concat (replicate n b1), concat (replicate n b2)] I2)"
proof (induction n)
  case 0
  { case 1 show ?case by (rule leads.there) (auto simp: all_end_def at_def ended_def) }
  { case 2 show ?case by (rule leads.there) (auto simp: all_end_def at_def ended_def) }
next
  case (Suc n)
  note waits = hd_repeated [of n w1 c1] hd_repeated [of n w2 c2]
  let ?l1 = "concat (replicate n b1)" and ?l2 = "concat (replicate n b2)"
  { case 1
    have "leads fs (all_end I1) (at [?l1, b2 @ ?l2] I2)"
      by (rule turn_2 [OF body2]) (use fs Suc waits body1(1) in simp_all)
    then have "leads fs (all_end I1) (at [b1 @ ?l1, b2 @ ?l2] I1)"
      by (intro turn_1 [OF body1 _ fs]) (simp_all add: body2(1))
    then show ?case by simp }
  { case 2
    have "leads fs (all_end I2) (at [b1 @ ?l1, ?l2] I1)"
      by (rule turn_1 [OF body1]) (use fs Suc waits body2(1) in simp_all)
    then have "leads fs (all_end I2) (at [b1 @ ?l1, b2 @ ?l2] I2)"
      by (intro turn_2 [OF body2 _ fs]) (simp_all add: body1(1))
    then show ?case by simp }
qed

subsection \<open>The first thread and the others\<close>

lemma leads_first_or:
  assumes "length fs = Suc (length ts)" "effect a I Next I'"
    and others: "\<And>j. j < length ts \<Longrightarrow> waits I (ts ! j) \<or>
      (\<exists>b bs I''. ts ! j = b # bs \<and> effect b I Next I'' \<and> leads fs R (at ((a # as) # ts[j := bs]) I''))"
    and "leads fs R (at (as # ts) I')"
  shows "leads fs R (at ((a # as) # ts) I)"
proof (rule leads_step_or [of 0 _ _ a as I Next I'])
  fix j assume "j < length ((a # as) # ts)" "j \<noteq> 0"
  then obtain j' where j: "j = Suc j'" "j' < length ts" by (cases j) auto
  then show "waits I (((a # as) # ts) ! j) \<or> (\<exists>b bs fl I''. ((a # as) # ts) ! j = b # bs \<and> effect b I fl I'' \<and>
      leads fs R (at (((a # as) # ts)[j := go_on fl (fs ! j) b bs]) I''))"
    using others [OF j(2)] by (metis go_on.simps(1) list_update_code(3) nth_Cons_Suc)
qed (use assms in simp_all)

lemma leads_first:
  assumes "length fs = Suc (length ts)" "effect a I Next I'" "\<And>j. j < length ts \<Longrightarrow> waits I (ts ! j)" "leads fs R (at (as # ts) I')"
  shows "leads fs R (at ((a # as) # ts) I)"
  using assms by (intro leads_first_or) auto

lemma leads_other:
  assumes "length fs = Suc (length ts)" "i < length ts" "ts ! i = a # as" "effect a I Next I'" "waits I t"
    and others: "\<And>j. j < length ts \<Longrightarrow> j \<noteq> i \<Longrightarrow> waits I (ts ! j)"
    and "leads fs R (at (t # ts[i := as]) I')"
  shows "leads fs R (at (t # ts) I)"
proof (rule leads_step [of "Suc i" _ _ a as I Next I'])
  fix j assume "j < length (t # ts)" "j \<noteq> Suc i"
  then show "waits I ((t # ts) ! j)" using others assms(5) by (cases j) auto
qed (use assms in simp_all)

text \<open>Threads that all wait, but have not all ended, wait for ever.\<close>

lemma doomed_waiting:
  assumes "\<And>t. t \<in> set ts \<Longrightarrow> waits I t" "\<exists>t \<in> set ts. t \<noteq> []"
  shows "doomed fs (at ts I)"
  unfolding doomed_def
proof (intro exI [of _ "at ts I"] conjI allI impI disjI2)
  fix c j assume c: "at ts I c"
  then show "\<not> ended c" using assms(2) by (auto simp: at_def ended_def)
  show "at ts I (thread_step fs j c)" by (rule at_waits [OF c]) (use assms(1) in simp)
qed simp

text \<open>One thread is at an assertion that fails, the others wait.\<close>

lemma doomed_failing:
  assumes "i < length ts" "ts ! i = a # as" "\<And>fl s. I s \<Longrightarrow> a (Some (fl, s)) = None"
    and "\<And>j. j < length ts \<Longrightarrow> j \<noteq> i \<Longrightarrow> waits I (ts ! j)"
  shows "doomed fs (at ts I)"
  unfolding doomed_def
proof (intro exI [of _ "\<lambda>c. at ts I c \<or> snd c = None"] conjI allI impI)
  fix c assume "at ts I c \<or> snd c = None"
  then show "snd c = None \<or> \<not> ended c \<and> (\<forall>j. at ts I (thread_step fs j c) \<or> snd (thread_step fs j c) = None)"
  proof
    assume c: "at ts I c"
    then have "\<not> ended c" using assms(1,2) nth_mem [OF assms(1)] by (auto simp: at_def ended_def)
    moreover have "snd (thread_step fs i c) = None"
      using c assms(1-3) by (auto simp: at_def thread_step_def split: prod.split)
    moreover have "at ts I (thread_step fs j c)" if "j \<noteq> i" for j
      by (rule at_waits [OF c]) (use assms(4) that in simp)
    ultimately show ?thesis by metis
  qed simp
qed simp

end
