(* ===== verification/Signal_Ordering.thy ===== *)
theory Signal_Ordering
  imports Signal_Rounds Spinning
begin

text \<open>
  What the ordering tests of \<open>core/signals\<close> share.  They have an array of signals \<open>x\<close> that is passed from thread to thread,
  and control signals that say whose turn it is.
\<close>

definition NUM_X :: nat where "NUM_X = 128"

definition NUM_SIGNAL :: nat where "NUM_SIGNAL = 128"

definition NUM_ITERATION :: nat where "NUM_ITERATION = 128"

definition NUM_ITER_MEM_ORD :: nat where "NUM_ITER_MEM_ORD = 100"

definition FIRST_BIT :: "'w::len word" where
  "FIRST_BIT = (if HSA_LARGE_MODEL TYPE('w) then 0x8000000000000000 else 0x80000000)"

definition LAST_BIT :: "'w::len word" where "LAST_BIT = 0x1"

definition ALL_BIT :: "'w::len word" where "ALL_BIT = -1"

text \<open>\<open>for (ii = 0; ii < n; ++ii)\<close> in a thread.\<close>

definition loop_accesses :: "nat \<Rightarrow> (nat \<Rightarrow> 's access list) \<Rightarrow> 's access list" where
  "loop_accesses n f = concat (map f [0..<n])"

text \<open>The loops over the array that create and destroy its signals.\<close>

definition create_signals ::
  "('h, 'w::len word, 's) hsa_rt \<Rightarrow> nat \<Rightarrow> 'w word \<Rightarrow> 's \<Rightarrow> ('h list \<times> 's) option"
where
  "create_signals rt n v s =
     for_loop 0 n (\<lambda>ii (x, s). do {
       let (status, h, s) = hsa_signal_create rt v 0 [] s;
       ASSERT (status = HSA_STATUS_SUCCESS);
       Some (x @ [h], s)
     }) ([], s)"

definition destroy_signals :: "('h, 'w::len word, 's) hsa_rt \<Rightarrow> nat \<Rightarrow> 'h list \<Rightarrow> 's \<Rightarrow> 's option" where
  "destroy_signals rt n x s =
     for_loop 0 n (\<lambda>ii s. do {
       let (status, s) = hsa_signal_destroy rt (x ! ii) s;
       ASSERT (status = HSA_STATUS_SUCCESS);
       Some s
     }) s"

text \<open>The end of the test functions: the signals are destroyed and the runtime is shut down.\<close>

definition clean_up :: "('h, 'w::len word, 's) hsa_rt \<Rightarrow> nat \<Rightarrow> 'h list \<Rightarrow> 'h \<Rightarrow> 's \<Rightarrow> (nat \<times> 's) option" where
  "clean_up rt n x y s = do {
     s \<leftarrow> destroy_signals rt n x s;
     let (status, s) = hsa_signal_destroy rt y s;
     ASSERT (status = HSA_STATUS_SUCCESS);
     let (status, s) = hsa_shut_down rt s;
     ASSERT (status = HSA_STATUS_SUCCESS);
     Some (0, s)
   }"

text \<open>
  The test functions: \<open>run\<close> runs the threads on the array and a control signal.  The group of two tests and the two \<open>pthread_create\<close>s are
  the ways to do it.
\<close>

definition ordering_test ::
  "('h, 'w::len word, 's) hsa_rt \<Rightarrow> nat \<Rightarrow> 'w word \<Rightarrow> 'w word \<Rightarrow> ('h list \<Rightarrow> 'h \<Rightarrow> 's \<Rightarrow> 's option) \<Rightarrow> 's \<Rightarrow> (nat \<times> 's) option"
where
  "ordering_test rt n x_value y_value run s = do {
     let (status, s) = hsa_init rt s;
     ASSERT (status = HSA_STATUS_SUCCESS);
     (x, s) \<leftarrow> create_signals rt n x_value s;
     let (status, y, s) = hsa_signal_create rt y_value 0 [] s;
     ASSERT (status = HSA_STATUS_SUCCESS);
     s \<leftarrow> run x y s;
     clean_up rt n x y s
   }"

definition two_tests :: "'s access list \<Rightarrow> 's access list \<Rightarrow> (nat \<Rightarrow> nat) \<Rightarrow> 's \<Rightarrow> 's option" where
  "two_tests t1 t2 sched s = do {
     test \<leftarrow> test_group_add (test_group_create 2) (\<lambda>_. t1) () 1;
     test \<leftarrow> test_group_add test (\<lambda>_. t2) () 1;
     run_group sched test s
   }"

definition two_pthreads :: "'s access list \<Rightarrow> 's access list \<Rightarrow> (nat \<Rightarrow> nat) \<Rightarrow> 's \<Rightarrow> 's option" where
  "two_pthreads t1 t2 sched s = run_functions sched [t1, t2] s"

definition two_groups :: "'s access list \<Rightarrow> 's access list \<Rightarrow> (nat \<Rightarrow> nat) \<Rightarrow> 's \<Rightarrow> 's option" where
  "two_groups t1 t2 sched s = do {
     tg_t1 \<leftarrow> test_group_add (test_group_create 1) (\<lambda>_. t1) () 1;
     tg_t2 \<leftarrow> test_group_add (test_group_create 1) (\<lambda>_. t2) () 1;
     run_functions sched (group_bodies tg_t1 @ group_bodies tg_t2) s
   }"

subsection \<open>The runs\<close>

text \<open>A group with room for \<open>n\<close> tests, to which the tests \<open>ts\<close> have been added.\<close>

definition filled :: "nat \<Rightarrow> 's access list list \<Rightarrow> (unit, 's shared) test_group \<Rightarrow> bool" where
  "filled n ts g \<longleftrightarrow> fresh_group g \<and> unat (num_test g) = length ts \<and> unat (group_size g) = n \<and> group_bodies g = ts"

lemma filled_create: "unat n < 2 ^ 31 \<Longrightarrow> filled (unat n) [] (test_group_create n)"
  using fresh_create [of n, where ?'a = unit and ?'b = "'s shared"]
  by (simp add: filled_def) (simp add: test_group_create_def)

lemma filled_add:
  assumes "filled n ts g" "length ts < n"
  obtains g' where "test_group_add g (\<lambda>_. t) () 1 = Some g'" "filled n (ts @ [t]) g'"
  using assms fresh_add [of g 1 "\<lambda>_. t" "()"] by (auto simp: filled_def passes_def)

lemma two_groups_run:
  fixes t1 t2 :: "'s access list"
  shows "two_groups t1 t2 sched s = run_functions sched [t1, t2] s"
proof -
  have "filled 1 [] (test_group_create 1 :: (unit, 's shared) test_group)" using filled_create [of 1] by simp
  then have one: "\<exists>g. test_group_add (test_group_create 1) (\<lambda>_. t) () 1 = Some g \<and> group_bodies g = [t]"
    for t :: "'s access list"
    by (rule filled_add [where t = t]) (auto simp: filled_def)
  show ?thesis using one [of t1] one [of t2] by (auto simp: two_groups_def)
qed

lemma two_tests_run:
  fixes t1 t2 :: "'s access list"
  shows "two_tests t1 t2 sched s = run_functions sched [t1, t2] s"
proof -
  have "filled 2 [] (test_group_create 2 :: (unit, 's shared) test_group)" using filled_create [of 2] by simp
  then obtain g1 where g1: "test_group_add (test_group_create 2) (\<lambda>_. t1) () 1 = Some g1" "filled 2 [t1] g1"
    by (rule filled_add [where t = t1]) auto
  from g1(2) obtain g2 where "test_group_add g1 (\<lambda>_. t2) () 1 = Some g2" "filled 2 [t1, t2] g2"
    by (rule filled_add [where t = t2]) auto
  with g1(1) show ?thesis by (simp add: two_tests_def run_group_def filled_def)
qed

subsection \<open>The array of signals\<close>

context signal_runtime
begin

text \<open>
  \<open>board u x xv c\<close>: the runtime is up, with reference count \<open>u\<close>, \<open>xv\<close> gives the values of the signals \<open>x\<close>, and \<open>c\<close> those of the
  other signals.
\<close>

definition board :: "nat \<Rightarrow> 'h list \<Rightarrow> (nat \<Rightarrow> 'w word) \<Rightarrow> ('h \<Rightarrow> 'w word option) \<Rightarrow> 's \<Rightarrow> bool" where
  "board u x xv c s \<longleftrightarrow> ups s = u \<and> 0 < u \<and> distinct x \<and>
     (\<forall>h. h \<notin> set x \<longrightarrow> val s h = c h) \<and> (\<forall>i < length x. val s (x ! i) = Some (xv i))"

lemma board_cong: "(\<And>i. i < length x \<Longrightarrow> xv i = xv' i) \<Longrightarrow> board u x xv c = board u x xv' c"
  by (rule ext) (auto simp: board_def)

lemma board_control:
  assumes "board u x xv c s" "h \<notin> set x" "ups s' = ups s" "val s' = (val s)(h \<mapsto> w)"
  shows "board u x xv (c(h \<mapsto> w)) s'"
  using assms by (auto simp: board_def nth_mem)

lemma board_x:
  assumes "board u x xv c s" "ii < length x" "ups s' = ups s" "val s' = (val s)(x ! ii \<mapsto> w)"
  shows "board u x (xv(ii := w)) c s'"
  using assms by (auto simp: board_def nth_eq_iff_index_eq)

text \<open>The effects of accesses to a control signal, and to a signal of the array.\<close>

lemma effect_control:
  assumes "acts op h f" "h \<notin> set x" "c h = Some w"
  shows "effect (ignore op) (board u x xv c) Next (board u x xv (c(h \<mapsto> f w)))"
    and "v = w \<Longrightarrow> effect (spin op v) (board u x xv c) Next (board u x xv (c(h \<mapsto> f w)))"
    and "v \<noteq> w \<Longrightarrow> f w = w \<Longrightarrow> effect (spin op v) (board u x xv c) Again (board u x xv c)"
    and "v = w \<Longrightarrow> effect (spin_or_return op v stop) (board u x xv c) Next (board u x xv (c(h \<mapsto> f w)))"
    and "v \<noteq> w \<Longrightarrow> stop \<noteq> w \<Longrightarrow> f w = w \<Longrightarrow> effect (spin_or_return op v stop) (board u x xv c) Again (board u x xv c)"
    and "v \<noteq> w \<Longrightarrow> stop = w \<Longrightarrow> f w = w \<Longrightarrow> effect (spin_or_return op v stop) (board u x xv c) Return (board u x xv c)"
proof -
  have *: "\<exists>s'. op s = (w, s') \<and> board u x xv (c(h \<mapsto> f w)) s'" if "board u x xv c s" for s
  proof -
    have "0 < ups s" "val s h = Some w" using that assms(2,3) by (auto simp: board_def)
    then obtain s' where "op s = (w, s')" "ups s' = ups s" "val s' = (val s)(h \<mapsto> f w)"
      using assms(1) by (auto simp: acts_def)
    then show ?thesis using board_control [OF that assms(2)] by blast
  qed
  have same: "c(h \<mapsto> f w) = c" if "f w = w" using that assms(3) by (simp add: fun_upd_idem)
  show "effect (ignore op) (board u x xv c) Next (board u x xv (c(h \<mapsto> f w)))"
    unfolding ignore_def call_def effect_access by (auto dest!: *)
  show "v = w \<Longrightarrow> effect (spin op v) (board u x xv c) Next (board u x xv (c(h \<mapsto> f w)))"
    "v = w \<Longrightarrow> effect (spin_or_return op v stop) (board u x xv c) Next (board u x xv (c(h \<mapsto> f w)))"
    unfolding spin_def spin_or_return_def effect_access by (auto dest!: *)
  show "v \<noteq> w \<Longrightarrow> f w = w \<Longrightarrow> effect (spin op v) (board u x xv c) Again (board u x xv c)"
    "v \<noteq> w \<Longrightarrow> stop \<noteq> w \<Longrightarrow> f w = w \<Longrightarrow> effect (spin_or_return op v stop) (board u x xv c) Again (board u x xv c)"
    "v \<noteq> w \<Longrightarrow> stop = w \<Longrightarrow> f w = w \<Longrightarrow> effect (spin_or_return op v stop) (board u x xv c) Return (board u x xv c)"
    unfolding spin_def spin_or_return_def effect_access using same by (auto dest!: *)
qed

lemma effect_control_call:
  assumes "updates op h f" "h \<notin> set x" "c h = Some w"
  shows "effect (call op) (board u x xv c) Next (board u x xv (c(h \<mapsto> f w)))"
proof -
  have "board u x xv (c(h \<mapsto> f w)) (op s)" if "board u x xv c s" for s
    using that assms board_control [OF that assms(2), of "op s" "f w"] by (auto simp: board_def updates_def)
  then show ?thesis by (auto simp: effect_def call_def access_def)
qed

lemma effect_x_call:
  assumes "updates op (x ! ii) f" "ii < length x"
  shows "effect (call op) (board u x xv c) Next (board u x (xv(ii := f (xv ii))) c)"
proof -
  have "board u x (xv(ii := f (xv ii))) c (op s)" if "board u x xv c s" for s
    using that assms board_x [OF that assms(2), of "op s" "f (xv ii)"] by (auto simp: board_def updates_def)
  then show ?thesis by (auto simp: effect_def call_def access_def)
qed

lemma effect_x_expect:
  assumes "acts op (x ! ii) f" "ii < length x" "v = xv ii"
  shows "effect (expect op v) (board u x xv c) Next (board u x (xv(ii := f (xv ii))) c)"
proof -
  have "\<exists>s'. op s = (v, s') \<and> board u x (xv(ii := f (xv ii))) c s'" if "board u x xv c s" for s
  proof -
    have "0 < ups s" "val s (x ! ii) = Some (xv ii)" using that assms(2) by (auto simp: board_def)
    then obtain s' where "op s = (xv ii, s')" "ups s' = ups s" "val s' = (val s)(x ! ii \<mapsto> f (xv ii))"
      using assms(1) unfolding acts_def by blast
    then show ?thesis using board_x [OF that assms(2)] assms(3) by blast
  qed
  note * = this
  show ?thesis unfolding expect_def effect_access by (auto dest!: *)
qed

text \<open>A loop over the array that takes each signal from one value to another.\<close>

lemma block_array:
  assumes "length x = n"
    and "\<And>ii xv. ii < length x \<Longrightarrow> xv ii = v \<Longrightarrow> block W (f ii) (board u x xv c) (board u x (xv(ii := v')) c)"
  shows "block W (loop_accesses n f) (board u x (\<lambda>_. v) c) (board u x (\<lambda>_. v') c)"
proof -
  let ?xv = "\<lambda>k i. if i < k then v' else v"
  have "block W (loop_accesses n f) (board u x (?xv 0) c) (board u x (?xv n) c)"
    unfolding loop_accesses_def
  proof (rule block_loop)
    fix ii assume "ii < n"
    moreover have "(?xv ii)(ii := v') = ?xv (Suc ii)" by (auto simp: less_Suc_eq)
    ultimately show "block W (f ii) (board u x (?xv ii) c) (board u x (?xv (Suc ii)) c)"
      using assms(2) [of ii "?xv ii"] assms(1) by simp
  qed
  moreover have "board u x (?xv n) c = board u x (\<lambda>_. v') c"
    using assms(1) by (intro board_cong) simp
  ultimately show ?thesis by simp
qed

lemma create_signals_passes:
  assumes "0 < ups s"
  shows "passes (create_signals rt n v s) (\<lambda>(x, s'). length x = n \<and> board (ups s) x (\<lambda>_. v) (val s) s' \<and>
    (\<forall>h \<in> set x. val s h = None))"
proof -
  let ?Inv = "\<lambda>k (x, s'). length x = k \<and> board (ups s) x (\<lambda>_. v) (val s) s' \<and> (\<forall>h \<in> set x. val s h = None)"
  have "passes (create_signals rt n v s) (?Inv (0 + n))"
    unfolding create_signals_def
  proof (rule for_loop_count [where Inv = ?Inv])
    show "?Inv 0 ([], s)" using assms by (simp add: board_def)
  next
    fix k and xs' :: "'h list \<times> 's" assume Inv: "?Inv k xs'"
    obtain x s' where xs': "xs' = (x, s')" by (cases xs')
    have ups: "0 < ups s'" using Inv xs' by (simp add: board_def)
    have one_more: "?Inv (Suc k) (x @ [h], s'')" if new: "val s' h = None" "ups s'' = ups s'" "val s'' = (val s')(h \<mapsto> v)"
      for h s''
    proof -
      have h: "h \<notin> set x" using Inv xs' new(1) by (auto simp: board_def in_set_conv_nth)
      then have "val s h = None" using Inv xs' new(1) by (simp add: board_def)
      moreover have "val s'' ((x @ [h]) ! i) = Some v" if "i < Suc (length x)" for i
        using Inv xs' new(3) h that by (auto simp: board_def nth_append less_Suc_eq)
      ultimately show ?thesis using Inv xs' new h by (auto simp: board_def)
    qed
    show "passes (case xs' of (x, s) \<Rightarrow> let (status, h, s) = hsa_signal_create rt v 0 [] s in
        ASSERT (status = HSA_STATUS_SUCCESS) \<bind> (\<lambda>_. Some (x @ [h], s))) (?Inv (Suc k))"
      unfolding xs' prod.case by (rule wp_create [OF ups]) (use one_more in \<open>simp add: ups\<close>)
  qed
  then show ?thesis by simp
qed

lemma destroy_signals_passes:
  assumes "board u x xv c s" "length x = n"
  shows "passes (destroy_signals rt n x s) (\<lambda>s'. ups s' = u \<and> (\<forall>h. val s' h = (if h \<in> set x then None else c h)))"
proof -
  let ?Inv = "\<lambda>k s'. ups s' = u \<and> (\<forall>h. h \<notin> set x \<longrightarrow> val s' h = c h) \<and>
    (\<forall>i < n. val s' (x ! i) = (if i < k then None else Some (xv i)))"
  have "passes (destroy_signals rt n x s) (?Inv (0 + n))"
    unfolding destroy_signals_def
  proof (rule for_loop_count [where Inv = ?Inv])
    show "?Inv 0 s" using assms by (simp add: board_def)
  next
    fix k s' assume k: "k < 0 + n" and Inv: "?Inv k s'"
    have ups: "0 < ups s'" "distinct x" using Inv assms(1) by (simp_all add: board_def)
    have "val s' (x ! k) = Some (xv k)" using k Inv by simp
    then show "passes (let (status, s) = hsa_signal_destroy rt (x ! k) s' in
        ASSERT (status = HSA_STATUS_SUCCESS) \<bind> (\<lambda>_. Some s)) (?Inv (Suc k))"
      by (rule wp_destroy [OF ups(1)])
        (use Inv k ups assms(2) in \<open>auto simp: nth_eq_iff_index_eq less_Suc_eq\<close>)
  qed
  then show ?thesis by (rule passes_mono) (use assms(2) in \<open>auto simp: in_set_conv_nth\<close>)
qed

lemma clean_up_passes:
  assumes "board (Suc u) x xv (c(y \<mapsto> w)) s" "length x = n" "y \<notin> set x"
  shows "passes (clean_up rt n x y s) (\<lambda>(r, s'). r = 0 \<and> ups s' = u \<and>
    (0 < u \<longrightarrow> val s' = (\<lambda>h. if h \<in> set x \<or> h = y then None else c h)))"
  unfolding clean_up_def
proof (rule wp_seq [OF destroy_signals_passes [OF assms(1,2)]])
  fix s1 assume s1: "ups s1 = Suc u \<and> (\<forall>h. val s1 h = (if h \<in> set x then None else (c(y \<mapsto> w)) h))"
  then have "0 < ups s1" "val s1 y = Some w" using assms(3) by simp_all
  then show "passes (let (status, s) = hsa_signal_destroy rt y s1 in do {
      ASSERT (status = HSA_STATUS_SUCCESS);
      let (status, s) = hsa_shut_down rt s;
      ASSERT (status = HSA_STATUS_SUCCESS);
      Some (0, s)
    }) (\<lambda>(r, s'). r = (0 :: nat) \<and> ups s' = u \<and>
      (0 < u \<longrightarrow> val s' = (\<lambda>h. if h \<in> set x \<or> h = y then None else c h)))"
    by - (rule wp wp_destroy wp_shut_down | (use s1 in \<open>simp add: fun_eq_iff; fail\<close>))+
qed

text \<open>The beginning of the test functions.\<close>

lemma array_created:
  assumes "ups s < 2 ^ 31 - 1"
  obtains x s1 s2 where "hsa_init rt s = (HSA_STATUS_SUCCESS, s1)" "create_signals rt n v s1 = Some (x, s2)"
    "length x = n" "0 < ups s \<longrightarrow> val s1 = val s" "\<forall>h \<in> set x. val s1 h = None"
    "board (Suc (ups s)) x (\<lambda>_. v) (val s1) s2"
proof -
  obtain s1 where s1: "hsa_init rt s = (HSA_STATUS_SUCCESS, s1)" "ups s1 = Suc (ups s)" "0 < ups s \<longrightarrow> val s1 = val s"
    using init [OF assms] by (metis surj_pair)
  have "passes (create_signals rt n v s1) (\<lambda>(x, s'). length x = n \<and> board (ups s1) x (\<lambda>_. v) (val s1) s' \<and>
      (\<forall>h \<in> set x. val s1 h = None))"
    by (rule create_signals_passes) (simp add: s1)
  then show ?thesis using s1 that by (auto simp: passes_def)
qed

lemma control_created:
  assumes "board u x xv c s"
  obtains h s' where "hsa_signal_create rt v 0 [] s = (HSA_STATUS_SUCCESS, h, s')" "h \<notin> set x" "c h = None"
    "board u x xv (c(h \<mapsto> v)) s'"
proof -
  have "0 < ups s" using assms by (simp add: board_def)
  then obtain h s' where h: "hsa_signal_create rt v 0 [] s = (HSA_STATUS_SUCCESS, h, s')"
    "val s h = None" "ups s' = ups s" "val s' = (val s)(h \<mapsto> v)"
    using create by (metis prod_cases3)
  have new: "h \<notin> set x" using assms h(2) by (auto simp: board_def in_set_conv_nth)
  then have "c h = None" using assms h(2) by (simp add: board_def)
  then show ?thesis using that h(1) new board_control [OF assms new h(3,4)] by blast
qed

lemma ordering_test_starts:
  assumes "ups s < 2 ^ 31 - 1"
  obtains x y s1 s' where "length x = n" "y \<notin> set x" "0 < ups s \<longrightarrow> val s1 = val s"
    "\<forall>h \<in> insert y (set x). val s1 h = None" "board (Suc (ups s)) x (\<lambda>_. x_value) ((val s1)(y \<mapsto> y_value)) s'"
    "\<And>run. ordering_test rt n x_value y_value run s = run x y s' \<bind> clean_up rt n x y"
proof -
  obtain x s1 s2 where x: "hsa_init rt s = (HSA_STATUS_SUCCESS, s1)" "create_signals rt n x_value s1 = Some (x, s2)"
    "length x = n" "0 < ups s \<longrightarrow> val s1 = val s" "\<forall>h \<in> set x. val s1 h = None"
    "board (Suc (ups s)) x (\<lambda>_. x_value) (val s1) s2"
    by (rule array_created [OF assms])
  obtain y s3 where y: "hsa_signal_create rt y_value 0 [] s2 = (HSA_STATUS_SUCCESS, y, s3)" "y \<notin> set x" "val s1 y = None"
    "board (Suc (ups s)) x (\<lambda>_. x_value) ((val s1)(y \<mapsto> y_value)) s3"
    by (rule control_created [OF x(6)])
  show ?thesis
    using x y by (intro that [of x y s1 s3]) (simp_all add: ordering_test_def)
qed

lemma ordering_test_passes:
  assumes "ups s < 2 ^ 31 - 1"
    and run: "\<And>x y c s'. length x = n \<Longrightarrow> y \<notin> set x \<Longrightarrow> c y = Some y_value \<Longrightarrow>
      board (Suc (ups s)) x (\<lambda>_. x_value) c s' \<Longrightarrow>
      passes (run x y s') (\<lambda>s''. \<exists>xv w. board (Suc (ups s)) x xv (c(y \<mapsto> w)) s'')"
  shows "passes (ordering_test rt n x_value y_value run s) (\<lambda>(r, s'). r = 0 \<and> restored ups val s s')"
proof -
  obtain x y s1 s' where x: "length x = n" "y \<notin> set x" "0 < ups s \<longrightarrow> val s1 = val s"
    "\<forall>h \<in> insert y (set x). val s1 h = None" "board (Suc (ups s)) x (\<lambda>_. x_value) ((val s1)(y \<mapsto> y_value)) s'"
    and test: "\<And>run. ordering_test rt n x_value y_value run s = run x y s' \<bind> clean_up rt n x y"
    using ordering_test_starts [OF assms(1)] by blast
  let ?c = "(val s1)(y \<mapsto> y_value)"
  have same: "(\<lambda>h. if h \<in> set x \<or> h = y then None else ?c h) = val s1" using x(4) by (auto simp: fun_eq_iff)
  have "passes (run x y s') (\<lambda>s4. \<exists>xv w. board (Suc (ups s)) x xv (?c(y \<mapsto> w)) s4)"
    by (rule run [OF x(1,2) _ x(5)]) simp
  then show ?thesis
    unfolding test
  proof (rule wp_seq, elim exE)
    fix s4 xv w assume "board (Suc (ups s)) x xv (?c(y \<mapsto> w)) s4"
    from clean_up_passes [OF this x(1,2), unfolded same]
    show "passes (clean_up rt n x y s4) (\<lambda>(r, s'). r = 0 \<and> restored ups val s s')"
      by (rule passes_mono) (use x(3) in \<open>auto simp: restored_def\<close>)
  qed
qed

lemma ordering_test_never_returns:
  assumes "ups s < 2 ^ 31 - 1"
    and "\<And>x y c s'. length x = n \<Longrightarrow> y \<notin> set x \<Longrightarrow> c y = Some y_value \<Longrightarrow>
      board (Suc (ups s)) x (\<lambda>_. x_value) c s' \<Longrightarrow> run x y s' = None"
  shows "ordering_test rt n x_value y_value run s = None"
proof -
  obtain x y s1 s' where x: "length x = n" "y \<notin> set x"
    "board (Suc (ups s)) x (\<lambda>_. x_value) ((val s1)(y \<mapsto> y_value)) s'"
    and test: "ordering_test rt n x_value y_value run s = run x y s' \<bind> clean_up rt n x y"
    using ordering_test_starts [OF assms(1)] by metis
  have "run x y s' = None" by (rule assms(2) [OF x(1,2) _ x(3)]) simp
  then show ?thesis by (simp add: test)
qed

text \<open>Two threads that pass the array to each other by means of the signal \<open>y\<close>.\<close>

lemma loop_accesses_const: "loop_accesses n (\<lambda>_. b) = concat (replicate n b)"
  by (simp add: loop_accesses_def map_replicate_const)

lemma turns_pass:
  assumes body1: "b1 = w1 # c1" "block {w2} b1 (board u x (\<lambda>_. v1) (c(y \<mapsto> p))) (board u x (\<lambda>_. v2) (c(y \<mapsto> q)))"
    and body2: "b2 = w2 # c2" "block {w1} b2 (board u x (\<lambda>_. v2) (c(y \<mapsto> q))) (board u x (\<lambda>_. v1) (c(y \<mapsto> p)))"
    and "fair 2 sched" "board u x (\<lambda>_. v) c s" "c y = Some w" "v = v1 \<and> w = p \<or> v = v2 \<and> w = q"
  shows "passes (run_functions sched [loop_accesses n (\<lambda>jj. b1), loop_accesses n (\<lambda>jj. b2)] s)
    (board u x (\<lambda>_. v) (c(y \<mapsto> w)))"
proof -
  let ?I = "board u x (\<lambda>_. v) (c(y \<mapsto> w))" and ?fs = "[concat (replicate n b1), concat (replicate n b2)]"
  have "c(y \<mapsto> w) = c" using assms(7) by (simp add: fun_upd_idem)
  then have start: "at ?fs ?I (?fs, Some (Next, s))" using assms(6) by (simp add: at_def)
  have "leads ?fs (all_end ?I) (at ?fs ?I)"
    using take_turns [OF body1 body2, where n = n and fs = ?fs] assms(8) by auto
  then show ?thesis
    using leads_run [where P = "at ?fs ?I" and k = 0, OF _ _ start] assms(5)
    by (simp add: run_functions_def loop_accesses_const numeral_2_eq_2)
qed

lemma turns_test:
  assumes "ups s < 2 ^ 31 - 1" "fair 2 sched"
    and run: "\<And>x y s. run x y s = run_functions sched
      [loop_accesses k (\<lambda>jj. w1 x y # c1 x y), loop_accesses k (\<lambda>jj. w2 x y # c2 x y)] s"
    and body1: "\<And>x y u c. length x = n \<Longrightarrow> y \<notin> set x \<Longrightarrow> block {w2 x y} (w1 x y # c1 x y)
      (board u x (\<lambda>_. v1) (c(y \<mapsto> p))) (board u x (\<lambda>_. v2) (c(y \<mapsto> q)))"
    and body2: "\<And>x y u c. length x = n \<Longrightarrow> y \<notin> set x \<Longrightarrow> block {w1 x y} (w2 x y # c2 x y)
      (board u x (\<lambda>_. v2) (c(y \<mapsto> q))) (board u x (\<lambda>_. v1) (c(y \<mapsto> p)))"
    and start: "x_value = v1 \<and> y_value = p \<or> x_value = v2 \<and> y_value = q"
  shows "passes (ordering_test rt n x_value y_value run s) (\<lambda>(r, s'). r = 0 \<and> restored ups val s s')"
proof (rule ordering_test_passes [OF assms(1)])
  fix x y c s' assume x: "length x = n" "y \<notin> set x" "c y = Some y_value"
    and board: "board (Suc (ups s)) x (\<lambda>_. x_value) c s'"
  show "passes (run x y s') (\<lambda>s''. \<exists>xv w. board (Suc (ups s)) x xv (c(y \<mapsto> w)) s'')"
    unfolding run
    by (rule passes_mono [OF turns_pass [OF HOL.refl body1 [OF x(1,2)] HOL.refl body2 [OF x(1,2)] assms(2) board x(3) start]]) blast
qed

text \<open>After one turn of each both wait, for values that nobody stores any more.\<close>

lemma turns_hang:
  assumes "ups s < 2 ^ 31 - 1"
    and run: "\<And>x y s. run x y s = run_functions sched
      [loop_accesses k (\<lambda>jj. w1 x y # c1 x y), loop_accesses k (\<lambda>jj. w2 x y # c2 x y)] s"
    and body1: "\<And>x y u c. length x = n \<Longrightarrow> y \<notin> set x \<Longrightarrow> block {w2 x y} (w1 x y # c1 x y)
      (board u x (\<lambda>_. x_value) (c(y \<mapsto> y_value))) (board u x (\<lambda>_. v) (c(y \<mapsto> p)))"
    and body2: "\<And>x y u c. length x = n \<Longrightarrow> y \<notin> set x \<Longrightarrow> block {w1 x y} (w2 x y # c2 x y)
      (board u x (\<lambda>_. v) (c(y \<mapsto> p))) (board u x (\<lambda>_. v') (c(y \<mapsto> q)))"
    and stuck: "\<And>x y u c. length x = n \<Longrightarrow> y \<notin> set x \<Longrightarrow>
        effect (w1 x y) (board u x (\<lambda>_. v') (c(y \<mapsto> q))) Again (board u x (\<lambda>_. v') (c(y \<mapsto> q)))"
      "\<And>x y u c. length x = n \<Longrightarrow> y \<notin> set x \<Longrightarrow>
        effect (w2 x y) (board u x (\<lambda>_. v') (c(y \<mapsto> q))) Again (board u x (\<lambda>_. v') (c(y \<mapsto> q)))"
    and k: "1 < k"
  shows "ordering_test rt n x_value y_value run s = None"
proof (rule ordering_test_never_returns [OF assms(1)])
  fix x y c s' assume x: "length x = n" "y \<notin> set x" and c: "c y = Some y_value"
    and board: "board (Suc (ups s)) x (\<lambda>_. x_value) c s'"
  let ?b1 = "w1 x y # c1 x y" and ?b2 = "w2 x y # c2 x y"
  let ?fs = "[concat (replicate k ?b1), concat (replicate k ?b2)]" and ?I = "board (Suc (ups s)) x"
  let ?r1 = "concat (replicate (k - 1) ?b1)" and ?r2 = "concat (replicate (k - 1) ?b2)"
  have split: "concat (replicate k b) = b @ concat (replicate (k - 1) b)" for b :: "'s access list"
    using k by (cases k) simp_all
  have hd: "?r1 \<noteq> []" "hd ?r1 = w1 x y" "hd ?r2 = w2 x y" using k by (cases "k - 1"; simp)+
  have "doomed ?fs (at [?r1, ?r2] (?I (\<lambda>_. v') (c(y \<mapsto> q))))"
    by (rule doomed_waiting) (use stuck [OF x] hd in \<open>auto simp: waits_def\<close>)
  then have "leads ?fs (doomed ?fs) (at [?r1, ?b2 @ ?r2] (?I (\<lambda>_. v) (c(y \<mapsto> p))))"
    by (intro turn_2 [OF HOL.refl body2 [OF x]] leads.there) (use hd in simp_all)
  then have "leads ?fs (doomed ?fs) (at [?b1 @ ?r1, ?b2 @ ?r2] (?I (\<lambda>_. x_value) (c(y \<mapsto> y_value))))"
    by (intro turn_1 [OF HOL.refl body1 [OF x]]) simp_all
  then have "leads ?fs (doomed ?fs) (at ?fs (?I (\<lambda>_. x_value) (c(y \<mapsto> y_value))))"
    unfolding split [of ?b1] split [of ?b2] .
  moreover have "at ?fs (?I (\<lambda>_. x_value) (c(y \<mapsto> y_value))) (?fs, Some (Next, s'))"
    using board c by (simp add: at_def fun_upd_idem)
  ultimately show "run x y s' = None"
    unfolding run run_functions_def loop_accesses_const by (rule leads_never)
qed

text \<open>The first check of the first thread fails.\<close>

lemma turns_fail:
  assumes "ups s < 2 ^ 31 - 1"
    and run: "\<And>x y s. length x = n \<Longrightarrow>
      run x y s = run_functions sched [w1 x y # a1 x y # c1 x y, w2 x y # c2 x y] s"
    and first: "\<And>x y u c. length x = n \<Longrightarrow> y \<notin> set x \<Longrightarrow>
      effect (w1 x y) (board u x (\<lambda>_. x_value) (c(y \<mapsto> y_value))) Next (board u x (\<lambda>_. x_value) (c(y \<mapsto> p)))"
    and fails: "\<And>x y u c fl s. length x = n \<Longrightarrow> y \<notin> set x \<Longrightarrow>
      board u x (\<lambda>_. x_value) (c(y \<mapsto> p)) s \<Longrightarrow> a1 x y (Some (fl, s)) = None"
    and wait: "\<And>x y u c w. length x = n \<Longrightarrow> y \<notin> set x \<Longrightarrow> w = y_value \<or> w = p \<Longrightarrow>
      effect (w2 x y) (board u x (\<lambda>_. x_value) (c(y \<mapsto> w))) Again (board u x (\<lambda>_. x_value) (c(y \<mapsto> w)))"
  shows "ordering_test rt n x_value y_value run s = None"
proof (rule ordering_test_never_returns [OF assms(1)])
  fix x y c s' assume x: "length x = n" "y \<notin> set x" and c: "c y = Some y_value"
    and board: "board (Suc (ups s)) x (\<lambda>_. x_value) c s'"
  let ?fs = "[w1 x y # a1 x y # c1 x y, w2 x y # c2 x y]" and ?I = "\<lambda>w. board (Suc (ups s)) x (\<lambda>_. x_value) (c(y \<mapsto> w))"
  have waits: "waits (?I w) (w2 x y # c2 x y)" if "w = y_value \<or> w = p" for w
    using wait [OF x that] by (simp add: waits_def)
  have "doomed ?fs (at [a1 x y # c1 x y, w2 x y # c2 x y] (?I p))"
    by (rule doomed_failing [where i = 0 and a = "a1 x y" and as = "c1 x y"]) (use fails [OF x] waits in \<open>auto simp: less_Suc_eq\<close>)
  then have "leads ?fs (doomed ?fs) (at ?fs (?I y_value))"
    by (intro leads_step [OF _ _ _ first [OF x], where i = 0])
      (use waits in \<open>auto simp: less_Suc_eq intro: leads.there\<close>)
  moreover have "at ?fs (?I y_value) (?fs, Some (Next, s'))"
    using board c by (simp add: at_def fun_upd_idem)
  ultimately show "run x y s' = None"
    unfolding run [OF x(1)] run_functions_def by (rule leads_never)
qed

lemma expect_fails:
  assumes "acts op (x ! ii) f" "board u x xv c s" "ii < length x" "xv ii \<noteq> v"
  shows "expect op v (Some (fl, s)) = None"
proof -
  have "0 < ups s" "val s (x ! ii) = Some (xv ii)" using assms(2,3) by (auto simp: board_def)
  then obtain s' where "op s = (xv ii, s')" using assms(1) unfolding acts_def by blast
  then show ?thesis using assms(4) by (simp add: expect_def access_def)
qed

text \<open>
  The accesses that two threads make between a successful wait and the release of \<open>y\<close>, in the form in which the
  values are computed step by step.
\<close>

lemma block_step:
  assumes "effect a I Next I1" "\<And>b. b \<in> W \<Longrightarrow> effect b I Again I" "I1 = I2" "block W as I2 I'"
  shows "block W (a # as) I I'"
  using assms block_Cons by blast

lemma block_done: "I = I' \<Longrightarrow> block W [] I I'"
  by (simp add: block_Nil)

lemma effect_y:
  assumes "y \<notin> set x"
  shows "acts op y f \<Longrightarrow> f w = w' \<Longrightarrow> effect (ignore op) (board u x xv (c(y \<mapsto> w))) Next (board u x xv (c(y \<mapsto> w')))"
    and "acts op y f \<Longrightarrow> v = w \<Longrightarrow> f w = w' \<Longrightarrow>
      effect (spin op v) (board u x xv (c(y \<mapsto> w))) Next (board u x xv (c(y \<mapsto> w')))"
    and "acts op y f \<Longrightarrow> v \<noteq> w \<Longrightarrow> f w = w \<Longrightarrow>
      effect (spin op v) (board u x xv (c(y \<mapsto> w))) Again (board u x xv (c(y \<mapsto> w)))"
    and "updates upd y f \<Longrightarrow> f w = w' \<Longrightarrow> effect (call upd) (board u x xv (c(y \<mapsto> w))) Next (board u x xv (c(y \<mapsto> w')))"
  using effect_control [of op y f x "c(y \<mapsto> w)" w] effect_control_call [of upd y f x "c(y \<mapsto> w)" w] assms by auto

lemma effect_x:
  assumes "ii < length x"
  shows "acts op (x ! ii) f \<Longrightarrow> v = xv ii \<Longrightarrow> f (xv ii) = w' \<Longrightarrow>
      effect (expect op v) (board u x xv c) Next (board u x (xv(ii := w')) c)"
    and "updates upd (x ! ii) f \<Longrightarrow> f (xv ii) = w' \<Longrightarrow> effect (call upd) (board u x xv c) Next (board u x (xv(ii := w')) c)"
  using effect_x_expect [of op x ii f v] effect_x_call [of upd x ii f] assms by auto

lemmas x_effects =
  effect_x(1) [OF _ acts_load] effect_x(1) [OF _ acts_exchange] effect_x(1) [OF _ acts_cas]
  effect_x(2) [OF _ updates_signal(1)] effect_x(2) [OF _ updates_signal(2)] effect_x(2) [OF _ updates_signal(3)]
  effect_x(2) [OF _ updates_signal(4)] effect_x(2) [OF _ updates_signal(5)] effect_x(2) [OF _ updates_signal(6)]

lemmas y_effects =
  effect_y(1) [OF _ acts_exchange] effect_y(1) [OF _ acts_cas]
  effect_y(2) [OF _ acts_load] effect_y(2) [OF _ acts_cas] effect_y(3) [OF _ acts_load] effect_y(3) [OF _ acts_cas]
  effect_y(4) [OF _ updates_signal(1)] effect_y(4) [OF _ updates_signal(2)] effect_y(4) [OF _ updates_signal(3)]
  effect_y(4) [OF _ updates_signal(4)] effect_y(4) [OF _ updates_signal(5)] effect_y(4) [OF _ updates_signal(6)]

lemmas block_rules = block_step x_effects y_effects block_append block_done

end

subsection \<open>Values\<close>

text \<open>The values that the tests use are different in both machine models.\<close>

lemma FIRST_BIT_alt: "machine_word TYPE('w) \<Longrightarrow> (FIRST_BIT :: 'w::len word) = push_bit (LENGTH('w) - 1) 1"
  by (auto simp: machine_word_def FIRST_BIT_def HSA_LARGE_MODEL_def push_bit_eq_mult)

lemma word_values:
  assumes "machine_word TYPE('w)"
  shows "LENGTH('w::len) \<noteq> Suc 0" "(2 :: 'w word) \<noteq> 0" "(0 :: 'w word) \<noteq> 2" "(2 :: 'w word) \<noteq> 1" "(1 :: 'w word) \<noteq> 2"
    "(2 :: 'w word) \<noteq> -1" "(-1 :: 'w word) \<noteq> 2" "(1 :: 'w word) \<noteq> -1" "(-1 :: 'w word) \<noteq> 1"
    "(-1 :: 'w word) \<noteq> 0" "(0 :: 'w word) \<noteq> -1" "(-2 :: 'w word) \<noteq> 0" "(0 :: 'w word) \<noteq> -2"
    "(-2 :: 'w word) \<noteq> -1" "(-1 :: 'w word) \<noteq> -2" "(-2 :: 'w word) \<noteq> 1" "(1 :: 'w word) \<noteq> -2"
    "\<not> iszero (take_bit LENGTH('w) (3 :: int))"
proof -
  have bits: "bit (2 :: 'w word) 1" "\<not> bit (0 :: 'w word) 1" "\<not> bit (1 :: 'w word) 1" "bit (1 :: 'w word) 0"
    "\<not> bit (2 :: 'w word) 0" "bit (-1 :: 'w word) 0" "bit (-1 :: 'w word) 1" "bit (-2 :: 'w word) 1" "\<not> bit (-2 :: 'w word) 0"
    "bit (-1 :: 'w word) 2" "\<not> bit (1 :: 'w word) 2" "\<not> bit (2 :: 'w word) 2"
    using assms by (auto simp: machine_word_def bit_simps)
  show "LENGTH('w::len) \<noteq> Suc 0" "\<not> iszero (take_bit LENGTH('w) (3 :: int))"
    using assms by (auto simp: machine_word_def iszero_def)
  show "(2 :: 'w::len word) \<noteq> 0" "(0 :: 'w word) \<noteq> 2" "(2 :: 'w word) \<noteq> 1" "(1 :: 'w word) \<noteq> 2"
    "(2 :: 'w word) \<noteq> -1" "(-1 :: 'w word) \<noteq> 2" "(1 :: 'w word) \<noteq> -1" "(-1 :: 'w word) \<noteq> 1"
    "(-1 :: 'w word) \<noteq> 0" "(0 :: 'w word) \<noteq> -1" "(-2 :: 'w word) \<noteq> 0" "(0 :: 'w word) \<noteq> -2"
    "(-2 :: 'w word) \<noteq> -1" "(-1 :: 'w word) \<noteq> -2" "(-2 :: 'w word) \<noteq> 1" "(1 :: 'w word) \<noteq> -2"
    using bits by metis+
qed

lemma first_bit_values:
  assumes "machine_word TYPE('w)"
  shows "(FIRST_BIT :: 'w::len word) \<noteq> 0" "(0 :: 'w word) \<noteq> FIRST_BIT" "(FIRST_BIT :: 'w word) \<noteq> 1" "(1 :: 'w word) \<noteq> FIRST_BIT"
    "(FIRST_BIT :: 'w word) \<noteq> -1" "(-1 :: 'w word) \<noteq> FIRST_BIT" "(FIRST_BIT :: 'w word) \<noteq> -2" "(-2 :: 'w word) \<noteq> FIRST_BIT"
    "(FIRST_BIT :: 'w word) AND 1 = 0" "1 AND (FIRST_BIT :: 'w word) = 0"
    "1 XOR (FIRST_BIT :: 'w word) OR 1 = FIRST_BIT" "1 XOR 1 OR (FIRST_BIT :: 'w word) = FIRST_BIT"
    "(FIRST_BIT :: 'w word) XOR FIRST_BIT OR 1 = 1" "(FIRST_BIT :: 'w word) XOR 1 OR FIRST_BIT = 1"
proof -
  have only: "bit (FIRST_BIT :: 'w word) n \<longleftrightarrow> n = LENGTH('w) - 1" for n
    unfolding FIRST_BIT_alt [OF assms] by (auto simp: bit_simps)
  then have bits: "bit (FIRST_BIT :: 'w word) (LENGTH('w) - 1)" "\<not> bit (FIRST_BIT :: 'w word) 0" "\<not> bit (FIRST_BIT :: 'w word) 1"
    "\<not> bit (0 :: 'w word) (LENGTH('w) - 1)" "bit (1 :: 'w word) 0" "bit (-1 :: 'w word) 0" "bit (-2 :: 'w word) 1"
    using assms by (auto simp: machine_word_def bit_simps)
  show "(FIRST_BIT :: 'w::len word) \<noteq> 0" "(0 :: 'w word) \<noteq> FIRST_BIT" "(FIRST_BIT :: 'w word) \<noteq> 1" "(1 :: 'w word) \<noteq> FIRST_BIT"
    "(FIRST_BIT :: 'w word) \<noteq> -1" "(-1 :: 'w word) \<noteq> FIRST_BIT" "(FIRST_BIT :: 'w word) \<noteq> -2" "(-2 :: 'w word) \<noteq> FIRST_BIT"
    using bits by metis+
  show "(FIRST_BIT :: 'w word) AND 1 = 0" "1 AND (FIRST_BIT :: 'w word) = 0"
    "1 XOR (FIRST_BIT :: 'w word) OR 1 = FIRST_BIT" "1 XOR 1 OR (FIRST_BIT :: 'w word) = FIRST_BIT"
    "(FIRST_BIT :: 'w word) XOR FIRST_BIT OR 1 = 1" "(FIRST_BIT :: 'w word) XOR 1 OR FIRST_BIT = 1"
    using assms by (auto intro!: bit_word_eqI simp: bit_simps only machine_word_def)
qed

end
