(* ===== verification/Signal_Ordering_Tests.thy ===== *)
theory Signal_Ordering_Tests
  imports Signal_Ordering
begin

text \<open>
  The ordering tests of two threads, \<open>core/signals/test_signal_*_ordering.c\<close>.  The threads take turns, by means of the signal \<open>y\<close>, in
  changing the signals of the array \<open>x\<close>, and each checks what the other has left there.  Each file has
  two functions for the threads and the test function; the globals or parameters \<open>x\<close> and \<open>y\<close> are arguments here.
\<close>

subsection \<open>Add\<close>

definition test_signal_add_acq_rel_t1 :: "('h, 'w::len word, 's) hsa_rt \<Rightarrow> 'h list \<Rightarrow> 'h \<Rightarrow> 's access list" where
  "test_signal_add_acq_rel_t1 rt x y =
     loop_accesses NUM_ITER_MEM_ORD (\<lambda>jj.
       spin (hsa_signal_cas rt Acq_rel y 1 0) 1 #
       loop_accesses NUM_X (\<lambda>ii.
         [expect (hsa_signal_load rt Relaxed (x ! ii)) 2,
          call (hsa_signal_add rt Relaxed (x ! ii) (-1))]) @
       [call (hsa_signal_add rt Acq_rel y 2)])"

definition test_signal_add_acq_rel_t2 :: "('h, 'w::len word, 's) hsa_rt \<Rightarrow> 'h list \<Rightarrow> 'h \<Rightarrow> 's access list" where
  "test_signal_add_acq_rel_t2 rt x y =
     loop_accesses NUM_ITER_MEM_ORD (\<lambda>jj.
       spin (hsa_signal_cas rt Acq_rel y 2 0) 2 #
       loop_accesses NUM_X (\<lambda>ii.
         [expect (hsa_signal_load rt Relaxed (x ! ii)) 1,
          call (hsa_signal_add rt Relaxed (x ! ii) 1)]) @
       [call (hsa_signal_add rt Acq_rel y 1)])"

definition test_signal_add_acq_rel_ordering :: "('h, 'w::len word, 's) hsa_rt \<Rightarrow> (nat \<Rightarrow> nat) \<Rightarrow> 's \<Rightarrow> (nat \<times> 's) option" where
  "test_signal_add_acq_rel_ordering rt sched s =
     ordering_test rt NUM_X 2 1 (\<lambda>x y. two_tests (test_signal_add_acq_rel_t1 rt x y) (test_signal_add_acq_rel_t2 rt x y) sched) s"

definition test_signal_add_acquire_release_t1 :: "('h, 'w::len word, 's) hsa_rt \<Rightarrow> 'h list \<Rightarrow> 'h \<Rightarrow> 's access list" where
  "test_signal_add_acquire_release_t1 rt x y =
     loop_accesses NUM_ITER_MEM_ORD (\<lambda>jj.
       spin (hsa_signal_cas rt Acq_rel y 1 (-1)) 1 #
       call (hsa_signal_add rt Acquire y 1) #
       loop_accesses NUM_X (\<lambda>ii.
         [expect (hsa_signal_load rt Relaxed (x ! ii)) 2,
          call (hsa_signal_add rt Relaxed (x ! ii) (-1))]) @
       [call (hsa_signal_add rt Release y 2)])"

definition test_signal_add_acquire_release_t2 :: "('h, 'w::len word, 's) hsa_rt \<Rightarrow> 'h list \<Rightarrow> 'h \<Rightarrow> 's access list" where
  "test_signal_add_acquire_release_t2 rt x y =
     loop_accesses NUM_ITER_MEM_ORD (\<lambda>jj.
       spin (hsa_signal_cas rt Acq_rel y 2 (-1)) 2 #
       call (hsa_signal_add rt Acquire y 1) #
       loop_accesses NUM_X (\<lambda>ii.
         [expect (hsa_signal_load rt Relaxed (x ! ii)) 1,
          call (hsa_signal_add rt Relaxed (x ! ii) 1)]) @
       [call (hsa_signal_add rt Release y 1)])"

definition test_signal_add_acquire_release_ordering :: "('h, 'w::len word, 's) hsa_rt \<Rightarrow> (nat \<Rightarrow> nat) \<Rightarrow> 's \<Rightarrow> (nat \<times> 's) option" where
  "test_signal_add_acquire_release_ordering rt sched s =
     ordering_test rt NUM_X 2 1 (\<lambda>x y. two_tests (test_signal_add_acquire_release_t1 rt x y) (test_signal_add_acquire_release_t2 rt x y) sched) s"

definition test_signal_add_release_t1 :: "('h, 'w::len word, 's) hsa_rt \<Rightarrow> 'h list \<Rightarrow> 'h \<Rightarrow> 's access list" where
  "test_signal_add_release_t1 rt x y =
     loop_accesses NUM_ITER_MEM_ORD (\<lambda>jj.
       spin (hsa_signal_cas rt Acquire y 1 0) 1 #
       loop_accesses 1024 (\<lambda>ii.
         [expect (hsa_signal_load rt Relaxed (x ! ii)) 2,
          call (hsa_signal_add rt Relaxed (x ! ii) (-1))]) @
       [call (hsa_signal_add rt Release y 2)])"

definition test_signal_add_release_t2 :: "('h, 'w::len word, 's) hsa_rt \<Rightarrow> 'h list \<Rightarrow> 'h \<Rightarrow> 's access list" where
  "test_signal_add_release_t2 rt x y =
     loop_accesses NUM_ITER_MEM_ORD (\<lambda>jj.
       spin (hsa_signal_cas rt Acquire y 2 0) 2 #
       loop_accesses 1024 (\<lambda>ii.
         [expect (hsa_signal_load rt Relaxed (x ! ii)) 1,
          call (hsa_signal_add rt Relaxed (x ! ii) 1)]) @
       [call (hsa_signal_add rt Release y 1)])"

definition test_signal_add_release_ordering :: "('h, 'w::len word, 's) hsa_rt \<Rightarrow> (nat \<Rightarrow> nat) \<Rightarrow> 's \<Rightarrow> (nat \<times> 's) option" where
  "test_signal_add_release_ordering rt sched s =
     ordering_test rt 1024 1 1 (\<lambda>x y. two_tests (test_signal_add_release_t1 rt x y) (test_signal_add_release_t2 rt x y) sched) s"

subsection \<open>And\<close>

definition signal_and_acq_rel_T1 :: "('h, 'w::len word, 's) hsa_rt \<Rightarrow> 'h list \<Rightarrow> 'h \<Rightarrow> 's access list" where
  "signal_and_acq_rel_T1 rt x y =
     loop_accesses NUM_ITERATION (\<lambda>jj.
       spin (hsa_signal_cas rt Acq_rel y 1 0) 1 #
       loop_accesses NUM_SIGNAL (\<lambda>ii.
         [expect (hsa_signal_load rt Relaxed (x ! ii)) 1,
          call (hsa_signal_store rt Relaxed (x ! ii) (-1)),
          call (hsa_signal_and rt Relaxed (x ! ii) FIRST_BIT)]) @
       [call (hsa_signal_store rt Relaxed y (-1)),
        call (hsa_signal_and rt Acquire y FIRST_BIT)])"

definition signal_and_acq_rel_T2 :: "('h, 'w::len word, 's) hsa_rt \<Rightarrow> 'h list \<Rightarrow> 'h \<Rightarrow> 's access list" where
  "signal_and_acq_rel_T2 rt x y =
     loop_accesses NUM_ITERATION (\<lambda>jj.
       spin (hsa_signal_cas rt Acq_rel y FIRST_BIT 0) FIRST_BIT #
       loop_accesses NUM_SIGNAL (\<lambda>ii.
         [expect (hsa_signal_load rt Relaxed (x ! ii)) FIRST_BIT,
          call (hsa_signal_store rt Relaxed (x ! ii) (-1)),
          call (hsa_signal_and rt Relaxed (x ! ii) 1)]) @
       [call (hsa_signal_store rt Relaxed y (-1)),
        call (hsa_signal_and rt Acq_rel y 1)])"

definition test_signal_and_acq_rel_ordering :: "('h, 'w::len word, 's) hsa_rt \<Rightarrow> (nat \<Rightarrow> nat) \<Rightarrow> 's \<Rightarrow> (nat \<times> 's) option" where
  "test_signal_and_acq_rel_ordering rt sched s =
     ordering_test rt NUM_SIGNAL 1 1 (\<lambda>x y. two_pthreads (signal_and_acq_rel_T1 rt x y) (signal_and_acq_rel_T2 rt x y) sched) s"

definition test_signal_and_acquire_release_t1 :: "('h, 'w::len word, 's) hsa_rt \<Rightarrow> 'h list \<Rightarrow> 'h \<Rightarrow> 's access list" where
  "test_signal_and_acquire_release_t1 rt x y =
     loop_accesses NUM_ITERATION (\<lambda>jj.
       spin (hsa_signal_cas rt Relaxed y 1 0) 1 #
       call (hsa_signal_and rt Acquire y 0) #
       loop_accesses NUM_SIGNAL (\<lambda>ii.
         [expect (hsa_signal_load rt Relaxed (x ! ii)) 1,
          call (hsa_signal_store rt Relaxed (x ! ii) (-1)),
          call (hsa_signal_and rt Relaxed (x ! ii) FIRST_BIT)]) @
       [call (hsa_signal_store rt Relaxed y (-1)),
        call (hsa_signal_and rt Release y FIRST_BIT)])"

definition test_signal_and_acquire_release_t2 :: "('h, 'w::len word, 's) hsa_rt \<Rightarrow> 'h list \<Rightarrow> 'h \<Rightarrow> 's access list" where
  "test_signal_and_acquire_release_t2 rt x y =
     loop_accesses NUM_ITERATION (\<lambda>jj.
       spin (hsa_signal_cas rt Relaxed y FIRST_BIT 0) FIRST_BIT #
       call (hsa_signal_and rt Acquire y 0) #
       loop_accesses NUM_SIGNAL (\<lambda>ii.
         [expect (hsa_signal_load rt Relaxed (x ! ii)) FIRST_BIT,
          call (hsa_signal_store rt Relaxed (x ! ii) (-1)),
          call (hsa_signal_and rt Relaxed (x ! ii) 1)]) @
       [call (hsa_signal_store rt Relaxed y (-1)),
        call (hsa_signal_and rt Release y 1)])"

definition test_signal_and_acquire_release_ordering :: "('h, 'w::len word, 's) hsa_rt \<Rightarrow> (nat \<Rightarrow> nat) \<Rightarrow> 's \<Rightarrow> (nat \<times> 's) option" where
  "test_signal_and_acquire_release_ordering rt sched s =
     ordering_test rt NUM_SIGNAL 1 1 (\<lambda>x y. two_pthreads (test_signal_and_acquire_release_t1 rt x y) (test_signal_and_acquire_release_t2 rt x y) sched) s"

definition test_signal_and_release_t1 :: "('h, 'w::len word, 's) hsa_rt \<Rightarrow> 'h list \<Rightarrow> 'h \<Rightarrow> 's access list" where
  "test_signal_and_release_t1 rt x y =
     loop_accesses NUM_ITERATION (\<lambda>jj.
       spin (hsa_signal_cas rt Acquire y 1 0) 1 #
       loop_accesses 1024 (\<lambda>ii.
         [expect (hsa_signal_load rt Relaxed (x ! ii)) 1,
          call (hsa_signal_store rt Relaxed (x ! ii) (-1)),
          call (hsa_signal_and rt Relaxed (x ! ii) FIRST_BIT)]) @
       [call (hsa_signal_store rt Relaxed y (-1)),
        call (hsa_signal_and rt Release y FIRST_BIT)])"

definition test_signal_and_release_t2 :: "('h, 'w::len word, 's) hsa_rt \<Rightarrow> 'h list \<Rightarrow> 'h \<Rightarrow> 's access list" where
  "test_signal_and_release_t2 rt x y =
     loop_accesses NUM_ITERATION (\<lambda>jj.
       spin (hsa_signal_cas rt Acquire y FIRST_BIT 0) FIRST_BIT #
       loop_accesses 1024 (\<lambda>ii.
         [expect (hsa_signal_load rt Relaxed (x ! ii)) FIRST_BIT,
          call (hsa_signal_store rt Relaxed (x ! ii) (-1)),
          call (hsa_signal_and rt Relaxed (x ! ii) 1)]) @
       [call (hsa_signal_store rt Relaxed y (-1)),
        call (hsa_signal_and rt Release y 1)])"

definition test_signal_and_release_ordering :: "('h, 'w::len word, 's) hsa_rt \<Rightarrow> (nat \<Rightarrow> nat) \<Rightarrow> 's \<Rightarrow> (nat \<times> 's) option" where
  "test_signal_and_release_ordering rt sched s =
     ordering_test rt 1024 1 1 (\<lambda>x y. two_pthreads (test_signal_and_release_t1 rt x y) (test_signal_and_release_t2 rt x y) sched) s"

subsection \<open>Compare and swap\<close>

definition test_signal_cas_acq_rel_t1 :: "('h, 'w::len word, 's) hsa_rt \<Rightarrow> 'h list \<Rightarrow> 'h \<Rightarrow> 's access list" where
  "test_signal_cas_acq_rel_t1 rt x y =
     loop_accesses NUM_ITER_MEM_ORD (\<lambda>jj.
       spin (hsa_signal_cas rt Acq_rel y 1 0) 1 #
       loop_accesses NUM_X (\<lambda>ii.
         [expect (hsa_signal_cas rt Relaxed (x ! ii) 2 1) 2]) @
       [ignore (hsa_signal_cas rt Acq_rel y 0 2)])"

definition test_signal_cas_acq_rel_t2 :: "('h, 'w::len word, 's) hsa_rt \<Rightarrow> 'h list \<Rightarrow> 'h \<Rightarrow> 's access list" where
  "test_signal_cas_acq_rel_t2 rt x y =
     loop_accesses NUM_ITER_MEM_ORD (\<lambda>jj.
       spin (hsa_signal_cas rt Acq_rel y 2 0) 2 #
       loop_accesses NUM_X (\<lambda>ii.
         [expect (hsa_signal_cas rt Relaxed (x ! ii) 1 2) 1]) @
       [ignore (hsa_signal_cas rt Acq_rel y 0 1)])"

definition test_signal_cas_acq_rel_ordering :: "('h, 'w::len word, 's) hsa_rt \<Rightarrow> (nat \<Rightarrow> nat) \<Rightarrow> 's \<Rightarrow> (nat \<times> 's) option" where
  "test_signal_cas_acq_rel_ordering rt sched s =
     ordering_test rt NUM_X 2 1 (\<lambda>x y. two_tests (test_signal_cas_acq_rel_t1 rt x y) (test_signal_cas_acq_rel_t2 rt x y) sched) s"

definition test_signal_cas_acquire_release_t1 :: "('h, 'w::len word, 's) hsa_rt \<Rightarrow> 'h list \<Rightarrow> 'h \<Rightarrow> 's access list" where
  "test_signal_cas_acquire_release_t1 rt x y =
     loop_accesses NUM_ITER_MEM_ORD (\<lambda>jj.
       spin (hsa_signal_cas rt Acquire y 1 0) 1 #
       loop_accesses NUM_X (\<lambda>ii.
         [expect (hsa_signal_cas rt Relaxed (x ! ii) 2 1) 2]) @
       [ignore (hsa_signal_cas rt Release y 0 2)])"

definition test_signal_cas_acquire_release_t2 :: "('h, 'w::len word, 's) hsa_rt \<Rightarrow> 'h list \<Rightarrow> 'h \<Rightarrow> 's access list" where
  "test_signal_cas_acquire_release_t2 rt x y =
     loop_accesses NUM_ITER_MEM_ORD (\<lambda>jj.
       spin (hsa_signal_cas rt Acquire y 2 0) 2 #
       loop_accesses NUM_X (\<lambda>ii.
         [expect (hsa_signal_cas rt Relaxed (x ! ii) 1 2) 1]) @
       [ignore (hsa_signal_cas rt Release y 0 1)])"

definition test_signal_cas_acquire_release_ordering :: "('h, 'w::len word, 's) hsa_rt \<Rightarrow> (nat \<Rightarrow> nat) \<Rightarrow> 's \<Rightarrow> (nat \<times> 's) option" where
  "test_signal_cas_acquire_release_ordering rt sched s =
     ordering_test rt NUM_X 2 1 (\<lambda>x y. two_tests (test_signal_cas_acquire_release_t1 rt x y) (test_signal_cas_acquire_release_t2 rt x y) sched) s"

subsection \<open>Exchange\<close>

definition test_signal_exchange_acq_rel_t1 :: "('h, 'w::len word, 's) hsa_rt \<Rightarrow> 'h list \<Rightarrow> 'h \<Rightarrow> 's access list" where
  "test_signal_exchange_acq_rel_t1 rt x y =
     loop_accesses NUM_ITER_MEM_ORD (\<lambda>jj.
       spin (hsa_signal_load rt Relaxed y) 1 #
       ignore (hsa_signal_exchange rt Acq_rel y 0) #
       loop_accesses NUM_X (\<lambda>ii.
         [expect (hsa_signal_exchange rt Relaxed (x ! ii) 1) 2]) @
       [ignore (hsa_signal_exchange rt Acq_rel y 2)])"

definition test_signal_exchange_acq_rel_t2 :: "('h, 'w::len word, 's) hsa_rt \<Rightarrow> 'h list \<Rightarrow> 'h \<Rightarrow> 's access list" where
  "test_signal_exchange_acq_rel_t2 rt x y =
     loop_accesses NUM_ITER_MEM_ORD (\<lambda>jj.
       spin (hsa_signal_load rt Relaxed y) 2 #
       ignore (hsa_signal_exchange rt Acq_rel y 0) #
       loop_accesses NUM_X (\<lambda>ii.
         [expect (hsa_signal_exchange rt Relaxed (x ! ii) 2) 1]) @
       [ignore (hsa_signal_exchange rt Acq_rel y 1)])"

definition test_signal_exchange_acq_rel_ordering :: "('h, 'w::len word, 's) hsa_rt \<Rightarrow> (nat \<Rightarrow> nat) \<Rightarrow> 's \<Rightarrow> (nat \<times> 's) option" where
  "test_signal_exchange_acq_rel_ordering rt sched s =
     ordering_test rt NUM_X 2 1 (\<lambda>x y. two_tests (test_signal_exchange_acq_rel_t1 rt x y) (test_signal_exchange_acq_rel_t2 rt x y) sched) s"

definition test_signal_exchange_acquire_release_t1 :: "('h, 'w::len word, 's) hsa_rt \<Rightarrow> 'h list \<Rightarrow> 'h \<Rightarrow> 's access list" where
  "test_signal_exchange_acquire_release_t1 rt x y =
     loop_accesses NUM_ITER_MEM_ORD (\<lambda>jj.
       spin (hsa_signal_load rt Relaxed y) 1 #
       ignore (hsa_signal_exchange rt Acquire y 0) #
       loop_accesses NUM_X (\<lambda>ii.
         [expect (hsa_signal_exchange rt Relaxed (x ! ii) 1) 2]) @
       [ignore (hsa_signal_exchange rt Release y 2)])"

definition test_signal_exchange_acquire_release_t2 :: "('h, 'w::len word, 's) hsa_rt \<Rightarrow> 'h list \<Rightarrow> 'h \<Rightarrow> 's access list" where
  "test_signal_exchange_acquire_release_t2 rt x y =
     loop_accesses NUM_ITER_MEM_ORD (\<lambda>jj.
       spin (hsa_signal_load rt Relaxed y) 2 #
       ignore (hsa_signal_exchange rt Acquire y 0) #
       loop_accesses NUM_X (\<lambda>ii.
         [expect (hsa_signal_exchange rt Relaxed (x ! ii) 2) 1]) @
       [ignore (hsa_signal_exchange rt Release y 1)])"

definition test_signal_exchange_acquire_release_ordering :: "('h, 'w::len word, 's) hsa_rt \<Rightarrow> (nat \<Rightarrow> nat) \<Rightarrow> 's \<Rightarrow> (nat \<times> 's) option" where
  "test_signal_exchange_acquire_release_ordering rt sched s =
     ordering_test rt NUM_X 2 1 (\<lambda>x y. two_tests (test_signal_exchange_acquire_release_t1 rt x y) (test_signal_exchange_acquire_release_t2 rt x y) sched) s"

subsection \<open>Or\<close>

definition test_signal_or_acq_rel_ordering_t1 :: "('h, 'w::len word, 's) hsa_rt \<Rightarrow> 'h list \<Rightarrow> 'h \<Rightarrow> 's access list" where
  "test_signal_or_acq_rel_ordering_t1 rt x y =
     loop_accesses NUM_ITERATION (\<lambda>jj.
       spin (hsa_signal_cas rt Acq_rel y 1 0) 1 #
       loop_accesses NUM_SIGNAL (\<lambda>ii.
         [expect (hsa_signal_load rt Relaxed (x ! ii)) 1,
          call (hsa_signal_store rt Relaxed (x ! ii) 0),
          call (hsa_signal_or rt Relaxed (x ! ii) FIRST_BIT)]) @
       [call (hsa_signal_store rt Relaxed y 0),
        call (hsa_signal_or rt Acq_rel y FIRST_BIT)])"

definition test_signal_or_acq_rel_ordering_t2 :: "('h, 'w::len word, 's) hsa_rt \<Rightarrow> 'h list \<Rightarrow> 'h \<Rightarrow> 's access list" where
  "test_signal_or_acq_rel_ordering_t2 rt x y =
     loop_accesses NUM_ITERATION (\<lambda>jj.
       spin (hsa_signal_cas rt Acq_rel y FIRST_BIT 0) FIRST_BIT #
       loop_accesses NUM_SIGNAL (\<lambda>ii.
         [expect (hsa_signal_load rt Relaxed (x ! ii)) FIRST_BIT,
          call (hsa_signal_store rt Relaxed (x ! ii) 0),
          call (hsa_signal_or rt Relaxed (x ! ii) 1)]) @
       [call (hsa_signal_store rt Relaxed y 0),
        call (hsa_signal_or rt Acq_rel y 1)])"

definition test_signal_or_acq_rel_ordering :: "('h, 'w::len word, 's) hsa_rt \<Rightarrow> (nat \<Rightarrow> nat) \<Rightarrow> 's \<Rightarrow> (nat \<times> 's) option" where
  "test_signal_or_acq_rel_ordering rt sched s =
     ordering_test rt NUM_SIGNAL 1 1 (\<lambda>x y. two_pthreads (test_signal_or_acq_rel_ordering_t1 rt x y) (test_signal_or_acq_rel_ordering_t2 rt x y) sched) s"

definition test_signal_or_acquire_release_t1 :: "('h, 'w::len word, 's) hsa_rt \<Rightarrow> 'h list \<Rightarrow> 'h \<Rightarrow> 's access list" where
  "test_signal_or_acquire_release_t1 rt x y =
     loop_accesses NUM_ITERATION (\<lambda>jj.
       spin (hsa_signal_cas rt Relaxed y 1 0) 1 #
       call (hsa_signal_or rt Acquire y 0) #
       loop_accesses NUM_SIGNAL (\<lambda>ii.
         [expect (hsa_signal_load rt Relaxed (x ! ii)) 1,
          call (hsa_signal_store rt Relaxed (x ! ii) 0),
          call (hsa_signal_or rt Relaxed (x ! ii) FIRST_BIT)]) @
       [call (hsa_signal_store rt Relaxed y 0),
        call (hsa_signal_or rt Release y FIRST_BIT)])"

definition test_signal_or_acquire_release_t2 :: "('h, 'w::len word, 's) hsa_rt \<Rightarrow> 'h list \<Rightarrow> 'h \<Rightarrow> 's access list" where
  "test_signal_or_acquire_release_t2 rt x y =
     loop_accesses NUM_ITERATION (\<lambda>jj.
       spin (hsa_signal_cas rt Relaxed y FIRST_BIT 0) FIRST_BIT #
       call (hsa_signal_or rt Acquire y 0) #
       loop_accesses NUM_SIGNAL (\<lambda>ii.
         [expect (hsa_signal_load rt Relaxed (x ! ii)) FIRST_BIT,
          call (hsa_signal_store rt Relaxed (x ! ii) 0),
          call (hsa_signal_or rt Relaxed (x ! ii) 1)]) @
       [call (hsa_signal_store rt Relaxed y 0),
        call (hsa_signal_or rt Release y 1)])"

definition test_signal_or_acquire_release_ordering :: "('h, 'w::len word, 's) hsa_rt \<Rightarrow> (nat \<Rightarrow> nat) \<Rightarrow> 's \<Rightarrow> (nat \<times> 's) option" where
  "test_signal_or_acquire_release_ordering rt sched s =
     ordering_test rt NUM_SIGNAL 1 1 (\<lambda>x y. two_pthreads (test_signal_or_acquire_release_t1 rt x y) (test_signal_or_acquire_release_t2 rt x y) sched) s"

definition test_signal_or_release_t1 :: "('h, 'w::len word, 's) hsa_rt \<Rightarrow> 'h list \<Rightarrow> 'h \<Rightarrow> 's access list" where
  "test_signal_or_release_t1 rt x y =
     loop_accesses NUM_ITERATION (\<lambda>jj.
       spin (hsa_signal_cas rt Acquire y 1 0) 1 #
       loop_accesses 1024 (\<lambda>ii.
         [expect (hsa_signal_load rt Relaxed (x ! ii)) 1,
          call (hsa_signal_store rt Relaxed (x ! ii) 0),
          call (hsa_signal_or rt Relaxed (x ! ii) FIRST_BIT)]) @
       [call (hsa_signal_store rt Relaxed y 0),
        call (hsa_signal_or rt Release y FIRST_BIT)])"

definition test_signal_or_release_t2 :: "('h, 'w::len word, 's) hsa_rt \<Rightarrow> 'h list \<Rightarrow> 'h \<Rightarrow> 's access list" where
  "test_signal_or_release_t2 rt x y =
     loop_accesses NUM_ITERATION (\<lambda>jj.
       spin (hsa_signal_cas rt Acquire y FIRST_BIT 0) FIRST_BIT #
       loop_accesses 1024 (\<lambda>ii.
         [expect (hsa_signal_load rt Relaxed (x ! ii)) FIRST_BIT,
          call (hsa_signal_store rt Relaxed (x ! ii) 0),
          call (hsa_signal_or rt Relaxed (x ! ii) 1)]) @
       [call (hsa_signal_store rt Relaxed y 0),
        call (hsa_signal_or rt Release y 1)])"

definition test_signal_or_release_ordering :: "('h, 'w::len word, 's) hsa_rt \<Rightarrow> (nat \<Rightarrow> nat) \<Rightarrow> 's \<Rightarrow> (nat \<times> 's) option" where
  "test_signal_or_release_ordering rt sched s =
     ordering_test rt 1024 1 1 (\<lambda>x y. two_pthreads (test_signal_or_release_t1 rt x y) (test_signal_or_release_t2 rt x y) sched) s"

subsection \<open>Store and load\<close>

definition test_signal_store_release_load_acquire_t1 :: "('h, 'w::len word, 's) hsa_rt \<Rightarrow> 'h list \<Rightarrow> 'h \<Rightarrow> 's access list" where
  "test_signal_store_release_load_acquire_t1 rt x y =
     loop_accesses NUM_ITER_MEM_ORD (\<lambda>jj.
       spin (hsa_signal_load rt Acquire y) 0 #
       loop_accesses NUM_X (\<lambda>ii.
         [expect (hsa_signal_load rt Relaxed (x ! ii)) 0,
          call (hsa_signal_store rt Relaxed (x ! ii) 1)]) @
       [call (hsa_signal_store rt Release y 1)])"

definition test_signal_store_release_load_acquire_t2 :: "('h, 'w::len word, 's) hsa_rt \<Rightarrow> 'h list \<Rightarrow> 'h \<Rightarrow> 's access list" where
  "test_signal_store_release_load_acquire_t2 rt x y =
     loop_accesses NUM_ITER_MEM_ORD (\<lambda>jj.
       spin (hsa_signal_load rt Acquire y) 1 #
       loop_accesses NUM_X (\<lambda>ii.
         [expect (hsa_signal_load rt Relaxed (x ! ii)) 1,
          call (hsa_signal_store rt Relaxed (x ! ii) 0)]) @
       [call (hsa_signal_store rt Release y 0)])"

definition test_signal_store_release_load_acquire_ordering :: "('h, 'w::len word, 's) hsa_rt \<Rightarrow> (nat \<Rightarrow> nat) \<Rightarrow> 's \<Rightarrow> (nat \<times> 's) option" where
  "test_signal_store_release_load_acquire_ordering rt sched s =
     ordering_test rt NUM_X 1 1 (\<lambda>x y. two_groups (test_signal_store_release_load_acquire_t1 rt x y) (test_signal_store_release_load_acquire_t2 rt x y) sched) s"

subsection \<open>Subtract\<close>

definition test_signal_subtract_acq_rel_t1 :: "('h, 'w::len word, 's) hsa_rt \<Rightarrow> 'h list \<Rightarrow> 'h \<Rightarrow> 's access list" where
  "test_signal_subtract_acq_rel_t1 rt x y =
     loop_accesses NUM_ITER_MEM_ORD (\<lambda>jj.
       spin (hsa_signal_cas rt Acq_rel y (-1) 0) (-1) #
       loop_accesses NUM_X (\<lambda>ii.
         [expect (hsa_signal_load rt Relaxed (x ! ii)) 2,
          call (hsa_signal_subtract rt Relaxed (x ! ii) 1)]) @
       [call (hsa_signal_subtract rt Acq_rel y 2)])"

definition test_signal_subtract_acq_rel_t2 :: "('h, 'w::len word, 's) hsa_rt \<Rightarrow> 'h list \<Rightarrow> 'h \<Rightarrow> 's access list" where
  "test_signal_subtract_acq_rel_t2 rt x y =
     loop_accesses NUM_ITER_MEM_ORD (\<lambda>jj.
       spin (hsa_signal_cas rt Acq_rel y (-2) 0) (-2) #
       loop_accesses NUM_X (\<lambda>ii.
         [expect (hsa_signal_load rt Relaxed (x ! ii)) 1,
          call (hsa_signal_subtract rt Relaxed (x ! ii) (-1))]) @
       [call (hsa_signal_subtract rt Acq_rel y 1)])"

definition test_signal_subtract_acq_rel_ordering :: "('h, 'w::len word, 's) hsa_rt \<Rightarrow> (nat \<Rightarrow> nat) \<Rightarrow> 's \<Rightarrow> (nat \<times> 's) option" where
  "test_signal_subtract_acq_rel_ordering rt sched s =
     ordering_test rt NUM_X 2 (-1) (\<lambda>x y. two_tests (test_signal_subtract_acq_rel_t1 rt x y) (test_signal_subtract_acq_rel_t2 rt x y) sched) s"

definition test_signal_subtract_acquire_t1 :: "('h, 'w::len word, 's) hsa_rt \<Rightarrow> 'h list \<Rightarrow> 'h \<Rightarrow> 's access list" where
  "test_signal_subtract_acquire_t1 rt x y =
     loop_accesses NUM_ITER_MEM_ORD (\<lambda>jj.
       spin (hsa_signal_cas rt Acq_rel y 1 0) 1 #
       loop_accesses 1024 (\<lambda>ii.
         [expect (hsa_signal_load rt Relaxed (x ! ii)) 2,
          call (hsa_signal_subtract rt Relaxed (x ! ii) 1)]) @
       [call (hsa_signal_subtract rt Acquire y 2)])"

definition test_signal_subtract_acquire_t2 :: "('h, 'w::len word, 's) hsa_rt \<Rightarrow> 'h list \<Rightarrow> 'h \<Rightarrow> 's access list" where
  "test_signal_subtract_acquire_t2 rt x y =
     loop_accesses NUM_ITER_MEM_ORD (\<lambda>jj.
       spin (hsa_signal_cas rt Acq_rel y (-2) 0) (-2) #
       loop_accesses 1024 (\<lambda>ii.
         [expect (hsa_signal_load rt Relaxed (x ! ii)) 1,
          call (hsa_signal_subtract rt Relaxed (x ! ii) (-1))]) @
       [call (hsa_signal_subtract rt Acquire y 1)])"

definition test_signal_subtract_acquire_ordering :: "('h, 'w::len word, 's) hsa_rt \<Rightarrow> (nat \<Rightarrow> nat) \<Rightarrow> 's \<Rightarrow> (nat \<times> 's) option" where
  "test_signal_subtract_acquire_ordering rt sched s =
     ordering_test rt 1024 2 1 (\<lambda>x y. two_tests (test_signal_subtract_acquire_t1 rt x y) (test_signal_subtract_acquire_t2 rt x y) sched) s"

definition test_signal_subtract_release_t1 :: "('h, 'w::len word, 's) hsa_rt \<Rightarrow> 'h list \<Rightarrow> 'h \<Rightarrow> 's access list" where
  "test_signal_subtract_release_t1 rt x y =
     loop_accesses NUM_ITER_MEM_ORD (\<lambda>jj.
       spin (hsa_signal_cas rt Acquire y 1 0) 1 #
       loop_accesses 1024 (\<lambda>ii.
         [expect (hsa_signal_load rt Relaxed (x ! ii)) 2,
          call (hsa_signal_subtract rt Relaxed (x ! ii) 1)]) @
       [call (hsa_signal_subtract rt Release y 2)])"

definition test_signal_subtract_release_t2 :: "('h, 'w::len word, 's) hsa_rt \<Rightarrow> 'h list \<Rightarrow> 'h \<Rightarrow> 's access list" where
  "test_signal_subtract_release_t2 rt x y =
     loop_accesses NUM_ITER_MEM_ORD (\<lambda>jj.
       spin (hsa_signal_cas rt Acquire y (-2) 0) (-2) #
       loop_accesses 1024 (\<lambda>ii.
         [expect (hsa_signal_load rt Relaxed (x ! ii)) 1,
          call (hsa_signal_subtract rt Relaxed (x ! ii) 1)]) @
       [call (hsa_signal_subtract rt Release y 1)])"

definition test_signal_subtract_release_ordering :: "('h, 'w::len word, 's) hsa_rt \<Rightarrow> (nat \<Rightarrow> nat) \<Rightarrow> 's \<Rightarrow> (nat \<times> 's) option" where
  "test_signal_subtract_release_ordering rt sched s =
     ordering_test rt 1024 2 1 (\<lambda>x y. two_tests (test_signal_subtract_release_t1 rt x y) (test_signal_subtract_release_t2 rt x y) sched) s"

subsection \<open>Xor\<close>

definition test_signal_xor_acq_rel_t1 :: "('h, 'w::len word, 's) hsa_rt \<Rightarrow> 'h list \<Rightarrow> 'h \<Rightarrow> 's access list" where
  "test_signal_xor_acq_rel_t1 rt x y =
     loop_accesses NUM_ITER_MEM_ORD (\<lambda>jj.
       spin (hsa_signal_cas rt Acq_rel y LAST_BIT 0) LAST_BIT #
       loop_accesses NUM_X (\<lambda>ii.
         [expect (hsa_signal_load rt Relaxed (x ! ii)) LAST_BIT,
          call (hsa_signal_store rt Relaxed (x ! ii) 0),
          call (hsa_signal_or rt Relaxed (x ! ii) FIRST_BIT)]) @
       [call (hsa_signal_xor rt Acq_rel y FIRST_BIT)])"

definition test_signal_xor_acq_rel_t2 :: "('h, 'w::len word, 's) hsa_rt \<Rightarrow> 'h list \<Rightarrow> 'h \<Rightarrow> 's access list" where
  "test_signal_xor_acq_rel_t2 rt x y =
     loop_accesses NUM_ITER_MEM_ORD (\<lambda>jj.
       spin (hsa_signal_cas rt Acq_rel y FIRST_BIT 0) FIRST_BIT #
       loop_accesses NUM_X (\<lambda>ii.
         [expect (hsa_signal_load rt Relaxed (x ! ii)) FIRST_BIT,
          call (hsa_signal_store rt Relaxed (x ! ii) 0),
          call (hsa_signal_or rt Relaxed (x ! ii) LAST_BIT)]) @
       [call (hsa_signal_xor rt Acq_rel y LAST_BIT)])"

definition test_signal_xor_acq_rel_ordering :: "('h, 'w::len word, 's) hsa_rt \<Rightarrow> (nat \<Rightarrow> nat) \<Rightarrow> 's \<Rightarrow> (nat \<times> 's) option" where
  "test_signal_xor_acq_rel_ordering rt sched s =
     ordering_test rt NUM_X LAST_BIT LAST_BIT (\<lambda>x y. two_tests (test_signal_xor_acq_rel_t1 rt x y) (test_signal_xor_acq_rel_t2 rt x y) sched) s"

definition test_signal_xor_acquire_release_t1 :: "('h, 'w::len word, 's) hsa_rt \<Rightarrow> 'h list \<Rightarrow> 'h \<Rightarrow> 's access list" where
  "test_signal_xor_acquire_release_t1 rt x y =
     loop_accesses NUM_ITER_MEM_ORD (\<lambda>jj.
       spin (hsa_signal_cas rt Release y LAST_BIT 0) LAST_BIT #
       call (hsa_signal_xor rt Acquire y 0) #
       loop_accesses NUM_X (\<lambda>ii.
         [expect (hsa_signal_load rt Relaxed (x ! ii)) LAST_BIT,
          call (hsa_signal_store rt Relaxed (x ! ii) 0),
          call (hsa_signal_or rt Relaxed (x ! ii) FIRST_BIT)]) @
       [call (hsa_signal_xor rt Release y FIRST_BIT)])"

definition test_signal_xor_acquire_release_t2 :: "('h, 'w::len word, 's) hsa_rt \<Rightarrow> 'h list \<Rightarrow> 'h \<Rightarrow> 's access list" where
  "test_signal_xor_acquire_release_t2 rt x y =
     loop_accesses NUM_ITER_MEM_ORD (\<lambda>jj.
       spin (hsa_signal_cas rt Release y FIRST_BIT 0) FIRST_BIT #
       call (hsa_signal_xor rt Acquire y 0) #
       loop_accesses NUM_X (\<lambda>ii.
         [expect (hsa_signal_load rt Relaxed (x ! ii)) FIRST_BIT,
          call (hsa_signal_store rt Relaxed (x ! ii) 0),
          call (hsa_signal_xor rt Relaxed (x ! ii) LAST_BIT)]) @
       [call (hsa_signal_xor rt Release y LAST_BIT)])"

definition test_signal_xor_acquire_release_ordering :: "('h, 'w::len word, 's) hsa_rt \<Rightarrow> (nat \<Rightarrow> nat) \<Rightarrow> 's \<Rightarrow> (nat \<times> 's) option" where
  "test_signal_xor_acquire_release_ordering rt sched s =
     ordering_test rt NUM_X LAST_BIT LAST_BIT (\<lambda>x y. two_tests (test_signal_xor_acquire_release_t1 rt x y) (test_signal_xor_acquire_release_t2 rt x y) sched) s"

definition test_signal_xor_release_t1 :: "('h, 'w::len word, 's) hsa_rt \<Rightarrow> 'h list \<Rightarrow> 'h \<Rightarrow> 's access list" where
  "test_signal_xor_release_t1 rt x y =
     loop_accesses NUM_ITER_MEM_ORD (\<lambda>jj.
       spin (hsa_signal_cas rt Release y LAST_BIT 0) LAST_BIT #
       loop_accesses 1024 (\<lambda>ii.
         [expect (hsa_signal_load rt Relaxed (x ! ii)) LAST_BIT,
          call (hsa_signal_store rt Relaxed (x ! ii) 0),
          call (hsa_signal_or rt Relaxed (x ! ii) FIRST_BIT)]) @
       [call (hsa_signal_xor rt Release y FIRST_BIT)])"

definition test_signal_xor_release_t2 :: "('h, 'w::len word, 's) hsa_rt \<Rightarrow> 'h list \<Rightarrow> 'h \<Rightarrow> 's access list" where
  "test_signal_xor_release_t2 rt x y =
     loop_accesses NUM_ITER_MEM_ORD (\<lambda>jj.
       spin (hsa_signal_cas rt Release y FIRST_BIT 0) FIRST_BIT #
       loop_accesses 1024 (\<lambda>ii.
         [expect (hsa_signal_load rt Relaxed (x ! ii)) FIRST_BIT,
          call (hsa_signal_store rt Relaxed (x ! ii) 0),
          call (hsa_signal_xor rt Relaxed (x ! ii) LAST_BIT)]) @
       [call (hsa_signal_xor rt Release y LAST_BIT)])"

definition test_signal_xor_release_ordering :: "('h, 'w::len word, 's) hsa_rt \<Rightarrow> (nat \<Rightarrow> nat) \<Rightarrow> 's \<Rightarrow> (nat \<times> 's) option" where
  "test_signal_xor_release_ordering rt sched s =
     ordering_test rt 1024 LAST_BIT LAST_BIT (\<lambda>x y. two_tests (test_signal_xor_release_t1 rt x y) (test_signal_xor_release_t2 rt x y) sched) s"

subsection \<open>They pass\<close>

context signal_runtime
begin

lemma test_signal_add_acq_rel_ordering_passes:
  assumes "ups s < 2 ^ 31 - 1" "fair 2 sched" "machine_word TYPE('w)"
  shows "passes (test_signal_add_acq_rel_ordering rt sched s) (\<lambda>(r, s'). r = 0 \<and> restored ups val s s')"
  unfolding test_signal_add_acq_rel_ordering_def two_tests_run test_signal_add_acq_rel_t1_def test_signal_add_acq_rel_t2_def
  by (rule turns_test [where ?v1.0 = "2" and ?v2.0 = "1" and p = "1" and q = "2", OF assms(1,2)], rule HOL.refl,
    (rule block_rules block_array [where v = "2" and v' = "1"] block_array [where v = "1" and v' = "2"] |
      simp add: word_values [OF assms(3)])+)

lemma test_signal_add_acquire_release_ordering_passes:
  assumes "ups s < 2 ^ 31 - 1" "fair 2 sched" "machine_word TYPE('w)"
  shows "passes (test_signal_add_acquire_release_ordering rt sched s) (\<lambda>(r, s'). r = 0 \<and> restored ups val s s')"
  unfolding test_signal_add_acquire_release_ordering_def two_tests_run test_signal_add_acquire_release_t1_def test_signal_add_acquire_release_t2_def
  by (rule turns_test [where ?v1.0 = "2" and ?v2.0 = "1" and p = "1" and q = "2", OF assms(1,2)], rule HOL.refl,
    (rule block_rules block_array [where v = "2" and v' = "1"] block_array [where v = "1" and v' = "2"] |
      simp add: word_values [OF assms(3)])+)

lemma test_signal_and_acq_rel_ordering_passes:
  assumes "ups s < 2 ^ 31 - 1" "fair 2 sched" "machine_word TYPE('w)"
  shows "passes (test_signal_and_acq_rel_ordering rt sched s) (\<lambda>(r, s'). r = 0 \<and> restored ups val s s')"
  unfolding test_signal_and_acq_rel_ordering_def two_pthreads_def signal_and_acq_rel_T1_def signal_and_acq_rel_T2_def
  by (rule turns_test [where ?v1.0 = "1" and ?v2.0 = "FIRST_BIT" and p = "1" and q = "FIRST_BIT", OF assms(1,2)], rule HOL.refl,
    (rule block_rules block_array [where v = "1" and v' = "FIRST_BIT"] block_array [where v = "FIRST_BIT" and v' = "1"] |
      simp add: first_bit_values [OF assms(3)] word_values [OF assms(3)])+)

lemma test_signal_and_acquire_release_ordering_passes:
  assumes "ups s < 2 ^ 31 - 1" "fair 2 sched" "machine_word TYPE('w)"
  shows "passes (test_signal_and_acquire_release_ordering rt sched s) (\<lambda>(r, s'). r = 0 \<and> restored ups val s s')"
  unfolding test_signal_and_acquire_release_ordering_def two_pthreads_def test_signal_and_acquire_release_t1_def test_signal_and_acquire_release_t2_def
  by (rule turns_test [where ?v1.0 = "1" and ?v2.0 = "FIRST_BIT" and p = "1" and q = "FIRST_BIT", OF assms(1,2)], rule HOL.refl,
    (rule block_rules block_array [where v = "1" and v' = "FIRST_BIT"] block_array [where v = "FIRST_BIT" and v' = "1"] |
      simp add: first_bit_values [OF assms(3)] word_values [OF assms(3)])+)

lemma test_signal_and_release_ordering_passes:
  assumes "ups s < 2 ^ 31 - 1" "fair 2 sched" "machine_word TYPE('w)"
  shows "passes (test_signal_and_release_ordering rt sched s) (\<lambda>(r, s'). r = 0 \<and> restored ups val s s')"
  unfolding test_signal_and_release_ordering_def two_pthreads_def test_signal_and_release_t1_def test_signal_and_release_t2_def
  by (rule turns_test [where ?v1.0 = "1" and ?v2.0 = "FIRST_BIT" and p = "1" and q = "FIRST_BIT", OF assms(1,2)], rule HOL.refl,
    (rule block_rules block_array [where v = "1" and v' = "FIRST_BIT"] block_array [where v = "FIRST_BIT" and v' = "1"] |
      simp add: first_bit_values [OF assms(3)] word_values [OF assms(3)])+)

lemma test_signal_cas_acq_rel_ordering_passes:
  assumes "ups s < 2 ^ 31 - 1" "fair 2 sched" "machine_word TYPE('w)"
  shows "passes (test_signal_cas_acq_rel_ordering rt sched s) (\<lambda>(r, s'). r = 0 \<and> restored ups val s s')"
  unfolding test_signal_cas_acq_rel_ordering_def two_tests_run test_signal_cas_acq_rel_t1_def test_signal_cas_acq_rel_t2_def
  by (rule turns_test [where ?v1.0 = "2" and ?v2.0 = "1" and p = "1" and q = "2", OF assms(1,2)], rule HOL.refl,
    (rule block_rules block_array [where v = "2" and v' = "1"] block_array [where v = "1" and v' = "2"] |
      simp add: word_values [OF assms(3)])+)

lemma test_signal_cas_acquire_release_ordering_passes:
  assumes "ups s < 2 ^ 31 - 1" "fair 2 sched" "machine_word TYPE('w)"
  shows "passes (test_signal_cas_acquire_release_ordering rt sched s) (\<lambda>(r, s'). r = 0 \<and> restored ups val s s')"
  unfolding test_signal_cas_acquire_release_ordering_def two_tests_run test_signal_cas_acquire_release_t1_def test_signal_cas_acquire_release_t2_def
  by (rule turns_test [where ?v1.0 = "2" and ?v2.0 = "1" and p = "1" and q = "2", OF assms(1,2)], rule HOL.refl,
    (rule block_rules block_array [where v = "2" and v' = "1"] block_array [where v = "1" and v' = "2"] |
      simp add: word_values [OF assms(3)])+)

lemma test_signal_exchange_acq_rel_ordering_passes:
  assumes "ups s < 2 ^ 31 - 1" "fair 2 sched" "machine_word TYPE('w)"
  shows "passes (test_signal_exchange_acq_rel_ordering rt sched s) (\<lambda>(r, s'). r = 0 \<and> restored ups val s s')"
  unfolding test_signal_exchange_acq_rel_ordering_def two_tests_run test_signal_exchange_acq_rel_t1_def test_signal_exchange_acq_rel_t2_def
  by (rule turns_test [where ?v1.0 = "2" and ?v2.0 = "1" and p = "1" and q = "2", OF assms(1,2)], rule HOL.refl,
    (rule block_rules block_array [where v = "2" and v' = "1"] block_array [where v = "1" and v' = "2"] |
      simp add: word_values [OF assms(3)])+)

lemma test_signal_exchange_acquire_release_ordering_passes:
  assumes "ups s < 2 ^ 31 - 1" "fair 2 sched" "machine_word TYPE('w)"
  shows "passes (test_signal_exchange_acquire_release_ordering rt sched s) (\<lambda>(r, s'). r = 0 \<and> restored ups val s s')"
  unfolding test_signal_exchange_acquire_release_ordering_def two_tests_run test_signal_exchange_acquire_release_t1_def test_signal_exchange_acquire_release_t2_def
  by (rule turns_test [where ?v1.0 = "2" and ?v2.0 = "1" and p = "1" and q = "2", OF assms(1,2)], rule HOL.refl,
    (rule block_rules block_array [where v = "2" and v' = "1"] block_array [where v = "1" and v' = "2"] |
      simp add: word_values [OF assms(3)])+)

lemma test_signal_or_acq_rel_ordering_passes:
  assumes "ups s < 2 ^ 31 - 1" "fair 2 sched" "machine_word TYPE('w)"
  shows "passes (test_signal_or_acq_rel_ordering rt sched s) (\<lambda>(r, s'). r = 0 \<and> restored ups val s s')"
  unfolding test_signal_or_acq_rel_ordering_def two_pthreads_def test_signal_or_acq_rel_ordering_t1_def test_signal_or_acq_rel_ordering_t2_def
  by (rule turns_test [where ?v1.0 = "1" and ?v2.0 = "FIRST_BIT" and p = "1" and q = "FIRST_BIT", OF assms(1,2)], rule HOL.refl,
    (rule block_rules block_array [where v = "1" and v' = "FIRST_BIT"] block_array [where v = "FIRST_BIT" and v' = "1"] |
      simp add: first_bit_values [OF assms(3)] word_values [OF assms(3)])+)

lemma test_signal_or_acquire_release_ordering_passes:
  assumes "ups s < 2 ^ 31 - 1" "fair 2 sched" "machine_word TYPE('w)"
  shows "passes (test_signal_or_acquire_release_ordering rt sched s) (\<lambda>(r, s'). r = 0 \<and> restored ups val s s')"
  unfolding test_signal_or_acquire_release_ordering_def two_pthreads_def test_signal_or_acquire_release_t1_def test_signal_or_acquire_release_t2_def
  by (rule turns_test [where ?v1.0 = "1" and ?v2.0 = "FIRST_BIT" and p = "1" and q = "FIRST_BIT", OF assms(1,2)], rule HOL.refl,
    (rule block_rules block_array [where v = "1" and v' = "FIRST_BIT"] block_array [where v = "FIRST_BIT" and v' = "1"] |
      simp add: first_bit_values [OF assms(3)] word_values [OF assms(3)])+)

lemma test_signal_or_release_ordering_passes:
  assumes "ups s < 2 ^ 31 - 1" "fair 2 sched" "machine_word TYPE('w)"
  shows "passes (test_signal_or_release_ordering rt sched s) (\<lambda>(r, s'). r = 0 \<and> restored ups val s s')"
  unfolding test_signal_or_release_ordering_def two_pthreads_def test_signal_or_release_t1_def test_signal_or_release_t2_def
  by (rule turns_test [where ?v1.0 = "1" and ?v2.0 = "FIRST_BIT" and p = "1" and q = "FIRST_BIT", OF assms(1,2)], rule HOL.refl,
    (rule block_rules block_array [where v = "1" and v' = "FIRST_BIT"] block_array [where v = "FIRST_BIT" and v' = "1"] |
      simp add: first_bit_values [OF assms(3)] word_values [OF assms(3)])+)

lemma test_signal_store_release_load_acquire_ordering_passes:
  assumes "ups s < 2 ^ 31 - 1" "fair 2 sched" "machine_word TYPE('w)"
  shows "passes (test_signal_store_release_load_acquire_ordering rt sched s) (\<lambda>(r, s'). r = 0 \<and> restored ups val s s')"
  unfolding test_signal_store_release_load_acquire_ordering_def two_groups_run test_signal_store_release_load_acquire_t1_def test_signal_store_release_load_acquire_t2_def
  by (rule turns_test [where ?v1.0 = "0" and ?v2.0 = "1" and p = "0" and q = "1", OF assms(1,2)], rule HOL.refl,
    (rule block_rules block_array [where v = "0" and v' = "1"] block_array [where v = "1" and v' = "0"] |
      simp add: word_values [OF assms(3)])+)

lemma test_signal_subtract_acq_rel_ordering_passes:
  assumes "ups s < 2 ^ 31 - 1" "fair 2 sched" "machine_word TYPE('w)"
  shows "passes (test_signal_subtract_acq_rel_ordering rt sched s) (\<lambda>(r, s'). r = 0 \<and> restored ups val s s')"
  unfolding test_signal_subtract_acq_rel_ordering_def two_tests_run test_signal_subtract_acq_rel_t1_def test_signal_subtract_acq_rel_t2_def
  by (rule turns_test [where ?v1.0 = "2" and ?v2.0 = "1" and p = "-1" and q = "-2", OF assms(1,2)], rule HOL.refl,
    (rule block_rules block_array [where v = "2" and v' = "1"] block_array [where v = "1" and v' = "2"] |
      simp add: word_values [OF assms(3)])+)

lemma test_signal_xor_acq_rel_ordering_passes:
  assumes "ups s < 2 ^ 31 - 1" "fair 2 sched" "machine_word TYPE('w)"
  shows "passes (test_signal_xor_acq_rel_ordering rt sched s) (\<lambda>(r, s'). r = 0 \<and> restored ups val s s')"
  unfolding test_signal_xor_acq_rel_ordering_def two_tests_run test_signal_xor_acq_rel_t1_def test_signal_xor_acq_rel_t2_def
  by (rule turns_test [where ?v1.0 = "1" and ?v2.0 = "FIRST_BIT" and p = "1" and q = "FIRST_BIT", OF assms(1,2)], rule HOL.refl,
    (rule block_rules block_array [where v = "1" and v' = "FIRST_BIT"] block_array [where v = "FIRST_BIT" and v' = "1"] |
      simp add: first_bit_values [OF assms(3)] word_values [OF assms(3)] LAST_BIT_def)+)

lemma test_signal_xor_acquire_release_ordering_passes:
  assumes "ups s < 2 ^ 31 - 1" "fair 2 sched" "machine_word TYPE('w)"
  shows "passes (test_signal_xor_acquire_release_ordering rt sched s) (\<lambda>(r, s'). r = 0 \<and> restored ups val s s')"
  unfolding test_signal_xor_acquire_release_ordering_def two_tests_run test_signal_xor_acquire_release_t1_def test_signal_xor_acquire_release_t2_def
  by (rule turns_test [where ?v1.0 = "1" and ?v2.0 = "FIRST_BIT" and p = "1" and q = "FIRST_BIT", OF assms(1,2)], rule HOL.refl,
    (rule block_rules block_array [where v = "1" and v' = "FIRST_BIT"] block_array [where v = "FIRST_BIT" and v' = "1"] |
      simp add: first_bit_values [OF assms(3)] word_values [OF assms(3)] LAST_BIT_def)+)

lemma test_signal_xor_release_ordering_passes:
  assumes "ups s < 2 ^ 31 - 1" "fair 2 sched" "machine_word TYPE('w)"
  shows "passes (test_signal_xor_release_ordering rt sched s) (\<lambda>(r, s'). r = 0 \<and> restored ups val s s')"
  unfolding test_signal_xor_release_ordering_def two_tests_run test_signal_xor_release_t1_def test_signal_xor_release_t2_def
  by (rule turns_test [where ?v1.0 = "1" and ?v2.0 = "FIRST_BIT" and p = "1" and q = "FIRST_BIT", OF assms(1,2)], rule HOL.refl,
    (rule block_rules block_array [where v = "1" and v' = "FIRST_BIT"] block_array [where v = "FIRST_BIT" and v' = "1"] |
      simp add: first_bit_values [OF assms(3)] word_values [OF assms(3)] LAST_BIT_def)+)

text \<open>Three of the tests that are in no list of their suite do not.\<close>

lemma test_signal_subtract_acquire_ordering_hangs:
  assumes "ups s < 2 ^ 31 - 1" "machine_word TYPE('w)"
  shows "test_signal_subtract_acquire_ordering rt sched s = None"
  unfolding test_signal_subtract_acquire_ordering_def two_tests_run test_signal_subtract_acquire_t1_def
    test_signal_subtract_acquire_t2_def
  by (rule turns_hang [where v = 1 and v' = 2 and p = "-2" and q = "-1", OF assms(1)], rule HOL.refl,
    (rule block_rules block_array [where v = 2 and v' = 1] block_array [where v = 1 and v' = 2] |
      simp add: word_values [OF assms(2)] NUM_ITER_MEM_ORD_def)+)

lemma test_signal_subtract_release_ordering_hangs:
  assumes "ups s < 2 ^ 31 - 1" "machine_word TYPE('w)"
  shows "test_signal_subtract_release_ordering rt sched s = None"
  unfolding test_signal_subtract_release_ordering_def two_tests_run test_signal_subtract_release_t1_def
    test_signal_subtract_release_t2_def
  by (rule turns_hang [where v = 1 and v' = 0 and p = "-2" and q = "-1", OF assms(1)], rule HOL.refl,
    (rule block_rules block_array [where v = 2 and v' = 1] block_array [where v = 1 and v' = 0] |
      simp add: word_values [OF assms(2)] NUM_ITER_MEM_ORD_def)+)

lemma loop_accesses_first:
  "loop_accesses (Suc n) f = f 0 @ loop_accesses n (\<lambda>ii. f (Suc ii))"
  by (simp add: loop_accesses_def upt_rec [of 0 "Suc n"] flip: map_Suc_upt del: upt_Suc) (simp add: comp_def)

lemma test_signal_add_release_ordering_fails:
  assumes "ups s < 2 ^ 31 - 1" "machine_word TYPE('w)"
  shows "test_signal_add_release_ordering rt sched s = None"
proof -
  have split: "loop_accesses NUM_ITER_MEM_ORD f = f 0 @ loop_accesses (NUM_ITER_MEM_ORD - 1) (\<lambda>ii. f (Suc ii))"
    "loop_accesses 1024 f = f 0 @ loop_accesses 1023 (\<lambda>ii. f (Suc ii))" for f :: "nat \<Rightarrow> 's access list"
    using loop_accesses_first [of "NUM_ITER_MEM_ORD - 1" f] loop_accesses_first [of 1023 f]
    by (simp_all add: NUM_ITER_MEM_ORD_def)
  have word: "2 \<le> LENGTH('w)" using assms(2) by (auto simp: machine_word_def)
  show ?thesis
    unfolding test_signal_add_release_ordering_def two_tests_run test_signal_add_release_t1_def test_signal_add_release_t2_def
      split append_Cons append_Nil append_assoc
    by (rule turns_fail [where p = 0, OF assms(1)], rule HOL.refl)
      (auto intro!: y_effects expect_fails [OF acts_load] simp: word_values [OF assms(2)] word)
qed

end

lemmas ordering_tests_pass_rules =
  signal_runtime.test_signal_add_acq_rel_ordering_passes
  signal_runtime.test_signal_add_acquire_release_ordering_passes
  signal_runtime.test_signal_and_acq_rel_ordering_passes
  signal_runtime.test_signal_and_acquire_release_ordering_passes
  signal_runtime.test_signal_and_release_ordering_passes
  signal_runtime.test_signal_cas_acq_rel_ordering_passes
  signal_runtime.test_signal_cas_acquire_release_ordering_passes
  signal_runtime.test_signal_exchange_acq_rel_ordering_passes
  signal_runtime.test_signal_exchange_acquire_release_ordering_passes
  signal_runtime.test_signal_or_acq_rel_ordering_passes
  signal_runtime.test_signal_or_acquire_release_ordering_passes
  signal_runtime.test_signal_or_release_ordering_passes
  signal_runtime.test_signal_store_release_load_acquire_ordering_passes
  signal_runtime.test_signal_subtract_acq_rel_ordering_passes
  signal_runtime.test_signal_xor_acq_rel_ordering_passes
  signal_runtime.test_signal_xor_acquire_release_ordering_passes
  signal_runtime.test_signal_xor_release_ordering_passes

text \<open>
  C14.  The seventeen ordering tests of two threads return 0 and leave the runtime as it was, on every conforming runtime, in both
  machine models, and under every fair schedule of the two threads: neither waits for ever for its turn, and
  each finds in all signals of the array what the other has stored there.
\<close>

theorem ordering_tests_pass:
  fixes rt :: "('h, 'w::len word, 's) hsa_rt"
  assumes "signal_runtime rt ups val" "ups s < 2 ^ 31 - 1" "fair 2 sched" "machine_word TYPE('w)"
    and "tst \<in> {test_signal_add_acq_rel_ordering,
      test_signal_add_acquire_release_ordering,
      test_signal_and_acq_rel_ordering,
      test_signal_and_acquire_release_ordering,
      test_signal_and_release_ordering,
      test_signal_cas_acq_rel_ordering,
      test_signal_cas_acquire_release_ordering,
      test_signal_exchange_acq_rel_ordering,
      test_signal_exchange_acquire_release_ordering,
      test_signal_or_acq_rel_ordering,
      test_signal_or_acquire_release_ordering,
      test_signal_or_release_ordering,
      test_signal_store_release_load_acquire_ordering,
      test_signal_subtract_acq_rel_ordering,
      test_signal_xor_acq_rel_ordering,
      test_signal_xor_acquire_release_ordering,
      test_signal_xor_release_ordering}"
  shows "passes (tst rt sched s) (\<lambda>(r, s'). r = 0 \<and> restored ups val s s')"
  using assms(5) by (elim insertE emptyE; hypsubst) (rule ordering_tests_pass_rules [OF assms(1-4)])+

theorem ordering_tests_pass_witness:
  "passes (test_signal_cas_acq_rel_ordering reference_rt (\<lambda>k. k mod 2) (ref_start :: 64 word ref_state))
     (\<lambda>(r, s'). r = 0 \<and> restored ref_ups ref_val ref_start s')"
  by (rule ordering_tests_pass [where tst = test_signal_cas_acq_rel_ordering, OF reference.signal_runtime_axioms])
    (simp_all add: ref_start_def fair_round_robin)

text \<open>
  C15.  The other three never return, whatever the schedule of the threads: in \<open>test_signal_add_release_ordering\<close> the first
  assertion of the first thread fails, and in the other two both threads wait, after one turn each, for values that nobody stores.
\<close>

theorem ordering_tests_that_never_return:
  fixes rt :: "('h, 'w::len word, 's) hsa_rt"
  assumes "signal_runtime rt ups val" "ups s < 2 ^ 31 - 1" "machine_word TYPE('w)"
    and "tst \<in> {test_signal_add_release_ordering, test_signal_subtract_acquire_ordering, test_signal_subtract_release_ordering}"
  shows "tst rt sched s = None"
  using assms(4) signal_runtime.test_signal_add_release_ordering_fails [OF assms(1-3)]
    signal_runtime.test_signal_subtract_acquire_ordering_hangs [OF assms(1-3)]
    signal_runtime.test_signal_subtract_release_ordering_hangs [OF assms(1-3)] by auto

theorem ordering_tests_that_never_return_witness:
  "test_signal_subtract_release_ordering reference_rt (\<lambda>k. k mod 2) (ref_start :: 64 word ref_state) = None"
  by (rule ordering_tests_that_never_return [where tst = test_signal_subtract_release_ordering, OF reference.signal_runtime_axioms])
    (simp_all add: ref_start_def)

end
