(* ===== verification/Signal_Waits.thy ===== *)
theory Signal_Waits
  imports Signal_Runtime
begin

text \<open>
  The functions \<open>hsa_signal_wait_acquire\<close> and \<open>hsa_signal_wait_relaxed\<close> of the runtime, a parameter \<open>hsa_signal_wait\<close> of the models
  of the tests that use them.  A thread that waits looks at the signal again and again: \<open>hsa_signal_wait\<close> is one such look, whose
  result is \<open>None\<close> when the thread goes on waiting.

  The locale \<open>waiting_runtime\<close> states what the tests rely on: with the timeout \<open>UINT64_MAX\<close> a look at a value
  returns it when the condition holds, and does not return otherwise.  The specification of the runtime does
  not promise the latter (a wait may return early for any reason), and the tests never look at the value returned;
  \<open>blocking_runtime\<close> leaves it open.
\<close>

datatype hsa_signal_condition_t =
  HSA_SIGNAL_CONDITION_EQ | HSA_SIGNAL_CONDITION_NE | HSA_SIGNAL_CONDITION_LT | HSA_SIGNAL_CONDITION_GTE

datatype hsa_wait_state_t = HSA_WAIT_STATE_BLOCKED | HSA_WAIT_STATE_ACTIVE

type_synonym ('h, 'v, 's) hsa_signal_wait =
  "memory_order \<Rightarrow> 'h \<Rightarrow> hsa_signal_condition_t \<Rightarrow> 'v \<Rightarrow> 64 word \<Rightarrow> hsa_wait_state_t \<Rightarrow> 's \<Rightarrow> 'v option \<times> 's"

abbreviation UINT64_MAX :: "64 word" where "UINT64_MAX \<equiv> -1"

text \<open>The value of a signal is a signed integer.\<close>

fun satisfies :: "hsa_signal_condition_t \<Rightarrow> 'w::len word \<Rightarrow> 'w word \<Rightarrow> bool" where
  "satisfies HSA_SIGNAL_CONDITION_EQ w v \<longleftrightarrow> w = v"
| "satisfies HSA_SIGNAL_CONDITION_NE w v \<longleftrightarrow> w \<noteq> v"
| "satisfies HSA_SIGNAL_CONDITION_LT w v \<longleftrightarrow> sint w < sint v"
| "satisfies HSA_SIGNAL_CONDITION_GTE w v \<longleftrightarrow> sint v \<le> sint w"

text \<open>
  What the specification does promise: a wait returns when it sees that its condition holds.  It may return before.
\<close>

locale blocking_runtime = signal_runtime rt ups val
  for rt :: "('h, 'w::len word, 's) hsa_rt" and ups :: "'s \<Rightarrow> nat" and val :: "'s \<Rightarrow> 'h \<Rightarrow> 'w word option" +
  fixes hsa_signal_wait :: "('h, 'w word, 's) hsa_signal_wait"
  assumes look: "0 < ups s \<Longrightarrow> val s h = Some w \<Longrightarrow> hsa_signal_wait r h cnd v UINT64_MAX ws s = (result, s') \<Longrightarrow>
    (result = Some w \<or> result = None \<and> \<not> satisfies cnd w v) \<and> ups s' = ups s \<and> val s' = val s"

locale waiting_runtime = signal_runtime rt ups val
  for rt :: "('h, 'w::len word, 's) hsa_rt" and ups :: "'s \<Rightarrow> nat" and val :: "'s \<Rightarrow> 'h \<Rightarrow> 'w word option" +
  fixes hsa_signal_wait :: "('h, 'w word, 's) hsa_signal_wait"
  assumes wait: "0 < ups s \<Longrightarrow> val s h = Some w \<Longrightarrow> hsa_signal_wait r h cnd v UINT64_MAX ws s = (result, s') \<Longrightarrow>
    result = (if satisfies cnd w v then Some w else None) \<and> ups s' = ups s \<and> val s' = val s"

context waiting_runtime
begin

lemma one_look:
  assumes "0 < ups s" "val s h = Some w"
  shows "\<exists>s'. hsa_signal_wait r h cnd v UINT64_MAX ws s = (if satisfies cnd w v then Some w else None, s') \<and>
    ups s' = ups s \<and> val s' = val s"
proof -
  obtain result s' where s': "hsa_signal_wait r h cnd v UINT64_MAX ws s = (result, s')" by fastforce
  then show ?thesis using wait [OF assms s'] by simp
qed

end

sublocale waiting_runtime \<subseteq> blocking_runtime
  by unfold_locales (drule (2) wait, auto)

text \<open>The waits of the reference runtime, and waits that return at once, as the specification allows them to.\<close>

definition reference_wait :: "(nat, 'w::len word, 'w word ref_state) hsa_signal_wait" where
  "reference_wait r h cnd v timeout ws s =
     (case ref_val s h of None \<Rightarrow> (None, s) | Some w \<Rightarrow> (if satisfies cnd w v then Some w else None, s))"

definition eager_wait :: "(nat, 'w::len word, 'w word ref_state) hsa_signal_wait" where
  "eager_wait r h cnd v timeout ws s = (ref_val s h, s)"

interpretation reference_waiting: waiting_runtime reference_rt ref_ups ref_val reference_wait
  by unfold_locales (auto simp: reference_wait_def)

interpretation eager_waiting: blocking_runtime reference_rt ref_ups ref_val eager_wait
  by unfold_locales (auto simp: eager_wait_def)

end
