(* ===== verification/Signal_Transitive.thy ===== *)
theory Signal_Transitive
  imports Signal_Ordering Signal_Waits
begin

text \<open>
  What the transitive ordering tests share, \<open>core/signals/test_signal_*_ordering_transitive.c\<close>: two threads take turns in changing
  the signals of the array \<open>x\<close>, the first when it is told to by the signal \<open>y\<close>, the second by the signal \<open>z\<close>; a third thread
  waits for either and passes the turn on.  In the end it stores a value that makes the two others return.
\<close>

definition clean_up_2 ::
  "('h, 'w::len word, 's) hsa_rt \<Rightarrow> nat \<Rightarrow> 'h list \<Rightarrow> 'h \<Rightarrow> 'h \<Rightarrow> 's \<Rightarrow> (nat \<times> 's) option"
where
  "clean_up_2 rt n x y z s = do {
     s \<leftarrow> destroy_signals rt n x s;
     let (status, s) = hsa_signal_destroy rt y s;
     ASSERT (status = HSA_STATUS_SUCCESS);
     let (status, s) = hsa_signal_destroy rt z s;
     ASSERT (status = HSA_STATUS_SUCCESS);
     let (status, s) = hsa_shut_down rt s;
     ASSERT (status = HSA_STATUS_SUCCESS);
     Some (0, s)
   }"

definition transitive_test ::
  "('h, 'w::len word, 's) hsa_rt \<Rightarrow> nat \<Rightarrow> 'w word \<Rightarrow> 'w word \<Rightarrow> 'w word \<Rightarrow> ('h list \<Rightarrow> 'h \<Rightarrow> 'h \<Rightarrow> 's \<Rightarrow> 's option) \<Rightarrow>
     's \<Rightarrow> (nat \<times> 's) option"
where
  "transitive_test rt n x_value y_value z_value run s = do {
     let (status, s) = hsa_init rt s;
     ASSERT (status = HSA_STATUS_SUCCESS);
     (x, s) \<leftarrow> create_signals rt n x_value s;
     let (status, y, s) = hsa_signal_create rt y_value 0 [] s;
     ASSERT (status = HSA_STATUS_SUCCESS);
     let (status, z, s) = hsa_signal_create rt z_value 0 [] s;
     ASSERT (status = HSA_STATUS_SUCCESS);
     s \<leftarrow> run x y z s;
     clean_up_2 rt n x y z s
   }"

definition three_tests ::
  "'s access list \<Rightarrow> 's access list \<Rightarrow> 's access list \<Rightarrow> (nat \<Rightarrow> nat) \<Rightarrow> 's \<Rightarrow> 's option"
where
  "three_tests t1 t2 t3 sched s = do {
     test \<leftarrow> test_group_add (test_group_create 3) (\<lambda>_. t1) () 1;
     test \<leftarrow> test_group_add test (\<lambda>_. t2) () 1;
     test \<leftarrow> test_group_add test (\<lambda>_. t3) () 1;
     run_group sched test s
   }"

lemma three_tests_run:
  fixes t1 t2 t3 :: "'s access list"
  shows "three_tests t1 t2 t3 sched s = run_functions sched [t1, t2, t3] s"
proof -
  have "filled 3 [] (test_group_create 3 :: (unit, 's shared) test_group)" using filled_create [of 3] by simp
  then obtain g1 where g1: "test_group_add (test_group_create 3) (\<lambda>_. t1) () 1 = Some g1" "filled 3 [t1] g1"
    by (rule filled_add [where t = t1]) auto
  from g1(2) obtain g2 where g2: "test_group_add g1 (\<lambda>_. t2) () 1 = Some g2" "filled 3 [t1, t2] g2"
    by (rule filled_add [where t = t2]) auto
  from g2(2) obtain g3 where "test_group_add g2 (\<lambda>_. t3) () 1 = Some g3" "filled 3 [t1, t2, t3] g3"
    by (rule filled_add [where t = t3]) auto
  with g1(1) g2(1) show ?thesis by (simp add: three_tests_def run_group_def filled_def)
qed

subsection \<open>Two threads that take turns by means of a third\<close>

text \<open>
  \<open>A k\<close>: it is the turn of the first thread; \<open>B k\<close>: the third passes it on; \<open>C\<close>: it is the turn of the second; \<open>D\<close>: the third
  passes it on.  \<open>k\<close> is false in the first round, where \<open>z\<close> has its initial value.  \<open>E\<close>, \<open>F\<close>: the third thread has told the first,
  the second to return.
\<close>

lemma take_turns_by_relay:
  assumes fs: "fs = [while_1 (w1 # b1), while_1 (w2 # b2), concat (replicate n ((w3 # c1) @ (w4 # c2))) @ [w5, e1, e2]]"
    and more: "b1 \<noteq> []" "b2 \<noteq> []"
    and A: "\<And>k. block {w2, w3, w5} (w1 # b1) (A k) (B k)"
    and B: "\<And>k. block {w1, w2} (w3 # c1) (B k) C"
    and C: "block {w1, w4} (w2 # b2) C D"
    and D: "block {w1, w2} (w4 # c2) D (A True)"
    and stop: "\<And>k. block {w1, w2} [w5, e1] (B k) (E k)" "\<And>k. effect e2 (E k) Next F"
      "\<And>k. effect w1 (E k) Return (E k)" "\<And>k. effect w2 (E k) Again (E k)" "effect w1 F Return F" "effect w2 F Return F"
  shows "leads fs (all_end F) (at fs (A False))"
proof -
  let ?t1 = "while_1 (w1 # b1)" and ?t2 = "while_1 (w2 # b2)"
  let ?t3 = "\<lambda>n. concat (replicate n ((w3 # c1) @ (w4 # c2))) @ [w5, e1, e2]"
  have hd: "?t1 \<noteq> []" "hd ?t1 = w1" "?t2 \<noteq> []" "hd ?t2 = w2" "?t3 n \<noteq> []" "hd (?t3 n) \<in> {w3, w5}" for n
    using more by (simp_all add: while_1_def) (cases n; simp)
  have len: "length fs = 3" "fs ! 0 = ?t1" "fs ! 1 = ?t2" by (simp_all add: fs)
  have returned: "leads fs (all_end F) (at [t, ?t2, []] F)" if "t = ?t1 \<or> t = []" for t
    using that hd stop(5,6) by (intro leads_return) (auto simp: len)
  have last: "leads fs (all_end F) (at [t, ?t2, [e2]] (E k))" if "t = ?t1 \<or> t = []" for t k
  proof -
    have ended: "leads fs (all_end F) (at [[], ?t2, [e2]] (E k))"
      by (rule leads_step [of 2 _ _ e2 "[]" _ Next F])
        (use hd len stop(2,4) returned in \<open>auto simp: waits_def less_Suc_eq numeral_3_eq_3\<close>)
    have "leads fs (all_end F) (at [?t1, ?t2, [e2]] (E k))"
    proof (rule leads_step_or [of 2 _ _ e2 "[]" _ Next F])
      fix j assume "j < length [?t1, ?t2, [e2]]" "j \<noteq> 2"
      then consider "j = 0" | "j = 1" by fastforce
      then show "waits (E k) ([?t1, ?t2, [e2]] ! j) \<or> (\<exists>b bs fl I''. [?t1, ?t2, [e2]] ! j = b # bs \<and>
          effect b (E k) fl I'' \<and> leads fs (all_end F) (at ([?t1, ?t2, [e2]][j := go_on fl (fs ! j) b bs]) I''))"
      proof cases
        case 1
        have "?t1 = w1 # tl ?t1" using hd(1,2) by (metis list.collapse)
        then show ?thesis using 1 stop(3) [of k] ended by (metis go_on.simps(4) list_update_code(2) nth_Cons_0)
      next
        case 2
        then show ?thesis using hd(4) stop(4) by (simp add: waits_def)
      qed
    qed (use len stop(2) returned in simp_all)
    then show ?thesis using that ended by blast
  qed
  have finish: "leads fs (all_end F) (at [?t1, ?t2, [w5, e1, e2]] (B k))" for k
    by (rule leads_block [OF stop(1), where i = 2]) (use hd len last in \<open>auto simp: less_Suc_eq numeral_3_eq_3\<close>)
  have "leads fs (all_end F) (at [?t1, ?t2, ?t3 n] (A k))" for n k
  proof (induction n arbitrary: k)
    case 0
    show ?case
      by (rule leads_while_1 [OF A, where i = 0]) (use hd len finish in \<open>auto simp: less_Suc_eq numeral_3_eq_3\<close>)
  next
    case (Suc n)
    have "leads fs (all_end F) (at [?t1, ?t2, (w4 # c2) @ ?t3 n] D)"
      by (rule leads_block [OF D, where i = 2]) (use hd len Suc in \<open>auto simp: less_Suc_eq numeral_3_eq_3\<close>)
    then have "leads fs (all_end F) (at [?t1, ?t2, (w4 # c2) @ ?t3 n] C)"
      by (intro leads_while_1 [OF C, where i = 1]) (use hd len in \<open>auto simp: less_Suc_eq numeral_3_eq_3\<close>)
    then have "leads fs (all_end F) (at [?t1, ?t2, (w3 # c1) @ (w4 # c2) @ ?t3 n] (B k))"
      by (intro leads_block [OF B, where i = 2]) (use hd len in \<open>auto simp: less_Suc_eq numeral_3_eq_3\<close>)
    then have "leads fs (all_end F) (at [?t1, ?t2, (w3 # c1) @ (w4 # c2) @ ?t3 n] (A k))"
      by (intro leads_while_1 [OF A, where i = 0]) (use hd len in \<open>auto simp: less_Suc_eq numeral_3_eq_3\<close>)
    then show ?case by simp
  qed
  then show ?thesis by (simp add: fs)
qed

subsection \<open>The tests\<close>

context signal_runtime
begin

lemma clean_up_2_passes:
  assumes "board (Suc u) x xv (c(y \<mapsto> w, z \<mapsto> w')) s" "length x = n" "y \<notin> set x" "z \<notin> set x" "y \<noteq> z"
  shows "passes (clean_up_2 rt n x y z s) (\<lambda>(r, s'). r = 0 \<and> ups s' = u \<and>
    (0 < u \<longrightarrow> val s' = (\<lambda>h. if h \<in> set x \<or> h = y \<or> h = z then None else c h)))"
  unfolding clean_up_2_def
proof (rule wp_seq [OF destroy_signals_passes [OF assms(1,2)]])
  fix s1 assume s1: "ups s1 = Suc u \<and> (\<forall>h. val s1 h = (if h \<in> set x then None else (c(y \<mapsto> w, z \<mapsto> w')) h))"
  then have "0 < ups s1" "val s1 y = Some w" "val s1 z = Some w'" using assms(3-5) by simp_all
  then show "passes (let (status, s) = hsa_signal_destroy rt y s1 in do {
      ASSERT (status = HSA_STATUS_SUCCESS);
      let (status, s) = hsa_signal_destroy rt z s;
      ASSERT (status = HSA_STATUS_SUCCESS);
      let (status, s) = hsa_shut_down rt s;
      ASSERT (status = HSA_STATUS_SUCCESS);
      Some (0, s)
    }) (\<lambda>(r, s'). r = (0 :: nat) \<and> ups s' = u \<and>
      (0 < u \<longrightarrow> val s' = (\<lambda>h. if h \<in> set x \<or> h = y \<or> h = z then None else c h)))"
    by - (rule wp wp_destroy wp_shut_down | (use s1 assms(5) in \<open>simp add: fun_eq_iff; fail\<close>))+
qed

lemma transitive_test_starts:
  assumes "ups s < 2 ^ 31 - 1"
  obtains x y z s1 s' where "length x = n" "y \<notin> set x" "z \<notin> set x" "y \<noteq> z" "0 < ups s \<longrightarrow> val s1 = val s"
    "\<forall>h \<in> insert y (insert z (set x)). val s1 h = None"
    "board (Suc (ups s)) x (\<lambda>_. x_value) ((val s1)(y \<mapsto> y_value, z \<mapsto> z_value)) s'"
    "\<And>run. transitive_test rt n x_value y_value z_value run s = run x y z s' \<bind> clean_up_2 rt n x y z"
proof -
  obtain x s1 s2 where x: "hsa_init rt s = (HSA_STATUS_SUCCESS, s1)" "create_signals rt n x_value s1 = Some (x, s2)"
    "length x = n" "0 < ups s \<longrightarrow> val s1 = val s" "\<forall>h \<in> set x. val s1 h = None"
    "board (Suc (ups s)) x (\<lambda>_. x_value) (val s1) s2"
    by (rule array_created [OF assms])
  obtain y s3 where y: "hsa_signal_create rt y_value 0 [] s2 = (HSA_STATUS_SUCCESS, y, s3)" "y \<notin> set x" "val s1 y = None"
    "board (Suc (ups s)) x (\<lambda>_. x_value) ((val s1)(y \<mapsto> y_value)) s3"
    by (rule control_created [OF x(6)])
  obtain z s4 where z: "hsa_signal_create rt z_value 0 [] s3 = (HSA_STATUS_SUCCESS, z, s4)" "z \<notin> set x"
    "((val s1)(y \<mapsto> y_value)) z = None" "board (Suc (ups s)) x (\<lambda>_. x_value) ((val s1)(y \<mapsto> y_value, z \<mapsto> z_value)) s4"
    by (rule control_created [OF y(4)])
  have "y \<noteq> z" "val s1 z = None" using z(3) by (auto split: if_splits)
  then show ?thesis
    using x y z by (intro that [of x y z s1 s4]) (simp_all add: transitive_test_def)
qed

lemma transitive_test_passes:
  assumes "ups s < 2 ^ 31 - 1"
    and run: "\<And>x y z c s'. length x = n \<Longrightarrow> y \<notin> set x \<Longrightarrow> z \<notin> set x \<Longrightarrow> y \<noteq> z \<Longrightarrow>
      board (Suc (ups s)) x (\<lambda>_. x_value) (c(y \<mapsto> y_value, z \<mapsto> z_value)) s' \<Longrightarrow>
      passes (run x y z s') (\<lambda>s''. \<exists>xv w w'. board (Suc (ups s)) x xv (c(y \<mapsto> w, z \<mapsto> w')) s'')"
  shows "passes (transitive_test rt n x_value y_value z_value run s) (\<lambda>(r, s'). r = 0 \<and> restored ups val s s')"
proof -
  obtain x y z s1 s' where x: "length x = n" "y \<notin> set x" "z \<notin> set x" "y \<noteq> z" "0 < ups s \<longrightarrow> val s1 = val s"
    "\<forall>h \<in> insert y (insert z (set x)). val s1 h = None"
    "board (Suc (ups s)) x (\<lambda>_. x_value) ((val s1)(y \<mapsto> y_value, z \<mapsto> z_value)) s'"
    and test: "\<And>run. transitive_test rt n x_value y_value z_value run s = run x y z s' \<bind> clean_up_2 rt n x y z"
    using transitive_test_starts [OF assms(1)] by blast
  have same: "(\<lambda>h. if h \<in> set x \<or> h = y \<or> h = z then None else val s1 h) = val s1" using x(6) by (auto simp: fun_eq_iff)
  show ?thesis
    unfolding test
  proof (rule wp_seq [OF run [OF x(1-4,7)]], elim exE)
    fix s4 xv w w' assume "board (Suc (ups s)) x xv ((val s1)(y \<mapsto> w, z \<mapsto> w')) s4"
    from clean_up_2_passes [OF this x(1-4), unfolded same]
    show "passes (clean_up_2 rt n x y z s4) (\<lambda>(r, s'). r = 0 \<and> restored ups val s s')"
      by (rule passes_mono) (use x(5) in \<open>auto simp: restored_def\<close>)
  qed
qed

lemma transitive_test_never_returns:
  assumes "ups s < 2 ^ 31 - 1"
    and run: "\<And>x y z c s'. length x = n \<Longrightarrow> y \<notin> set x \<Longrightarrow> z \<notin> set x \<Longrightarrow> y \<noteq> z \<Longrightarrow>
      board (Suc (ups s)) x (\<lambda>_. x_value) (c(y \<mapsto> y_value, z \<mapsto> z_value)) s' \<Longrightarrow> run x y z s' = None"
  shows "transitive_test rt n x_value y_value z_value run s = None"
proof -
  obtain x y z s1 s' where x: "length x = n" "y \<notin> set x" "z \<notin> set x" "y \<noteq> z"
    "board (Suc (ups s)) x (\<lambda>_. x_value) ((val s1)(y \<mapsto> y_value, z \<mapsto> z_value)) s'"
    and test: "\<And>run. transitive_test rt n x_value y_value z_value run s = run x y z s' \<bind> clean_up_2 rt n x y z"
    using transitive_test_starts [OF assms(1)] by metis
  show ?thesis using run [OF x] by (simp add: test)
qed

text \<open>Accesses to the first of two control signals; for those to the second there is \<open>effect_y\<close>.\<close>

lemma upd_first: "y \<noteq> z \<Longrightarrow> c(y \<mapsto> w, z \<mapsto> w2, y \<mapsto> w') = c(y \<mapsto> w', z \<mapsto> w2)"
  by (simp add: fun_eq_iff)

lemma effect_yz:
  assumes "y \<notin> set x" "y \<noteq> z"
  shows "acts op y f \<Longrightarrow> f w = w' \<Longrightarrow>
      effect (ignore op) (board u x xv (c(y \<mapsto> w, z \<mapsto> w2))) Next (board u x xv (c(y \<mapsto> w', z \<mapsto> w2)))"
    and "updates upd y f \<Longrightarrow> f w = w' \<Longrightarrow>
      effect (call upd) (board u x xv (c(y \<mapsto> w, z \<mapsto> w2))) Next (board u x xv (c(y \<mapsto> w', z \<mapsto> w2)))"
    and "acts op y f \<Longrightarrow> v = w \<Longrightarrow> f w = w' \<Longrightarrow>
      effect (spin op v) (board u x xv (c(y \<mapsto> w, z \<mapsto> w2))) Next (board u x xv (c(y \<mapsto> w', z \<mapsto> w2)))"
    and "acts op y f \<Longrightarrow> v \<noteq> w \<Longrightarrow> f w = w \<Longrightarrow>
      effect (spin op v) (board u x xv (c(y \<mapsto> w, z \<mapsto> w2))) Again (board u x xv (c(y \<mapsto> w, z \<mapsto> w2)))"
    and "acts op y f \<Longrightarrow> v = w \<Longrightarrow> f w = w' \<Longrightarrow>
      effect (spin_or_return op v stop) (board u x xv (c(y \<mapsto> w, z \<mapsto> w2))) Next (board u x xv (c(y \<mapsto> w', z \<mapsto> w2)))"
    and "acts op y f \<Longrightarrow> v \<noteq> w \<Longrightarrow> stop \<noteq> w \<Longrightarrow> f w = w \<Longrightarrow>
      effect (spin_or_return op v stop) (board u x xv (c(y \<mapsto> w, z \<mapsto> w2))) Again (board u x xv (c(y \<mapsto> w, z \<mapsto> w2)))"
    and "acts op y f \<Longrightarrow> v \<noteq> w \<Longrightarrow> stop = w \<Longrightarrow> f w = w \<Longrightarrow>
      effect (spin_or_return op v stop) (board u x xv (c(y \<mapsto> w, z \<mapsto> w2))) Return (board u x xv (c(y \<mapsto> w, z \<mapsto> w2)))"
  using effect_control [of op y f x "c(y \<mapsto> w, z \<mapsto> w2)" w] effect_control_call [of upd y f x "c(y \<mapsto> w, z \<mapsto> w2)" w] assms
  by (auto simp: upd_first)

lemma effect_spin_or_return:
  assumes "y \<notin> set x"
  shows "acts op y f \<Longrightarrow> v = w \<Longrightarrow> f w = w' \<Longrightarrow>
      effect (spin_or_return op v stop) (board u x xv (c(y \<mapsto> w))) Next (board u x xv (c(y \<mapsto> w')))"
    and "acts op y f \<Longrightarrow> v \<noteq> w \<Longrightarrow> stop \<noteq> w \<Longrightarrow> f w = w \<Longrightarrow>
      effect (spin_or_return op v stop) (board u x xv (c(y \<mapsto> w))) Again (board u x xv (c(y \<mapsto> w)))"
    and "acts op y f \<Longrightarrow> v \<noteq> w \<Longrightarrow> stop = w \<Longrightarrow> f w = w \<Longrightarrow>
      effect (spin_or_return op v stop) (board u x xv (c(y \<mapsto> w))) Return (board u x xv (c(y \<mapsto> w)))"
  using effect_control(4-6) [of op y f x "c(y \<mapsto> w)" w v stop, OF _ assms] by auto

lemmas yz_effects =
  effect_yz(1) [OF _ _ acts_exchange] effect_yz(1) [OF _ _ acts_cas]
  effect_yz(2) [OF _ _ updates_signal(1)] effect_yz(2) [OF _ _ updates_signal(2)] effect_yz(2) [OF _ _ updates_signal(3)]
  effect_yz(2) [OF _ _ updates_signal(4)] effect_yz(2) [OF _ _ updates_signal(5)] effect_yz(2) [OF _ _ updates_signal(6)]
  effect_yz(3) [OF _ _ acts_load] effect_yz(4) [OF _ _ acts_load]
  effect_yz(5) [OF _ _ acts_load] effect_yz(5) [OF _ _ acts_cas] effect_yz(6) [OF _ _ acts_load] effect_yz(6) [OF _ _ acts_cas]
  effect_yz(7) [OF _ _ acts_load] effect_yz(7) [OF _ _ acts_cas]
  effect_spin_or_return(1) [OF _ acts_load] effect_spin_or_return(1) [OF _ acts_cas]
  effect_spin_or_return(2) [OF _ acts_load] effect_spin_or_return(2) [OF _ acts_cas]
  effect_spin_or_return(3) [OF _ acts_load] effect_spin_or_return(3) [OF _ acts_cas]

text \<open>The next access of one thread while two or three others wait.\<close>

lemma block_step_2:
  assumes "effect a I Next I1" "effect b1 I Again I" "effect b2 I Again I" "I1 = I2" "block {b1, b2} as I2 I'"
  shows "block {b1, b2} (a # as) I I'"
  by (rule block_step [OF assms(1) _ assms(4,5)]) (use assms(2,3) in blast)

lemma block_step_3:
  assumes "effect a I Next I1" "effect b1 I Again I" "effect b2 I Again I" "effect b3 I Again I" "I1 = I2"
    "block {b1, b2, b3} as I2 I'"
  shows "block {b1, b2, b3} (a # as) I I'"
  by (rule block_step [OF assms(1) _ assms(5,6)]) (use assms(2-4) in blast)

text \<open>
  \<open>y\<close> has the value \<open>y1\<close> when it is the turn of the first thread and \<open>y2\<close> when it is over, \<open>z\<close> in the same way \<open>z1\<close> and \<open>z2\<close>
  for the second thread; \<open>stop\<close> makes the two return.
\<close>

definition players :: "nat \<Rightarrow> 'h list \<Rightarrow> 'h \<Rightarrow> 'h \<Rightarrow> bool" where
  "players n x y z \<longleftrightarrow> length x = n \<and> y \<notin> set x \<and> z \<notin> set x \<and> y \<noteq> z"

lemma relay_test:
  assumes "ups s < 2 ^ 31 - 1" "fair 3 sched"
    and run: "\<And>x y z s. run x y z s = run_functions sched
      [while_1 (w1 x y z # b1 x y z), while_1 (w2 x y z # b2 x y z),
       loop_accesses k (\<lambda>ii. (w3 x y z # c1 x y z) @ (w4 x y z # c2 x y z)) @ [w5 x y z, e1 x y z, e2 x y z]] s"
    and more: "\<And>x y z. b1 x y z \<noteq> []" "\<And>x y z. b2 x y z \<noteq> []"
    and differ: "z_value \<noteq> z1" "z2 \<noteq> z1" "z_value \<noteq> stop" "z2 \<noteq> stop"
    and A: "\<And>x y z u c w. players n x y z \<Longrightarrow> w \<noteq> z1 \<Longrightarrow> w \<noteq> stop \<Longrightarrow> block {w2 x y z, w3 x y z, w5 x y z} (w1 x y z # b1 x y z)
        (board u x (\<lambda>_. v1) (c(y \<mapsto> y1, z \<mapsto> w))) (board u x (\<lambda>_. v2) (c(y \<mapsto> y2, z \<mapsto> w)))"
    and B: "\<And>x y z u c. players n x y z \<Longrightarrow> block {w1 x y z, w2 x y z} (w3 x y z # c1 x y z)
        (board u x (\<lambda>_. v2) (c(y \<mapsto> y2, z \<mapsto> z_value))) (board u x (\<lambda>_. v2) (c(y \<mapsto> y2, z \<mapsto> z1)))"
      "\<And>x y z u c. players n x y z \<Longrightarrow> block {w1 x y z, w2 x y z} (w3 x y z # c1 x y z)
        (board u x (\<lambda>_. v2) (c(y \<mapsto> y2, z \<mapsto> z2))) (board u x (\<lambda>_. v2) (c(y \<mapsto> y2, z \<mapsto> z1)))"
    and C: "\<And>x y z u c. players n x y z \<Longrightarrow> block {w1 x y z, w4 x y z} (w2 x y z # b2 x y z)
        (board u x (\<lambda>_. v2) (c(y \<mapsto> y2, z \<mapsto> z1))) (board u x (\<lambda>_. v1) (c(y \<mapsto> y2, z \<mapsto> z2)))"
    and D: "\<And>x y z u c. players n x y z \<Longrightarrow> block {w1 x y z, w2 x y z} (w4 x y z # c2 x y z)
        (board u x (\<lambda>_. v1) (c(y \<mapsto> y2, z \<mapsto> z2))) (board u x (\<lambda>_. v1) (c(y \<mapsto> y1, z \<mapsto> z2)))"
    and stop: "\<And>x y z u c w. players n x y z \<Longrightarrow> w \<noteq> z1 \<Longrightarrow> w \<noteq> stop \<Longrightarrow> block {w1 x y z, w2 x y z} [w5 x y z, e1 x y z]
        (board u x (\<lambda>_. v2) (c(y \<mapsto> y2, z \<mapsto> w))) (board u x (\<lambda>_. v2) (c(y \<mapsto> stop, z \<mapsto> w)))"
      "\<And>x y z u c w. players n x y z \<Longrightarrow> w \<noteq> z1 \<Longrightarrow> w \<noteq> stop \<Longrightarrow> effect (e2 x y z)
        (board u x (\<lambda>_. v2) (c(y \<mapsto> stop, z \<mapsto> w))) Next (board u x (\<lambda>_. v2) (c(y \<mapsto> stop, z \<mapsto> stop)))"
      "\<And>x y z u c w. players n x y z \<Longrightarrow> w \<noteq> z1 \<Longrightarrow> w \<noteq> stop \<Longrightarrow> effect (w1 x y z)
        (board u x (\<lambda>_. v2) (c(y \<mapsto> stop, z \<mapsto> w))) Return (board u x (\<lambda>_. v2) (c(y \<mapsto> stop, z \<mapsto> w)))"
      "\<And>x y z u c w. players n x y z \<Longrightarrow> w \<noteq> z1 \<Longrightarrow> w \<noteq> stop \<Longrightarrow> effect (w2 x y z)
        (board u x (\<lambda>_. v2) (c(y \<mapsto> stop, z \<mapsto> w))) Again (board u x (\<lambda>_. v2) (c(y \<mapsto> stop, z \<mapsto> w)))"
      "\<And>x y z u c. players n x y z \<Longrightarrow> effect (w1 x y z)
        (board u x (\<lambda>_. v2) (c(y \<mapsto> stop, z \<mapsto> stop))) Return (board u x (\<lambda>_. v2) (c(y \<mapsto> stop, z \<mapsto> stop)))"
      "\<And>x y z u c. players n x y z \<Longrightarrow> effect (w2 x y z)
        (board u x (\<lambda>_. v2) (c(y \<mapsto> stop, z \<mapsto> stop))) Return (board u x (\<lambda>_. v2) (c(y \<mapsto> stop, z \<mapsto> stop)))"
  shows "passes (transitive_test rt n v1 y1 z_value run s) (\<lambda>(r, s'). r = 0 \<and> restored ups val s s')"
proof (rule transitive_test_passes [OF assms(1)])
  fix x y z c s'
  assume "length x = n" "y \<notin> set x" "z \<notin> set x" "y \<noteq> z"
    and board: "board (Suc (ups s)) x (\<lambda>_. v1) (c(y \<mapsto> y1, z \<mapsto> z_value)) s'"
  then have x: "players n x y z" by (simp add: players_def)
  let ?I = "board (Suc (ups s)) x" and ?z = "\<lambda>k. if k then z2 else z_value"
  let ?fs = "[while_1 (w1 x y z # b1 x y z), while_1 (w2 x y z # b2 x y z),
    concat (replicate k ((w3 x y z # c1 x y z) @ (w4 x y z # c2 x y z))) @ [w5 x y z, e1 x y z, e2 x y z]]"
  let ?F = "?I (\<lambda>_. v2) (c(y \<mapsto> stop, z \<mapsto> stop))"
  have z: "?z k \<noteq> z1" "?z k \<noteq> stop" for k using differ by simp_all
  have "leads ?fs (all_end ?F) (at ?fs (?I (\<lambda>_. v1) (c(y \<mapsto> y1, z \<mapsto> ?z False))))"
  proof (rule take_turns_by_relay [OF HOL.refl more, where A = "\<lambda>k. ?I (\<lambda>_. v1) (c(y \<mapsto> y1, z \<mapsto> ?z k))"
        and E = "\<lambda>k. ?I (\<lambda>_. v2) (c(y \<mapsto> stop, z \<mapsto> ?z k))"])
    fix k
    show "block {w1 x y z, w2 x y z} (w3 x y z # c1 x y z) (?I (\<lambda>_. v2) (c(y \<mapsto> y2, z \<mapsto> ?z k))) (?I (\<lambda>_. v2) (c(y \<mapsto> y2, z \<mapsto> z1)))"
      using B [OF x] by (cases k) simp_all
  next
    show "block {w1 x y z, w2 x y z} (w4 x y z # c2 x y z) (?I (\<lambda>_. v1) (c(y \<mapsto> y2, z \<mapsto> z2))) (?I (\<lambda>_. v1) (c(y \<mapsto> y1, z \<mapsto> ?z True)))"
      using D [OF x] by simp
  qed (rule A [OF x z] C [OF x] stop(1-4) [OF x z] stop(5,6) [OF x])+
  moreover have "at ?fs (?I (\<lambda>_. v1) (c(y \<mapsto> y1, z \<mapsto> ?z False))) (?fs, Some (Next, s'))"
    using board by (simp add: at_def)
  ultimately have "passes (run_functions sched ?fs s') ?F"
    using leads_run [where k = 0 and fs = ?fs] assms(2) by (auto simp: run_functions_def numeral_3_eq_3)
  then show "passes (run x y z s') (\<lambda>s''. \<exists>xv w w'. ?I xv (c(y \<mapsto> w, z \<mapsto> w')) s'')"
    unfolding run loop_accesses_const by (rule passes_mono) blast
qed

end

context waiting_runtime
begin

lemma effect_wait:
  assumes "h \<notin> set x" "c h = Some w"
  shows "satisfies cnd w v \<Longrightarrow> effect (await (hsa_signal_wait r h cnd v UINT64_MAX ws)) (board u x xv c) Next (board u x xv c)"
    and "\<not> satisfies cnd w v \<Longrightarrow> effect (await (hsa_signal_wait r h cnd v UINT64_MAX ws)) (board u x xv c) Again (board u x xv c)"
proof -
  have *: "\<exists>s'. hsa_signal_wait r h cnd v UINT64_MAX ws s = (if satisfies cnd w v then Some w else None, s') \<and> board u x xv c s'"
    if "board u x xv c s" for s
  proof -
    have "0 < ups s" "val s h = Some w" using that assms by (auto simp: board_def)
    then show ?thesis using that one_look [of s h w r cnd v ws] by (auto simp: board_def)
  qed
  have "effect (await (hsa_signal_wait r h cnd v UINT64_MAX ws)) (board u x xv c)
      (if satisfies cnd w v then Next else Again) (board u x xv c)"
    unfolding await_def effect_access
  proof (intro allI impI)
    fix s assume "board u x xv c s"
    from * [OF this] show "\<exists>s'. (let (result, s) = hsa_signal_wait r h cnd v UINT64_MAX ws s in
        Some (case result of None \<Rightarrow> Again | Some _ \<Rightarrow> Next, s)) = Some (if satisfies cnd w v then Next else Again, s') \<and>
        board u x xv c s'"
      by auto
  qed
  then show "satisfies cnd w v \<Longrightarrow> effect (await (hsa_signal_wait r h cnd v UINT64_MAX ws)) (board u x xv c) Next (board u x xv c)"
    "\<not> satisfies cnd w v \<Longrightarrow> effect (await (hsa_signal_wait r h cnd v UINT64_MAX ws)) (board u x xv c) Again (board u x xv c)"
    by simp_all
qed

lemma effect_wait_yz:
  "y \<notin> set x \<Longrightarrow> y \<noteq> z \<Longrightarrow> satisfies cnd w v \<Longrightarrow>
    effect (await (hsa_signal_wait r y cnd v UINT64_MAX ws)) (board u x xv (c(y \<mapsto> w, z \<mapsto> w2))) Next (board u x xv (c(y \<mapsto> w, z \<mapsto> w2)))"
  "y \<notin> set x \<Longrightarrow> y \<noteq> z \<Longrightarrow> \<not> satisfies cnd w v \<Longrightarrow>
    effect (await (hsa_signal_wait r y cnd v UINT64_MAX ws)) (board u x xv (c(y \<mapsto> w, z \<mapsto> w2))) Again (board u x xv (c(y \<mapsto> w, z \<mapsto> w2)))"
  "z \<notin> set x \<Longrightarrow> satisfies cnd w v \<Longrightarrow>
    effect (await (hsa_signal_wait r z cnd v UINT64_MAX ws)) (board u x xv (c(z \<mapsto> w))) Next (board u x xv (c(z \<mapsto> w)))"
  "z \<notin> set x \<Longrightarrow> \<not> satisfies cnd w v \<Longrightarrow>
    effect (await (hsa_signal_wait r z cnd v UINT64_MAX ws)) (board u x xv (c(z \<mapsto> w))) Again (board u x xv (c(z \<mapsto> w)))"
  by (rule effect_wait; simp)+

lemmas relay_rules = block_step_2 block_step_3 x_effects yz_effects y_effects effect_wait_yz block_append block_done

end

end
