(* ===== verification/Signal_Transitive_Tests.thy ===== *)
theory Signal_Transitive_Tests
  imports Signal_Transitive
begin

text \<open>
  The transitive ordering tests, \<open>core/signals/test_signal_*_ordering_transitive.c\<close>.  Each file has the functions of the three
  threads and the test function; the globals \<open>x\<close>, \<open>y\<close> and \<open>z\<close> are arguments here, \<open>wt\<close> are the waits of the runtime.
\<close>

definition test_signal_add_acq_rel_ordering_transitive_t1 :: "('h, 'w::len word, 's) hsa_rt \<Rightarrow> 'h list \<Rightarrow> 'h \<Rightarrow> 's access list" where
  "test_signal_add_acq_rel_ordering_transitive_t1 rt x y =
     while_1
      (spin_or_return (hsa_signal_load rt Relaxed y) 1 (-1) #
       call (hsa_signal_add rt Acq_rel y (-1)) #
       loop_accesses NUM_X (\<lambda>ii.
         [expect (hsa_signal_load rt Relaxed (x ! ii)) 2,
          call (hsa_signal_add rt Relaxed (x ! ii) (-1))]) @
       [call (hsa_signal_add rt Acq_rel y 2)])"

definition test_signal_add_acq_rel_ordering_transitive_t2 :: "('h, 'w::len word, 's) hsa_rt \<Rightarrow> 'h list \<Rightarrow> 'h \<Rightarrow> 's access list" where
  "test_signal_add_acq_rel_ordering_transitive_t2 rt x z =
     while_1
      (spin_or_return (hsa_signal_load rt Relaxed z) 2 (-1) #
       call (hsa_signal_add rt Acq_rel z (-2)) #
       loop_accesses NUM_X (\<lambda>ii.
         [expect (hsa_signal_load rt Relaxed (x ! ii)) 1,
          call (hsa_signal_add rt Relaxed (x ! ii) 1)]) @
       [call (hsa_signal_add rt Acq_rel z 1)])"

definition test_signal_add_acq_rel_ordering_transitive_t3 :: "('h, 'w::len word, 's) hsa_rt \<Rightarrow> ('h, 'w word, 's) hsa_signal_wait \<Rightarrow> 'h \<Rightarrow> 'h \<Rightarrow> 's access list" where
  "test_signal_add_acq_rel_ordering_transitive_t3 rt wt y z =
     loop_accesses NUM_ITER_MEM_ORD (\<lambda>ii.
       [await (wt Acquire y HSA_SIGNAL_CONDITION_EQ 2 UINT64_MAX HSA_WAIT_STATE_BLOCKED),
        ignore (hsa_signal_cas rt Release z 1 2)] @
       [await (wt Acquire z HSA_SIGNAL_CONDITION_EQ 1 UINT64_MAX HSA_WAIT_STATE_BLOCKED),
        ignore (hsa_signal_cas rt Release y 2 1)]) @
     [spin (hsa_signal_load rt Relaxed y) 2,
      call (hsa_signal_store rt Release y (-1)),
      call (hsa_signal_store rt Release z (-1))]"

definition test_signal_add_acq_rel_ordering_transitive ::
  "('h, 'w::len word, 's) hsa_rt \<Rightarrow> ('h, 'w word, 's) hsa_signal_wait \<Rightarrow> (nat \<Rightarrow> nat) \<Rightarrow> 's \<Rightarrow> (nat \<times> 's) option"
where
  "test_signal_add_acq_rel_ordering_transitive rt wt sched s =
     transitive_test rt NUM_X 2 1 1 (\<lambda>x y z.
       three_tests (test_signal_add_acq_rel_ordering_transitive_t1 rt x y) (test_signal_add_acq_rel_ordering_transitive_t2 rt x z)
         (test_signal_add_acq_rel_ordering_transitive_t3 rt wt y z) sched) s"

definition test_signal_add_acquire_release_ordering_transitive_t1 :: "('h, 'w::len word, 's) hsa_rt \<Rightarrow> 'h list \<Rightarrow> 'h \<Rightarrow> 's access list" where
  "test_signal_add_acquire_release_ordering_transitive_t1 rt x y =
     while_1
      (spin_or_return (hsa_signal_load rt Relaxed y) 1 (-1) #
       call (hsa_signal_add rt Acquire y (-1)) #
       loop_accesses NUM_X (\<lambda>ii.
         [expect (hsa_signal_load rt Relaxed (x ! ii)) 2,
          call (hsa_signal_add rt Relaxed (x ! ii) (-1))]) @
       [call (hsa_signal_add rt Release y 2)])"

definition test_signal_add_acquire_release_ordering_transitive_t2 :: "('h, 'w::len word, 's) hsa_rt \<Rightarrow> 'h list \<Rightarrow> 'h \<Rightarrow> 's access list" where
  "test_signal_add_acquire_release_ordering_transitive_t2 rt x z =
     while_1
      (spin_or_return (hsa_signal_load rt Relaxed z) 2 (-1) #
       call (hsa_signal_add rt Acquire z (-2)) #
       loop_accesses NUM_X (\<lambda>ii.
         [expect (hsa_signal_load rt Relaxed (x ! ii)) 1,
          call (hsa_signal_add rt Relaxed (x ! ii) 1)]) @
       [call (hsa_signal_add rt Release z 1)])"

definition test_signal_add_acquire_release_ordering_transitive_t3 :: "('h, 'w::len word, 's) hsa_rt \<Rightarrow> ('h, 'w word, 's) hsa_signal_wait \<Rightarrow> 'h \<Rightarrow> 'h \<Rightarrow> 's access list" where
  "test_signal_add_acquire_release_ordering_transitive_t3 rt wt y z =
     loop_accesses NUM_ITER_MEM_ORD (\<lambda>ii.
       [await (wt Acquire y HSA_SIGNAL_CONDITION_EQ 2 UINT64_MAX HSA_WAIT_STATE_BLOCKED),
        ignore (hsa_signal_cas rt Release z 1 2)] @
       [await (wt Acquire z HSA_SIGNAL_CONDITION_EQ 1 UINT64_MAX HSA_WAIT_STATE_BLOCKED),
        ignore (hsa_signal_cas rt Release y 2 1)]) @
     [spin (hsa_signal_load rt Relaxed y) 2,
      call (hsa_signal_store rt Release y (-1)),
      call (hsa_signal_store rt Release z (-1))]"

definition test_signal_add_acquire_release_ordering_transitive ::
  "('h, 'w::len word, 's) hsa_rt \<Rightarrow> ('h, 'w word, 's) hsa_signal_wait \<Rightarrow> (nat \<Rightarrow> nat) \<Rightarrow> 's \<Rightarrow> (nat \<times> 's) option"
where
  "test_signal_add_acquire_release_ordering_transitive rt wt sched s =
     transitive_test rt NUM_X 2 1 1 (\<lambda>x y z.
       three_tests (test_signal_add_acquire_release_ordering_transitive_t1 rt x y) (test_signal_add_acquire_release_ordering_transitive_t2 rt x z)
         (test_signal_add_acquire_release_ordering_transitive_t3 rt wt y z) sched) s"

definition test_signal_and_acq_rel_ordering_transitive_t1 :: "('h, 'w::len word, 's) hsa_rt \<Rightarrow> 'h list \<Rightarrow> 'h \<Rightarrow> 's access list" where
  "test_signal_and_acq_rel_ordering_transitive_t1 rt x y =
     while_1
      (spin_or_return (hsa_signal_load rt Relaxed y) LAST_BIT (-2) #
       call (hsa_signal_and rt Acq_rel y 0) #
       loop_accesses NUM_X (\<lambda>ii.
         [expect (hsa_signal_load rt Relaxed (x ! ii)) LAST_BIT,
          call (hsa_signal_store rt Relaxed (x ! ii) ALL_BIT),
          call (hsa_signal_and rt Relaxed (x ! ii) FIRST_BIT)]) @
       [call (hsa_signal_store rt Relaxed y ALL_BIT),
        call (hsa_signal_and rt Acq_rel y FIRST_BIT)])"

definition test_signal_and_acq_rel_ordering_transitive_t2 :: "('h, 'w::len word, 's) hsa_rt \<Rightarrow> 'h list \<Rightarrow> 'h \<Rightarrow> 's access list" where
  "test_signal_and_acq_rel_ordering_transitive_t2 rt x z =
     while_1
      (spin_or_return (hsa_signal_load rt Relaxed z) FIRST_BIT (-2) #
       call (hsa_signal_and rt Acq_rel z 0) #
       loop_accesses NUM_X (\<lambda>ii.
         [expect (hsa_signal_load rt Relaxed (x ! ii)) FIRST_BIT,
          call (hsa_signal_store rt Relaxed (x ! ii) ALL_BIT),
          call (hsa_signal_and rt Relaxed (x ! ii) LAST_BIT)]) @
       [call (hsa_signal_store rt Relaxed z ALL_BIT),
        call (hsa_signal_and rt Acq_rel z LAST_BIT)])"

definition test_signal_and_acq_rel_ordering_transitive_t3 :: "('h, 'w::len word, 's) hsa_rt \<Rightarrow> ('h, 'w word, 's) hsa_signal_wait \<Rightarrow> 'h \<Rightarrow> 'h \<Rightarrow> 's access list" where
  "test_signal_and_acq_rel_ordering_transitive_t3 rt wt y z =
     loop_accesses NUM_ITER_MEM_ORD (\<lambda>ii.
       [await (wt Acquire y HSA_SIGNAL_CONDITION_EQ FIRST_BIT UINT64_MAX HSA_WAIT_STATE_BLOCKED),
        call (hsa_signal_store rt Relaxed z ALL_BIT),
        call (hsa_signal_and rt Release z FIRST_BIT)] @
       [await (wt Acquire z HSA_SIGNAL_CONDITION_EQ LAST_BIT UINT64_MAX HSA_WAIT_STATE_BLOCKED),
        call (hsa_signal_store rt Relaxed y ALL_BIT),
        call (hsa_signal_and rt Release y LAST_BIT)]) @
     [spin (hsa_signal_load rt Relaxed y) FIRST_BIT,
      call (hsa_signal_store rt Release y (-2)),
      call (hsa_signal_store rt Release z (-2))]"

definition test_signal_and_acq_rel_ordering_transitive ::
  "('h, 'w::len word, 's) hsa_rt \<Rightarrow> ('h, 'w word, 's) hsa_signal_wait \<Rightarrow> (nat \<Rightarrow> nat) \<Rightarrow> 's \<Rightarrow> (nat \<times> 's) option"
where
  "test_signal_and_acq_rel_ordering_transitive rt wt sched s =
     transitive_test rt NUM_X LAST_BIT LAST_BIT 0 (\<lambda>x y z.
       three_tests (test_signal_and_acq_rel_ordering_transitive_t1 rt x y) (test_signal_and_acq_rel_ordering_transitive_t2 rt x z)
         (test_signal_and_acq_rel_ordering_transitive_t3 rt wt y z) sched) s"

definition test_signal_and_acquire_release_ordering_transitive_t1 :: "('h, 'w::len word, 's) hsa_rt \<Rightarrow> 'h list \<Rightarrow> 'h \<Rightarrow> 's access list" where
  "test_signal_and_acquire_release_ordering_transitive_t1 rt x y =
     while_1
      (spin_or_return (hsa_signal_load rt Relaxed y) LAST_BIT (-2) #
       call (hsa_signal_and rt Acquire y 0) #
       loop_accesses NUM_X (\<lambda>ii.
         [expect (hsa_signal_load rt Relaxed (x ! ii)) LAST_BIT,
          call (hsa_signal_store rt Relaxed (x ! ii) ALL_BIT),
          call (hsa_signal_and rt Relaxed (x ! ii) FIRST_BIT)]) @
       [call (hsa_signal_store rt Relaxed y ALL_BIT),
        call (hsa_signal_and rt Release y FIRST_BIT)])"

definition test_signal_and_acquire_release_ordering_transitive_t2 :: "('h, 'w::len word, 's) hsa_rt \<Rightarrow> 'h list \<Rightarrow> 'h \<Rightarrow> 's access list" where
  "test_signal_and_acquire_release_ordering_transitive_t2 rt x z =
     while_1
      (spin_or_return (hsa_signal_load rt Relaxed z) FIRST_BIT (-2) #
       call (hsa_signal_and rt Acquire z 0) #
       loop_accesses NUM_X (\<lambda>ii.
         [expect (hsa_signal_load rt Relaxed (x ! ii)) FIRST_BIT,
          call (hsa_signal_store rt Relaxed (x ! ii) ALL_BIT),
          call (hsa_signal_and rt Relaxed (x ! ii) LAST_BIT)]) @
       [call (hsa_signal_store rt Relaxed z ALL_BIT),
        call (hsa_signal_and rt Release z LAST_BIT)])"

definition test_signal_and_acquire_release_ordering_transitive_t3 :: "('h, 'w::len word, 's) hsa_rt \<Rightarrow> ('h, 'w word, 's) hsa_signal_wait \<Rightarrow> 'h \<Rightarrow> 'h \<Rightarrow> 's access list" where
  "test_signal_and_acquire_release_ordering_transitive_t3 rt wt y z =
     loop_accesses NUM_ITER_MEM_ORD (\<lambda>ii.
       [await (wt Acquire y HSA_SIGNAL_CONDITION_EQ FIRST_BIT UINT64_MAX HSA_WAIT_STATE_BLOCKED),
        call (hsa_signal_store rt Relaxed z ALL_BIT),
        call (hsa_signal_and rt Release z FIRST_BIT)] @
       [await (wt Acquire z HSA_SIGNAL_CONDITION_EQ LAST_BIT UINT64_MAX HSA_WAIT_STATE_BLOCKED),
        call (hsa_signal_store rt Relaxed y ALL_BIT),
        call (hsa_signal_and rt Release y LAST_BIT)]) @
     [spin (hsa_signal_load rt Relaxed y) FIRST_BIT,
      call (hsa_signal_store rt Release y (-2)),
      call (hsa_signal_store rt Release z (-2))]"

definition test_signal_and_acquire_release_ordering_transitive ::
  "('h, 'w::len word, 's) hsa_rt \<Rightarrow> ('h, 'w word, 's) hsa_signal_wait \<Rightarrow> (nat \<Rightarrow> nat) \<Rightarrow> 's \<Rightarrow> (nat \<times> 's) option"
where
  "test_signal_and_acquire_release_ordering_transitive rt wt sched s =
     transitive_test rt NUM_X LAST_BIT LAST_BIT 0 (\<lambda>x y z.
       three_tests (test_signal_and_acquire_release_ordering_transitive_t1 rt x y) (test_signal_and_acquire_release_ordering_transitive_t2 rt x z)
         (test_signal_and_acquire_release_ordering_transitive_t3 rt wt y z) sched) s"

definition test_signal_cas_acq_rel_ordering_transitive_t1 :: "('h, 'w::len word, 's) hsa_rt \<Rightarrow> 'h list \<Rightarrow> 'h \<Rightarrow> 's access list" where
  "test_signal_cas_acq_rel_ordering_transitive_t1 rt x y =
     while_1
      (spin_or_return (hsa_signal_cas rt Acq_rel y 1 0) 1 (-1) #
       loop_accesses NUM_X (\<lambda>ii.
         [expect (hsa_signal_load rt Relaxed (x ! ii)) 2,
          call (hsa_signal_store rt Relaxed (x ! ii) 1)]) @
       [ignore (hsa_signal_cas rt Acq_rel y 0 2)])"

definition test_signal_cas_acq_rel_ordering_transitive_t2 :: "('h, 'w::len word, 's) hsa_rt \<Rightarrow> 'h list \<Rightarrow> 'h \<Rightarrow> 's access list" where
  "test_signal_cas_acq_rel_ordering_transitive_t2 rt x z =
     while_1
      (spin_or_return (hsa_signal_cas rt Acq_rel z 2 0) 2 (-1) #
       loop_accesses NUM_X (\<lambda>ii.
         [expect (hsa_signal_load rt Relaxed (x ! ii)) 1,
          call (hsa_signal_store rt Relaxed (x ! ii) 2)]) @
       [ignore (hsa_signal_cas rt Acq_rel z 0 1)])"

definition test_signal_cas_acq_rel_ordering_transitive_t3 :: "('h, 'w::len word, 's) hsa_rt \<Rightarrow> ('h, 'w word, 's) hsa_signal_wait \<Rightarrow> 'h \<Rightarrow> 'h \<Rightarrow> 's access list" where
  "test_signal_cas_acq_rel_ordering_transitive_t3 rt wt y z =
     loop_accesses NUM_ITER_MEM_ORD (\<lambda>ii.
       [await (wt Acquire y HSA_SIGNAL_CONDITION_EQ 2 UINT64_MAX HSA_WAIT_STATE_BLOCKED),
        ignore (hsa_signal_cas rt Acq_rel z 1 2)] @
       [await (wt Acquire z HSA_SIGNAL_CONDITION_EQ 1 UINT64_MAX HSA_WAIT_STATE_BLOCKED),
        ignore (hsa_signal_cas rt Acq_rel y 2 1)]) @
     [spin (hsa_signal_load rt Relaxed y) 2,
      call (hsa_signal_store rt Release y (-1)),
      call (hsa_signal_store rt Release z (-1))]"

definition test_signal_cas_acq_rel_ordering_transitive ::
  "('h, 'w::len word, 's) hsa_rt \<Rightarrow> ('h, 'w word, 's) hsa_signal_wait \<Rightarrow> (nat \<Rightarrow> nat) \<Rightarrow> 's \<Rightarrow> (nat \<times> 's) option"
where
  "test_signal_cas_acq_rel_ordering_transitive rt wt sched s =
     transitive_test rt NUM_X 2 1 1 (\<lambda>x y z.
       three_tests (test_signal_cas_acq_rel_ordering_transitive_t1 rt x y) (test_signal_cas_acq_rel_ordering_transitive_t2 rt x z)
         (test_signal_cas_acq_rel_ordering_transitive_t3 rt wt y z) sched) s"

definition test_signal_cas_acquire_release_ordering_transitive_t1 :: "('h, 'w::len word, 's) hsa_rt \<Rightarrow> 'h list \<Rightarrow> 'h \<Rightarrow> 's access list" where
  "test_signal_cas_acquire_release_ordering_transitive_t1 rt x y =
     while_1
      (spin_or_return (hsa_signal_cas rt Acquire y 1 0) 1 (-1) #
       loop_accesses NUM_X (\<lambda>ii.
         [expect (hsa_signal_load rt Relaxed (x ! ii)) 2,
          call (hsa_signal_store rt Relaxed (x ! ii) 1)]) @
       [ignore (hsa_signal_cas rt Release y 0 2)])"

definition test_signal_cas_acquire_release_ordering_transitive_t2 :: "('h, 'w::len word, 's) hsa_rt \<Rightarrow> 'h list \<Rightarrow> 'h \<Rightarrow> 's access list" where
  "test_signal_cas_acquire_release_ordering_transitive_t2 rt x z =
     while_1
      (spin_or_return (hsa_signal_cas rt Acquire z 2 0) 2 (-1) #
       loop_accesses NUM_X (\<lambda>ii.
         [expect (hsa_signal_load rt Relaxed (x ! ii)) 1,
          call (hsa_signal_store rt Relaxed (x ! ii) 2)]) @
       [ignore (hsa_signal_cas rt Release z 0 1)])"

definition test_signal_cas_acquire_release_ordering_transitive_t3 :: "('h, 'w::len word, 's) hsa_rt \<Rightarrow> ('h, 'w word, 's) hsa_signal_wait \<Rightarrow> 'h \<Rightarrow> 'h \<Rightarrow> 's access list" where
  "test_signal_cas_acquire_release_ordering_transitive_t3 rt wt y z =
     loop_accesses NUM_ITER_MEM_ORD (\<lambda>ii.
       [await (wt Acquire y HSA_SIGNAL_CONDITION_EQ 2 UINT64_MAX HSA_WAIT_STATE_BLOCKED),
        ignore (hsa_signal_cas rt Release z 1 2)] @
       [await (wt Acquire z HSA_SIGNAL_CONDITION_EQ 1 UINT64_MAX HSA_WAIT_STATE_BLOCKED),
        ignore (hsa_signal_cas rt Release y 2 1)]) @
     [spin (hsa_signal_load rt Relaxed y) 2,
      call (hsa_signal_store rt Release y (-1)),
      call (hsa_signal_store rt Release z (-1))]"

definition test_signal_cas_acquire_release_ordering_transitive ::
  "('h, 'w::len word, 's) hsa_rt \<Rightarrow> ('h, 'w word, 's) hsa_signal_wait \<Rightarrow> (nat \<Rightarrow> nat) \<Rightarrow> 's \<Rightarrow> (nat \<times> 's) option"
where
  "test_signal_cas_acquire_release_ordering_transitive rt wt sched s =
     transitive_test rt NUM_X 2 1 1 (\<lambda>x y z.
       three_tests (test_signal_cas_acquire_release_ordering_transitive_t1 rt x y) (test_signal_cas_acquire_release_ordering_transitive_t2 rt x z)
         (test_signal_cas_acquire_release_ordering_transitive_t3 rt wt y z) sched) s"

definition test_signal_exchange_acq_rel_ordering_transitive_t1 :: "('h, 'w::len word, 's) hsa_rt \<Rightarrow> 'h list \<Rightarrow> 'h \<Rightarrow> 's access list" where
  "test_signal_exchange_acq_rel_ordering_transitive_t1 rt x y =
     while_1
      (spin_or_return (hsa_signal_load rt Acquire y) 1 (-1) #
       ignore (hsa_signal_exchange rt Acq_rel y 0) #
       loop_accesses NUM_X (\<lambda>ii.
         [expect (hsa_signal_load rt Relaxed (x ! ii)) 2,
          call (hsa_signal_store rt Relaxed (x ! ii) 1)]) @
       [ignore (hsa_signal_exchange rt Acq_rel y 2)])"

definition test_signal_exchange_acq_rel_ordering_transitive_t2 :: "('h, 'w::len word, 's) hsa_rt \<Rightarrow> 'h list \<Rightarrow> 'h \<Rightarrow> 's access list" where
  "test_signal_exchange_acq_rel_ordering_transitive_t2 rt x z =
     while_1
      (spin_or_return (hsa_signal_load rt Acquire z) 2 (-1) #
       ignore (hsa_signal_exchange rt Acquire z 0) #
       loop_accesses NUM_X (\<lambda>ii.
         [expect (hsa_signal_load rt Relaxed (x ! ii)) 1,
          call (hsa_signal_store rt Relaxed (x ! ii) 2)]) @
       [ignore (hsa_signal_exchange rt Acq_rel z 1)])"

definition test_signal_exchange_acq_rel_ordering_transitive_t3 :: "('h, 'w::len word, 's) hsa_rt \<Rightarrow> ('h, 'w word, 's) hsa_signal_wait \<Rightarrow> 'h \<Rightarrow> 'h \<Rightarrow> 's access list" where
  "test_signal_exchange_acq_rel_ordering_transitive_t3 rt wt y z =
     loop_accesses NUM_ITER_MEM_ORD (\<lambda>ii.
       [await (wt Acquire y HSA_SIGNAL_CONDITION_EQ 2 UINT64_MAX HSA_WAIT_STATE_BLOCKED),
        ignore (hsa_signal_exchange rt Acq_rel z 2)] @
       [await (wt Acquire z HSA_SIGNAL_CONDITION_EQ 1 UINT64_MAX HSA_WAIT_STATE_BLOCKED),
        ignore (hsa_signal_exchange rt Acq_rel y 1)]) @
     [spin (hsa_signal_load rt Relaxed y) 2,
      call (hsa_signal_store rt Release y (-1)),
      call (hsa_signal_store rt Release z (-1))]"

definition test_signal_exchange_acq_rel_ordering_transitive ::
  "('h, 'w::len word, 's) hsa_rt \<Rightarrow> ('h, 'w word, 's) hsa_signal_wait \<Rightarrow> (nat \<Rightarrow> nat) \<Rightarrow> 's \<Rightarrow> (nat \<times> 's) option"
where
  "test_signal_exchange_acq_rel_ordering_transitive rt wt sched s =
     transitive_test rt NUM_X 2 1 0 (\<lambda>x y z.
       three_tests (test_signal_exchange_acq_rel_ordering_transitive_t1 rt x y) (test_signal_exchange_acq_rel_ordering_transitive_t2 rt x z)
         (test_signal_exchange_acq_rel_ordering_transitive_t3 rt wt y z) sched) s"

definition test_signal_exchange_acquire_release_ordering_transitive_t1 :: "('h, 'w::len word, 's) hsa_rt \<Rightarrow> 'h list \<Rightarrow> 'h \<Rightarrow> 's access list" where
  "test_signal_exchange_acquire_release_ordering_transitive_t1 rt x y =
     while_1
      (spin_or_return (hsa_signal_load rt Acquire y) 1 (-1) #
       ignore (hsa_signal_exchange rt Acquire y 0) #
       loop_accesses NUM_X (\<lambda>ii.
         [expect (hsa_signal_load rt Relaxed (x ! ii)) 2,
          call (hsa_signal_store rt Relaxed (x ! ii) 1)]) @
       [call (hsa_signal_store rt Release y 2)])"

definition test_signal_exchange_acquire_release_ordering_transitive_t2 :: "('h, 'w::len word, 's) hsa_rt \<Rightarrow> 'h list \<Rightarrow> 'h \<Rightarrow> 's access list" where
  "test_signal_exchange_acquire_release_ordering_transitive_t2 rt x z =
     while_1
      (spin_or_return (hsa_signal_load rt Acquire z) 2 (-1) #
       ignore (hsa_signal_exchange rt Acquire z 0) #
       loop_accesses NUM_X (\<lambda>ii.
         [expect (hsa_signal_load rt Relaxed (x ! ii)) 1,
          call (hsa_signal_store rt Relaxed (x ! ii) 2)]) @
       [call (hsa_signal_store rt Release z 1)])"

definition test_signal_exchange_acquire_release_ordering_transitive_t3 :: "('h, 'w::len word, 's) hsa_rt \<Rightarrow> ('h, 'w word, 's) hsa_signal_wait \<Rightarrow> 'h \<Rightarrow> 'h \<Rightarrow> 's access list" where
  "test_signal_exchange_acquire_release_ordering_transitive_t3 rt wt y z =
     loop_accesses NUM_ITER_MEM_ORD (\<lambda>ii.
       [await (wt Acquire y HSA_SIGNAL_CONDITION_EQ 2 UINT64_MAX HSA_WAIT_STATE_BLOCKED),
        ignore (hsa_signal_exchange rt Release z 2)] @
       [await (wt Acquire z HSA_SIGNAL_CONDITION_EQ 1 UINT64_MAX HSA_WAIT_STATE_BLOCKED),
        ignore (hsa_signal_exchange rt Release y 1)]) @
     [spin (hsa_signal_load rt Relaxed y) 2,
      call (hsa_signal_store rt Release y (-1)),
      call (hsa_signal_store rt Release z (-1))]"

definition test_signal_exchange_acquire_release_ordering_transitive ::
  "('h, 'w::len word, 's) hsa_rt \<Rightarrow> ('h, 'w word, 's) hsa_signal_wait \<Rightarrow> (nat \<Rightarrow> nat) \<Rightarrow> 's \<Rightarrow> (nat \<times> 's) option"
where
  "test_signal_exchange_acquire_release_ordering_transitive rt wt sched s =
     transitive_test rt NUM_X 2 1 0 (\<lambda>x y z.
       three_tests (test_signal_exchange_acquire_release_ordering_transitive_t1 rt x y) (test_signal_exchange_acquire_release_ordering_transitive_t2 rt x z)
         (test_signal_exchange_acquire_release_ordering_transitive_t3 rt wt y z) sched) s"

definition test_signal_or_acq_rel_ordering_transitive_t1 :: "('h, 'w::len word, 's) hsa_rt \<Rightarrow> 'h list \<Rightarrow> 'h \<Rightarrow> 's access list" where
  "test_signal_or_acq_rel_ordering_transitive_t1 rt x y =
     while_1
      (spin_or_return (hsa_signal_load rt Relaxed y) LAST_BIT (-1) #
       call (hsa_signal_store rt Relaxed y 0) #
       loop_accesses NUM_X (\<lambda>ii.
         [expect (hsa_signal_load rt Relaxed (x ! ii)) LAST_BIT,
          call (hsa_signal_store rt Relaxed (x ! ii) 0),
          call (hsa_signal_or rt Relaxed (x ! ii) FIRST_BIT)]) @
       [call (hsa_signal_or rt Acq_rel y FIRST_BIT)])"

definition test_signal_or_acq_rel_ordering_transitive_t2 :: "('h, 'w::len word, 's) hsa_rt \<Rightarrow> 'h list \<Rightarrow> 'h \<Rightarrow> 's access list" where
  "test_signal_or_acq_rel_ordering_transitive_t2 rt x z =
     while_1
      (spin_or_return (hsa_signal_load rt Relaxed z) FIRST_BIT (-1) #
       call (hsa_signal_store rt Relaxed z 0) #
       loop_accesses NUM_X (\<lambda>ii.
         [expect (hsa_signal_load rt Relaxed (x ! ii)) FIRST_BIT,
          call (hsa_signal_store rt Relaxed (x ! ii) 0),
          call (hsa_signal_or rt Relaxed (x ! ii) LAST_BIT)]) @
       [call (hsa_signal_or rt Acq_rel z LAST_BIT)])"

definition test_signal_or_acq_rel_ordering_transitive_t3 :: "('h, 'w::len word, 's) hsa_rt \<Rightarrow> ('h, 'w word, 's) hsa_signal_wait \<Rightarrow> 'h \<Rightarrow> 'h \<Rightarrow> 's access list" where
  "test_signal_or_acq_rel_ordering_transitive_t3 rt wt y z =
     loop_accesses NUM_ITER_MEM_ORD (\<lambda>ii.
       [await (wt Acquire y HSA_SIGNAL_CONDITION_EQ FIRST_BIT UINT64_MAX HSA_WAIT_STATE_BLOCKED),
        call (hsa_signal_store rt Relaxed z 0),
        call (hsa_signal_or rt Release z FIRST_BIT)] @
       [await (wt Acquire z HSA_SIGNAL_CONDITION_EQ LAST_BIT UINT64_MAX HSA_WAIT_STATE_BLOCKED),
        call (hsa_signal_store rt Relaxed y 0),
        call (hsa_signal_or rt Release y LAST_BIT)]) @
     [spin (hsa_signal_load rt Relaxed y) FIRST_BIT,
      call (hsa_signal_store rt Release y (-1)),
      call (hsa_signal_store rt Release z (-1))]"

definition test_signal_or_acq_rel_ordering_transitive ::
  "('h, 'w::len word, 's) hsa_rt \<Rightarrow> ('h, 'w word, 's) hsa_signal_wait \<Rightarrow> (nat \<Rightarrow> nat) \<Rightarrow> 's \<Rightarrow> (nat \<times> 's) option"
where
  "test_signal_or_acq_rel_ordering_transitive rt wt sched s =
     transitive_test rt NUM_X LAST_BIT LAST_BIT 0 (\<lambda>x y z.
       three_tests (test_signal_or_acq_rel_ordering_transitive_t1 rt x y) (test_signal_or_acq_rel_ordering_transitive_t2 rt x z)
         (test_signal_or_acq_rel_ordering_transitive_t3 rt wt y z) sched) s"

definition test_signal_or_acquire_release_ordering_transitive_t1 :: "('h, 'w::len word, 's) hsa_rt \<Rightarrow> 'h list \<Rightarrow> 'h \<Rightarrow> 's access list" where
  "test_signal_or_acquire_release_ordering_transitive_t1 rt x y =
     while_1
      (spin_or_return (hsa_signal_load rt Relaxed y) LAST_BIT (-1) #
       call (hsa_signal_store rt Relaxed y 0) #
       call (hsa_signal_or rt Acquire y 0) #
       loop_accesses NUM_X (\<lambda>ii.
         [expect (hsa_signal_load rt Relaxed (x ! ii)) LAST_BIT,
          call (hsa_signal_store rt Relaxed (x ! ii) 0),
          call (hsa_signal_or rt Relaxed (x ! ii) FIRST_BIT)]) @
       [call (hsa_signal_or rt Release y FIRST_BIT)])"

definition test_signal_or_acquire_release_ordering_transitive_t2 :: "('h, 'w::len word, 's) hsa_rt \<Rightarrow> 'h list \<Rightarrow> 'h \<Rightarrow> 's access list" where
  "test_signal_or_acquire_release_ordering_transitive_t2 rt x z =
     while_1
      (spin_or_return (hsa_signal_load rt Relaxed z) FIRST_BIT (-1) #
       call (hsa_signal_store rt Relaxed z 0) #
       call (hsa_signal_or rt Acquire z 0) #
       loop_accesses NUM_X (\<lambda>ii.
         [expect (hsa_signal_load rt Relaxed (x ! ii)) FIRST_BIT,
          call (hsa_signal_store rt Relaxed (x ! ii) 0),
          call (hsa_signal_or rt Relaxed (x ! ii) LAST_BIT)]) @
       [call (hsa_signal_or rt Release z LAST_BIT)])"

definition test_signal_or_acquire_release_ordering_transitive_t3 :: "('h, 'w::len word, 's) hsa_rt \<Rightarrow> ('h, 'w word, 's) hsa_signal_wait \<Rightarrow> 'h \<Rightarrow> 'h \<Rightarrow> 's access list" where
  "test_signal_or_acquire_release_ordering_transitive_t3 rt wt y z =
     loop_accesses NUM_ITER_MEM_ORD (\<lambda>ii.
       [await (wt Acquire y HSA_SIGNAL_CONDITION_EQ FIRST_BIT UINT64_MAX HSA_WAIT_STATE_BLOCKED),
        call (hsa_signal_store rt Relaxed z 0),
        call (hsa_signal_or rt Release z FIRST_BIT)] @
       [await (wt Acquire z HSA_SIGNAL_CONDITION_EQ LAST_BIT UINT64_MAX HSA_WAIT_STATE_BLOCKED),
        call (hsa_signal_store rt Relaxed y 0),
        call (hsa_signal_or rt Release y LAST_BIT)]) @
     [spin (hsa_signal_load rt Relaxed y) FIRST_BIT,
      call (hsa_signal_store rt Release y (-1)),
      call (hsa_signal_store rt Release z (-1))]"

definition test_signal_or_acquire_release_ordering_transitive ::
  "('h, 'w::len word, 's) hsa_rt \<Rightarrow> ('h, 'w word, 's) hsa_signal_wait \<Rightarrow> (nat \<Rightarrow> nat) \<Rightarrow> 's \<Rightarrow> (nat \<times> 's) option"
where
  "test_signal_or_acquire_release_ordering_transitive rt wt sched s =
     transitive_test rt NUM_X LAST_BIT LAST_BIT 0 (\<lambda>x y z.
       three_tests (test_signal_or_acquire_release_ordering_transitive_t1 rt x y) (test_signal_or_acquire_release_ordering_transitive_t2 rt x z)
         (test_signal_or_acquire_release_ordering_transitive_t3 rt wt y z) sched) s"

definition test_signal_store_release_load_acquire_ordering_transitive_t1 :: "('h, 'w::len word, 's) hsa_rt \<Rightarrow> 'h list \<Rightarrow> 'h \<Rightarrow> 's access list" where
  "test_signal_store_release_load_acquire_ordering_transitive_t1 rt x y =
     while_1
      (spin_or_return (hsa_signal_load rt Acquire y) 0 (-1) #
       loop_accesses NUM_X (\<lambda>ii.
         [expect (hsa_signal_load rt Relaxed (x ! ii)) 0,
          call (hsa_signal_store rt Relaxed (x ! ii) 1)]) @
       [call (hsa_signal_store rt Release y 1)])"

definition test_signal_store_release_load_acquire_ordering_transitive_t2 :: "('h, 'w::len word, 's) hsa_rt \<Rightarrow> 'h list \<Rightarrow> 'h \<Rightarrow> 's access list" where
  "test_signal_store_release_load_acquire_ordering_transitive_t2 rt x z =
     while_1
      (spin_or_return (hsa_signal_load rt Acquire z) 1 (-1) #
       loop_accesses NUM_X (\<lambda>ii.
         [expect (hsa_signal_load rt Relaxed (x ! ii)) 1,
          call (hsa_signal_store rt Relaxed (x ! ii) 0)]) @
       [call (hsa_signal_store rt Release z 0)])"

definition test_signal_store_release_load_acquire_ordering_transitive_t3 :: "('h, 'w::len word, 's) hsa_rt \<Rightarrow> 'h \<Rightarrow> 'h \<Rightarrow> 's access list" where
  "test_signal_store_release_load_acquire_ordering_transitive_t3 rt y z =
     loop_accesses NUM_ITER_MEM_ORD (\<lambda>ii.
       [spin (hsa_signal_load rt Acquire y) 1,
        call (hsa_signal_store rt Release z 1)] @
       [spin (hsa_signal_load rt Acquire z) 0,
        call (hsa_signal_store rt Release y 0)]) @
     [spin (hsa_signal_load rt Relaxed y) 1,
      call (hsa_signal_store rt Release y (-1)),
      call (hsa_signal_store rt Release z (-1))]"

definition test_signal_store_release_load_acquire_ordering_transitive ::
  "('h, 'w::len word, 's) hsa_rt \<Rightarrow> ('h, 'w word, 's) hsa_signal_wait \<Rightarrow> (nat \<Rightarrow> nat) \<Rightarrow> 's \<Rightarrow> (nat \<times> 's) option"
where
  "test_signal_store_release_load_acquire_ordering_transitive rt wt sched s =
     transitive_test rt NUM_X 0 0 0 (\<lambda>x y z.
       three_tests (test_signal_store_release_load_acquire_ordering_transitive_t1 rt x y) (test_signal_store_release_load_acquire_ordering_transitive_t2 rt x z)
         (test_signal_store_release_load_acquire_ordering_transitive_t3 rt y z) sched) s"

definition test_signal_subtract_acq_rel_ordering_transitive_t1 :: "('h, 'w::len word, 's) hsa_rt \<Rightarrow> 'h list \<Rightarrow> 'h \<Rightarrow> 's access list" where
  "test_signal_subtract_acq_rel_ordering_transitive_t1 rt x y =
     while_1
      (spin_or_return (hsa_signal_load rt Relaxed y) 1 (-1) #
       call (hsa_signal_subtract rt Acq_rel y 1) #
       loop_accesses NUM_X (\<lambda>ii.
         [expect (hsa_signal_load rt Relaxed (x ! ii)) 2,
          call (hsa_signal_subtract rt Relaxed (x ! ii) 1)]) @
       [call (hsa_signal_subtract rt Acq_rel y (-2))])"

definition test_signal_subtract_acq_rel_ordering_transitive_t2 :: "('h, 'w::len word, 's) hsa_rt \<Rightarrow> 'h list \<Rightarrow> 'h \<Rightarrow> 's access list" where
  "test_signal_subtract_acq_rel_ordering_transitive_t2 rt x z =
     while_1
      (spin_or_return (hsa_signal_load rt Relaxed z) 2 (-1) #
       call (hsa_signal_subtract rt Acq_rel z 2) #
       loop_accesses NUM_X (\<lambda>ii.
         [expect (hsa_signal_load rt Relaxed (x ! ii)) 1,
          call (hsa_signal_subtract rt Relaxed (x ! ii) (-1))]) @
       [call (hsa_signal_subtract rt Acq_rel z (-1))])"

definition test_signal_subtract_acq_rel_ordering_transitive_t3 :: "('h, 'w::len word, 's) hsa_rt \<Rightarrow> ('h, 'w word, 's) hsa_signal_wait \<Rightarrow> 'h \<Rightarrow> 'h \<Rightarrow> 's access list" where
  "test_signal_subtract_acq_rel_ordering_transitive_t3 rt wt y z =
     loop_accesses NUM_ITER_MEM_ORD (\<lambda>ii.
       [await (wt Acquire y HSA_SIGNAL_CONDITION_EQ 2 UINT64_MAX HSA_WAIT_STATE_BLOCKED),
        ignore (hsa_signal_cas rt Release z 1 2)] @
       [await (wt Acquire z HSA_SIGNAL_CONDITION_EQ 1 UINT64_MAX HSA_WAIT_STATE_BLOCKED),
        ignore (hsa_signal_cas rt Release y 2 1)]) @
     [spin (hsa_signal_load rt Relaxed y) 2,
      call (hsa_signal_store rt Release y (-1)),
      call (hsa_signal_store rt Release z (-1))]"

definition test_signal_subtract_acq_rel_ordering_transitive ::
  "('h, 'w::len word, 's) hsa_rt \<Rightarrow> ('h, 'w word, 's) hsa_signal_wait \<Rightarrow> (nat \<Rightarrow> nat) \<Rightarrow> 's \<Rightarrow> (nat \<times> 's) option"
where
  "test_signal_subtract_acq_rel_ordering_transitive rt wt sched s =
     transitive_test rt NUM_X 2 1 1 (\<lambda>x y z.
       three_tests (test_signal_subtract_acq_rel_ordering_transitive_t1 rt x y) (test_signal_subtract_acq_rel_ordering_transitive_t2 rt x z)
         (test_signal_subtract_acq_rel_ordering_transitive_t3 rt wt y z) sched) s"

definition test_signal_subtract_acquire_release_ordering_transitive_t1 :: "('h, 'w::len word, 's) hsa_rt \<Rightarrow> 'h list \<Rightarrow> 'h \<Rightarrow> 's access list" where
  "test_signal_subtract_acquire_release_ordering_transitive_t1 rt x y =
     while_1
      (spin_or_return (hsa_signal_load rt Relaxed y) 1 (-1) #
       call (hsa_signal_subtract rt Acquire y 1) #
       loop_accesses NUM_X (\<lambda>ii.
         [expect (hsa_signal_load rt Relaxed (x ! ii)) 2,
          call (hsa_signal_subtract rt Relaxed (x ! ii) 1)]) @
       [call (hsa_signal_subtract rt Release y (-2))])"

definition test_signal_subtract_acquire_release_ordering_transitive_t2 :: "('h, 'w::len word, 's) hsa_rt \<Rightarrow> 'h list \<Rightarrow> 'h \<Rightarrow> 's access list" where
  "test_signal_subtract_acquire_release_ordering_transitive_t2 rt x z =
     while_1
      (spin_or_return (hsa_signal_load rt Relaxed z) 2 (-1) #
       call (hsa_signal_subtract rt Acquire z 2) #
       loop_accesses NUM_X (\<lambda>ii.
         [expect (hsa_signal_load rt Relaxed (x ! ii)) 1,
          call (hsa_signal_subtract rt Relaxed (x ! ii) (-1))]) @
       [call (hsa_signal_subtract rt Release z (-1))])"

definition test_signal_subtract_acquire_release_ordering_transitive_t3 :: "('h, 'w::len word, 's) hsa_rt \<Rightarrow> ('h, 'w word, 's) hsa_signal_wait \<Rightarrow> 'h \<Rightarrow> 'h \<Rightarrow> 's access list" where
  "test_signal_subtract_acquire_release_ordering_transitive_t3 rt wt y z =
     loop_accesses NUM_ITER_MEM_ORD (\<lambda>ii.
       [await (wt Acquire y HSA_SIGNAL_CONDITION_EQ 2 UINT64_MAX HSA_WAIT_STATE_BLOCKED),
        ignore (hsa_signal_cas rt Release z 1 2)] @
       [await (wt Acquire z HSA_SIGNAL_CONDITION_EQ 1 UINT64_MAX HSA_WAIT_STATE_BLOCKED),
        ignore (hsa_signal_cas rt Release y 2 1)]) @
     [spin (hsa_signal_load rt Relaxed y) 2,
      call (hsa_signal_store rt Release y (-1)),
      call (hsa_signal_store rt Release z (-1))]"

definition test_signal_subtract_acquire_release_ordering_transitive ::
  "('h, 'w::len word, 's) hsa_rt \<Rightarrow> ('h, 'w word, 's) hsa_signal_wait \<Rightarrow> (nat \<Rightarrow> nat) \<Rightarrow> 's \<Rightarrow> (nat \<times> 's) option"
where
  "test_signal_subtract_acquire_release_ordering_transitive rt wt sched s =
     transitive_test rt NUM_X 2 1 1 (\<lambda>x y z.
       three_tests (test_signal_subtract_acquire_release_ordering_transitive_t1 rt x y) (test_signal_subtract_acquire_release_ordering_transitive_t2 rt x z)
         (test_signal_subtract_acquire_release_ordering_transitive_t3 rt wt y z) sched) s"

definition test_signal_xor_acq_rel_ordering_transitive_t1 :: "('h, 'w::len word, 's) hsa_rt \<Rightarrow> 'h list \<Rightarrow> 'h \<Rightarrow> 's access list" where
  "test_signal_xor_acq_rel_ordering_transitive_t1 rt x y =
     while_1
      (spin_or_return (hsa_signal_load rt Relaxed y) LAST_BIT (-1) #
       call (hsa_signal_xor rt Acq_rel y LAST_BIT) #
       loop_accesses NUM_X (\<lambda>ii.
         [expect (hsa_signal_load rt Relaxed (x ! ii)) LAST_BIT,
          call (hsa_signal_xor rt Relaxed (x ! ii) (FIRST_BIT OR LAST_BIT))]) @
       [call (hsa_signal_xor rt Acq_rel y FIRST_BIT)])"

definition test_signal_xor_acq_rel_ordering_transitive_t2 :: "('h, 'w::len word, 's) hsa_rt \<Rightarrow> 'h list \<Rightarrow> 'h \<Rightarrow> 's access list" where
  "test_signal_xor_acq_rel_ordering_transitive_t2 rt x z =
     while_1
      (spin_or_return (hsa_signal_load rt Relaxed z) FIRST_BIT (-1) #
       call (hsa_signal_xor rt Acq_rel z FIRST_BIT) #
       loop_accesses NUM_X (\<lambda>ii.
         [expect (hsa_signal_load rt Relaxed (x ! ii)) FIRST_BIT,
          call (hsa_signal_xor rt Relaxed (x ! ii) (LAST_BIT OR FIRST_BIT))]) @
       [call (hsa_signal_xor rt Acq_rel z LAST_BIT)])"

definition test_signal_xor_acq_rel_ordering_transitive_t3 :: "('h, 'w::len word, 's) hsa_rt \<Rightarrow> ('h, 'w word, 's) hsa_signal_wait \<Rightarrow> 'h \<Rightarrow> 'h \<Rightarrow> 's access list" where
  "test_signal_xor_acq_rel_ordering_transitive_t3 rt wt y z =
     loop_accesses NUM_ITER_MEM_ORD (\<lambda>ii.
       [await (wt Acquire y HSA_SIGNAL_CONDITION_EQ FIRST_BIT UINT64_MAX HSA_WAIT_STATE_BLOCKED),
        call (hsa_signal_xor rt Release z (FIRST_BIT OR LAST_BIT))] @
       [await (wt Acquire z HSA_SIGNAL_CONDITION_EQ LAST_BIT UINT64_MAX HSA_WAIT_STATE_BLOCKED),
        call (hsa_signal_xor rt Release y (LAST_BIT OR FIRST_BIT))]) @
     [spin (hsa_signal_load rt Relaxed y) FIRST_BIT,
      call (hsa_signal_store rt Release y (-1)),
      call (hsa_signal_store rt Release z (-1))]"

definition test_signal_xor_acq_rel_ordering_transitive ::
  "('h, 'w::len word, 's) hsa_rt \<Rightarrow> ('h, 'w word, 's) hsa_signal_wait \<Rightarrow> (nat \<Rightarrow> nat) \<Rightarrow> 's \<Rightarrow> (nat \<times> 's) option"
where
  "test_signal_xor_acq_rel_ordering_transitive rt wt sched s =
     transitive_test rt NUM_X LAST_BIT LAST_BIT LAST_BIT (\<lambda>x y z.
       three_tests (test_signal_xor_acq_rel_ordering_transitive_t1 rt x y) (test_signal_xor_acq_rel_ordering_transitive_t2 rt x z)
         (test_signal_xor_acq_rel_ordering_transitive_t3 rt wt y z) sched) s"

definition test_signal_xor_acquire_release_ordering_transitive_t1 :: "('h, 'w::len word, 's) hsa_rt \<Rightarrow> 'h list \<Rightarrow> 'h \<Rightarrow> 's access list" where
  "test_signal_xor_acquire_release_ordering_transitive_t1 rt x y =
     while_1
      (spin_or_return (hsa_signal_load rt Relaxed y) LAST_BIT (-1) #
       call (hsa_signal_xor rt Acquire y LAST_BIT) #
       loop_accesses NUM_X (\<lambda>ii.
         [expect (hsa_signal_load rt Relaxed (x ! ii)) LAST_BIT,
          call (hsa_signal_xor rt Relaxed (x ! ii) (FIRST_BIT OR LAST_BIT))]) @
       [call (hsa_signal_xor rt Release y FIRST_BIT)])"

definition test_signal_xor_acquire_release_ordering_transitive_t2 :: "('h, 'w::len word, 's) hsa_rt \<Rightarrow> 'h list \<Rightarrow> 'h \<Rightarrow> 's access list" where
  "test_signal_xor_acquire_release_ordering_transitive_t2 rt x z =
     while_1
      (spin_or_return (hsa_signal_load rt Relaxed z) FIRST_BIT (-1) #
       call (hsa_signal_xor rt Acquire z FIRST_BIT) #
       loop_accesses NUM_X (\<lambda>ii.
         [expect (hsa_signal_load rt Relaxed (x ! ii)) FIRST_BIT,
          call (hsa_signal_xor rt Relaxed (x ! ii) (LAST_BIT OR FIRST_BIT))]) @
       [call (hsa_signal_xor rt Release z LAST_BIT)])"

definition test_signal_xor_acquire_release_ordering_transitive_t3 :: "('h, 'w::len word, 's) hsa_rt \<Rightarrow> ('h, 'w word, 's) hsa_signal_wait \<Rightarrow> 'h \<Rightarrow> 'h \<Rightarrow> 's access list" where
  "test_signal_xor_acquire_release_ordering_transitive_t3 rt wt y z =
     loop_accesses NUM_ITER_MEM_ORD (\<lambda>ii.
       [await (wt Acquire y HSA_SIGNAL_CONDITION_EQ FIRST_BIT UINT64_MAX HSA_WAIT_STATE_BLOCKED),
        call (hsa_signal_xor rt Release z (FIRST_BIT OR LAST_BIT))] @
       [await (wt Acquire z HSA_SIGNAL_CONDITION_EQ LAST_BIT UINT64_MAX HSA_WAIT_STATE_BLOCKED),
        call (hsa_signal_xor rt Release y (LAST_BIT OR FIRST_BIT))]) @
     [spin (hsa_signal_load rt Relaxed y) FIRST_BIT,
      call (hsa_signal_store rt Release y (-1)),
      call (hsa_signal_store rt Release z (-1))]"

definition test_signal_xor_acquire_release_ordering_transitive ::
  "('h, 'w::len word, 's) hsa_rt \<Rightarrow> ('h, 'w word, 's) hsa_signal_wait \<Rightarrow> (nat \<Rightarrow> nat) \<Rightarrow> 's \<Rightarrow> (nat \<times> 's) option"
where
  "test_signal_xor_acquire_release_ordering_transitive rt wt sched s =
     transitive_test rt NUM_X LAST_BIT LAST_BIT LAST_BIT (\<lambda>x y z.
       three_tests (test_signal_xor_acquire_release_ordering_transitive_t1 rt x y) (test_signal_xor_acquire_release_ordering_transitive_t2 rt x z)
         (test_signal_xor_acquire_release_ordering_transitive_t3 rt wt y z) sched) s"

subsection \<open>All of them pass\<close>

context waiting_runtime
begin

lemma test_signal_add_acq_rel_ordering_transitive_passes:
  assumes "ups s < 2 ^ 31 - 1" "fair 3 sched" "machine_word TYPE('w)"
  shows "passes (test_signal_add_acq_rel_ordering_transitive rt hsa_signal_wait sched s) (\<lambda>(r, s'). r = 0 \<and> restored ups val s s')"
  unfolding test_signal_add_acq_rel_ordering_transitive_def three_tests_run test_signal_add_acq_rel_ordering_transitive_t1_def
    test_signal_add_acq_rel_ordering_transitive_t2_def test_signal_add_acq_rel_ordering_transitive_t3_def
  by (rule relay_test [where ?y2.0 = "2" and ?z1.0 = "2" and ?z2.0 = "1" and ?v2.0 = "1" and stop = "-1", OF assms(1,2)], rule HOL.refl,
    (rule relay_rules block_array [where v = "2" and v' = "1"] block_array [where v = "1" and v' = "2"] |
      simp add: word_values [OF assms(3)] players_def)+)

lemma test_signal_add_acquire_release_ordering_transitive_passes:
  assumes "ups s < 2 ^ 31 - 1" "fair 3 sched" "machine_word TYPE('w)"
  shows "passes (test_signal_add_acquire_release_ordering_transitive rt hsa_signal_wait sched s) (\<lambda>(r, s'). r = 0 \<and> restored ups val s s')"
  unfolding test_signal_add_acquire_release_ordering_transitive_def three_tests_run test_signal_add_acquire_release_ordering_transitive_t1_def
    test_signal_add_acquire_release_ordering_transitive_t2_def test_signal_add_acquire_release_ordering_transitive_t3_def
  by (rule relay_test [where ?y2.0 = "2" and ?z1.0 = "2" and ?z2.0 = "1" and ?v2.0 = "1" and stop = "-1", OF assms(1,2)], rule HOL.refl,
    (rule relay_rules block_array [where v = "2" and v' = "1"] block_array [where v = "1" and v' = "2"] |
      simp add: word_values [OF assms(3)] players_def)+)

lemma test_signal_and_acq_rel_ordering_transitive_passes:
  assumes "ups s < 2 ^ 31 - 1" "fair 3 sched" "machine_word TYPE('w)"
  shows "passes (test_signal_and_acq_rel_ordering_transitive rt hsa_signal_wait sched s) (\<lambda>(r, s'). r = 0 \<and> restored ups val s s')"
  unfolding test_signal_and_acq_rel_ordering_transitive_def three_tests_run test_signal_and_acq_rel_ordering_transitive_t1_def
    test_signal_and_acq_rel_ordering_transitive_t2_def test_signal_and_acq_rel_ordering_transitive_t3_def LAST_BIT_def ALL_BIT_def
  by (rule relay_test [where ?y2.0 = "FIRST_BIT" and ?z1.0 = "FIRST_BIT" and ?z2.0 = "1" and ?v2.0 = "FIRST_BIT" and stop = "-2", OF assms(1,2)], rule HOL.refl,
    (rule relay_rules block_array [where v = "1" and v' = "FIRST_BIT"] block_array [where v = "FIRST_BIT" and v' = "1"] |
      simp add: first_bit_values [OF assms(3)] word_values [OF assms(3)] players_def)+)

lemma test_signal_and_acquire_release_ordering_transitive_passes:
  assumes "ups s < 2 ^ 31 - 1" "fair 3 sched" "machine_word TYPE('w)"
  shows "passes (test_signal_and_acquire_release_ordering_transitive rt hsa_signal_wait sched s) (\<lambda>(r, s'). r = 0 \<and> restored ups val s s')"
  unfolding test_signal_and_acquire_release_ordering_transitive_def three_tests_run test_signal_and_acquire_release_ordering_transitive_t1_def
    test_signal_and_acquire_release_ordering_transitive_t2_def test_signal_and_acquire_release_ordering_transitive_t3_def LAST_BIT_def ALL_BIT_def
  by (rule relay_test [where ?y2.0 = "FIRST_BIT" and ?z1.0 = "FIRST_BIT" and ?z2.0 = "1" and ?v2.0 = "FIRST_BIT" and stop = "-2", OF assms(1,2)], rule HOL.refl,
    (rule relay_rules block_array [where v = "1" and v' = "FIRST_BIT"] block_array [where v = "FIRST_BIT" and v' = "1"] |
      simp add: first_bit_values [OF assms(3)] word_values [OF assms(3)] players_def)+)

lemma test_signal_cas_acq_rel_ordering_transitive_passes:
  assumes "ups s < 2 ^ 31 - 1" "fair 3 sched" "machine_word TYPE('w)"
  shows "passes (test_signal_cas_acq_rel_ordering_transitive rt hsa_signal_wait sched s) (\<lambda>(r, s'). r = 0 \<and> restored ups val s s')"
  unfolding test_signal_cas_acq_rel_ordering_transitive_def three_tests_run test_signal_cas_acq_rel_ordering_transitive_t1_def
    test_signal_cas_acq_rel_ordering_transitive_t2_def test_signal_cas_acq_rel_ordering_transitive_t3_def
  by (rule relay_test [where ?y2.0 = "2" and ?z1.0 = "2" and ?z2.0 = "1" and ?v2.0 = "1" and stop = "-1", OF assms(1,2)], rule HOL.refl,
    (rule relay_rules block_array [where v = "2" and v' = "1"] block_array [where v = "1" and v' = "2"] |
      simp add: word_values [OF assms(3)] players_def)+)

lemma test_signal_cas_acquire_release_ordering_transitive_passes:
  assumes "ups s < 2 ^ 31 - 1" "fair 3 sched" "machine_word TYPE('w)"
  shows "passes (test_signal_cas_acquire_release_ordering_transitive rt hsa_signal_wait sched s) (\<lambda>(r, s'). r = 0 \<and> restored ups val s s')"
  unfolding test_signal_cas_acquire_release_ordering_transitive_def three_tests_run test_signal_cas_acquire_release_ordering_transitive_t1_def
    test_signal_cas_acquire_release_ordering_transitive_t2_def test_signal_cas_acquire_release_ordering_transitive_t3_def
  by (rule relay_test [where ?y2.0 = "2" and ?z1.0 = "2" and ?z2.0 = "1" and ?v2.0 = "1" and stop = "-1", OF assms(1,2)], rule HOL.refl,
    (rule relay_rules block_array [where v = "2" and v' = "1"] block_array [where v = "1" and v' = "2"] |
      simp add: word_values [OF assms(3)] players_def)+)

lemma test_signal_exchange_acq_rel_ordering_transitive_passes:
  assumes "ups s < 2 ^ 31 - 1" "fair 3 sched" "machine_word TYPE('w)"
  shows "passes (test_signal_exchange_acq_rel_ordering_transitive rt hsa_signal_wait sched s) (\<lambda>(r, s'). r = 0 \<and> restored ups val s s')"
  unfolding test_signal_exchange_acq_rel_ordering_transitive_def three_tests_run test_signal_exchange_acq_rel_ordering_transitive_t1_def
    test_signal_exchange_acq_rel_ordering_transitive_t2_def test_signal_exchange_acq_rel_ordering_transitive_t3_def
  by (rule relay_test [where ?y2.0 = "2" and ?z1.0 = "2" and ?z2.0 = "1" and ?v2.0 = "1" and stop = "-1", OF assms(1,2)], rule HOL.refl,
    (rule relay_rules block_array [where v = "2" and v' = "1"] block_array [where v = "1" and v' = "2"] |
      simp add: word_values [OF assms(3)] players_def)+)

lemma test_signal_exchange_acquire_release_ordering_transitive_passes:
  assumes "ups s < 2 ^ 31 - 1" "fair 3 sched" "machine_word TYPE('w)"
  shows "passes (test_signal_exchange_acquire_release_ordering_transitive rt hsa_signal_wait sched s) (\<lambda>(r, s'). r = 0 \<and> restored ups val s s')"
  unfolding test_signal_exchange_acquire_release_ordering_transitive_def three_tests_run test_signal_exchange_acquire_release_ordering_transitive_t1_def
    test_signal_exchange_acquire_release_ordering_transitive_t2_def test_signal_exchange_acquire_release_ordering_transitive_t3_def
  by (rule relay_test [where ?y2.0 = "2" and ?z1.0 = "2" and ?z2.0 = "1" and ?v2.0 = "1" and stop = "-1", OF assms(1,2)], rule HOL.refl,
    (rule relay_rules block_array [where v = "2" and v' = "1"] block_array [where v = "1" and v' = "2"] |
      simp add: word_values [OF assms(3)] players_def)+)

lemma test_signal_or_acq_rel_ordering_transitive_passes:
  assumes "ups s < 2 ^ 31 - 1" "fair 3 sched" "machine_word TYPE('w)"
  shows "passes (test_signal_or_acq_rel_ordering_transitive rt hsa_signal_wait sched s) (\<lambda>(r, s'). r = 0 \<and> restored ups val s s')"
  unfolding test_signal_or_acq_rel_ordering_transitive_def three_tests_run test_signal_or_acq_rel_ordering_transitive_t1_def
    test_signal_or_acq_rel_ordering_transitive_t2_def test_signal_or_acq_rel_ordering_transitive_t3_def LAST_BIT_def ALL_BIT_def
  by (rule relay_test [where ?y2.0 = "FIRST_BIT" and ?z1.0 = "FIRST_BIT" and ?z2.0 = "1" and ?v2.0 = "FIRST_BIT" and stop = "-1", OF assms(1,2)], rule HOL.refl,
    (rule relay_rules block_array [where v = "1" and v' = "FIRST_BIT"] block_array [where v = "FIRST_BIT" and v' = "1"] |
      simp add: first_bit_values [OF assms(3)] word_values [OF assms(3)] players_def)+)

lemma test_signal_or_acquire_release_ordering_transitive_passes:
  assumes "ups s < 2 ^ 31 - 1" "fair 3 sched" "machine_word TYPE('w)"
  shows "passes (test_signal_or_acquire_release_ordering_transitive rt hsa_signal_wait sched s) (\<lambda>(r, s'). r = 0 \<and> restored ups val s s')"
  unfolding test_signal_or_acquire_release_ordering_transitive_def three_tests_run test_signal_or_acquire_release_ordering_transitive_t1_def
    test_signal_or_acquire_release_ordering_transitive_t2_def test_signal_or_acquire_release_ordering_transitive_t3_def LAST_BIT_def ALL_BIT_def
  by (rule relay_test [where ?y2.0 = "FIRST_BIT" and ?z1.0 = "FIRST_BIT" and ?z2.0 = "1" and ?v2.0 = "FIRST_BIT" and stop = "-1", OF assms(1,2)], rule HOL.refl,
    (rule relay_rules block_array [where v = "1" and v' = "FIRST_BIT"] block_array [where v = "FIRST_BIT" and v' = "1"] |
      simp add: first_bit_values [OF assms(3)] word_values [OF assms(3)] players_def)+)

lemma test_signal_store_release_load_acquire_ordering_transitive_passes:
  assumes "ups s < 2 ^ 31 - 1" "fair 3 sched" "machine_word TYPE('w)"
  shows "passes (test_signal_store_release_load_acquire_ordering_transitive rt hsa_signal_wait sched s) (\<lambda>(r, s'). r = 0 \<and> restored ups val s s')"
  unfolding test_signal_store_release_load_acquire_ordering_transitive_def three_tests_run test_signal_store_release_load_acquire_ordering_transitive_t1_def
    test_signal_store_release_load_acquire_ordering_transitive_t2_def test_signal_store_release_load_acquire_ordering_transitive_t3_def
  by (rule relay_test [where ?y2.0 = "1" and ?z1.0 = "1" and ?z2.0 = "0" and ?v2.0 = "1" and stop = "-1", OF assms(1,2)], rule HOL.refl,
    (rule relay_rules block_array [where v = "0" and v' = "1"] block_array [where v = "1" and v' = "0"] |
      simp add: word_values [OF assms(3)] players_def)+)

lemma test_signal_subtract_acq_rel_ordering_transitive_passes:
  assumes "ups s < 2 ^ 31 - 1" "fair 3 sched" "machine_word TYPE('w)"
  shows "passes (test_signal_subtract_acq_rel_ordering_transitive rt hsa_signal_wait sched s) (\<lambda>(r, s'). r = 0 \<and> restored ups val s s')"
  unfolding test_signal_subtract_acq_rel_ordering_transitive_def three_tests_run test_signal_subtract_acq_rel_ordering_transitive_t1_def
    test_signal_subtract_acq_rel_ordering_transitive_t2_def test_signal_subtract_acq_rel_ordering_transitive_t3_def
  by (rule relay_test [where ?y2.0 = "2" and ?z1.0 = "2" and ?z2.0 = "1" and ?v2.0 = "1" and stop = "-1", OF assms(1,2)], rule HOL.refl,
    (rule relay_rules block_array [where v = "2" and v' = "1"] block_array [where v = "1" and v' = "2"] |
      simp add: word_values [OF assms(3)] players_def)+)

lemma test_signal_subtract_acquire_release_ordering_transitive_passes:
  assumes "ups s < 2 ^ 31 - 1" "fair 3 sched" "machine_word TYPE('w)"
  shows "passes (test_signal_subtract_acquire_release_ordering_transitive rt hsa_signal_wait sched s) (\<lambda>(r, s'). r = 0 \<and> restored ups val s s')"
  unfolding test_signal_subtract_acquire_release_ordering_transitive_def three_tests_run test_signal_subtract_acquire_release_ordering_transitive_t1_def
    test_signal_subtract_acquire_release_ordering_transitive_t2_def test_signal_subtract_acquire_release_ordering_transitive_t3_def
  by (rule relay_test [where ?y2.0 = "2" and ?z1.0 = "2" and ?z2.0 = "1" and ?v2.0 = "1" and stop = "-1", OF assms(1,2)], rule HOL.refl,
    (rule relay_rules block_array [where v = "2" and v' = "1"] block_array [where v = "1" and v' = "2"] |
      simp add: word_values [OF assms(3)] players_def)+)

lemma test_signal_xor_acq_rel_ordering_transitive_passes:
  assumes "ups s < 2 ^ 31 - 1" "fair 3 sched" "machine_word TYPE('w)"
  shows "passes (test_signal_xor_acq_rel_ordering_transitive rt hsa_signal_wait sched s) (\<lambda>(r, s'). r = 0 \<and> restored ups val s s')"
  unfolding test_signal_xor_acq_rel_ordering_transitive_def three_tests_run test_signal_xor_acq_rel_ordering_transitive_t1_def
    test_signal_xor_acq_rel_ordering_transitive_t2_def test_signal_xor_acq_rel_ordering_transitive_t3_def LAST_BIT_def ALL_BIT_def
  by (rule relay_test [where ?y2.0 = "FIRST_BIT" and ?z1.0 = "FIRST_BIT" and ?z2.0 = "1" and ?v2.0 = "FIRST_BIT" and stop = "-1", OF assms(1,2)], rule HOL.refl,
    (rule relay_rules block_array [where v = "1" and v' = "FIRST_BIT"] block_array [where v = "FIRST_BIT" and v' = "1"] |
      simp add: first_bit_values [OF assms(3)] word_values [OF assms(3)] players_def)+)

lemma test_signal_xor_acquire_release_ordering_transitive_passes:
  assumes "ups s < 2 ^ 31 - 1" "fair 3 sched" "machine_word TYPE('w)"
  shows "passes (test_signal_xor_acquire_release_ordering_transitive rt hsa_signal_wait sched s) (\<lambda>(r, s'). r = 0 \<and> restored ups val s s')"
  unfolding test_signal_xor_acquire_release_ordering_transitive_def three_tests_run test_signal_xor_acquire_release_ordering_transitive_t1_def
    test_signal_xor_acquire_release_ordering_transitive_t2_def test_signal_xor_acquire_release_ordering_transitive_t3_def LAST_BIT_def ALL_BIT_def
  by (rule relay_test [where ?y2.0 = "FIRST_BIT" and ?z1.0 = "FIRST_BIT" and ?z2.0 = "1" and ?v2.0 = "FIRST_BIT" and stop = "-1", OF assms(1,2)], rule HOL.refl,
    (rule relay_rules block_array [where v = "1" and v' = "FIRST_BIT"] block_array [where v = "FIRST_BIT" and v' = "1"] |
      simp add: first_bit_values [OF assms(3)] word_values [OF assms(3)] players_def)+)

end

lemmas transitive_tests_pass_rules =
  waiting_runtime.test_signal_add_acq_rel_ordering_transitive_passes
  waiting_runtime.test_signal_add_acquire_release_ordering_transitive_passes
  waiting_runtime.test_signal_and_acq_rel_ordering_transitive_passes
  waiting_runtime.test_signal_and_acquire_release_ordering_transitive_passes
  waiting_runtime.test_signal_cas_acq_rel_ordering_transitive_passes
  waiting_runtime.test_signal_cas_acquire_release_ordering_transitive_passes
  waiting_runtime.test_signal_exchange_acq_rel_ordering_transitive_passes
  waiting_runtime.test_signal_exchange_acquire_release_ordering_transitive_passes
  waiting_runtime.test_signal_or_acq_rel_ordering_transitive_passes
  waiting_runtime.test_signal_or_acquire_release_ordering_transitive_passes
  waiting_runtime.test_signal_store_release_load_acquire_ordering_transitive_passes
  waiting_runtime.test_signal_subtract_acq_rel_ordering_transitive_passes
  waiting_runtime.test_signal_subtract_acquire_release_ordering_transitive_passes
  waiting_runtime.test_signal_xor_acq_rel_ordering_transitive_passes
  waiting_runtime.test_signal_xor_acquire_release_ordering_transitive_passes

text \<open>
  C16.  The fifteen transitive ordering tests return 0 and leave the runtime as it was, in both machine models and under every fair
  schedule of the three threads, on every conforming runtime whose waits do not return before their condition holds.
\<close>

theorem transitive_tests_pass:
  fixes rt :: "('h, 'w::len word, 's) hsa_rt"
  assumes "waiting_runtime rt ups val wt" "ups s < 2 ^ 31 - 1" "fair 3 sched" "machine_word TYPE('w)"
    and "tst \<in> {test_signal_add_acq_rel_ordering_transitive,
      test_signal_add_acquire_release_ordering_transitive,
      test_signal_and_acq_rel_ordering_transitive,
      test_signal_and_acquire_release_ordering_transitive,
      test_signal_cas_acq_rel_ordering_transitive,
      test_signal_cas_acquire_release_ordering_transitive,
      test_signal_exchange_acq_rel_ordering_transitive,
      test_signal_exchange_acquire_release_ordering_transitive,
      test_signal_or_acq_rel_ordering_transitive,
      test_signal_or_acquire_release_ordering_transitive,
      test_signal_store_release_load_acquire_ordering_transitive,
      test_signal_subtract_acq_rel_ordering_transitive,
      test_signal_subtract_acquire_release_ordering_transitive,
      test_signal_xor_acq_rel_ordering_transitive,
      test_signal_xor_acquire_release_ordering_transitive}"
  shows "passes (tst rt wt sched s) (\<lambda>(r, s'). r = 0 \<and> restored ups val s s')"
  using assms(5) by (elim insertE emptyE; hypsubst) (rule transitive_tests_pass_rules [OF assms(1-4)])+

theorem transitive_tests_pass_witness:
  "passes (test_signal_xor_acq_rel_ordering_transitive reference_rt reference_wait (\<lambda>k. k mod 3) (ref_start :: 64 word ref_state))
     (\<lambda>(r, s'). r = 0 \<and> restored ref_ups ref_val ref_start s')"
  by (rule transitive_tests_pass [where tst = test_signal_xor_acq_rel_ordering_transitive, OF reference_waiting.waiting_runtime_axioms])
    (simp_all add: ref_start_def fair_round_robin)

subsection \<open>Waits that return early\<close>








end
