(* ===== verification/Signal_Wait_Utils.thy ===== *)
theory Signal_Wait_Utils
  imports Spinning Signal_Waits
begin

text \<open>
  Waking threads that wait on a signal, one by one: \<open>core/signals/test_signal_wait_utils.c\<close>.  The memory of the threads is the array
  \<open>flag\<close>, the state of the runtime, and for each thread created by \<open>pthread_create\<close> whether it has finished, which is what
  \<open>pthread_join\<close> waits for.  The function that creates the threads is the first of the threads, and goes on when it has
  created the others.
\<close>

record 's wait_memory =
  flag :: "int list"
  finished :: "bool list"
  runtime :: 's

record ('h) wait_param =
  signal_handle :: 'h
  num :: "32 word"
  flag_index :: nat  \<comment> \<open>the pointer \<open>flag\<close> is \<open>&flag[flag_index]\<close>\<close>

definition on_runtime :: "('s \<Rightarrow> 's) \<Rightarrow> 's wait_memory \<Rightarrow> 's wait_memory" where
  "on_runtime f m = m\<lparr>runtime := f (runtime m)\<rparr>"

definition with_runtime :: "('s \<Rightarrow> 'v \<times> 's) \<Rightarrow> 's wait_memory \<Rightarrow> 'v \<times> 's wait_memory" where
  "with_runtime op m = (let (v, s) = op (runtime m) in (v, m\<lparr>runtime := s\<rparr>))"

definition set_flag :: "nat \<Rightarrow> 's wait_memory \<Rightarrow> 's wait_memory" where
  "set_flag i m = m\<lparr>flag := (flag m)[i := 1]\<rparr>"

definition finish :: "nat \<Rightarrow> 's wait_memory \<Rightarrow> 's wait_memory" where
  "finish i m = m\<lparr>finished := (finished m)[i := True]\<rparr>"

definition pthread_join :: "nat \<Rightarrow> 's wait_memory access" where
  "pthread_join i = spin (\<lambda>m. (finished m ! i, m)) True"

definition assert_flag :: "nat \<Rightarrow> int \<Rightarrow> 's wait_memory access" where
  "assert_flag i v = expect (\<lambda>m. (flag m ! i, m)) v"

subsection \<open>The threads\<close>

definition signal_wait_acquire_test ::
  "('h, 'w::len word, 's) hsa_signal_wait \<Rightarrow> 'h wait_param \<Rightarrow> 's wait_memory access list"
where
  "signal_wait_acquire_test wt arg =
     [await (with_runtime (wt Acquire (signal_handle arg) HSA_SIGNAL_CONDITION_EQ (scast (num arg)) UINT64_MAX HSA_WAIT_STATE_BLOCKED)),
      call (set_flag (flag_index arg)),
      call (finish (flag_index arg))]"

definition signal_wait_relaxed_test ::
  "('h, 'w::len word, 's) hsa_signal_wait \<Rightarrow> 'h wait_param \<Rightarrow> 's wait_memory access list"
where
  "signal_wait_relaxed_test wt arg =
     [await (with_runtime (wt Relaxed (signal_handle arg) HSA_SIGNAL_CONDITION_EQ (scast (num arg)) UINT64_MAX HSA_WAIT_STATE_BLOCKED)),
      call (set_flag (flag_index arg)),
      call (finish (flag_index arg))]"

text \<open>
  What the thread that wakes them does once it has created them; \<open>set_signal ii\<close> is the access that sets the signal
  for thread \<open>ii\<close>.
\<close>

definition wake_threads :: "nat \<Rightarrow> (nat \<Rightarrow> 's wait_memory access) \<Rightarrow> 's wait_memory access list" where
  "wake_threads num_threads set_signal =
     concat (map (\<lambda>ii.
       [set_signal ii, pthread_join ii] @
       map (\<lambda>jj. assert_flag jj (if jj \<le> ii then 1 else 0)) [0..<num_threads]) [0..<num_threads]) @
     map (\<lambda>ii. assert_flag ii 1) [0..<num_threads]"

text \<open>
  The three functions for operations with an expected value, with no result and with a result.
\<close>

definition signal_wait_test ::
  "('h, 'w::len word, 's) hsa_rt \<Rightarrow> (nat \<Rightarrow> nat) \<Rightarrow> ('h \<Rightarrow> nat \<Rightarrow> 's wait_memory access) \<Rightarrow>
     ('h wait_param \<Rightarrow> 's wait_memory access list) \<Rightarrow> 'w word \<Rightarrow> (nat \<Rightarrow> 'w word) \<Rightarrow> nat \<Rightarrow> 's \<Rightarrow> (nat \<times> 's) option"
where
  "signal_wait_test rt sched set_signal wait_test initial_value wakeup_val num_threads s = do {
     let (status, s) = hsa_init rt s;
     ASSERT (HSA_STATUS_SUCCESS = status);
     let (status, h, s) = hsa_signal_create rt initial_value 0 [] s;
     ASSERT (HSA_STATUS_SUCCESS = status);
     let arg = map (\<lambda>ii. \<lparr>signal_handle = h, num = ucast (wakeup_val ii), flag_index = ii\<rparr>) [0..<num_threads];
     m \<leftarrow> run_functions sched (wake_threads num_threads (set_signal h) # map wait_test arg)
       \<lparr>flag = replicate num_threads 0, finished = replicate num_threads False, runtime = s\<rparr>;
     let (status, s) = hsa_signal_destroy rt h (runtime m);
     ASSERT (HSA_STATUS_SUCCESS = status);
     let (status, s) = hsa_shut_down rt s;
     ASSERT (HSA_STATUS_SUCCESS = status);
     Some (0, s)
   }"

definition signal_wait_test_v1 ::
  "('h, 'w::len word, 's) hsa_rt \<Rightarrow> (nat \<Rightarrow> nat) \<Rightarrow> ('h \<Rightarrow> 'w word \<Rightarrow> 'w word \<Rightarrow> 's \<Rightarrow> 'w word \<times> 's) \<Rightarrow>
     ('h wait_param \<Rightarrow> 's wait_memory access list) \<Rightarrow> 'w word \<Rightarrow> (nat \<Rightarrow> 'w word) \<Rightarrow> (nat \<Rightarrow> 'w word) \<Rightarrow> (nat \<Rightarrow> 'w word) \<Rightarrow>
     nat \<Rightarrow> 's \<Rightarrow> (nat \<times> 's) option"
where
  "signal_wait_test_v1 rt sched signal_func wait_test initial_val wakeup_val expect_val set_val num_threads =
     signal_wait_test rt sched
       (\<lambda>h ii. expect (with_runtime (signal_func h (expect_val ii) (set_val ii))) (expect_val ii))
       wait_test initial_val wakeup_val num_threads"

definition signal_wait_test_v2 ::
  "('h, 'w::len word, 's) hsa_rt \<Rightarrow> (nat \<Rightarrow> nat) \<Rightarrow> ('h \<Rightarrow> 'w word \<Rightarrow> 's \<Rightarrow> 's) \<Rightarrow>
     ('h wait_param \<Rightarrow> 's wait_memory access list) \<Rightarrow> 'w word \<Rightarrow> (nat \<Rightarrow> 'w word) \<Rightarrow> (nat \<Rightarrow> 'w word) \<Rightarrow>
     nat \<Rightarrow> 's \<Rightarrow> (nat \<times> 's) option"
where
  "signal_wait_test_v2 rt sched signal_func wait_test initial_val wakeup_val set_val num_threads =
     signal_wait_test rt sched (\<lambda>h ii. call (on_runtime (signal_func h (set_val ii))))
       wait_test initial_val wakeup_val num_threads"

definition signal_wait_test_v3 ::
  "('h, 'w::len word, 's) hsa_rt \<Rightarrow> (nat \<Rightarrow> nat) \<Rightarrow> ('h \<Rightarrow> 'w word \<Rightarrow> 's \<Rightarrow> 'w word \<times> 's) \<Rightarrow>
     ('h wait_param \<Rightarrow> 's wait_memory access list) \<Rightarrow> 'w word \<Rightarrow> (nat \<Rightarrow> 'w word) \<Rightarrow> (nat \<Rightarrow> 'w word) \<Rightarrow> (nat \<Rightarrow> 'w word) \<Rightarrow>
     nat \<Rightarrow> 's \<Rightarrow> (nat \<times> 's) option"
where
  "signal_wait_test_v3 rt sched signal_func wait_test initial_val wakeup_val expect_val set_val num_threads =
     signal_wait_test rt sched
       (\<lambda>h ii. expect (with_runtime (signal_func h (set_val ii))) (expect_val ii))
       wait_test initial_val wakeup_val num_threads"

subsection \<open>The threads wake up one by one\<close>

lemma map_upt_update: "i < n \<Longrightarrow> (map f [0..<n])[i := x] = map (f(i := x)) [0..<n]"
  by (rule nth_equalityI) (auto simp: nth_list_update)

context waiting_runtime
begin

text \<open>
  \<open>stage u h c n ii p v\<close>: the threads before \<open>ii\<close> have finished, thread \<open>ii\<close> has made \<open>p\<close> of its three accesses, the
  others none; the signal \<open>h\<close> has the value \<open>v\<close>, and \<open>c\<close> gives the other signals.
\<close>

definition stage :: "nat \<Rightarrow> 'h \<Rightarrow> ('h \<Rightarrow> 'w word option) \<Rightarrow> nat \<Rightarrow> nat \<Rightarrow> nat \<Rightarrow> 'w word \<Rightarrow> 's wait_memory \<Rightarrow> bool" where
  "stage u h c n ii p v m \<longleftrightarrow> ups (runtime m) = u \<and> 0 < u \<and> val (runtime m) = c(h \<mapsto> v) \<and>
     flag m = map (\<lambda>j. if j < ii \<or> j = ii \<and> 2 \<le> p then 1 else 0) [0..<n] \<and>
     finished m = map (\<lambda>j. j < ii \<or> j = ii \<and> 3 \<le> p) [0..<n]"

lemma stage_next: "stage u h c n (Suc ii) 0 v = stage u h c n ii 3 v"
  by (rule ext) (auto simp: stage_def less_Suc_eq)

text \<open>The access that sets the signal.\<close>

definition sets :: "'s wait_memory access \<Rightarrow> 'h \<Rightarrow> 'w word \<Rightarrow> 'w word \<Rightarrow> bool" where
  "sets a h v v' \<longleftrightarrow> (\<forall>u c n ii p. effect a (stage u h c n ii p v) Next (stage u h c n ii p v'))"

lemma sets_call: "updates upd h f \<Longrightarrow> f v = v' \<Longrightarrow> sets (call (on_runtime upd)) h v v'"
  by (auto simp: sets_def call_def effect_access on_runtime_def stage_def updates_def)

lemma sets_expect:
  assumes "acts op h f" "e = v" "f v = v'"
  shows "sets (expect (with_runtime op) e) h v v'"
  unfolding sets_def expect_def effect_access
proof (intro allI impI)
  fix u c n ii p m assume m: "stage u h c n ii p v m"
  then have "0 < ups (runtime m)" "val (runtime m) h = Some v" by (auto simp: stage_def)
  then obtain s' where "op (runtime m) = (v, s')" "ups s' = ups (runtime m)" "val s' = (val (runtime m))(h \<mapsto> v')"
    using assms(1,3) unfolding acts_def by blast
  then show "\<exists>m'. (let (x, s) = with_runtime op m in if x = e then Some (Next, s) else None) = Some (Next, m') \<and>
      stage u h c n ii p v' m'"
    using m assms(2) by (simp add: with_runtime_def stage_def)
qed

text \<open>The accesses of the waiting threads, and those to the array of flags.\<close>

abbreviation look :: "memory_order \<Rightarrow> 'h \<Rightarrow> 'w word \<Rightarrow> 's wait_memory access" where
  "look r h v \<equiv> await (with_runtime (hsa_signal_wait r h HSA_SIGNAL_CONDITION_EQ v UINT64_MAX HSA_WAIT_STATE_BLOCKED))"

lemma effect_look:
  "v' = v \<Longrightarrow> effect (look r h v') (stage u h c n ii 0 v) Next (stage u h c n ii 1 v)"
  "v' \<noteq> v \<Longrightarrow> effect (look r h v') (stage u h c n ii p v) Again (stage u h c n ii p v)"
proof -
  have "effect (look r h v') (stage u h c n ii p v) (if v = v' then Next else Again) (stage u h c n ii p v)" for p
    unfolding await_def effect_access
  proof (intro allI impI)
    fix m assume m: "stage u h c n ii p v m"
    then have "0 < ups (runtime m)" "val (runtime m) h = Some v" by (auto simp: stage_def)
    then obtain s' where s': "hsa_signal_wait r h HSA_SIGNAL_CONDITION_EQ v' UINT64_MAX HSA_WAIT_STATE_BLOCKED (runtime m) =
        (if v = v' then Some v else None, s')" "ups s' = ups (runtime m)" "val s' = val (runtime m)"
      using one_look [of "runtime m" h v r HSA_SIGNAL_CONDITION_EQ v' HSA_WAIT_STATE_BLOCKED] by auto
    then show "\<exists>m'. (let (result, s) = with_runtime (hsa_signal_wait r h HSA_SIGNAL_CONDITION_EQ v' UINT64_MAX HSA_WAIT_STATE_BLOCKED) m in
        Some (case result of None \<Rightarrow> Again | Some _ \<Rightarrow> Next, s)) = Some (if v = v' then Next else Again, m') \<and> stage u h c n ii p v m'"
      using m by (simp add: with_runtime_def stage_def)
  qed
  moreover have "stage u h c n ii 1 v = stage u h c n ii 0 v" by (simp add: stage_def fun_eq_iff)
  ultimately show "v' = v \<Longrightarrow> effect (look r h v') (stage u h c n ii 0 v) Next (stage u h c n ii 1 v)"
    "v' \<noteq> v \<Longrightarrow> effect (look r h v') (stage u h c n ii p v) Again (stage u h c n ii p v)"
    by presburger+
qed

lemma effect_set_flag: "ii < n \<Longrightarrow> effect (call (set_flag ii)) (stage u h c n ii 1 v) Next (stage u h c n ii 2 v)"
  by (auto simp: call_def effect_access set_flag_def stage_def map_upt_update)

lemma effect_finish: "ii < n \<Longrightarrow> effect (call (finish ii)) (stage u h c n ii 2 v) Next (stage u h c n ii 3 v)"
  by (auto simp: call_def effect_access finish_def stage_def map_upt_update)

lemma effect_join:
  "ii < n \<Longrightarrow> effect (pthread_join ii) (stage u h c n ii 3 v) Next (stage u h c n ii 3 v)"
  "ii < n \<Longrightarrow> p < 3 \<Longrightarrow> effect (pthread_join ii) (stage u h c n ii p v) Again (stage u h c n ii p v)"
  by (auto simp: pthread_join_def spin_def effect_access stage_def)

lemma effect_assert_flag:
  "jj < n \<Longrightarrow> effect (assert_flag jj (if jj < ii then 1 else 0)) (stage u h c n ii 0 v) Next (stage u h c n ii 0 v)"
  by (auto simp: assert_flag_def expect_def effect_access stage_def)

text \<open>\<open>V ii\<close> is the value before thread \<open>ii\<close> is woken, and \<open>V (Suc ii)\<close> the one it waits for.\<close>

definition waiter :: "memory_order \<Rightarrow> 'h \<Rightarrow> (nat \<Rightarrow> 'w word) \<Rightarrow> nat \<Rightarrow> 's wait_memory access list" where
  "waiter r h V jj = [look r h (V (Suc jj)), call (set_flag jj), call (finish jj)]"

definition waiters :: "memory_order \<Rightarrow> 'h \<Rightarrow> (nat \<Rightarrow> 'w word) \<Rightarrow> nat \<Rightarrow> nat \<Rightarrow> nat \<Rightarrow> 's wait_memory access list list" where
  "waiters r h V n ii p =
     map (\<lambda>j. if j < ii then [] else if j = ii then drop p (waiter r h V j) else waiter r h V j) [0..<n]"

lemma length_waiters [simp]: "length (waiters r h V n ii p) = n"
  by (simp add: waiters_def)

lemma waiters_next: "waiters r h V n (Suc ii) 0 = waiters r h V n ii 3"
  by (auto simp: waiters_def waiter_def)

lemma waiters_step: "ii < n \<Longrightarrow> (waiters r h V n ii p)[ii := drop (Suc p) (waiter r h V ii)] = waiters r h V n ii (Suc p)"
  by (auto simp: waiters_def map_upt_update)

lemma waiters_wait:
  assumes "jj < n" "ii < jj \<or> jj < ii \<or> 3 \<le> p" "\<And>jj. ii < jj \<Longrightarrow> jj < n \<Longrightarrow> V (Suc jj) \<noteq> v"
  shows "waits (stage u h c n ii p v) (waiters r h V n ii p ! jj)"
  using assms effect_look(2) by (auto simp: waiters_def waiter_def waits_def)

lemma thread_step_effect:
  assumes "ii < n" "p < 3" "0 < p \<or> V (Suc ii) = v"
  obtains a where "waiters r h V n ii p ! ii = a # drop (Suc p) (waiter r h V ii)"
    "effect a (stage u h c n ii p v) Next (stage u h c n ii (Suc p) v)"
proof -
  consider "p = 0" | "p = 1" | "p = 2" using assms(2) by linarith
  then show ?thesis
  proof cases
    case 1
    then show ?thesis using that effect_look(1) assms by (auto simp: waiters_def waiter_def)
  next
    case 2
    then show ?thesis using that effect_set_flag assms by (auto simp: waiters_def waiter_def numeral_2_eq_2)
  next
    case 3
    then show ?thesis using that effect_finish assms by (auto simp: waiters_def waiter_def numeral_2_eq_2 numeral_3_eq_3)
  qed
qed

text \<open>First what follows when the signal has been set for thread \<open>ii\<close>, then what follows before.\<close>

lemma leads_join:
  assumes n: "ii < n" "length fs = Suc n" and "p \<le> 3"
    and later: "\<And>jj. ii < jj \<Longrightarrow> jj < n \<Longrightarrow> V (Suc jj) \<noteq> V (Suc ii)"
    and goal: "leads fs R (at (M # waiters r h V n (Suc ii) 0) (stage u h c n (Suc ii) 0 (V (Suc ii))))"
  shows "leads fs R (at ((pthread_join ii # M) # waiters r h V n ii p) (stage u h c n ii p (V (Suc ii))))"
  using \<open>p \<le> 3\<close>
proof (induction p rule: inc_induct)
  case base
  show ?case
    by (rule leads_first [OF _ effect_join(1) [OF n(1)]]) (use n goal waiters_wait later in \<open>simp_all add: waiters_next stage_next\<close>)
next
  case (step p)
  then obtain a where a: "waiters r h V n ii p ! ii = a # drop (Suc p) (waiter r h V ii)"
    "effect a (stage u h c n ii p (V (Suc ii))) Next (stage u h c n ii (Suc p) (V (Suc ii)))"
    using thread_step_effect [OF n(1)] by blast
  have main: "waits (stage u h c n ii p (V (Suc ii))) (pthread_join ii # M)"
    using effect_join(2) [OF n(1)] step by (simp add: waits_def)
  show ?case
    by (rule leads_other [OF _ _ a main]) (use n later step in \<open>auto intro!: waiters_wait simp: waiters_step\<close>)
qed

lemma leads_set:
  assumes n: "ii < n" "length fs = Suc n" and "p \<le> 3" and sets: "sets a h (V ii) (V (Suc ii))"
    and later: "\<And>jj. ii < jj \<Longrightarrow> jj < n \<Longrightarrow> V (Suc jj) \<noteq> V ii" "\<And>jj. ii < jj \<Longrightarrow> jj < n \<Longrightarrow> V (Suc jj) \<noteq> V (Suc ii)"
    and goal: "leads fs R (at (M # waiters r h V n (Suc ii) 0) (stage u h c n (Suc ii) 0 (V (Suc ii))))"
  shows "leads fs R (at ((a # pthread_join ii # M) # waiters r h V n ii p) (stage u h c n ii p (V ii)))"
proof -
  have main: "effect a (stage u h c n ii p (V ii)) Next (stage u h c n ii p (V (Suc ii)))" for p
    using sets by (simp add: sets_def)
  note joined = leads_join [OF n _ later(2) goal]
  show ?thesis using \<open>p \<le> 3\<close>
  proof (induction p rule: inc_induct)
    case base
    show ?case
      by (rule leads_first [OF _ main]) (use n joined waiters_wait later(1) in auto)
  next
    case (step p)
    show ?case
    proof (rule leads_first_or [OF _ main])
      fix j assume "j < length (waiters r h V n ii p)"
      then have j: "j < n" by simp
      show "waits (stage u h c n ii p (V ii)) (waiters r h V n ii p ! j) \<or> (\<exists>b bs I''. waiters r h V n ii p ! j = b # bs \<and>
          effect b (stage u h c n ii p (V ii)) Next I'' \<and> leads fs R (at ((a # pthread_join ii # M) # (waiters r h V n ii p)[j := bs]) I''))"
      proof (cases "j = ii \<and> (0 < p \<or> V (Suc ii) = V ii)")
        case True
        then show ?thesis using thread_step_effect [OF n(1)] step.hyps step.IH waiters_step [OF n(1)] by metis
      next
        case False
        have "waits (stage u h c n ii p (V ii)) (waiters r h V n ii p ! j)"
        proof (cases "j = ii")
          case True
          then show ?thesis using False j by (simp add: waiters_def waiter_def waits_def effect_look(2))
        next
          case False
          show ?thesis by (rule waiters_wait [OF j]) (use False later(1) in auto)
        qed
        then show ?thesis ..
      qed
    qed (use n joined step in auto)
  qed
qed

lemma wake_one_by_one:
  assumes sets: "\<And>ii. ii < n \<Longrightarrow> sets (set_signal ii) h (V ii) (V (Suc ii))"
    and differ: "\<And>i j. i < j \<Longrightarrow> 1 < j \<Longrightarrow> j \<le> n \<Longrightarrow> V j \<noteq> V i"
    and fs: "length fs = Suc n" and "ii \<le> n"
  shows "leads fs (all_end (stage u h c n n 0 (V n)))
    (at ((concat (map (\<lambda>ii. [set_signal ii, pthread_join ii] @ map (\<lambda>jj. assert_flag jj (if jj \<le> ii then 1 else 0)) [0..<n]) [ii..<n]) @
        map (\<lambda>ii. assert_flag ii 1) [0..<n]) # waiters r h V n ii 0) (stage u h c n ii 0 (V ii)))"
  using \<open>ii \<le> n\<close>
proof (induction ii rule: inc_induct)
  case base
  have none: "waiters r h V n n 0 = replicate n []"
    by (rule nth_equalityI) (simp_all add: waiters_def)
  have "leads fs (all_end (stage u h c n n 0 (V n))) (at (map (\<lambda>ii. assert_flag ii 1) [0..<n] # replicate n []) (stage u h c n n 0 (V n)))"
  proof (rule leads_block [OF block_same, where i = 0 and W = "{}"])
    show "effect a (stage u h c n n 0 (V n)) Next (stage u h c n n 0 (V n))" if "a \<in> set (map (\<lambda>ii. assert_flag ii 1) [0..<n])" for a
      using that effect_assert_flag [of _ n n] by auto
    show "leads fs (all_end (stage u h c n n 0 (V n)))
        (at ((map (\<lambda>ii. assert_flag ii 1) [0..<n] # replicate n [])[0 := []]) (stage u h c n n 0 (V n)))"
      by (rule leads.there) (auto simp: all_end_def at_def ended_def)
  qed (use fs in \<open>auto simp: nth_Cons split: nat.split\<close>)
  then show ?case by (simp add: none)
next
  case (step ii)
  let ?checks = "map (\<lambda>jj. assert_flag jj (if jj \<le> ii then 1 else 0)) [0..<n]" and ?I = "stage u h c n (Suc ii) 0 (V (Suc ii))"
  let ?main = "\<lambda>ii. concat (map (\<lambda>ii. [set_signal ii, pthread_join ii] @
      map (\<lambda>jj. assert_flag jj (if jj \<le> ii then 1 else 0)) [0..<n]) [ii..<n]) @ map (\<lambda>ii. assert_flag ii 1) [0..<n]"
  let ?W = "{look r h (V (Suc jj)) | jj. ii < jj \<and> jj < n}"
  have "leads fs (all_end (stage u h c n n 0 (V n))) (at ((?checks @ ?main (Suc ii)) # waiters r h V n (Suc ii) 0) ?I)"
  proof (rule leads_block [OF block_same, where i = 0 and W = ?W])
    show "effect a ?I Next ?I" if "a \<in> set ?checks" for a
      using that effect_assert_flag [of _ n "Suc ii"] by (auto simp: less_Suc_eq_le)
    show "effect b ?I Again ?I" if "b \<in> ?W" for b
      using that differ effect_look(2) by fastforce
    show "leads fs (all_end (stage u h c n n 0 (V n)))
        (at (((?checks @ ?main (Suc ii)) # waiters r h V n (Suc ii) 0)[0 := ?main (Suc ii)]) ?I)"
      using step.IH by simp
    fix j assume "j < length ((?checks @ ?main (Suc ii)) # waiters r h V n (Suc ii) 0)" "j \<noteq> 0"
    then obtain j' where "j = Suc j'" "j' < n" by (cases j) auto
    then show "((?checks @ ?main (Suc ii)) # waiters r h V n (Suc ii) 0) ! j = [] \<or>
        hd (((?checks @ ?main (Suc ii)) # waiters r h V n (Suc ii) 0) ! j) \<in> ?W"
      by (auto simp: waiters_def waiter_def)
  qed (use fs in simp_all)
  then have "leads fs (all_end (stage u h c n n 0 (V n)))
      (at ((set_signal ii # pthread_join ii # ?checks @ ?main (Suc ii)) # waiters r h V n ii 0) (stage u h c n ii 0 (V ii)))"
    by (intro leads_set sets step.hyps fs) (use differ step.hyps in auto)
  then show ?case using step.hyps by (simp add: upt_conv_Cons)
qed

lemma threads_pass:
  assumes wait_test: "\<And>arg. wait_test arg =
      [look r (signal_handle arg) (scast (num arg)), call (set_flag (flag_index arg)), call (finish (flag_index arg))]"
    and sets: "\<And>ii. ii < n \<Longrightarrow> sets (set_signal ii) h (V ii) (V (Suc ii))"
    and wakeup: "\<And>ii. ii < n \<Longrightarrow> scast (ucast (wakeup_val ii) :: 32 word) = V (Suc ii)"
    and differ: "\<And>i j. i < j \<Longrightarrow> 1 < j \<Longrightarrow> j \<le> n \<Longrightarrow> V j \<noteq> V i"
    and "fair (Suc n) sched" "ups s = u" "0 < u" "val s = c(h \<mapsto> V 0)"
  shows "passes (run_functions sched
      (wake_threads n set_signal # map wait_test (map (\<lambda>ii. \<lparr>signal_handle = h, num = ucast (wakeup_val ii), flag_index = ii\<rparr>) [0..<n]))
      \<lparr>flag = replicate n 0, finished = replicate n False, runtime = s\<rparr>) (stage u h c n n 0 (V n))"
proof -
  let ?fs = "wake_threads n set_signal # waiters r h V n 0 0" and ?m = "\<lparr>flag = replicate n 0, finished = replicate n False, runtime = s\<rparr>"
  have fs: "map wait_test (map (\<lambda>ii. \<lparr>signal_handle = h, num = ucast (wakeup_val ii), flag_index = ii\<rparr>) [0..<n]) = waiters r h V n 0 0"
    by (rule nth_equalityI) (auto simp: waiters_def waiter_def wait_test wakeup)
  have "replicate n 0 = map (\<lambda>j. if j < 0 \<or> j = 0 \<and> 2 \<le> (0 :: nat) then 1 else 0 :: int) [0..<n]"
    "replicate n False = map (\<lambda>j. j < 0 \<or> j = 0 \<and> 3 \<le> (0 :: nat)) [0..<n]"
    by (rule nth_equalityI; simp)+
  then have "at ?fs (stage u h c n 0 0 (V 0)) (?fs, Some (Next, ?m))"
    using assms(6-8) by (simp add: at_def stage_def)
  moreover have "leads ?fs (all_end (stage u h c n n 0 (V n))) (at ?fs (stage u h c n 0 0 (V 0)))"
    using wake_one_by_one [where V = V and set_signal = set_signal and h = h and ii = 0 and fs = ?fs, OF sets differ] by (simp add: wake_threads_def)
  moreover have "fair (length ?fs) sched" using assms(5) by simp
  ultimately show ?thesis
    unfolding fs run_functions_def by (blast intro: leads_run)
qed

lemma signal_wait_test_passes:
  assumes up: "ups s < 2 ^ 31 - 1" and fair: "fair (Suc n) sched"
    and wait_test: "\<And>arg. wait_test arg =
      [look r (signal_handle arg) (scast (num arg)), call (set_flag (flag_index arg)), call (finish (flag_index arg))]"
    and sets: "\<And>h ii. ii < n \<Longrightarrow> sets (set_signal h ii) h (V ii) (V (Suc ii))"
    and wakeup: "\<And>ii. ii < n \<Longrightarrow> scast (ucast (wakeup_val ii) :: 32 word) = V (Suc ii)"
    and differ: "\<And>i j. i < j \<Longrightarrow> 1 < j \<Longrightarrow> j \<le> n \<Longrightarrow> V j \<noteq> V i"
  shows "passes (signal_wait_test rt sched set_signal wait_test (V 0) wakeup_val n s) (\<lambda>(r, s'). r = 0 \<and> restored ups val s s')"
proof -
  note threads = threads_pass [where V = V, OF wait_test sets wakeup differ fair, THEN wp_seq]
  have destroyed: "passes (let (status, s) = hsa_signal_destroy rt h (runtime m) in do {
      ASSERT (HSA_STATUS_SUCCESS = status);
      let (status, s) = hsa_shut_down rt s;
      ASSERT (HSA_STATUS_SUCCESS = status);
      Some (0, s)
    }) (\<lambda>(r, s'). r = (0 :: nat) \<and> restored ups val s s')"
    if "stage (Suc (ups s)) h (val s1) n n 0 (V n) m" "0 < ups s \<Longrightarrow> val s1 = val s" "val s1 h = None" for h s1 m
  proof -
    have m: "ups (runtime m) = Suc (ups s)" "val (runtime m) = (val s1)(h \<mapsto> V n)" using that(1) by (simp_all add: stage_def)
    then have "0 < ups (runtime m)" "val (runtime m) h = Some (V n)" by simp_all
    then show ?thesis
      by - (rule wp wp_destroy wp_shut_down | (use m that(2,3) in \<open>simp add: restored_def fun_upd_idem; fail\<close>))+
  qed
  show ?thesis
    unfolding signal_wait_test_def Let_def [of "map (\<lambda>ii. \<lparr>signal_handle = h, num = ucast (wakeup_val ii), flag_index = ii\<rparr>) [0..<n]" for h]
    by - (rule wp wp_init [OF up] wp_create threads destroyed | (simp; fail) | blast)+
qed

text \<open>The same for the three functions, and for a test that calls one of them four times.\<close>

lemma wait_test_forms:
  "signal_wait_acquire_test hsa_signal_wait arg =
    [look Acquire (signal_handle arg) (scast (num arg)), call (set_flag (flag_index arg)), call (finish (flag_index arg))]"
  "signal_wait_relaxed_test hsa_signal_wait arg =
    [look Relaxed (signal_handle arg) (scast (num arg)), call (set_flag (flag_index arg)), call (finish (flag_index arg))]"
  by (simp_all add: signal_wait_acquire_test_def signal_wait_relaxed_test_def)

lemma wp_four_tests:
  assumes "ups s < 2 ^ 31 - 1"
    and "\<And>s. ups s < 2 ^ 31 - 1 \<Longrightarrow> passes (f1 s) (\<lambda>(r, s'). r = 0 \<and> restored ups val s s')"
    and "\<And>s. ups s < 2 ^ 31 - 1 \<Longrightarrow> passes (f2 s) (\<lambda>(r, s'). r = 0 \<and> restored ups val s s')"
    and "\<And>s. ups s < 2 ^ 31 - 1 \<Longrightarrow> passes (f3 s) (\<lambda>(r, s'). r = 0 \<and> restored ups val s s')"
    and "\<And>s. ups s < 2 ^ 31 - 1 \<Longrightarrow> passes (f4 s) (\<lambda>(r, s'). r = 0 \<and> restored ups val s s')"
  shows "passes (do { (_, s) \<leftarrow> f1 s; (_, s) \<leftarrow> f2 s; (_, s) \<leftarrow> f3 s; (_, s) \<leftarrow> f4 s; Some (0, s) })
    (\<lambda>(r, s'). r = 0 \<and> restored ups val s s')"
proof -
  obtain r1 s1 where 1: "f1 s = Some (r1, s1)" "restored ups val s s1" using assms(1,2) by (fastforce simp: passes_def)
  then have "ups s1 < 2 ^ 31 - 1" using assms(1) by (simp add: restored_def)
  then obtain r2 s2 where 2: "f2 s1 = Some (r2, s2)" "restored ups val s1 s2" using assms(3) by (fastforce simp: passes_def)
  then have "ups s2 < 2 ^ 31 - 1" using assms(1) 1 by (simp add: restored_def)
  then obtain r3 s3 where 3: "f3 s2 = Some (r3, s3)" "restored ups val s2 s3" using assms(4) by (fastforce simp: passes_def)
  then have "ups s3 < 2 ^ 31 - 1" using assms(1) 1 2 by (simp add: restored_def)
  then obtain r4 s4 where 4: "f4 s3 = Some (r4, s4)" "restored ups val s3 s4" using assms(5) by (fastforce simp: passes_def)
  from 1 2 3 4 show ?thesis by (simp add: restored_def)
qed

end

end
