(* ===== verification/Signal_Wait_Tests.thy ===== *)
theory Signal_Wait_Tests
  imports Signal_Wait_Utils
begin

text \<open>
  The tests \<open>core/signals/test_signal_wait_{add,and,cas,exchange,or,subtract,xor}.c\<close>: in each the operation, in its four memory
  orders, wakes \<open>NUM_THREADS\<close> threads one by one.  \<open>sched i\<close> is the schedule of the threads in the call \<open>i\<close>.
  An \<open>int\<close> is a word of 32 bits; its conversion to \<open>hsa_signal_value_t\<close> keeps the sign.  The shift \<open>1 << 31\<close> of
  an \<open>int\<close>, which the C standard leaves undefined, is the one that compilers give: the sign bit.
\<close>

definition NUM_THREADS :: nat where "NUM_THREADS = 32"

definition int_shift :: "nat \<Rightarrow> 'w::len word" where
  "int_shift ii = scast (push_bit ii (1 :: 32 word))"

subsection \<open>\<open>test_signal_wait_add.c\<close>\<close>

definition add_initial_val :: "'w::len word" where "add_initial_val = 0"

definition add_wakeup_val :: "nat \<Rightarrow> 'w::len word" where
  "add_wakeup_val indx = of_nat indx + 1"

definition add_set_val :: "nat \<Rightarrow> 'w::len word" where "add_set_val indx = 1"

definition test_signal_wait_acquire_add ::
  "('h, 'w::len word, 's) hsa_rt \<Rightarrow> ('h, 'w word, 's) hsa_signal_wait \<Rightarrow> (nat \<Rightarrow> nat \<Rightarrow> nat) \<Rightarrow> 's \<Rightarrow> (nat \<times> 's) option"
where
  "test_signal_wait_acquire_add rt wt sched s = do {
     (_, s) \<leftarrow> signal_wait_test_v2 rt (sched 0) (hsa_signal_add rt Acquire) (signal_wait_acquire_test wt)
       add_initial_val add_wakeup_val add_set_val NUM_THREADS s;
     (_, s) \<leftarrow> signal_wait_test_v2 rt (sched 1) (hsa_signal_add rt Release) (signal_wait_acquire_test wt)
       add_initial_val add_wakeup_val add_set_val NUM_THREADS s;
     (_, s) \<leftarrow> signal_wait_test_v2 rt (sched 2) (hsa_signal_add rt Relaxed) (signal_wait_acquire_test wt)
       add_initial_val add_wakeup_val add_set_val NUM_THREADS s;
     (_, s) \<leftarrow> signal_wait_test_v2 rt (sched 3) (hsa_signal_add rt Acq_rel) (signal_wait_acquire_test wt)
       add_initial_val add_wakeup_val add_set_val NUM_THREADS s;
     Some (0, s)
   }"

definition test_signal_wait_relaxed_add ::
  "('h, 'w::len word, 's) hsa_rt \<Rightarrow> ('h, 'w word, 's) hsa_signal_wait \<Rightarrow> (nat \<Rightarrow> nat \<Rightarrow> nat) \<Rightarrow> 's \<Rightarrow> (nat \<times> 's) option"
where
  "test_signal_wait_relaxed_add rt wt sched s = do {
     (_, s) \<leftarrow> signal_wait_test_v2 rt (sched 0) (hsa_signal_add rt Acquire) (signal_wait_relaxed_test wt)
       add_initial_val add_wakeup_val add_set_val NUM_THREADS s;
     (_, s) \<leftarrow> signal_wait_test_v2 rt (sched 1) (hsa_signal_add rt Release) (signal_wait_relaxed_test wt)
       add_initial_val add_wakeup_val add_set_val NUM_THREADS s;
     (_, s) \<leftarrow> signal_wait_test_v2 rt (sched 2) (hsa_signal_add rt Relaxed) (signal_wait_relaxed_test wt)
       add_initial_val add_wakeup_val add_set_val NUM_THREADS s;
     (_, s) \<leftarrow> signal_wait_test_v2 rt (sched 3) (hsa_signal_add rt Acq_rel) (signal_wait_relaxed_test wt)
       add_initial_val add_wakeup_val add_set_val NUM_THREADS s;
     Some (0, s)
   }"

subsection \<open>\<open>test_signal_wait_and.c\<close>\<close>

definition and_initial_val :: "'w::len word" where "and_initial_val = ucast (-1 :: 64 word)"

definition and_wakeup_val :: "nat \<Rightarrow> 'w::len word" where
  "and_wakeup_val indx = ucast (push_bit indx (-1 :: 64 word))"

definition and_set_val :: "nat \<Rightarrow> 'w::len word" where
  "and_set_val indx = ucast (push_bit indx (-1 :: 64 word))"

definition test_signal_wait_acquire_and ::
  "('h, 'w::len word, 's) hsa_rt \<Rightarrow> ('h, 'w word, 's) hsa_signal_wait \<Rightarrow> (nat \<Rightarrow> nat \<Rightarrow> nat) \<Rightarrow> 's \<Rightarrow> (nat \<times> 's) option"
where
  "test_signal_wait_acquire_and rt wt sched s = do {
     (_, s) \<leftarrow> signal_wait_test_v2 rt (sched 0) (hsa_signal_and rt Acquire) (signal_wait_acquire_test wt)
       and_initial_val and_wakeup_val and_set_val NUM_THREADS s;
     (_, s) \<leftarrow> signal_wait_test_v2 rt (sched 1) (hsa_signal_and rt Release) (signal_wait_acquire_test wt)
       and_initial_val and_wakeup_val and_set_val NUM_THREADS s;
     (_, s) \<leftarrow> signal_wait_test_v2 rt (sched 2) (hsa_signal_and rt Relaxed) (signal_wait_acquire_test wt)
       and_initial_val and_wakeup_val and_set_val NUM_THREADS s;
     (_, s) \<leftarrow> signal_wait_test_v2 rt (sched 3) (hsa_signal_and rt Acq_rel) (signal_wait_acquire_test wt)
       and_initial_val and_wakeup_val and_set_val NUM_THREADS s;
     Some (0, s)
   }"

definition test_signal_wait_relaxed_and ::
  "('h, 'w::len word, 's) hsa_rt \<Rightarrow> ('h, 'w word, 's) hsa_signal_wait \<Rightarrow> (nat \<Rightarrow> nat \<Rightarrow> nat) \<Rightarrow> 's \<Rightarrow> (nat \<times> 's) option"
where
  "test_signal_wait_relaxed_and rt wt sched s = do {
     (_, s) \<leftarrow> signal_wait_test_v2 rt (sched 0) (hsa_signal_and rt Acquire) (signal_wait_relaxed_test wt)
       and_initial_val and_wakeup_val and_set_val NUM_THREADS s;
     (_, s) \<leftarrow> signal_wait_test_v2 rt (sched 1) (hsa_signal_and rt Release) (signal_wait_relaxed_test wt)
       and_initial_val and_wakeup_val and_set_val NUM_THREADS s;
     (_, s) \<leftarrow> signal_wait_test_v2 rt (sched 2) (hsa_signal_and rt Relaxed) (signal_wait_relaxed_test wt)
       and_initial_val and_wakeup_val and_set_val NUM_THREADS s;
     (_, s) \<leftarrow> signal_wait_test_v2 rt (sched 3) (hsa_signal_and rt Acq_rel) (signal_wait_relaxed_test wt)
       and_initial_val and_wakeup_val and_set_val NUM_THREADS s;
     Some (0, s)
   }"

subsection \<open>\<open>test_signal_wait_cas.c\<close>\<close>

definition cas_initial_val :: "'w::len word" where "cas_initial_val = 0"

definition cas_wakeup_val :: "nat \<Rightarrow> 'w::len word" where
  "cas_wakeup_val indx = of_nat indx + 1"

definition cas_expect_val :: "nat \<Rightarrow> 'w::len word" where
  "cas_expect_val indx = of_nat indx"

definition cas_set_val :: "nat \<Rightarrow> 'w::len word" where
  "cas_set_val indx = of_nat indx + 1"

definition test_signal_wait_acquire_cas ::
  "('h, 'w::len word, 's) hsa_rt \<Rightarrow> ('h, 'w word, 's) hsa_signal_wait \<Rightarrow> (nat \<Rightarrow> nat \<Rightarrow> nat) \<Rightarrow> 's \<Rightarrow> (nat \<times> 's) option"
where
  "test_signal_wait_acquire_cas rt wt sched s = do {
     (_, s) \<leftarrow> signal_wait_test_v1 rt (sched 0) (hsa_signal_cas rt Acquire) (signal_wait_acquire_test wt)
       cas_initial_val cas_wakeup_val cas_expect_val cas_set_val NUM_THREADS s;
     (_, s) \<leftarrow> signal_wait_test_v1 rt (sched 1) (hsa_signal_cas rt Release) (signal_wait_acquire_test wt)
       cas_initial_val cas_wakeup_val cas_expect_val cas_set_val NUM_THREADS s;
     (_, s) \<leftarrow> signal_wait_test_v1 rt (sched 2) (hsa_signal_cas rt Relaxed) (signal_wait_acquire_test wt)
       cas_initial_val cas_wakeup_val cas_expect_val cas_set_val NUM_THREADS s;
     (_, s) \<leftarrow> signal_wait_test_v1 rt (sched 3) (hsa_signal_cas rt Acq_rel) (signal_wait_acquire_test wt)
       cas_initial_val cas_wakeup_val cas_expect_val cas_set_val NUM_THREADS s;
     Some (0, s)
   }"

definition test_signal_wait_relaxed_cas ::
  "('h, 'w::len word, 's) hsa_rt \<Rightarrow> ('h, 'w word, 's) hsa_signal_wait \<Rightarrow> (nat \<Rightarrow> nat \<Rightarrow> nat) \<Rightarrow> 's \<Rightarrow> (nat \<times> 's) option"
where
  "test_signal_wait_relaxed_cas rt wt sched s = do {
     (_, s) \<leftarrow> signal_wait_test_v1 rt (sched 0) (hsa_signal_cas rt Acquire) (signal_wait_relaxed_test wt)
       cas_initial_val cas_wakeup_val cas_expect_val cas_set_val NUM_THREADS s;
     (_, s) \<leftarrow> signal_wait_test_v1 rt (sched 1) (hsa_signal_cas rt Release) (signal_wait_relaxed_test wt)
       cas_initial_val cas_wakeup_val cas_expect_val cas_set_val NUM_THREADS s;
     (_, s) \<leftarrow> signal_wait_test_v1 rt (sched 2) (hsa_signal_cas rt Relaxed) (signal_wait_relaxed_test wt)
       cas_initial_val cas_wakeup_val cas_expect_val cas_set_val NUM_THREADS s;
     (_, s) \<leftarrow> signal_wait_test_v1 rt (sched 3) (hsa_signal_cas rt Acq_rel) (signal_wait_relaxed_test wt)
       cas_initial_val cas_wakeup_val cas_expect_val cas_set_val NUM_THREADS s;
     Some (0, s)
   }"

subsection \<open>\<open>test_signal_wait_exchange.c\<close>\<close>

definition exchange_initial_val :: "'w::len word" where "exchange_initial_val = -1"

definition exchange_wakeup_val :: "nat \<Rightarrow> 'w::len word" where
  "exchange_wakeup_val indx = of_nat indx"

definition exchange_expect_val :: "nat \<Rightarrow> 'w::len word" where
  "exchange_expect_val indx = of_nat indx - 1"

definition exchange_set_val :: "nat \<Rightarrow> 'w::len word" where
  "exchange_set_val indx = of_nat indx"

definition test_signal_wait_acquire_exchange ::
  "('h, 'w::len word, 's) hsa_rt \<Rightarrow> ('h, 'w word, 's) hsa_signal_wait \<Rightarrow> (nat \<Rightarrow> nat \<Rightarrow> nat) \<Rightarrow> 's \<Rightarrow> (nat \<times> 's) option"
where
  "test_signal_wait_acquire_exchange rt wt sched s = do {
     (_, s) \<leftarrow> signal_wait_test_v3 rt (sched 0) (hsa_signal_exchange rt Acquire) (signal_wait_acquire_test wt)
       exchange_initial_val exchange_wakeup_val exchange_expect_val exchange_set_val NUM_THREADS s;
     (_, s) \<leftarrow> signal_wait_test_v3 rt (sched 1) (hsa_signal_exchange rt Release) (signal_wait_acquire_test wt)
       exchange_initial_val exchange_wakeup_val exchange_expect_val exchange_set_val NUM_THREADS s;
     (_, s) \<leftarrow> signal_wait_test_v3 rt (sched 2) (hsa_signal_exchange rt Relaxed) (signal_wait_acquire_test wt)
       exchange_initial_val exchange_wakeup_val exchange_expect_val exchange_set_val NUM_THREADS s;
     (_, s) \<leftarrow> signal_wait_test_v3 rt (sched 3) (hsa_signal_exchange rt Acq_rel) (signal_wait_acquire_test wt)
       exchange_initial_val exchange_wakeup_val exchange_expect_val exchange_set_val NUM_THREADS s;
     Some (0, s)
   }"

definition test_signal_wait_relaxed_exchange ::
  "('h, 'w::len word, 's) hsa_rt \<Rightarrow> ('h, 'w word, 's) hsa_signal_wait \<Rightarrow> (nat \<Rightarrow> nat \<Rightarrow> nat) \<Rightarrow> 's \<Rightarrow> (nat \<times> 's) option"
where
  "test_signal_wait_relaxed_exchange rt wt sched s = do {
     (_, s) \<leftarrow> signal_wait_test_v3 rt (sched 0) (hsa_signal_exchange rt Acquire) (signal_wait_relaxed_test wt)
       exchange_initial_val exchange_wakeup_val exchange_expect_val exchange_set_val NUM_THREADS s;
     (_, s) \<leftarrow> signal_wait_test_v3 rt (sched 1) (hsa_signal_exchange rt Release) (signal_wait_relaxed_test wt)
       exchange_initial_val exchange_wakeup_val exchange_expect_val exchange_set_val NUM_THREADS s;
     (_, s) \<leftarrow> signal_wait_test_v3 rt (sched 2) (hsa_signal_exchange rt Relaxed) (signal_wait_relaxed_test wt)
       exchange_initial_val exchange_wakeup_val exchange_expect_val exchange_set_val NUM_THREADS s;
     (_, s) \<leftarrow> signal_wait_test_v3 rt (sched 3) (hsa_signal_exchange rt Acq_rel) (signal_wait_relaxed_test wt)
       exchange_initial_val exchange_wakeup_val exchange_expect_val exchange_set_val NUM_THREADS s;
     Some (0, s)
   }"

subsection \<open>\<open>test_signal_wait_or.c\<close>\<close>

definition or_initial_val :: "'w::len word" where "or_initial_val = ucast (0 :: 64 word)"

definition or_wakeup_val :: "nat \<Rightarrow> 'w::len word" where
  "or_wakeup_val indx = fold (\<lambda>ii value. value OR int_shift ii) [0..<Suc indx] 0"

definition or_set_val :: "nat \<Rightarrow> 'w::len word" where
  "or_set_val indx = int_shift indx"

definition test_signal_wait_acquire_or ::
  "('h, 'w::len word, 's) hsa_rt \<Rightarrow> ('h, 'w word, 's) hsa_signal_wait \<Rightarrow> (nat \<Rightarrow> nat \<Rightarrow> nat) \<Rightarrow> 's \<Rightarrow> (nat \<times> 's) option"
where
  "test_signal_wait_acquire_or rt wt sched s = do {
     (_, s) \<leftarrow> signal_wait_test_v2 rt (sched 0) (hsa_signal_or rt Acquire) (signal_wait_acquire_test wt)
       or_initial_val or_wakeup_val or_set_val NUM_THREADS s;
     (_, s) \<leftarrow> signal_wait_test_v2 rt (sched 1) (hsa_signal_or rt Release) (signal_wait_acquire_test wt)
       or_initial_val or_wakeup_val or_set_val NUM_THREADS s;
     (_, s) \<leftarrow> signal_wait_test_v2 rt (sched 2) (hsa_signal_or rt Relaxed) (signal_wait_acquire_test wt)
       or_initial_val or_wakeup_val or_set_val NUM_THREADS s;
     (_, s) \<leftarrow> signal_wait_test_v2 rt (sched 3) (hsa_signal_or rt Acq_rel) (signal_wait_acquire_test wt)
       or_initial_val or_wakeup_val or_set_val NUM_THREADS s;
     Some (0, s)
   }"

definition test_signal_wait_relaxed_or ::
  "('h, 'w::len word, 's) hsa_rt \<Rightarrow> ('h, 'w word, 's) hsa_signal_wait \<Rightarrow> (nat \<Rightarrow> nat \<Rightarrow> nat) \<Rightarrow> 's \<Rightarrow> (nat \<times> 's) option"
where
  "test_signal_wait_relaxed_or rt wt sched s = do {
     (_, s) \<leftarrow> signal_wait_test_v2 rt (sched 0) (hsa_signal_or rt Acquire) (signal_wait_relaxed_test wt)
       or_initial_val or_wakeup_val or_set_val NUM_THREADS s;
     (_, s) \<leftarrow> signal_wait_test_v2 rt (sched 1) (hsa_signal_or rt Release) (signal_wait_relaxed_test wt)
       or_initial_val or_wakeup_val or_set_val NUM_THREADS s;
     (_, s) \<leftarrow> signal_wait_test_v2 rt (sched 2) (hsa_signal_or rt Relaxed) (signal_wait_relaxed_test wt)
       or_initial_val or_wakeup_val or_set_val NUM_THREADS s;
     (_, s) \<leftarrow> signal_wait_test_v2 rt (sched 3) (hsa_signal_or rt Acq_rel) (signal_wait_relaxed_test wt)
       or_initial_val or_wakeup_val or_set_val NUM_THREADS s;
     Some (0, s)
   }"

subsection \<open>\<open>test_signal_wait_subtract.c\<close>\<close>

definition subtract_initial_val :: "'w::len word" where "subtract_initial_val = 512"

definition subtract_wakeup_val :: "nat \<Rightarrow> 'w::len word" where
  "subtract_wakeup_val indx = 512 - of_nat (indx + 1)"

definition subtract_set_val :: "nat \<Rightarrow> 'w::len word" where "subtract_set_val indx = 1"

definition test_signal_wait_acquire_subtract ::
  "('h, 'w::len word, 's) hsa_rt \<Rightarrow> ('h, 'w word, 's) hsa_signal_wait \<Rightarrow> (nat \<Rightarrow> nat \<Rightarrow> nat) \<Rightarrow> 's \<Rightarrow> (nat \<times> 's) option"
where
  "test_signal_wait_acquire_subtract rt wt sched s = do {
     (_, s) \<leftarrow> signal_wait_test_v2 rt (sched 0) (hsa_signal_subtract rt Acquire) (signal_wait_acquire_test wt)
       subtract_initial_val subtract_wakeup_val subtract_set_val NUM_THREADS s;
     (_, s) \<leftarrow> signal_wait_test_v2 rt (sched 1) (hsa_signal_subtract rt Release) (signal_wait_acquire_test wt)
       subtract_initial_val subtract_wakeup_val subtract_set_val NUM_THREADS s;
     (_, s) \<leftarrow> signal_wait_test_v2 rt (sched 2) (hsa_signal_subtract rt Relaxed) (signal_wait_acquire_test wt)
       subtract_initial_val subtract_wakeup_val subtract_set_val NUM_THREADS s;
     (_, s) \<leftarrow> signal_wait_test_v2 rt (sched 3) (hsa_signal_subtract rt Acq_rel) (signal_wait_acquire_test wt)
       subtract_initial_val subtract_wakeup_val subtract_set_val NUM_THREADS s;
     Some (0, s)
   }"

definition test_signal_wait_relaxed_subtract ::
  "('h, 'w::len word, 's) hsa_rt \<Rightarrow> ('h, 'w word, 's) hsa_signal_wait \<Rightarrow> (nat \<Rightarrow> nat \<Rightarrow> nat) \<Rightarrow> 's \<Rightarrow> (nat \<times> 's) option"
where
  "test_signal_wait_relaxed_subtract rt wt sched s = do {
     (_, s) \<leftarrow> signal_wait_test_v2 rt (sched 0) (hsa_signal_subtract rt Acquire) (signal_wait_relaxed_test wt)
       subtract_initial_val subtract_wakeup_val subtract_set_val NUM_THREADS s;
     (_, s) \<leftarrow> signal_wait_test_v2 rt (sched 1) (hsa_signal_subtract rt Release) (signal_wait_relaxed_test wt)
       subtract_initial_val subtract_wakeup_val subtract_set_val NUM_THREADS s;
     (_, s) \<leftarrow> signal_wait_test_v2 rt (sched 2) (hsa_signal_subtract rt Relaxed) (signal_wait_relaxed_test wt)
       subtract_initial_val subtract_wakeup_val subtract_set_val NUM_THREADS s;
     (_, s) \<leftarrow> signal_wait_test_v2 rt (sched 3) (hsa_signal_subtract rt Acq_rel) (signal_wait_relaxed_test wt)
       subtract_initial_val subtract_wakeup_val subtract_set_val NUM_THREADS s;
     Some (0, s)
   }"

subsection \<open>\<open>test_signal_wait_xor.c\<close>\<close>

definition xor_initial_val :: "'w::len word" where "xor_initial_val = ucast (0 :: 64 word)"

definition xor_wakeup_val :: "nat \<Rightarrow> 'w::len word" where
  "xor_wakeup_val indx = fold (\<lambda>ii value. value OR int_shift ii) [0..<Suc indx] 0"

definition xor_set_val :: "nat \<Rightarrow> 'w::len word" where
  "xor_set_val indx = int_shift indx"

definition test_signal_wait_acquire_xor ::
  "('h, 'w::len word, 's) hsa_rt \<Rightarrow> ('h, 'w word, 's) hsa_signal_wait \<Rightarrow> (nat \<Rightarrow> nat \<Rightarrow> nat) \<Rightarrow> 's \<Rightarrow> (nat \<times> 's) option"
where
  "test_signal_wait_acquire_xor rt wt sched s = do {
     (_, s) \<leftarrow> signal_wait_test_v2 rt (sched 0) (hsa_signal_xor rt Acquire) (signal_wait_acquire_test wt)
       xor_initial_val xor_wakeup_val xor_set_val NUM_THREADS s;
     (_, s) \<leftarrow> signal_wait_test_v2 rt (sched 1) (hsa_signal_xor rt Release) (signal_wait_acquire_test wt)
       xor_initial_val xor_wakeup_val xor_set_val NUM_THREADS s;
     (_, s) \<leftarrow> signal_wait_test_v2 rt (sched 2) (hsa_signal_xor rt Relaxed) (signal_wait_acquire_test wt)
       xor_initial_val xor_wakeup_val xor_set_val NUM_THREADS s;
     (_, s) \<leftarrow> signal_wait_test_v2 rt (sched 3) (hsa_signal_xor rt Acq_rel) (signal_wait_acquire_test wt)
       xor_initial_val xor_wakeup_val xor_set_val NUM_THREADS s;
     Some (0, s)
   }"

definition test_signal_wait_relaxed_xor ::
  "('h, 'w::len word, 's) hsa_rt \<Rightarrow> ('h, 'w word, 's) hsa_signal_wait \<Rightarrow> (nat \<Rightarrow> nat \<Rightarrow> nat) \<Rightarrow> 's \<Rightarrow> (nat \<times> 's) option"
where
  "test_signal_wait_relaxed_xor rt wt sched s = do {
     (_, s) \<leftarrow> signal_wait_test_v2 rt (sched 0) (hsa_signal_xor rt Acquire) (signal_wait_relaxed_test wt)
       xor_initial_val xor_wakeup_val xor_set_val NUM_THREADS s;
     (_, s) \<leftarrow> signal_wait_test_v2 rt (sched 1) (hsa_signal_xor rt Release) (signal_wait_relaxed_test wt)
       xor_initial_val xor_wakeup_val xor_set_val NUM_THREADS s;
     (_, s) \<leftarrow> signal_wait_test_v2 rt (sched 2) (hsa_signal_xor rt Relaxed) (signal_wait_relaxed_test wt)
       xor_initial_val xor_wakeup_val xor_set_val NUM_THREADS s;
     (_, s) \<leftarrow> signal_wait_test_v2 rt (sched 3) (hsa_signal_xor rt Acq_rel) (signal_wait_relaxed_test wt)
       xor_initial_val xor_wakeup_val xor_set_val NUM_THREADS s;
     Some (0, s)
   }"

subsection \<open>Values\<close>

text \<open>
  Small numbers, the numbers with the lowest bits set and those with the highest set go through an \<open>int\<close> unchanged,
  and differ.
\<close>

lemma not_bit_beyond: "k < 2 ^ m \<Longrightarrow> m \<le> n \<Longrightarrow> \<not> bit (k :: nat) n"
  by (metis bit_take_bit_iff linorder_not_less take_bit_nat_eq_self_iff)

lemma int_keeps_small:
  assumes "k < 2 ^ 31" "32 \<le> LENGTH('w::len)"
  shows "scast (ucast (of_nat k :: 'w word) :: 32 word) = (of_nat k :: 'w word)"
proof (rule bit_word_eqI)
  fix n assume "n < LENGTH('w)"
  then show "bit (scast (ucast (of_nat k :: 'w word) :: 32 word) :: 'w word) n = bit (of_nat k :: 'w word) n"
    using not_bit_beyond [OF assms(1), of n] not_bit_beyond [OF assms(1), of 31] assms(2)
    by (cases "n < 31") (auto simp: bit_simps min_def)
qed

lemma of_nat_differ:
  assumes "i \<noteq> j" "i < 2 ^ 32" "j < 2 ^ 32" "32 \<le> LENGTH('w::len)"
  shows "(of_nat i :: 'w word) \<noteq> of_nat j"
proof
  assume *: "(of_nat i :: 'w word) = of_nat j"
  have "(2::nat) ^ 32 \<le> 2 ^ LENGTH('w)" using assms(4) by (intro power_increasing) auto
  then have "i < 2 ^ LENGTH('w)" "j < 2 ^ LENGTH('w)" using assms(2,3) by linarith+
  then have "unat (of_nat i :: 'w word) = i" "unat (of_nat j :: 'w word) = j"
    by (simp_all add: unsigned_of_nat take_bit_nat_eq_self)
  then show False using * assms(1) by metis
qed

lemma of_nat_same:
  "i < 2 ^ 32 \<Longrightarrow> j < 2 ^ 32 \<Longrightarrow> 32 \<le> LENGTH('w::len) \<Longrightarrow> (of_nat i :: 'w word) = of_nat j \<longleftrightarrow> i = j"
  using of_nat_differ [of i j, where 'w = 'w] by auto

lemma minus_one_differs:
  assumes "k < 2 ^ 31" "32 \<le> LENGTH('w::len)"
  shows "of_nat k \<noteq> (-1 :: 'w word)" 
proof
  assume "of_nat k = (-1 :: 'w word)"
  then have "of_nat (Suc k) = (of_nat 0 :: 'w word)" by simp
  then show False using of_nat_differ [of "Suc k" 0, where 'w = 'w] assms by simp
qed

lemma bit_int_shift: 
  "ii < 32 \<Longrightarrow> bit (int_shift ii :: 'w::len word) n \<longleftrightarrow> n < LENGTH('w) \<and> (n = ii \<or> ii = 31 \<and> 31 \<le> n)"
  by (auto simp: int_shift_def bit_simps min_def simp del: push_bit_of_1)

definition low_bits :: "nat \<Rightarrow> 'w::len word" where
  "low_bits i = (if i = 32 then -1 else mask i)"

lemma bit_low_bits: "i \<le> 32 \<Longrightarrow> bit (low_bits i :: 'w::len word) n \<longleftrightarrow> n < LENGTH('w) \<and> (n < i \<or> i = 32)"
  by (auto simp: low_bits_def bit_simps)

lemma low_bits_step:
  assumes "ii < 32" "32 \<le> LENGTH('w::len)"
  shows "low_bits ii OR int_shift ii = (low_bits (Suc ii) :: 'w word)"
    "low_bits ii XOR int_shift ii = (low_bits (Suc ii) :: 'w word)"
  using assms by (auto intro!: bit_word_eqI simp: bit_or_iff bit_xor_iff bit_low_bits bit_int_shift)

lemma int_keeps_low_bits:
  assumes "i \<le> 32" "32 \<le> LENGTH('w::len)"
  shows "scast (ucast (low_bits i :: 'w word) :: 32 word) = (low_bits i :: 'w word)"
  using assms by (auto intro!: bit_word_eqI simp: bit_signed_iff bit_unsigned_iff bit_low_bits min_def split: if_splits)

lemma low_bits_differ: 
  assumes "i < j" "j \<le> 32" "32 \<le> LENGTH('w::len)"
  shows "low_bits j \<noteq> (low_bits i :: 'w word)"
proof -
  have "bit (low_bits j :: 'w word) i" "\<not> bit (low_bits i :: 'w word) i" using assms by (auto simp: bit_low_bits)
  then show ?thesis by metis
qed

lemma or_values: "ii < 32 \<Longrightarrow> 32 \<le> LENGTH('w::len) \<Longrightarrow>
  fold (\<lambda>ii value. value OR int_shift ii) [0..<Suc ii] 0 = (low_bits (Suc ii) :: 'w word)"
proof (induction ii)
  case 0
  then show ?case using low_bits_step(1) [of 0, where 'w = 'w] by (simp add: low_bits_def)
next
  case (Suc ii)
  then show ?case using low_bits_step(1) [of "Suc ii", where 'w = 'w] by simp
qed

lemma int_keeps_minus: "32 \<le> LENGTH('w::len) \<Longrightarrow> scast (ucast (-1 :: 'w word) :: 32 word) = (-1 :: 'w word)"
  using int_keeps_low_bits [of 32, where 'w = 'w] by (simp add: low_bits_def)

definition high_bits :: "nat \<Rightarrow> 'w::len word" where
  "high_bits i = ucast (push_bit i (-1 :: 64 word))"

lemma bit_high_bits: "bit (high_bits i :: 'w::len word) n \<longleftrightarrow> n < LENGTH('w) \<and> i \<le> n \<and> n < 64"
  by (auto simp: high_bits_def bit_simps)

lemma int_keeps_high_bits:
  assumes "i < 32" "machine_word TYPE('w::len)"
  shows "scast (ucast (high_bits i :: 'w word) :: 32 word) = (high_bits i :: 'w word)"
  using assms by (auto intro!: bit_word_eqI simp: bit_signed_iff bit_unsigned_iff bit_high_bits min_def machine_word_def split: if_splits)

lemma high_bits_differ:
  assumes "i < j" "j < 32" "machine_word TYPE('w::len)"
  shows "high_bits j \<noteq> (high_bits i :: 'w word)"
proof -
  have "bit (high_bits i :: 'w word) i" "\<not> bit (high_bits j :: 'w word) i" using assms by (auto simp: bit_high_bits machine_word_def)
  then show ?thesis by metis
qed

lemma high_bits_step: "high_bits (i - 1) AND high_bits i = (high_bits i :: 'w::len word)"
  by (auto intro!: bit_word_eqI simp: bit_and_iff bit_high_bits)

subsection \<open>The tests pass\<close>

abbreviation wait_tests ::
  "(('h, 'w::len word, 's) hsa_rt \<Rightarrow> ('h, 'w word, 's) hsa_signal_wait \<Rightarrow> (nat \<Rightarrow> nat \<Rightarrow> nat) \<Rightarrow> 's \<Rightarrow> (nat \<times> 's) option) set"
where
  "wait_tests \<equiv> {test_signal_wait_acquire_add, test_signal_wait_relaxed_add, test_signal_wait_acquire_and, test_signal_wait_relaxed_and,
     test_signal_wait_acquire_cas, test_signal_wait_relaxed_cas, test_signal_wait_acquire_exchange, test_signal_wait_relaxed_exchange,
     test_signal_wait_acquire_or, test_signal_wait_relaxed_or, test_signal_wait_acquire_subtract, test_signal_wait_relaxed_subtract,
     test_signal_wait_acquire_xor, test_signal_wait_relaxed_xor}"

context waiting_runtime
begin

definition wakes :: "('s \<Rightarrow> (nat \<times> 's) option) \<Rightarrow> bool" where
  "wakes f \<longleftrightarrow> (\<forall>s. ups s < 2 ^ 31 - 1 \<longrightarrow> passes (f s) (\<lambda>(r, s'). r = 0 \<and> restored ups val s s'))"

definition wait_function :: "('h wait_param \<Rightarrow> 's wait_memory access list) \<Rightarrow> bool" where
  "wait_function wait_test \<longleftrightarrow> wait_test \<in> {signal_wait_acquire_test hsa_signal_wait, signal_wait_relaxed_test hsa_signal_wait}"

lemma wakesI:
  assumes "wait_function wait_test" "fair (Suc n) sched"
    and "\<And>h ii. ii < n \<Longrightarrow> sets (set_signal h ii) h (V ii) (V (Suc ii))"
    and "\<And>ii. ii < n \<Longrightarrow> scast (ucast (wakeup_val ii) :: 32 word) = V (Suc ii)"
    and "\<And>i j. i < j \<Longrightarrow> 1 < j \<Longrightarrow> j \<le> n \<Longrightarrow> V j \<noteq> V i"
    and "initial_val = V 0"
  shows "wakes (signal_wait_test rt sched set_signal wait_test initial_val wakeup_val n)"
proof -
  obtain r where r: "wait_test arg =
      [look r (signal_handle arg) (scast (num arg)), call (set_flag (flag_index arg)), call (finish (flag_index arg))]" for arg
    using assms(1) wait_test_forms unfolding wait_function_def by blast
  show ?thesis
    unfolding wakes_def assms(6) by (blast intro: signal_wait_test_passes [where V = V, OF _ assms(2) r assms(3-5)])
qed

lemma wakes_four:
  assumes "wakes f1" "wakes f2" "wakes f3" "wakes f4"
  shows "wakes (\<lambda>s. do { (_, s) \<leftarrow> f1 s; (_, s) \<leftarrow> f2 s; (_, s) \<leftarrow> f3 s; (_, s) \<leftarrow> f4 s; Some (0, s) })"
  using assms unfolding wakes_def by (blast intro: wp_four_tests)

lemma cas_wakes:
  assumes "machine_word TYPE('w)" "wait_function wait_test" "fair (Suc NUM_THREADS) sched"
  shows "wakes (signal_wait_test_v1 rt sched (hsa_signal_cas rt r) wait_test
    cas_initial_val cas_wakeup_val cas_expect_val cas_set_val NUM_THREADS)"
  unfolding signal_wait_test_v1_def
proof (rule wakesI [where V = of_nat, OF assms(2,3)])
  fix ii assume "ii < NUM_THREADS"
  then show "scast (ucast (cas_wakeup_val ii :: 'w word) :: 32 word) = (of_nat (Suc ii) :: 'w word)"
    using int_keeps_small [of "Suc ii", where 'w = 'w] assms(1)
    by (auto simp: cas_wakeup_val_def NUM_THREADS_def machine_word_def add.commute)
qed (use assms(1) in \<open>auto intro!: sets_expect [OF acts_cas]
      simp: cas_initial_val_def cas_expect_val_def cas_set_val_def NUM_THREADS_def of_nat_same machine_word_def\<close>)

lemma add_wakes:
  assumes "machine_word TYPE('w)" "wait_function wait_test" "fair (Suc NUM_THREADS) sched"
  shows "wakes (signal_wait_test_v2 rt sched (hsa_signal_add rt r) wait_test add_initial_val add_wakeup_val add_set_val NUM_THREADS)"
  unfolding signal_wait_test_v2_def
proof (rule wakesI [where V = of_nat, OF assms(2,3)])
  fix ii assume "ii < NUM_THREADS"
  then show "scast (ucast (add_wakeup_val ii :: 'w word) :: 32 word) = (of_nat (Suc ii) :: 'w word)"
    using int_keeps_small [of "Suc ii", where 'w = 'w] assms(1)
    by (auto simp: add_wakeup_val_def NUM_THREADS_def machine_word_def add.commute)
qed (use assms(1) in \<open>auto intro!: sets_call [OF updates_signal(2)]
      simp: add_initial_val_def add_set_val_def NUM_THREADS_def of_nat_same machine_word_def\<close>)

lemma subtract_wakes:
  assumes "machine_word TYPE('w)" "wait_function wait_test" "fair (Suc NUM_THREADS) sched"
  shows "wakes (signal_wait_test_v2 rt sched (hsa_signal_subtract rt r) wait_test
    subtract_initial_val subtract_wakeup_val subtract_set_val NUM_THREADS)"
  unfolding signal_wait_test_v2_def
proof (rule wakesI [where V = "\<lambda>i. of_nat (512 - i)", OF assms(2,3)])
  fix ii assume "ii < NUM_THREADS"
  then show "scast (ucast (subtract_wakeup_val ii :: 'w word) :: 32 word) = (of_nat (512 - Suc ii) :: 'w word)"
    using int_keeps_small [of "512 - Suc ii", where 'w = 'w] assms(1)
    by (auto simp: subtract_wakeup_val_def NUM_THREADS_def machine_word_def of_nat_diff)
qed (use assms(1) in \<open>auto intro!: sets_call [OF updates_signal(3)]
      simp: subtract_initial_val_def subtract_set_val_def NUM_THREADS_def of_nat_same machine_word_def of_nat_diff simp del: of_nat_Suc\<close>)

lemma exchange_wakes:
  assumes "machine_word TYPE('w)" "wait_function wait_test" "fair (Suc NUM_THREADS) sched"
  shows "wakes (signal_wait_test_v3 rt sched (hsa_signal_exchange rt r) wait_test
    exchange_initial_val exchange_wakeup_val exchange_expect_val exchange_set_val NUM_THREADS)"
  unfolding signal_wait_test_v3_def
proof (rule wakesI [where V = "\<lambda>i. if i = 0 then -1 else of_nat (i - 1)", OF assms(2,3)])
  fix h ii assume "ii < NUM_THREADS"
  show "sets (expect (with_runtime (hsa_signal_exchange rt r h (exchange_set_val ii))) (exchange_expect_val ii)) h
      (if ii = 0 then -1 else of_nat (ii - 1)) (if Suc ii = 0 then -1 else of_nat (Suc ii - 1))"
    by (rule sets_expect [OF acts_exchange]) (auto simp: exchange_expect_val_def exchange_set_val_def of_nat_diff)
next
  fix ii assume "ii < NUM_THREADS"
  then show "scast (ucast (exchange_wakeup_val ii :: 'w word) :: 32 word) = (if Suc ii = 0 then -1 else of_nat (Suc ii - 1) :: 'w word)"
    using int_keeps_small [of ii, where 'w = 'w] assms(1) by (auto simp: exchange_wakeup_val_def NUM_THREADS_def machine_word_def)
next
  fix i j assume "i < j" "1 < j" "j \<le> NUM_THREADS"
  then have "i < j" "j - 1 < 2 ^ 31" "j - 1 < 2 ^ 32" "i - 1 < 2 ^ 32" "0 < i \<Longrightarrow> j - 1 \<noteq> i - 1"
    by (auto simp: NUM_THREADS_def)
  then show "(if j = 0 then -1 else of_nat (j - 1)) \<noteq> (if i = 0 then -1 else of_nat (i - 1) :: 'w word)"
    using assms(1) minus_one_differs [of "j - 1", where 'w = 'w] of_nat_differ [of "j - 1" "i - 1", where 'w = 'w]
    by (cases "i = 0") (auto simp: machine_word_def)
qed (simp add: exchange_initial_val_def)

lemma and_wakes:
  assumes "machine_word TYPE('w)" "wait_function wait_test" "fair (Suc NUM_THREADS) sched"
  shows "wakes (signal_wait_test_v2 rt sched (hsa_signal_and rt r) wait_test and_initial_val and_wakeup_val and_set_val NUM_THREADS)"
  unfolding signal_wait_test_v2_def
proof (rule wakesI [where V = "\<lambda>i. high_bits (i - 1)", OF assms(2,3)])
  fix ii assume "ii < NUM_THREADS"
  then show "scast (ucast (and_wakeup_val ii :: 'w word) :: 32 word) = (high_bits (Suc ii - 1) :: 'w word)"
    using int_keeps_high_bits [of ii, where 'w = 'w] assms(1) by (simp add: and_wakeup_val_def high_bits_def NUM_THREADS_def)
next
  fix i j assume "i < j" "1 < j" "j \<le> NUM_THREADS"
  then show "high_bits (j - 1) \<noteq> (high_bits (i - 1) :: 'w word)"
    using high_bits_differ [of "i - 1" "j - 1", where 'w = 'w] assms(1) by (simp add: NUM_THREADS_def)
next
  fix h ii
  show "sets (call (on_runtime (hsa_signal_and rt r h (and_set_val ii)))) h (high_bits (ii - 1)) (high_bits (Suc ii - 1))"
    using high_bits_step [of ii, where 'w = 'w] by (intro sets_call [OF updates_signal(4)]) (simp add: and_set_val_def high_bits_def)
qed (simp add: and_initial_val_def high_bits_def)

lemma or_wakes:
  assumes "machine_word TYPE('w)" "wait_function wait_test" "fair (Suc NUM_THREADS) sched"
  shows "wakes (signal_wait_test_v2 rt sched (hsa_signal_or rt r) wait_test or_initial_val or_wakeup_val or_set_val NUM_THREADS)"
  unfolding signal_wait_test_v2_def
proof (rule wakesI [where V = low_bits, OF assms(2,3)])
  fix ii assume "ii < NUM_THREADS"
  then show "scast (ucast (or_wakeup_val ii :: 'w word) :: 32 word) = (low_bits (Suc ii) :: 'w word)"
    using int_keeps_low_bits [of "Suc ii", where 'w = 'w] or_values [of ii, where 'w = 'w] assms(1)
    by (auto simp: or_wakeup_val_def NUM_THREADS_def machine_word_def simp del: upt_Suc)
qed (use assms(1) in \<open>auto intro!: sets_call [OF updates_signal(5)] low_bits_step
      simp: low_bits_differ or_initial_val_def or_set_val_def NUM_THREADS_def machine_word_def low_bits_def [of 0]\<close>)

lemma xor_wakes:
  assumes "machine_word TYPE('w)" "wait_function wait_test" "fair (Suc NUM_THREADS) sched"
  shows "wakes (signal_wait_test_v2 rt sched (hsa_signal_xor rt r) wait_test xor_initial_val xor_wakeup_val xor_set_val NUM_THREADS)"
  unfolding signal_wait_test_v2_def
proof (rule wakesI [where V = low_bits, OF assms(2,3)])
  fix ii assume "ii < NUM_THREADS"
  then show "scast (ucast (xor_wakeup_val ii :: 'w word) :: 32 word) = (low_bits (Suc ii) :: 'w word)"
    using int_keeps_low_bits [of "Suc ii", where 'w = 'w] or_values [of ii, where 'w = 'w] assms(1)
    by (auto simp: xor_wakeup_val_def NUM_THREADS_def machine_word_def simp del: upt_Suc)
qed (use assms(1) in \<open>auto intro!: sets_call [OF updates_signal(6)] low_bits_step
      simp: low_bits_differ xor_initial_val_def xor_set_val_def NUM_THREADS_def machine_word_def low_bits_def [of 0]\<close>)

lemmas operation_wakes = cas_wakes add_wakes subtract_wakes exchange_wakes and_wakes or_wakes xor_wakes

lemma wait_functions:
  "wait_function (signal_wait_acquire_test hsa_signal_wait)" "wait_function (signal_wait_relaxed_test hsa_signal_wait)"
  by (simp_all add: wait_function_def)

lemma wait_tests_wake:
  assumes "machine_word TYPE('w)" "\<And>i. fair (Suc NUM_THREADS) (sched i)" "tst \<in> wait_tests"
  shows "wakes (tst rt hsa_signal_wait sched)"
  using assms(3)
  by (elim insertE emptyE; hypsubst)
    (unfold test_signal_wait_acquire_add_def [abs_def] test_signal_wait_relaxed_add_def [abs_def]
      test_signal_wait_acquire_and_def [abs_def] test_signal_wait_relaxed_and_def [abs_def]
      test_signal_wait_acquire_cas_def [abs_def] test_signal_wait_relaxed_cas_def [abs_def]
      test_signal_wait_acquire_exchange_def [abs_def] test_signal_wait_relaxed_exchange_def [abs_def]
      test_signal_wait_acquire_or_def [abs_def] test_signal_wait_relaxed_or_def [abs_def]
      test_signal_wait_acquire_subtract_def [abs_def] test_signal_wait_relaxed_subtract_def [abs_def]
      test_signal_wait_acquire_xor_def [abs_def] test_signal_wait_relaxed_xor_def [abs_def], (intro wakes_four operation_wakes wait_functions assms(1,2))+)

end

text \<open>
  C18.  The fourteen tests that wake 32 threads one by one pass: under every schedule that gives each thread a step again
  and again, the threads wake up in the order in which the signal is set for them, no assertion of a test fails, and the
  test returns with the runtime as it was, on every conforming runtime whose waits do not return before their condition holds.
\<close>

theorem wait_tests_pass:
  fixes rt :: "('h, 'w::len word, 's) hsa_rt"
  assumes "waiting_runtime rt ups val wt" "ups s < 2 ^ 31 - 1" "\<forall>i. fair (Suc NUM_THREADS) (sched i)" "machine_word TYPE('w)"
    and "tst \<in> wait_tests"
  shows "passes (tst rt wt sched s) (\<lambda>(r, s'). r = 0 \<and> restored ups val s s')"
  using waiting_runtime.wait_tests_wake [OF assms(1,4) _ assms(5), of sched] assms(2,3)
  by (simp add: waiting_runtime.wakes_def [OF assms(1)])

theorem wait_tests_pass_witness:
  "passes (test_signal_wait_relaxed_xor reference_rt reference_wait (\<lambda>_ k. k mod 33) (ref_start :: 32 word ref_state))
     (\<lambda>(r, s'). r = 0 \<and> restored ref_ups ref_val ref_start s')"
  by (rule wait_tests_pass [where tst = test_signal_wait_relaxed_xor, OF reference_waiting.waiting_runtime_axioms])
    (simp_all add: ref_start_def fair_round_robin NUM_THREADS_def)

end
