(* ===== verification/Test_Group_Control.thy ===== *)
theory Test_Group_Control
  imports Test_Group
begin

text \<open>
  The functions of \<open>utils/concurrent_utils.c\<close> that look at, cancel or free the threads of a group from outside.
  The group is taken as the code has it when its threads have been created: with the array \<open>tid\<close> of the threads, \<open>None\<close> once it is
  freed, whether the array \<open>thread_list\<close>, which the threads read, is allocated, and whether the mutex, the
  condition variable and the attributes are initialised.  The functions of POSIX threads are parameters; they act on a state \<open>'s\<close>
  of the system and return an error number, which is 0 or positive.
\<close>

record ('d, 'm, 't) group_threads = "('d, 'm) test_group" +
  tid :: "'t list option"
  thread_list_allocated :: bool
  sync_initialised :: bool

text \<open>An element of \<open>test_list\<close>: access to its status.  The index is an \<open>int\<close>, and an access outside of the array is \<open>None\<close>.\<close>

definition get_status :: "('d, 'm, 'z) test_group_scheme \<Rightarrow> int \<Rightarrow> TEST_STATUS option" where
  "get_status g test_id =
     (if 0 \<le> test_id \<and> nat test_id < length (test_list g) then map_option status (test_list g ! nat test_id) else None)"

definition set_status :: "int \<Rightarrow> TEST_STATUS \<Rightarrow> ('d, 'm, 'z) test_group_scheme \<Rightarrow> ('d, 'm, 'z) test_group_scheme option" where
  "set_status test_id st g =
     (if 0 \<le> test_id \<and> nat test_id < length (test_list g)
      then Some (g\<lparr>test_list := (test_list g)[nat test_id := map_option (status_update (\<lambda>_. st)) (test_list g ! nat test_id)]\<rparr>)
      else None)"

definition get_tid :: "('d, 'm, 't) group_threads \<Rightarrow> int \<Rightarrow> 't option" where
  "get_tid g test_id =
     (case tid g of None \<Rightarrow> None
      | Some ts \<Rightarrow> if 0 \<le> test_id \<and> nat test_id < length ts then Some (ts ! nat test_id) else None)"

text \<open>
  A number \<open>test_id\<close> that is too large is reported, and used all the same.
\<close>

definition test_group_test_status ::
  "int \<Rightarrow> ('t \<Rightarrow> int \<Rightarrow> 's \<Rightarrow> int \<times> 's) \<Rightarrow> ('d, 'm, 't) group_threads \<Rightarrow> int \<Rightarrow> 's \<Rightarrow>
     (TEST_STATUS \<times> ('d, 'm, 't) group_threads \<times> 's) option"
where
  "test_group_test_status ESRCH pthread_kill g test_id s = do {
     st \<leftarrow> get_status g test_id;
     (g, s) \<leftarrow>
       (if st = TEST_RUNNING then do {
          t \<leftarrow> get_tid g test_id;
          let (error, s) = pthread_kill t 0 s;
          if error = ESRCH then do { g \<leftarrow> set_status test_id TEST_ERROR g; Some (g, s) } else Some (g, s)
        } else Some (g, s));
     st \<leftarrow> get_status g test_id;
     Some (st, g, s)
   }"

definition test_group_kill ::
  "('t \<Rightarrow> 's \<Rightarrow> int \<times> 's) \<Rightarrow> ('d, 'm, 't) group_threads \<Rightarrow> 's \<Rightarrow> (('d, 'm, 't) group_threads \<times> 's) option"
where
  "test_group_kill pthread_cancel g s = do {
     (g, s) \<leftarrow> for_loop 0 (nat (sint (n_threads g))) (\<lambda>ii (g, s). do {
         t \<leftarrow> get_tid g (int ii);
         let (status, s) = pthread_cancel t s;
         if status < 0 then do { g \<leftarrow> set_status (int ii) TEST_ERROR g; Some (g, s) } else Some (g, s)
       }) (g, s);
     ASSERT (sync_initialised g \<and> tid g \<noteq> None \<and> thread_list_allocated g);
     Some (g\<lparr>sync_initialised := False, tid := None, thread_list_allocated := False\<rparr>, s)
   }"

text \<open>The affinity of a thread is not supported: the body of the function is a comment.\<close>

definition test_group_thread_affinity :: "('d, 'm, 't) group_threads \<Rightarrow> int \<Rightarrow> int \<Rightarrow> ('d, 'm, 't) group_threads" where
  "test_group_thread_affinity g test_id cpu_id = g"

text \<open>The groups are objects of the heap: \<open>test_group_destroy\<close> frees one and its array of tests, so that it is no longer there.\<close>

definition test_group_destroy :: "nat \<Rightarrow> (nat \<rightharpoonup> ('d, 'm, 't) group_threads) \<Rightarrow> (nat \<rightharpoonup> ('d, 'm, 't) group_threads) option" where
  "test_group_destroy t_group h = (if h t_group = None then None else Some (h(t_group := None)))"

subsection \<open>What the functions do\<close>

text \<open>
  For a test of the group \<open>test_group_test_status\<close> returns the status of the test, and makes it \<open>TEST_ERROR\<close> exactly when
  it is \<open>TEST_RUNNING\<close> and its thread is gone; nothing else of the group changes.  For a number outside of the array the behaviour is undefined.
\<close>

theorem test_group_test_status_correct:
  assumes "tid g = Some ts" "length ts \<le> length (test_list g)" "None \<notin> set (take (length ts) (test_list g))"
  shows "(0 \<le> i \<and> nat i < length ts \<longrightarrow>
      (let st = status (the (test_list g ! nat i)); (error, s') = pthread_kill (ts ! nat i) 0 s in
       test_group_test_status ESRCH pthread_kill g i s =
         (if st \<noteq> TEST_RUNNING then Some (st, g, s)
          else if error \<noteq> ESRCH then Some (TEST_RUNNING, g, s')
          else Some (TEST_ERROR,
            g\<lparr>test_list := (test_list g)[nat i := Some ((the (test_list g ! nat i))\<lparr>status := TEST_ERROR\<rparr>)]\<rparr>, s')))) \<and>
    (i < 0 \<or> length (test_list g) \<le> nat i \<longrightarrow> test_group_test_status ESRCH pthread_kill g i s = None)"
proof (intro conjI impI)
  assume i: "0 \<le> i \<and> nat i < length ts"
  then have "test_list g ! nat i \<in> set (take (length ts) (test_list g))"
    using assms(2) by (auto simp: set_conv_nth intro!: exI [of _ "nat i"])
  then obtain t where t: "test_list g ! nat i = Some t" using assms(3) by (metis not_None_eq)
  show "let st = status (the (test_list g ! nat i)); (error, s') = pthread_kill (ts ! nat i) 0 s in
       test_group_test_status ESRCH pthread_kill g i s =
         (if st \<noteq> TEST_RUNNING then Some (st, g, s)
          else if error \<noteq> ESRCH then Some (TEST_RUNNING, g, s')
          else Some (TEST_ERROR,
            g\<lparr>test_list := (test_list g)[nat i := Some ((the (test_list g ! nat i))\<lparr>status := TEST_ERROR\<rparr>)]\<rparr>, s'))"
    using i assms(1,2) t
    by (simp add: test_group_test_status_def get_status_def set_status_def get_tid_def split: prod.split)
next
  assume "i < 0 \<or> length (test_list g) \<le> nat i"
  then have "get_status g i = None" by (auto simp: get_status_def)
  then show "test_group_test_status ESRCH pthread_kill g i s = None" by (simp add: test_group_test_status_def)
qed

definition sample_threads :: "(unit, unit, nat) group_threads" where
  "sample_threads = \<lparr>group_size = 2, num_test = 2, n_threads = 2, run_flag = 1, exit_flag = 0, num_running_t = 1,
     test_list = [Some \<lparr>fun_prt = (\<lambda>_. []), data = (), status = TEST_RUNNING\<rparr>, Some \<lparr>fun_prt = (\<lambda>_. []), data = (), status = TEST_STOP\<rparr>],
     tid = Some [7, 8], thread_list_allocated = True, sync_initialised = True\<rparr>"

theorem test_group_test_status_correct_witness:
  "map_option fst (test_group_test_status 3 (\<lambda>t _ s. (3, s)) sample_threads 0 ()) = Some TEST_ERROR \<and>
   test_group_test_status 3 (\<lambda>t _ s. (3, s)) sample_threads 2 () = None"
  using test_group_test_status_correct [of sample_threads "[7, 8]" 0 "\<lambda>t _ s. (3, s)" "()" 3]
    test_group_test_status_correct [of sample_threads "[7, 8]" 2 "\<lambda>t _ s. (3, s)" "()" 3]
  by (simp add: sample_threads_def)

text \<open>
  \<open>test_group_kill\<close> cancels every thread of the group once, in order.  Since POSIX functions do not return negative numbers, a
  thread that could not be cancelled leaves no trace: no status changes.  Then the mutex, the condition variable and the array that the threads
  read are gone, although no thread has been joined; a second call is an error.
\<close>

theorem test_group_kill_correct:
  assumes "tid g = Some ts" "length ts = nat (sint (n_threads g))" "sync_initialised g" "thread_list_allocated g"
    and "\<forall>t s. 0 \<le> fst (pthread_cancel t s)"
  shows "\<exists>g'. test_group_kill pthread_cancel g s = Some (g', fold (\<lambda>t s. snd (pthread_cancel t s)) ts s) \<and>
    test_list g' = test_list g \<and> \<not> sync_initialised g' \<and> \<not> thread_list_allocated g' \<and> test_group_kill pthread_cancel g' s' = None"
proof -
  have "for_loop k (length ts - k) (\<lambda>ii (g, s). do {
         t \<leftarrow> get_tid g (int ii);
         let (status, s) = pthread_cancel t s;
         if status < 0 then do { g \<leftarrow> set_status (int ii) TEST_ERROR g; Some (g, s) } else Some (g, s)
       }) (g, s) = Some (g, fold (\<lambda>t s. snd (pthread_cancel t s)) (drop k ts) s)" if "k \<le> length ts" for k s
    using that
  proof (induction k arbitrary: s rule: inc_induct)
    case base
    then show ?case by simp
  next
    case (step k)
    have "get_tid g (int k) = Some (ts ! k)" using assms(1) step.hyps by (simp add: get_tid_def)
    moreover have "\<not> fst (pthread_cancel (ts ! k) s) < 0" using assms(5) by (simp add: not_less)
    moreover have "length ts - k = Suc (length ts - Suc k)" "drop k ts = ts ! k # drop (Suc k) ts"
      using step.hyps by (auto simp: Cons_nth_drop_Suc)
    ultimately show ?case using step.IH by (simp add: case_prod_beta)
  qed
  from this [of 0 s] have "test_group_kill pthread_cancel g s =
      Some (g\<lparr>sync_initialised := False, tid := None, thread_list_allocated := False\<rparr>, fold (\<lambda>t s. snd (pthread_cancel t s)) ts s)"
    using assms(1-4) by (simp add: test_group_kill_def)
  moreover have "test_group_kill pthread_cancel (g\<lparr>sync_initialised := False, tid := None, thread_list_allocated := False\<rparr>) s' = None"
    (is "test_group_kill _ ?g _ = _")
  proof (cases "nat (sint (n_threads g))")
    case 0
    then show ?thesis by (simp add: test_group_kill_def)
  next
    case (Suc n)
    then show ?thesis by (simp add: test_group_kill_def get_tid_def)
  qed
  ultimately show ?thesis by simp
qed

theorem test_group_kill_correct_witness:
  "\<exists>g'. test_group_kill (\<lambda>t s. (3, t # s)) sample_threads [] = Some (g', [8, 7]) \<and> test_list g' = test_list sample_threads"
  using test_group_kill_correct [of sample_threads "[7, 8]" "\<lambda>t s. (3, t # s)" "[]"] by (auto simp: sample_threads_def)

end
