(* ===== verification/Dispatch_Utils.thy ===== *)
theory Dispatch_Utils
  imports Queue_Utils Signal_Waits "HOL-Library.Multiset"
begin

text \<open>
  \<open>utils/dispatch_utils.c\<close>: one kernel is dispatched on a queue, and the function returns when the kernel has completed.

  The state \<open>'s dispatch_state\<close> is the queue with the packets of \<open>Queue_Utils\<close>, the kernels that have completed so far (a history variable), and
  the state \<open>'s\<close> of the signals of the runtime.  The agent takes packets from the queue and runs their kernels concurrently with the code; when
  a kernel completes, the completion signal of its packet is decremented.

  The body of a packet has the fields of \<open>hsa_kernel_dispatch_packet_t\<close> but for the header and those reserved.
  The constants of \<open>hsa.h\<close> that make up headers are the fields of \<open>packet_constants\<close>.
\<close>

record 'h dispatch_body =
  packet_setup :: "16 word"
  workgroup_size_x :: "16 word"
  workgroup_size_y :: "16 word"
  workgroup_size_z :: "16 word"
  grid_size_x :: "32 word"
  grid_size_y :: "32 word"
  grid_size_z :: "32 word"
  private_segment_size :: "32 word"
  group_segment_size :: "32 word"
  kernel_object :: "64 word"
  kernarg_address :: "64 word"
  completion_signal :: "'h option"  \<comment> \<open>\<open>None\<close> for the null handle\<close>

record packet_constants =
  HSA_FENCE_SCOPE_SYSTEM :: "16 word"
  HSA_PACKET_TYPE_KERNEL_DISPATCH :: "16 word"
  HSA_PACKET_HEADER_ACQUIRE_FENCE_SCOPE :: nat
  HSA_PACKET_HEADER_RELEASE_FENCE_SCOPE :: nat
  HSA_PACKET_HEADER_TYPE :: nat
  HSA_KERNEL_DISPATCH_PACKET_SETUP_DIMENSIONS :: nat

record ('h, 's) dispatch_state =
  queue :: "'h dispatch_body queue"
  completed :: "'h dispatch_body packet multiset"
  signals :: 's

type_synonym ('h, 'v, 's) dispatch_wait =
  "memory_order \<Rightarrow> 'h \<Rightarrow> hsa_signal_condition_t \<Rightarrow> 'v \<Rightarrow> 64 word \<Rightarrow> hsa_wait_state_t \<Rightarrow> ('h, 's) dispatch_state \<Rightarrow> 'v \<times> ('h, 's) dispatch_state"

subsection \<open>The code\<close>

text \<open>\<open>memset(dispatch_packet, 0, sizeof(hsa_kernel_dispatch_packet_t))\<close>\<close>

definition zero_packet :: "'h dispatch_body packet" where
  "zero_packet = \<lparr>header = 0, body = \<lparr>packet_setup = 0, workgroup_size_x = 0, workgroup_size_y = 0, workgroup_size_z = 0,
     grid_size_x = 0, grid_size_y = 0, grid_size_z = 0, private_segment_size = 0, group_segment_size = 0,
     kernel_object = 0, kernarg_address = 0, completion_signal = None\<rparr>\<rparr>"

definition packet_fields ::
  "packet_constants \<Rightarrow> 'h \<Rightarrow> 32 word \<Rightarrow> 64 word \<Rightarrow> 64 word \<Rightarrow> ('h dispatch_body \<Rightarrow> 'h dispatch_body) list"
where
  "packet_fields c signal data_size kobj karg =
     [\<lambda>b. b\<lparr>completion_signal := Some signal\<rparr>,
      \<lambda>b. b\<lparr>packet_setup := packet_setup b OR push_bit (HSA_KERNEL_DISPATCH_PACKET_SETUP_DIMENSIONS c) 1\<rparr>,
      \<lambda>b. b\<lparr>workgroup_size_x := 256\<rparr>,
      \<lambda>b. b\<lparr>workgroup_size_y := 1\<rparr>,
      \<lambda>b. b\<lparr>workgroup_size_z := 1\<rparr>,
      \<lambda>b. b\<lparr>grid_size_x := data_size\<rparr>,
      \<lambda>b. b\<lparr>grid_size_y := 1\<rparr>,
      \<lambda>b. b\<lparr>grid_size_z := 1\<rparr>,
      \<lambda>b. b\<lparr>kernel_object := kobj\<rparr>,
      \<lambda>b. b\<lparr>kernarg_address := karg\<rparr>]"

definition packet_header :: "packet_constants \<Rightarrow> 16 word" where
  "packet_header c =
     (let header = 0;
          header = header OR push_bit (HSA_PACKET_HEADER_ACQUIRE_FENCE_SCOPE c) (HSA_FENCE_SCOPE_SYSTEM c);
          header = header OR push_bit (HSA_PACKET_HEADER_RELEASE_FENCE_SCOPE c) (HSA_FENCE_SCOPE_SYSTEM c);
          header = header OR push_bit (HSA_PACKET_HEADER_TYPE c) (HSA_PACKET_TYPE_KERNEL_DISPATCH c)
      in header)"

text \<open>One store to the packet in the ring; the packet processor may act before it.\<close>

definition store_slot ::
  "('b, 'z) queue_rt_scheme \<Rightarrow> nat \<Rightarrow> ('b packet \<Rightarrow> 'b packet) \<Rightarrow> 'b queue \<Rightarrow> 'b queue"
where
  "store_slot rt i f q = (let q = tick rt q in q\<lparr>ring := (ring q)[i := f (ring q ! i)]\<rparr>)"

definition write_packet ::
  "packet_constants \<Rightarrow> ('h dispatch_body, 'z) queue_rt_scheme \<Rightarrow> 64 word \<Rightarrow> 'h \<Rightarrow> 32 word \<Rightarrow> 64 word \<Rightarrow> 64 word \<Rightarrow>
     'h dispatch_body queue \<Rightarrow> 'h dispatch_body queue"
where
  "write_packet c rt packet_id signal data_size kobj karg q =
     (let i = unat (packet_id mod ucast (queue_size q));
          q = store_slot rt i (\<lambda>_. zero_packet) q;
          q = fold (\<lambda>f. store_slot rt i (\<lambda>p. p\<lparr>body := f (body p)\<rparr>)) (packet_fields c signal data_size kobj karg) q
      in store_slot rt i (\<lambda>p. p\<lparr>header := packet_header c\<rparr>) q)"

definition dispatch_kernel_1d_data ::
  "packet_constants \<Rightarrow> ('h dispatch_body, 'z) queue_rt_scheme \<Rightarrow> ('h, 'w::len word, 's) hsa_rt \<Rightarrow> ('h, 'w word, 's) dispatch_wait \<Rightarrow>
     32 word \<Rightarrow> 64 word \<Rightarrow> 64 word \<Rightarrow> ('h, 's) dispatch_state \<Rightarrow> ('h, 's) dispatch_state option"
where
  "dispatch_kernel_1d_data c qrt rt wt data_size kobj karg st = do {
     let (status, signal, s) = hsa_signal_create rt 1 0 [] (signals st);
     ASSERT (HSA_STATUS_SUCCESS = status);
     let (packet_id, q) = hsa_queue_add_write_index qrt 1 (queue st);
     q \<leftarrow> wait_while (hsa_queue_load_read_index qrt) (\<lambda>r. packet_id - r \<ge> ucast (queue_size q)) q;
     let q = write_packet c qrt packet_id signal data_size kobj karg q;
     let q = hsa_signal_store_doorbell qrt packet_id q;
     st \<leftarrow> wait_while (wt Acquire signal HSA_SIGNAL_CONDITION_EQ 0 UINT64_MAX HSA_WAIT_STATE_BLOCKED) (\<lambda>v. 0 \<noteq> v)
            (st\<lparr>queue := q, signals := s\<rparr>);
     let (_, s) = hsa_signal_destroy rt signal (signals st);
     Some (st\<lparr>signals := s\<rparr>)
   }"

text \<open>The packet that it means to submit.\<close>

definition dispatch_packet :: "packet_constants \<Rightarrow> 'h \<Rightarrow> 32 word \<Rightarrow> 64 word \<Rightarrow> 64 word \<Rightarrow> 'h dispatch_body packet" where
  "dispatch_packet c signal data_size kobj karg =
     \<lparr>header = packet_header c, body = \<lparr>packet_setup = push_bit (HSA_KERNEL_DISPATCH_PACKET_SETUP_DIMENSIONS c) 1,
        workgroup_size_x = 256, workgroup_size_y = 1, workgroup_size_z = 1, grid_size_x = data_size, grid_size_y = 1, grid_size_z = 1,
        private_segment_size = 0, group_segment_size = 0, kernel_object = kobj, kernarg_address = karg,
        completion_signal = Some signal\<rparr>\<rparr>"

lemma fold_packet_fields:
  "fold (\<lambda>f. f) (packet_fields c signal data_size kobj karg) (body zero_packet) =
     body (dispatch_packet c signal data_size kobj karg)"
  by (simp add: packet_fields_def zero_packet_def dispatch_packet_def)

subsection \<open>The packet in the queue\<close>

definition grows :: "'b queue \<Rightarrow> 'b queue \<Rightarrow> bool" where
  "grows q q' \<longleftrightarrow> (\<exists>ys. launched q' = launched q @ ys)"

lemma grows_trans: "grows q q1 \<Longrightarrow> grows q1 q2 \<Longrightarrow> grows q q2"
  by (auto simp: grows_def)

lemma wait_while_keeps:
  assumes "wait_while load full s = Some s'" "\<And>s. R s (snd (load s))" "\<And>s t u. R s t \<Longrightarrow> R t u \<Longrightarrow> R s u"
  shows "R s s'"
proof -
  have "load' = load \<longrightarrow> R s s'" if "wait_while load' full s = Some s'" for load' s s'
    using that
  proof (rule wait_while.raw_induct [where P = "\<lambda>load' _ s s'. load' = load \<longrightarrow> R s s'", rotated])
    fix wait and load' :: "'a \<Rightarrow> 'b \<times> 'a" and full s s'
    assume IH: "\<And>load' full s s'. wait load' full s = Some s' \<Longrightarrow> load' = load \<longrightarrow> R s s'"
      and body: "(let (v, s) = load' s in if full v then wait load' full s else Some s) = Some s'"
    show "load' = load \<longrightarrow> R s s'"
    proof
      assume "load' = load"
      then show "R s s'"
        using body IH [of load' full "snd (load s)" s'] assms(2) [of s] assms(3) by (auto simp: case_prod_beta split: if_splits)
    qed
  qed
  then show ?thesis using assms(1) by blast
qed

context packet_processor
begin

lemma waits_for_slot: "0 < unat sz \<Longrightarrow> full_test (\<lambda>r. of_nat wr - r \<ge> (ucast sz :: 64 word)) sz 1 wr"
  unfolding full_test_def
proof (intro allI impI)
  fix rd n assume n: "n \<le> unat sz" "rd + n = wr"
  have sz: "unat sz < 2 ^ 32" using unsigned_less [of sz] by simp
  then have "unat (of_nat wr - of_nat rd :: 64 word) = n"
    using index_distance [of rd wr] n by simp
  moreover have "unat (ucast sz :: 64 word) = unat sz"
    using sz by (simp add: unsigned_ucast_eq take_bit_nat_eq_self)
  ultimately show "of_nat wr - of_nat rd \<ge> (ucast sz :: 64 word) \<longleftrightarrow> unat sz < n + 1"
    unfolding word_le_nat_alt by (simp add: less_Suc_eq_le)
qed

lemma mod_slot:
  assumes "power_of_two_size q"
  shows "unat (of_nat wr mod ucast (queue_size q) :: 64 word) = wr mod unat (queue_size q)"
proof -
  obtain m where m: "m < 32" "unat (queue_size q) = 2 ^ m"
    using assms by (auto simp: power_of_two_size_def)
  have "unat (ucast (queue_size q) :: 64 word) = 2 ^ m"
    using m unsigned_less [of "queue_size q"] by (simp add: unsigned_ucast_eq take_bit_nat_eq_self)
  then have "unat (of_nat wr mod ucast (queue_size q) :: 64 word) = wr mod 2 ^ 64 mod 2 ^ m"
    by (simp add: unat_mod unsigned_of_nat take_bit_eq_mod)
  also have "\<dots> = wr mod 2 ^ m" using m(1) by (intro mod_mod_cancel le_imp_power_dvd) simp
  finally show ?thesis by (simp add: m(2))
qed

text \<open>A store that leaves the header of the slot invalid, and the stores to the body one after the other.\<close>

lemma store_slot_submitted:
  assumes sub: "submitted valid q ps wr k" and k: "k < unat (queue_size q)"
    and f: "\<And>p. \<not> valid (header p) \<Longrightarrow> \<not> valid (header (f p))" "\<And>p. body (f p) = g (body p)"
  defines "i \<equiv> wr mod unat (queue_size q)"
  shows "submitted valid (store_slot rt i f q) ps wr k \<and> same_queue q (store_slot rt i f q) \<and> doorbell (store_slot rt i f q) = doorbell q \<and>
    body (ring (store_slot rt i f q) ! i) = g (body (ring q ! i))"
proof -
  let ?q = "tick rt q"
  have 1: "submitted valid ?q ps wr k" "same_queue q ?q" "doorbell ?q = doorbell q"
    using processed_submitted [OF ticks sub invalid] by simp_all
  have k': "k < unat (queue_size ?q)" using k 1(2) by simp
  have free: "\<not> valid (header (ring ?q ! i))" "i < length (ring ?q)"
    using free_slot [OF 1(1) k'] 1(2) by (simp_all add: i_def)
  have "i < length (ring q)" using free_slot(2) [OF sub k] by (simp add: i_def)
  then have "body (ring ?q ! i) = body (ring q ! i)"
    using free(2) processed_bodies [OF ticks [of q]] by (metis nth_map)
  then show ?thesis
    using write_invalid [OF 1(1) k' f(1) [OF free(1)]] 1 free(2) f(2) by (simp add: store_slot_def Let_def i_def)
qed

lemma store_fields_submitted:
  assumes "submitted valid q ps wr k" "k < unat (queue_size q)"
  defines "i \<equiv> wr mod unat (queue_size q)"
  shows "submitted valid (fold (\<lambda>f. store_slot rt i (\<lambda>p. p\<lparr>body := f (body p)\<rparr>)) fs q) ps wr k \<and>
    same_queue q (fold (\<lambda>f. store_slot rt i (\<lambda>p. p\<lparr>body := f (body p)\<rparr>)) fs q) \<and>
    doorbell (fold (\<lambda>f. store_slot rt i (\<lambda>p. p\<lparr>body := f (body p)\<rparr>)) fs q) = doorbell q \<and>
    body (ring (fold (\<lambda>f. store_slot rt i (\<lambda>p. p\<lparr>body := f (body p)\<rparr>)) fs q) ! i) = fold (\<lambda>f. f) fs (body (ring q ! i))"
  using assms(1,2) unfolding i_def
proof (induction fs arbitrary: q)
  case Nil
  then show ?case by simp
next
  case (Cons f fs)
  note S = store_slot_submitted [OF Cons.prems, of "\<lambda>p. p\<lparr>body := f (body p)\<rparr>" f]
  then show ?case using Cons.IH [of "store_slot rt (wr mod unat (queue_size q)) (\<lambda>p. p\<lparr>body := f (body p)\<rparr>) q"] Cons.prems(2) by simp
qed

end

subsection \<open>The agent\<close>

text \<open>The values of the signals after a kernel with this completion signal.\<close>

definition decremented :: "'h option \<Rightarrow> ('h \<Rightarrow> 'w::len word option) \<Rightarrow> 'h \<Rightarrow> 'w word option" where
  "decremented signal c = (case signal of None \<Rightarrow> c | Some h \<Rightarrow> c(h := map_option (\<lambda>v. v - 1) (c h)))"

text \<open>
  What the agent may have done between two points of the code: taken packets, and completed kernels that it has taken, in any order.
\<close>

inductive agent_runs ::
  "(16 word \<Rightarrow> bool) \<Rightarrow> 16 word \<Rightarrow> ('s \<Rightarrow> nat) \<Rightarrow> ('s \<Rightarrow> 'h \<Rightarrow> 'w::len word option) \<Rightarrow> ('h, 's) dispatch_state \<Rightarrow> ('h, 's) dispatch_state \<Rightarrow> bool"
  for valid blank ups val
where
  rests: "agent_runs valid blank ups val st st"
| takes: "agent_runs valid blank ups val st st' \<Longrightarrow> valid (header (ring (queue st') ! slot (queue st') (read_index (queue st')))) \<Longrightarrow>
    agent_runs valid blank ups val st (st'\<lparr>queue := launch blank (queue st')\<rparr>)"
| completes: "agent_runs valid blank ups val st st' \<Longrightarrow> add_mset p (completed st') \<subseteq># mset (launched (queue st')) \<Longrightarrow>
    ups s = ups (signals st') \<Longrightarrow>
    val s = decremented (completion_signal (body p)) (val (signals st')) \<Longrightarrow>
    agent_runs valid blank ups val st (st'\<lparr>completed := add_mset p (completed st'), signals := s\<rparr>)"

text \<open>The completion signals of the packets \<open>ps\<close> whose kernels are not among the completed ones \<open>C\<close>.\<close>

abbreviation pending_signals :: "'x dispatch_body packet list \<Rightarrow> 'x dispatch_body packet multiset \<Rightarrow> 'x option set" where
  "pending_signals ps C \<equiv> (\<lambda>p. completion_signal (body p)) ` set_mset (mset ps - C)"

text \<open>
  A wait returns the value of the signal at its end, sooner or later (here it may return at any time).  While a packet waits in the queue or a
  kernel runs, enough calls see the agent take a packet or complete a kernel.
\<close>

locale kernel_agent = packet_processor qrt valid blank + signal_runtime rt ups val
  for qrt :: "('h dispatch_body, 'z) queue_rt_scheme" and valid and blank
    and rt :: "('h, 'w::len word, 's) hsa_rt" and ups and val +
  fixes hsa_signal_wait :: "('h, 'w word, 's) dispatch_wait"
  assumes waited: "0 < ups (signals st) \<Longrightarrow> val (signals st) h \<noteq> None \<Longrightarrow> hsa_signal_wait r h cnd v t ws st = (x, st') \<Longrightarrow>
      agent_runs valid blank ups val st st' \<and> val (signals st') h = Some x"
    and agent_progress: "0 < ups (signals st) \<Longrightarrow> val (signals st) h \<noteq> None \<Longrightarrow>
      valid (header (ring (queue st) ! slot (queue st) (read_index (queue st)))) \<or> completed st \<subset># mset (launched (queue st)) \<Longrightarrow>
      \<exists>k. let st' = ((\<lambda>st. snd (hsa_signal_wait r h cnd v t ws st)) ^^ k) st
          in launched (queue st') \<noteq> launched (queue st) \<or> completed st' \<noteq> completed st"
begin

text \<open>
  The packet is complete when the packet processor can take it, provided that the header 0 of a packet just cleared is not valid, or that
  the packet processor does nothing between the stores (it waits for the doorbell, say).
\<close>

lemma write_packet_submitted:
  fixes signal data_size kobj karg
  assumes sub: "submitted valid q ps wr k" and k: "k < unat (queue_size q)" and "valid (packet_header c)"
    and "\<not> valid 0 \<or> (\<forall>q. tick qrt q = q)"
  defines "q' \<equiv> write_packet c qrt (of_nat wr) signal data_size kobj karg q"
  shows "submitted valid q' (ps @ [dispatch_packet c signal data_size kobj karg]) (wr + 1) (k + 1) \<and>
    same_queue q q' \<and> doorbell q' = doorbell q"
proof -
  let ?p = "dispatch_packet c signal data_size kobj karg" and ?i = "wr mod unat (queue_size q)"
  have p: "header ?p = packet_header c" "body ?p\<lparr>completion_signal := Some signal\<rparr> = body ?p" by (simp_all add: dispatch_packet_def)
  have i: "unat (of_nat wr mod ucast (queue_size q) :: 64 word) = ?i" using mod_slot submitted_size [OF sub] by blast
  show ?thesis
  proof (cases "valid 0")
    case True
    then have idle: "tick qrt q = q" for q using assms(4) by blast
    have store: "store_slot qrt j f q = q\<lparr>ring := (ring q)[j := f (ring q ! j)]\<rparr>" for j f and q :: "'h dispatch_body queue"
      by (simp add: store_slot_def idle)
    have il: "?i < length (ring q)" using free_slot(2) [OF sub k] .
    have fields: "fold (\<lambda>f. store_slot qrt j (\<lambda>p. p\<lparr>body := f (body p)\<rparr>)) fs q =
        q\<lparr>ring := (ring q)[j := (ring q ! j)\<lparr>body := fold (\<lambda>f. f) fs (body (ring q ! j))\<rparr>]\<rparr>" if "j < length (ring q)" for j fs q
      using that by (induction fs arbitrary: q) (simp_all add: store)
    have q': "q' = q\<lparr>ring := (ring q)[?i := ?p]\<rparr>"
      using il p(1) fold_packet_fields [of c signal data_size kobj karg]
      by (simp add: q'_def write_packet_def i store fields zero_packet_def del: fold_simps) (simp add: dispatch_packet_def)
    let ?q1 = "q\<lparr>ring := (ring q)[?i := (ring q ! ?i)\<lparr>body := body ?p\<rparr>]\<rparr>"
    have 1: "submitted valid ?q1 ps wr k" by (rule write_body [OF sub k])
    have same: "x\<lparr>body := body ?p, header := packet_header c\<rparr> = ?p" for x by (cases x) (simp add: dispatch_packet_def)
    have "submitted valid q' (ps @ [?p]) (wr + 1) (k + 1)"
      using write_header [OF 1, of ?p] k il assms(3) by (simp add: p(1) q' same)
    then show ?thesis by (simp add: q')
  next
    case False
    define q1 where "q1 = store_slot qrt ?i (\<lambda>_. zero_packet) q"
    define q2 where "q2 = fold (\<lambda>f. store_slot qrt ?i (\<lambda>p. p\<lparr>body := f (body p)\<rparr>)) (packet_fields c signal data_size kobj karg) q1"
    define q3 where "q3 = tick qrt q2"
    have 1: "submitted valid q1 ps wr k" "same_queue q q1" "doorbell q1 = doorbell q" "body (ring q1 ! ?i) = body zero_packet"
      using store_slot_submitted [OF sub k, of "\<lambda>_. zero_packet" "\<lambda>_. body zero_packet"] False
      by (simp_all add: q1_def zero_packet_def)
    have 2: "submitted valid q2 ps wr k" "same_queue q q2" "doorbell q2 = doorbell q" "body (ring q2 ! ?i) = body ?p"
      using store_fields_submitted [OF 1(1), of "packet_fields c signal data_size kobj karg"] k 1
      by (simp_all add: q2_def fold_packet_fields)
    have 3: "submitted valid q3 ps wr k" "same_queue q2 q3" "doorbell q3 = doorbell q2"
      using processed_submitted [OF ticks 2(1) invalid] by (simp_all add: q3_def)
    have il: "?i < length (ring q2)" "?i < length (ring q3)"
      using free_slot(2) [OF 2(1)] free_slot(2) [OF 3(1)] 2(2) 3(2) k by simp_all
    have "map body (ring q3) ! ?i = map body (ring q2) ! ?i"
      using processed_bodies [OF ticks [of q2]] by (simp add: q3_def)
    then have "body (ring q3 ! ?i) = body ?p" using il 2(4) by simp
    then have "submitted valid (q3\<lparr>ring := (ring q3)[?i := (ring q3 ! ?i)\<lparr>header := header ?p\<rparr>]\<rparr>) (ps @ [?p]) (wr + 1) (k + 1)"
      using write_header [OF 3(1), of ?p] 2(2) 3(2) k assms(3) p(1) by simp
    moreover have "q' = q3\<lparr>ring := (ring q3)[?i := (ring q3 ! ?i)\<lparr>header := header ?p\<rparr>]\<rparr>"
      by (simp add: q'_def write_packet_def i q1_def q2_def q3_def p(1) store_slot_def [of qrt ?i "\<lambda>p. p\<lparr>header := packet_header c\<rparr>"] Let_def)
    ultimately show ?thesis using 2 3 by simp
  qed
qed

text \<open>No step of the code takes a packet back from the packet processor.\<close>

lemma grows_add_write_index: "hsa_queue_add_write_index qrt n q = (w, q') \<Longrightarrow> grows q q'"
  using add_write_index [of n q w q'] processed_launched by (fastforce simp: grows_def)

lemma grows_wait: "wait_while (hsa_queue_load_read_index qrt) full q = Some q' \<Longrightarrow> grows q q'"
proof (erule wait_while_keeps)
  fix q
  obtain r q1 where "hsa_queue_load_read_index qrt q = (r, q1)" by (cases "hsa_queue_load_read_index qrt q")
  then show "grows q (snd (hsa_queue_load_read_index qrt q))"
    using load_read_index [of q r q1] processed_launched [of valid blank q q1] by (simp add: grows_def)
qed (rule grows_trans)

lemma grows_store: "grows q (store_slot qrt i f q)"
  using processed_launched [OF ticks [of q]] by (simp add: grows_def store_slot_def Let_def)

lemma grows_fold: "(\<And>f q. f \<in> set fs \<Longrightarrow> grows q (g f q)) \<Longrightarrow> grows q (fold g fs q)"
proof (induction fs arbitrary: q)
  case Nil
  then show ?case by (simp add: grows_def)
next
  case (Cons f fs)
  have "grows q (g f q)" "grows (g f q) (fold g fs (g f q))" using Cons by simp_all
  then show ?case using grows_trans by simp
qed

lemma grows_write: "grows q (write_packet c qrt packet_id signal data_size kobj karg q)"
  unfolding write_packet_def Let_def
  by (rule grows_trans [OF grows_trans [OF grows_store grows_fold] grows_store]) (rule grows_store)

lemma grows_doorbell: "grows q (hsa_signal_store_doorbell qrt v q)"
  using processed_launched [OF store_doorbell [of v q]] by (simp add: grows_def)

text \<open>
  The kernel \<open>p\<close> has been dispatched with the completion signal \<open>h\<close> after the packets \<open>ps\<close>, when the kernels \<open>C\<close> had completed; \<open>c\<close>
  gives the signals of which no kernel that had not completed is to decrement.
\<close>

definition dispatched ::
  "nat \<Rightarrow> 'h \<Rightarrow> 'h dispatch_body packet \<Rightarrow> 'h dispatch_body packet list \<Rightarrow> nat \<Rightarrow> nat \<Rightarrow> ('h \<Rightarrow> 'w word option) \<Rightarrow>
     'h dispatch_body packet multiset \<Rightarrow> ('h, 's) dispatch_state \<Rightarrow> bool"
where
  "dispatched u h p ps wr k c C st \<longleftrightarrow>
     submitted valid (queue st) (ps @ [p]) wr k \<and> C \<subseteq># completed st \<and> completed st \<subseteq># mset (launched (queue st)) \<and>
     ups (signals st) = u \<and> val (signals st) h = Some (if count (completed st) p = count C p then 1 else 0) \<and>
     (\<forall>x. x \<noteq> h \<longrightarrow> Some x \<notin> pending_signals ps C \<longrightarrow> val (signals st) x = c x)"

definition work :: "nat \<Rightarrow> ('h, 's) dispatch_state \<Rightarrow> nat" where
  "work n st = (n - length (launched (queue st))) + (n - size (completed st))"

lemma launched_submitted: "submitted valid q ps wr k \<Longrightarrow> length (launched q) \<le> length ps \<and> mset (launched q) \<subseteq># mset ps"
  by (auto simp: submitted_def)

lemma completes_one:
  assumes "C \<subseteq># D" "add_mset p' D \<subseteq># mset (ps @ [p])" "completion_signal (body p) \<notin> pending_signals ps C"
  shows "p' = p \<and> count D p = count C p \<or> p' \<noteq> p \<and> p' \<in># mset ps - C"
proof -
  note le = mset_subset_eq_count [OF assms(2)] mset_subset_eq_count [OF assms(1)]
  have "p \<notin># mset ps - C" using assms(3) by blast
  then have "count (mset ps) p \<le> count C p" by (simp add: not_in_iff)
  then show ?thesis
    using le(1) [of p'] le(2) [of p'] by (cases "p' = p") (auto simp: count_greater_zero_iff [symmetric] simp del: count_greater_zero_iff)
qed

lemma dispatched_runs:
  assumes "agent_runs valid blank ups val st st'" "dispatched u h p ps wr k c C st"
    and h: "completion_signal (body p) = Some h" "Some h \<notin> pending_signals ps C"
  shows "dispatched u h p ps wr k c C st' \<and>
    (\<exists>ys. launched (queue st') = launched (queue st) @ ys) \<and> completed st \<subseteq># completed st' \<and> same_queue (queue st) (queue st') \<and>
    doorbell (queue st') = doorbell (queue st)"
  using assms(1,2)
proof (induction rule: agent_runs.induct)
  case (rests st)
  then show ?case by simp
next
  case (takes st st')
  then have st': "dispatched u h p ps wr k c C st'" by blast
  have "processed valid blank (queue st') (launch blank (queue st'))"
    by (rule processed.takes) (auto intro: processed.idle takes.hyps(2))
  note P = processed_submitted [OF this _ invalid] processed_launched [OF this]
  then obtain ys where "launched (launch blank (queue st')) = launched (queue st') @ ys" by blast
  then show ?case
    using takes P(1) [of "ps @ [p]" wr k] st' by (auto simp: dispatched_def intro: subset_mset.order_trans)
next
  case (completes st st' p' s)
  then have st': "dispatched u h p ps wr k c C st'" by blast
  have "add_mset p' (completed st') \<subseteq># mset (ps @ [p])"
    using completes.hyps(2) launched_submitted [of "queue st'" "ps @ [p]" wr k] st' unfolding dispatched_def
    by (blast intro: subset_mset.order_trans)
  then consider "p' = p" "count (completed st') p = count C p" | "p' \<noteq> p" "p' \<in># mset ps - C"
    using completes_one [of C "completed st'" p' ps p] st' h by (auto simp: dispatched_def)
  then show ?case
  proof cases
    case 1
    then have "val s h = Some 0" using completes.hyps(4) st' h(1) by (simp add: dispatched_def decremented_def)
    then show ?thesis
      using completes st' 1 h(1) by (auto simp: dispatched_def decremented_def intro: subset_mset.order_trans subset_mset.add_increasing)
  next
    case 2
    then have other: "completion_signal (body p') \<noteq> Some h" "completion_signal (body p') \<in> pending_signals ps C"
      using h(2) by force+
    then have "val s x = val (signals st') x" if "x = h \<or> Some x \<notin> pending_signals ps C" for x
      using completes.hyps(4) that by (auto simp: decremented_def split: option.split)
    then show ?thesis
      using completes st' 2 by (auto simp: dispatched_def intro: subset_mset.order_trans subset_mset.add_increasing)
  qed
qed

text \<open>The loop that waits for the kernel ends, whatever packets are in the queue before it.\<close>

lemma dispatch_waits:
  assumes st: "dispatched u h p ps wr k c C st" "0 < u" and C: "C \<subseteq># mset ps"
    and h: "completion_signal (body p) = Some h" "Some h \<notin> pending_signals ps C"
  obtains st' where "wait_while (hsa_signal_wait r h cnd v t ws) (\<lambda>v. 0 \<noteq> v) st = Some st'"
    "dispatched u h p ps wr k c C st'" "count (completed st') p \<noteq> count C p" "same_queue (queue st) (queue st')" "doorbell (queue st') = doorbell (queue st)"
proof -
  let ?load = "hsa_signal_wait r h cnd v t ws" and ?n = "Suc (length ps)"
  define Inv where "Inv st' \<longleftrightarrow> dispatched u h p ps wr k c C st' \<and> same_queue (queue st) (queue st') \<and>
      doorbell (queue st') = doorbell (queue st)" for st'
  have bounds: "length (launched (queue s)) \<le> ?n" "size (completed s) \<le> ?n" if "Inv s" for s
    using that launched_submitted [of "queue s" "ps @ [p]" wr k] unfolding Inv_def dispatched_def
    by (auto dest: size_mset_mono)
  have loaded: "Inv s1 \<and> val (signals s1) h = Some (fst (?load s)) \<and>
      (\<exists>ys. launched (queue s1) = launched (queue s) @ ys) \<and> completed s \<subseteq># completed s1"
    if "Inv s" "s1 = snd (?load s)" for s s1
  proof -
    have s: "dispatched u h p ps wr k c C s" using that(1) by (simp add: Inv_def)
    then have "0 < ups (signals s)" "val (signals s) h \<noteq> None" using st(2) by (simp_all add: dispatched_def)
    moreover have "?load s = (fst (?load s), s1)" by (simp add: that(2))
    ultimately have w: "agent_runs valid blank ups val s s1 \<and> val (signals s1) h = Some (fst (?load s))" by (rule waited)
    then show ?thesis using dispatched_runs [OF _ s h] that(1) by (simp add: Inv_def)
  qed
  have later: "Inv (((\<lambda>s. snd (?load s)) ^^ k) s) \<and> (\<exists>ys. launched (queue (((\<lambda>s. snd (?load s)) ^^ k) s)) = launched (queue s) @ ys) \<and>
      completed s \<subseteq># completed (((\<lambda>s. snd (?load s)) ^^ k) s)" if "Inv s" for k s
    using that
  proof (induction k)
    case (Suc k)
    then show ?case
      using loaded [OF _ HOL.refl, of "((\<lambda>s. snd (?load s)) ^^ k) s"] by (auto intro: subset_mset.order_trans)
  qed simp
  have work: "work ?n s' \<le> work ?n s \<and> (launched (queue s') \<noteq> launched (queue s) \<or> completed s' \<noteq> completed s \<longrightarrow> work ?n s' < work ?n s)"
    if "Inv s" "Inv s'" "launched (queue s') = launched (queue s) @ ys" "completed s \<subseteq># completed s'" for s s' ys
  proof -
    have len: "length (launched (queue s')) = length (launched (queue s)) + length ys" by (simp add: that(3))
    have more: "0 < length ys \<or> size (completed s) < size (completed s')"
      if "launched (queue s') \<noteq> launched (queue s) \<or> completed s' \<noteq> completed s"
      using that \<open>launched (queue s') = _\<close> \<open>completed s \<subseteq># completed s'\<close>
      by (auto dest: subset_mset.le_neq_trans intro: mset_subset_size)
    show ?thesis
    proof (intro conjI impI)
      show "work ?n s' \<le> work ?n s" using len size_mset_mono [OF that(4)] unfolding work_def by linarith
      assume "launched (queue s') \<noteq> launched (queue s) \<or> completed s' \<noteq> completed s"
      from more [OF this] show "work ?n s' < work ?n s"
        using len size_mset_mono [OF that(4)] bounds [OF that(1)] bounds [OF that(2)] unfolding work_def by linarith
    qed
  qed
  have goes_on: "\<exists>k. work ?n (((\<lambda>s. snd (?load s)) ^^ k) s) < work ?n s" if s: "Inv s" "0 \<noteq> fst (?load s)" for s
  proof -
    define s1 where "s1 = snd (?load s)"
    have s1: "Inv s1" "val (signals s1) h = Some (fst (?load s))" "work ?n s1 \<le> work ?n s"
      using loaded [OF s(1) s1_def] work [OF s(1)] by blast+
    have not_yet: "count (completed s1) p = count C p" using s1(1,2) s(2) by (auto simp: Inv_def dispatched_def split: if_splits)
    obtain rd xs where xs: "queue_rep valid (queue s1) rd xs" "launched (queue s1) @ xs = ps @ [p]"
      using s1(1) by (auto simp: Inv_def dispatched_def submitted_def)
    have "valid (header (ring (queue s1) ! slot (queue s1) (read_index (queue s1)))) \<or> completed s1 \<subset># mset (launched (queue s1))"
    proof (cases "xs = []")
      case True
      then have "count (mset (launched (queue s1))) p = Suc (count (mset ps) p)" using xs(2) by simp
      moreover have "count C p \<le> count (mset ps) p" by (rule mset_subset_eq_count [OF C])
      ultimately have "completed s1 \<noteq> mset (launched (queue s1))" using not_yet by (metis Suc_n_not_le_n)
      then show ?thesis using s1(1) by (simp add: Inv_def dispatched_def subset_mset.le_neq_trans)
    qed (use first_to_launch [OF xs(1)] in blast)
    then obtain k where k: "launched (queue (((\<lambda>s. snd (?load s)) ^^ k) s1)) \<noteq> launched (queue s1) \<or>
        completed (((\<lambda>s. snd (?load s)) ^^ k) s1) \<noteq> completed s1"
      using agent_progress [of s1 h r cnd v t ws] s1(1,2) st(2) by (auto simp: Inv_def dispatched_def Let_def)
    have "work ?n (((\<lambda>s. snd (?load s)) ^^ k) s1) < work ?n s1"
      using work [OF s1(1)] later [OF s1(1), of k] k by blast
    also note s1(3)
    also have "((\<lambda>s. snd (?load s)) ^^ k) s1 = ((\<lambda>s. snd (?load s)) ^^ Suc k) s"
      by (simp only: funpow_Suc_right comp_apply s1_def)
    finally show ?thesis by (rule exI)
  qed
  have keeps: "Inv (snd (?load s)) \<and> work ?n (snd (?load s)) \<le> work ?n s" if "Inv s" for s
    using loaded [OF that HOL.refl] work [OF that] by blast
  have "Inv st" using st(1) by (simp add: Inv_def)
  from wait_while_returns [where Inv = Inv and m = "work ?n" and load = ?load and full = "\<lambda>v. 0 \<noteq> v", OF this keeps goes_on]
  obtain s0 where s0: "Inv s0" "fst (?load s0) = 0" "wait_while ?load (\<lambda>v. 0 \<noteq> v) st = Some (snd (?load s0))" by metis
  then have "Inv (snd (?load s0))" "val (signals (snd (?load s0))) h = Some 0" using loaded [OF s0(1) HOL.refl] by simp_all
  then show thesis using that s0(3) by (auto simp: Inv_def dispatched_def split: if_splits)
qed

text \<open>All of the function.\<close>

lemma dispatch_returns:
  assumes sub: "submitted valid (queue st) ps wr k" "write_index (queue st) = of_nat wr" "completed st \<subseteq># mset (launched (queue st))"
    and up: "0 < ups (signals st)" "\<And>h. Some h \<in> pending_signals ps (completed st) \<Longrightarrow> val (signals st) h \<noteq> None"
    and "valid (packet_header c)" "\<not> valid 0 \<or> (\<forall>q. tick qrt q = q)"
  shows "\<exists>st' h k'. dispatch_kernel_1d_data c qrt rt hsa_signal_wait data_size kobj karg st = Some st' \<and>
    (let p = dispatch_packet c h data_size kobj karg in
     submitted valid (queue st') (ps @ [p]) (wr + 1) k' \<and> write_index (queue st') = of_nat (wr + 1) \<and>
     queue_size (queue st') = queue_size (queue st) \<and> doorbell (queue st') = of_nat wr # doorbell (queue st) \<and>
     add_mset p (completed st) \<subseteq># completed st' \<and> completed st' \<subseteq># mset (launched (queue st')) \<and>
     ups (signals st') = ups (signals st) \<and>
     (\<forall>x. Some x \<notin> pending_signals ps (completed st) \<longrightarrow> val (signals st') x = val (signals st) x))"
proof -
  let ?u = "ups (signals st)" and ?sz = "queue_size (queue st)"
  obtain status h s1 where cr: "hsa_signal_create rt 1 0 [] (signals st) = (status, h, s1)" by (rule prod_cases3)
  note s1 = create [OF up(1) cr]
  let ?p = "dispatch_packet c h data_size kobj karg"
  have h: "completion_signal (body ?p) = Some h" "Some h \<notin> pending_signals ps (completed st)"
    using s1 up(2) by (simp add: dispatch_packet_def) (use s1 up(2) in blast)
  obtain w q1 where q1: "hsa_queue_add_write_index qrt 1 (queue st) = (w, q1)" by fastforce
  note R = reserve [OF sub(1) q1]
  have pos: "0 < unat ?sz" using sub(1) by (auto simp: submitted_def dest: queue_repD(5))
  then have "full_test (\<lambda>r. of_nat wr - r \<ge> (ucast ?sz :: 64 word)) ?sz 1 wr" "1 \<le> unat ?sz"
    using waits_for_slot by simp_all
  with wait_while_submitted [of q1 ps wr k ?sz] R obtain q2 where
    q2: "wait_while (hsa_queue_load_read_index qrt) (\<lambda>r. of_nat wr - r \<ge> (ucast ?sz :: 64 word)) q1 = Some q2"
      "submitted valid q2 ps wr (min k (unat ?sz - 1))" "same_queue q1 q2" "doorbell q2 = doorbell q1"
    by blast
  let ?k = "min k (unat ?sz - 1)"
  have k: "?k < unat (queue_size q2)" using pos q2(3) R by simp
  define q3 where "q3 = write_packet c qrt (of_nat wr) h data_size kobj karg q2"
  have q3: "submitted valid q3 (ps @ [?p]) (wr + 1) (?k + 1)" "same_queue q2 q3" "doorbell q3 = doorbell q2"
    using write_packet_submitted [OF q2(2) k assms(6,7)] by (simp_all add: q3_def)
  define q4 where "q4 = hsa_signal_store_doorbell qrt (of_nat wr) q3"
  have q4: "submitted valid q4 (ps @ [?p]) (wr + 1) (?k + 1)" "same_queue q3 q4" "doorbell q4 = of_nat wr # doorbell q3"
    using ring_doorbell [OF q3(1)] by (simp_all add: q4_def)
  have "grows (queue st) q4"
    unfolding q4_def q3_def
    by (rule grows_trans [OF grows_trans [OF grows_trans [OF grows_add_write_index [OF q1] grows_wait [OF q2(1)]] grows_write] grows_doorbell])
  then have done_4: "completed st \<subseteq># mset (launched q4)"
    using sub(3) by (auto simp: grows_def intro: subset_mset.order_trans)
  let ?st = "st\<lparr>queue := q4, signals := s1\<rparr>"
  have D: "dispatched ?u h ?p ps (wr + 1) (?k + 1) (val (signals st)) (completed st) ?st"
    using q4(1) done_4 s1 by (simp add: dispatched_def)
  have C: "completed st \<subseteq># mset ps"
    using sub(3) launched_submitted [OF sub(1)] by (blast intro: subset_mset.order_trans)
  obtain st5 where
    st5: "wait_while (hsa_signal_wait Acquire h HSA_SIGNAL_CONDITION_EQ 0 UINT64_MAX HSA_WAIT_STATE_BLOCKED) (\<lambda>v. 0 \<noteq> v) ?st = Some st5"
      "dispatched ?u h ?p ps (wr + 1) (?k + 1) (val (signals st)) (completed st) st5"
      "count (completed st5) ?p \<noteq> count (completed st) ?p" "same_queue q4 (queue st5)" "doorbell (queue st5) = doorbell q4"
    by (rule dispatch_waits [OF D up(1) C h]) simp
  obtain status' s6 where s6: "hsa_signal_destroy rt h (signals st5) = (status', s6)" by fastforce
  have "0 < ups (signals st5)" "val (signals st5) h = Some 0" using st5(2,3) up(1) by (auto simp: dispatched_def)
  note s6' = destroy [OF this s6]
  have "dispatch_kernel_1d_data c qrt rt hsa_signal_wait data_size kobj karg st = Some (st5\<lparr>signals := s6\<rparr>)"
    using cr s1 q1 R sub(2) q2(1) st5(1) s6 by (simp add: dispatch_kernel_1d_data_def q3_def q4_def)
  moreover have "add_mset ?p (completed st) \<subseteq># completed st5"
  proof (rule mset_subset_eqI)
    fix a
    have "count (completed st) a \<le> count (completed st5) a"
      using st5(2) by (simp add: dispatched_def mset_subset_eq_count)
    then show "count (add_mset ?p (completed st)) a \<le> count (completed st5) a" using st5(3) by auto
  qed
  moreover have "val s6 x = val (signals st) x" if "Some x \<notin> pending_signals ps (completed st)" for x
    using that s6' st5(2) s1 by (cases "x = h") (auto simp: dispatched_def)
  ultimately show ?thesis
    using st5(2,4,5) s6' q4(2,3) q3(2,3) q2(3,4) R sub(2)
    by (intro exI [of _ "st5\<lparr>signals := s6\<rparr>"] exI [of _ h] exI [of _ "?k + 1"]) (simp add: dispatched_def Let_def)
qed

end

subsection \<open>An agent\<close>

text \<open>During each wait it takes one packet, or completes one kernel when there is no packet to take.\<close>

definition sample_agent_wait :: "(nat, 'w::len word, 'w word ref_state) dispatch_wait" where
  "sample_agent_wait r h cnd v t ws st =
     (let q = queue st;
          st = (if sample_valid (header (ring q ! slot q (read_index q))) then st\<lparr>queue := launch 1 q\<rparr>
                else case find (\<lambda>p. add_mset p (completed st) \<subseteq># mset (launched q)) (launched q) of
                  None \<Rightarrow> st
                | Some p \<Rightarrow> st\<lparr>completed := add_mset p (completed st),
                    signals := (case completion_signal (body p) of None \<Rightarrow> signals st
                      | Some h \<Rightarrow> ref_update h (\<lambda>v. v - 1) (signals st))\<rparr>)
      in (ref_load h (signals st), st))"

lemma ref_decremented:
  "ref_ups (case signal of None \<Rightarrow> s | Some h \<Rightarrow> ref_update h (\<lambda>v. v - 1) s) = ref_ups s"
  "ref_val (case signal of None \<Rightarrow> s | Some h \<Rightarrow> ref_update h (\<lambda>v. v - 1) s) = decremented signal (ref_val s)"
proof -
  have none: "ref_update h (\<lambda>v. v - 1) s = s" if "ref_val s h = None" for h
    using that by (simp add: ref_update_def)
  show "ref_ups (case signal of None \<Rightarrow> s | Some h \<Rightarrow> ref_update h (\<lambda>v. v - 1) s) = ref_ups s"
    "ref_val (case signal of None \<Rightarrow> s | Some h \<Rightarrow> ref_update h (\<lambda>v. v - 1) s) = decremented signal (ref_val s)"
    by (cases signal; simp add: decremented_def; cases "ref_val s (the signal)";
        simp add: none ref_update_val fun_upd_idem)+
qed

lemma one_more:
  assumes "C \<subset># mset xs"
  shows "find (\<lambda>p. add_mset p C \<subseteq># mset xs) xs \<noteq> None"
proof -
  obtain p where p: "p \<in># mset xs - C" using assms by (metis Diff_eq_empty_iff_mset multiset_nonemptyE subset_mset.less_le_not_le)
  then have "add_mset p C \<subseteq># mset xs"
    using assms by (metis insert_subset_eq_iff mset_subset_eq_insertD subset_mset.less_imp_le add_mset_add_single
        subset_mset.add_diff_inverse subset_mset.add_left_mono mset_subset_eq_single)
  moreover have "p \<in> set xs" using p by (metis in_diffD set_mset_mset)
  ultimately show ?thesis by (auto simp: find_None_iff)
qed

interpretation sample_agent: kernel_agent sample_queue_rt sample_valid 1 reference_rt ref_ups ref_val sample_agent_wait
proof unfold_locales
  fix st st' :: "(nat, 'w::len word ref_state) dispatch_state" and h r cnd v t ws x
  assume up: "0 < ref_ups (signals st)" "ref_val (signals st) h \<noteq> None"
  let ?head = "sample_valid (header (ring (queue st) ! slot (queue st) (read_index (queue st))))"
    and ?found = "find (\<lambda>p. add_mset p (completed st) \<subseteq># mset (launched (queue st))) (launched (queue st))"
  { assume "sample_agent_wait r h cnd v t ws st = (x, st')"
    then have st': "st' = (if ?head then st\<lparr>queue := launch 1 (queue st)\<rparr> else case ?found of None \<Rightarrow> st
        | Some p \<Rightarrow> st\<lparr>completed := add_mset p (completed st),
                    signals := (case completion_signal (body p) of None \<Rightarrow> signals st
                      | Some h \<Rightarrow> ref_update h (\<lambda>v. v - 1) (signals st))\<rparr>)"
      and x: "x = ref_load h (signals st')"
      by (auto simp: sample_agent_wait_def Let_def)
    have runs: "agent_runs sample_valid 1 ref_ups ref_val st st'"
    proof (cases ?head)
      case True
      then show ?thesis using st' agent_runs.takes [OF agent_runs.rests, of sample_valid st] by simp
    next
      case False
      show ?thesis
      proof (cases ?found)
        case None
        then show ?thesis using False st' by (simp add: agent_runs.rests)
      next
        case (Some p)
        then have "add_mset p (completed st) \<subseteq># mset (launched (queue st))" by (auto simp: find_Some_iff)
        with agent_runs.rests have "agent_runs sample_valid 1 ref_ups ref_val st (st\<lparr>completed := add_mset p (completed st),
            signals := (case completion_signal (body p) of None \<Rightarrow> signals st
              | Some h \<Rightarrow> ref_update h (\<lambda>v. v - 1) (signals st))\<rparr>)"
          by (rule agent_runs.completes) (rule ref_decremented)+
        then show ?thesis using False st' Some by simp
      qed
    qed
    have "ref_val (signals st') h \<noteq> None"
      using st' up(2) by (auto simp: ref_decremented decremented_def split: option.splits if_splits)
    then show "agent_runs sample_valid 1 ref_ups ref_val st st' \<and> ref_val (signals st') h = Some x"
      using runs x by (auto simp: ref_load_val) }
  assume "?head \<or> completed st \<subset># mset (launched (queue st))"
  then have "launched (queue (snd (sample_agent_wait r h cnd v t ws st))) \<noteq> launched (queue st) \<or>
      completed (snd (sample_agent_wait r h cnd v t ws st)) \<noteq> completed st"
    using one_more [of "completed st" "launched (queue st)"]
    by (auto simp: sample_agent_wait_def Let_def launch_def)
  then show "\<exists>k. let st' = ((\<lambda>st. snd (sample_agent_wait r h cnd v t ws st)) ^^ k) st
      in launched (queue st') \<noteq> launched (queue st) \<or> completed st' \<noteq> completed st"
    by (intro exI [of _ 1]) simp
qed

subsection \<open>Properties\<close>

text \<open>
  C29.  \<open>dispatch_kernel_1d_data\<close> returns, whatever packets are in the queue before its own and whenever its waits return: it has waited for
  room in the ring, its packet has been appended to the sequence of submitted packets and its index stored to the doorbell, its kernel has
  completed exactly once more, and its completion signal is destroyed; all other signals are as they were but for those of kernels that were
  pending.  The packet processor must not take a packet whose header is 0, or must take none while the packet is written.
\<close>

theorem dispatch_kernel_correct:
  assumes "kernel_agent qrt valid blank rt ups val wt"
    and "submitted valid (queue st) ps wr k" "write_index (queue st) = of_nat wr" "completed st \<subseteq># mset (launched (queue st))"
    and "0 < ups (signals st)" "\<forall>h. Some h \<in> pending_signals ps (completed st) \<longrightarrow> val (signals st) h \<noteq> None"
    and "valid (packet_header c)" "\<not> valid 0 \<or> (\<forall>q. tick qrt q = q)"
  shows "\<exists>st' h k'. dispatch_kernel_1d_data c qrt rt wt data_size kobj karg st = Some st' \<and>
    (let p = dispatch_packet c h data_size kobj karg in
     submitted valid (queue st') (ps @ [p]) (wr + 1) k' \<and> write_index (queue st') = of_nat (wr + 1) \<and>
     queue_size (queue st') = queue_size (queue st) \<and> doorbell (queue st') = of_nat wr # doorbell (queue st) \<and>
     add_mset p (completed st) \<subseteq># completed st' \<and> completed st' \<subseteq># mset (launched (queue st')) \<and>
     ups (signals st') = ups (signals st) \<and>
     (\<forall>x. Some x \<notin> pending_signals ps (completed st) \<longrightarrow> val (signals st') x = val (signals st) x))"
  by (rule kernel_agent.dispatch_returns [OF assms(1-5) _ assms(7,8)]) (use assms(6) in blast)

text \<open>The constants of \<open>hsa.h\<close> in version 1.0, and a queue for two packets.\<close>

definition hsa_1_0 :: packet_constants where
  "hsa_1_0 = \<lparr>HSA_FENCE_SCOPE_SYSTEM = 2, HSA_PACKET_TYPE_KERNEL_DISPATCH = 2, HSA_PACKET_HEADER_ACQUIRE_FENCE_SCOPE = 9,
     HSA_PACKET_HEADER_RELEASE_FENCE_SCOPE = 11, HSA_PACKET_HEADER_TYPE = 0, HSA_KERNEL_DISPATCH_PACKET_SETUP_DIMENSIONS = 0\<rparr>"

definition blank_queue :: "nat dispatch_body queue" where
  "blank_queue = \<lparr>queue_size = 2, ring = replicate 2 (zero_packet\<lparr>header := 1\<rparr>), write_index = 0, read_index = 0, doorbell = [], launched = []\<rparr>"

definition sample_system :: "(nat, 64 word ref_state) dispatch_state" where
  "sample_system = \<lparr>queue = blank_queue, completed = {#}, signals = ref_start\<lparr>ref_ups := 1\<rparr>\<rparr>"

lemma blank_queue [simp]: "queue_size blank_queue = 2" "launched blank_queue = []" "doorbell blank_queue = []" "write_index blank_queue = 0"
  by (simp_all add: blank_queue_def)

lemma blank_queue_rep: "queue_rep sample_valid blank_queue 0 []"
proof -
  have "power_of_two_size blank_queue"
    by (auto simp: power_of_two_size_def intro: exI [of _ 1])
  moreover have "unat (queue_size blank_queue) = 2" by simp
  ultimately show ?thesis by (simp add: queue_rep_def) (simp add: blank_queue_def sample_valid_def)
qed

theorem dispatch_kernel_correct_witness:
  "\<exists>st' h. dispatch_kernel_1d_data hsa_1_0 sample_queue_rt reference_rt sample_agent_wait 64 5 6 sample_system = Some st' \<and>
    dispatch_packet hsa_1_0 h 64 5 6 \<in># completed st' \<and> doorbell (queue st') = [0]"
proof -
  have "submitted sample_valid (queue sample_system) [] 0 0"
    using blank_queue_rep by (auto simp: submitted_def sample_system_def intro!: exI [of _ 0] exI [of _ "[]"])
  from dispatch_kernel_correct [OF sample_agent.kernel_agent_axioms this, of hsa_1_0 64 5 6]
  obtain st' h where st': "dispatch_kernel_1d_data hsa_1_0 sample_queue_rt reference_rt sample_agent_wait 64 5 6 sample_system = Some st'"
    "add_mset (dispatch_packet hsa_1_0 h 64 5 6) (completed sample_system) \<subseteq># completed st'"
    "doorbell (queue st') = of_nat 0 # doorbell (queue sample_system)"
    by (auto simp: sample_system_def sample_valid_def packet_header_def hsa_1_0_def sample_queue_rt_def Let_def)
  then show ?thesis by (auto simp: sample_system_def dest: mset_subset_eqD)
qed

text \<open>A packet processor that looks for a packet at all times.\<close>

definition eager_queue_rt :: "'b queue_rt" where
  "eager_queue_rt = sample_queue_rt\<lparr>tick := take_one\<rparr>"

interpretation eager: packet_processor eager_queue_rt sample_valid 1
proof unfold_locales
  fix q q' :: "'b queue" and n w r
  show "hsa_queue_add_write_index eager_queue_rt n q = (w, q') \<Longrightarrow>
      w = write_index q \<and> processed sample_valid 1 (q\<lparr>write_index := write_index q + n\<rparr>) q'"
    using sample.add_write_index [of n q w q'] by (simp add: eager_queue_rt_def)
  show "hsa_queue_load_read_index eager_queue_rt q = (r, q') \<Longrightarrow> processed sample_valid 1 q q' \<and> r = read_index q'"
    using sample.load_read_index [of q r q'] by (simp add: eager_queue_rt_def)
  show "sample_valid (header (ring q ! slot q (read_index q))) \<Longrightarrow>
      \<exists>k. read_index (((\<lambda>q. snd (hsa_queue_load_read_index eager_queue_rt q)) ^^ k) q) \<noteq> read_index q"
    using sample.progress [of q] by (simp add: eager_queue_rt_def)
next
  fix q :: "'b queue" and v
  show "processed sample_valid 1 (q\<lparr>doorbell := v # doorbell q\<rparr>) (hsa_signal_store_doorbell eager_queue_rt v q)"
    using sample.store_doorbell [of v q] by (simp add: eager_queue_rt_def)
  show "processed sample_valid 1 q (tick eager_queue_rt q)"
    by (auto simp: eager_queue_rt_def take_one_def intro: processed.takes processed.idle)
  show "\<not> sample_valid 1" by (rule sample.invalid)
qed

lemma eager_store:
  assumes "\<not> sample_valid (header (ring q ! slot q (read_index q)))"
  shows "store_slot eager_queue_rt i f q = q\<lparr>ring := (ring q)[i := f (ring q ! i)]\<rparr>"
  using assms by (simp add: store_slot_def eager_queue_rt_def take_one_def)

lemma eager_fields:
  assumes "\<not> sample_valid (header (ring q ! slot q (read_index q)))" "i \<noteq> slot q (read_index q)"
  shows "launched (fold (\<lambda>f. store_slot eager_queue_rt i (g f)) fs q) = launched q \<and>
    read_index (fold (\<lambda>f. store_slot eager_queue_rt i (g f)) fs q) = read_index q \<and>
    \<not> sample_valid (header (ring (fold (\<lambda>f. store_slot eager_queue_rt i (g f)) fs q) ! slot q (read_index q))) \<and>
    queue_size (fold (\<lambda>f. store_slot eager_queue_rt i (g f)) fs q) = queue_size q"
  using assms
proof (induction fs arbitrary: q)
  case (Cons f fs)
  let ?q = "q\<lparr>ring := (ring q)[i := g f (ring q ! i)]\<rparr>"
  have "\<not> sample_valid (header (ring ?q ! slot ?q (read_index ?q)))" "i \<noteq> slot ?q (read_index ?q)"
    using Cons.prems by (simp_all add: slot_def)
  from Cons.IH [OF this] show ?case by (simp add: eager_store [OF Cons.prems(1)] slot_def)
qed simp

text \<open>
  C30.  \<open>memset\<close> makes the header of the packet 0, which is the type of a vendor specific packet and not the invalid one: a packet processor
  that looks at the queue then takes the cleared packet, and the packet that the function goes on to write is left behind the read index.
\<close>

theorem dispatch_packet_taken_early:
  fixes c data_size kobj karg and signal :: 'h
  assumes "queue_rep sample_valid q wr []" "2 \<le> unat (queue_size q)"
  defines "q' \<equiv> write_packet c eager_queue_rt (of_nat wr) signal data_size kobj karg q"
  shows "packet_processor (eager_queue_rt :: 'h dispatch_body queue_rt) sample_valid 1 \<and>
    launched q' = launched q @ [zero_packet] \<and> read_index q' = of_nat (wr + 1)"
proof -
  note D = queue_repD [OF assms(1)]
  let ?n = "unat (queue_size q)" and ?rt = "eager_queue_rt" and ?z = "zero_packet :: 'h dispatch_body packet"
  define i where "i = wr mod ?n"
  have i: "unat (of_nat wr mod ucast (queue_size q) :: 64 word) = i" "slot q (read_index q) = i" "i < length (ring q)"
    using eager.mod_slot [OF D(1)] slot_mod [OF D(1), of wr] D(2,3,5) by (simp_all add: i_def)
  have "(1 + wr) mod ?n \<noteq> i" using same_slot [of 1 ?n 0 wr] assms(2) D(5) by (simp add: i_def add.commute)
  then have ahead: "slot q (of_nat wr + 1) \<noteq> i" "\<not> sample_valid (header (ring q ! slot q (of_nat wr + 1)))"
    using slot_mod [OF D(1), of "1 + wr"] D(9) [of 1] assms(2) by (simp_all add: add.commute)
  obtain f fs where fs: "packet_fields c signal data_size kobj karg = f # fs" by (simp add: packet_fields_def)
  define q1 where "q1 = q\<lparr>ring := (ring q)[i := ?z]\<rparr>"
  have q1: "store_slot ?rt i (\<lambda>_. ?z) q = q1"
    using nothing_to_launch [OF assms(1)] by (simp add: eager_store q1_def)
  define q2 where "q2 = store_slot ?rt i (\<lambda>p. p\<lparr>body := f (body p)\<rparr>) q1"
  have taken: "take_one q1 = launch 1 q1" and z: "ring q1 ! slot q1 (read_index q1) = ?z"
    using i(2,3) by (simp_all add: take_one_def q1_def slot_def sample_valid_def zero_packet_def)
  have q2: "launched q2 = launched q @ [?z]" "read_index q2 = of_nat wr + 1" "queue_size q2 = queue_size q"
    "ring q2 ! slot q (of_nat wr + 1) = ring q ! slot q (of_nat wr + 1)"
    using taken z i(2) ahead(1) D(3)
    by (simp_all add: q2_def store_slot_def eager_queue_rt_def Let_def launch_def) (simp_all add: q1_def slot_def)
  define q3 where "q3 = fold (\<lambda>f. store_slot ?rt i (\<lambda>p. p\<lparr>body := f (body p)\<rparr>)) fs q2"
  have slot2: "slot q2 (read_index q2) = slot q (of_nat wr + 1)" using q2 by (simp add: slot_def)
  then have q3: "launched q3 = launched q @ [?z]" "read_index q3 = of_nat wr + 1"
    "\<not> sample_valid (header (ring q3 ! slot q3 (read_index q3)))"
    using eager_fields [of q2 i "\<lambda>f p. p\<lparr>body := f (body p)\<rparr>" fs] ahead q2 by (simp_all add: q3_def slot_def)
  have "q' = store_slot ?rt i (\<lambda>p. p\<lparr>header := packet_header c\<rparr>) q3"
    by (simp add: q'_def write_packet_def i(1) q1 fs q2_def q3_def)
  then show ?thesis using q3 by (simp add: eager_store eager.packet_processor_axioms)
qed

theorem dispatch_packet_taken_early_witness:
  "launched (write_packet hsa_1_0 eager_queue_rt 0 (7 :: nat) 64 5 6 blank_queue) = [zero_packet]"
  using dispatch_packet_taken_early [OF blank_queue_rep, of hsa_1_0 "7 :: nat" 64 5 6] by simp

end
