(* ===== verification/Checked_Rounds.thy ===== *)
theory Checked_Rounds
  imports Signal_Rounds
begin

text \<open>
  Rounds of threads that make assertions, or whose calls depend on how far the other threads have come.

  The memory of such a group is an option: \<open>None\<close> once an assertion of a thread has failed.  What holds during a round is stated over what
  the threads still have to do (\<open>runs_along\<close>), which is needed where threads undo what they have done themselves.
\<close>

definition checked :: "('s \<Rightarrow> 's option) \<Rightarrow> 's option \<Rightarrow> 's option" where
  "checked f m = (case m of None \<Rightarrow> None | Some s \<Rightarrow> f s)"

lemma checked_Some [simp]: "checked f (Some s) = f s"
  by (simp add: checked_def)

text \<open>An assertion \<open>Inv\<close> over the rest of the threads and the memory, kept by every action of every thread.\<close>

lemma interleaving_along:
  assumes "interleaving lss ls" "Inv lss m"
    and "\<And>lss i l ls m. i < length lss \<Longrightarrow> lss ! i = l # ls \<Longrightarrow> Inv lss m \<Longrightarrow> Inv (lss[i := ls]) (act l m)"
  shows "Inv (replicate (length lss) []) (fold act ls m)"
  using assms(1,2)
proof (induction arbitrary: m rule: interleaving.induct)
  case (all_done lss)
  then have "replicate (length lss) [] = lss" by (intro replicate_length_same) simp
  then show ?case using all_done.prems by (simp only: fold_simps)
next
  case (one_step i lss l ls ys)
  then show ?case using one_step.IH [of "act l m"] assms(3) [of i lss l ls m] by simp
qed

context thread_runner
begin

lemma runs_along:
  assumes "runs g m m'" "bodies g = map (map act) lss" "Inv lss m"
    and "\<And>lss i l ls m. i < length lss \<Longrightarrow> lss ! i = l # ls \<Longrightarrow> Inv lss m \<Longrightarrow> Inv (lss[i := ls]) (act l m)"
  shows "Inv (replicate (length lss) []) m'"
proof -
  obtain ys where ys: "interleaving (map (map act) lss) ys" "m' = run_all ys m"
    using runs_interleaved [OF assms(1)] assms(2) by auto
  from ys(1) obtain ls where ls: "interleaving lss ls" "ys = map act ls" by (rule interleaving_map)
  have "m' = fold act ls m" unfolding ys(2) ls(2) run_all_def by (simp add: fold_map comp_def)
  then show ?thesis using interleaving_along [where Inv = Inv, OF ls(1) assms(3,4)] by simp
qed

end

lemma wp_round_along:
  assumes "group_bodies g = map (map (\<lambda>l. checked (f l))) lss" "Inv lss s"
    and "\<And>lss i l ls s. i < length lss \<Longrightarrow> lss ! i = l # ls \<Longrightarrow> Inv lss s \<Longrightarrow> passes (f l s) (Inv (lss[i := ls]))"
    and "\<And>s'. Inv (replicate (length lss) []) s' \<Longrightarrow> passes (k s') P"
  shows "passes (test_group_round cs g (Some s) \<bind> k) P"
proof (rule wp_bind, rule passes_mono)
  let ?Inv = "\<lambda>lss m. passes m (Inv lss)"
  have run: "chosen_round g (Some s) (test_group_round cs g (Some s))" by (auto simp: chosen_round_def)
  show "passes (test_group_round cs g (Some s)) (Inv (replicate (length lss) []))"
    by (rule chosen.runs_along [where Inv = ?Inv, OF run assms(1)])
      (use assms(2,3) in \<open>auto elim!: passesE\<close>)
qed (rule assms(4))

text \<open>Threads whose actions all have different labels: an assertion over the set of the labels that are left.\<close>

lemma label_taken:
  assumes "i < length lss" "lss ! i = l # ls" "distinct (concat lss)"
  shows "distinct (concat (lss[i := ls])) \<and> set (concat (lss[i := ls])) = set (concat lss) - {l} \<and> l \<in> set (concat lss)"
proof -
  have "mset (concat lss) = mset (l # concat (lss[i := ls]))" using mset_update_Cons [OF assms(1,2)] by simp
  then have "distinct (l # concat (lss[i := ls]))" "set (concat lss) = set (l # concat (lss[i := ls]))"
    using assms(3) mset_eq_imp_distinct_iff mset_eq_setD by blast+
  then show ?thesis by auto
qed

lemma wp_round_labels:
  fixes lss :: "'l list list"
  assumes "group_bodies g = map (map (\<lambda>l. checked (f l))) lss" "distinct (concat lss)" "Inv (set (concat lss)) s"
    and "\<And>R l s. R \<subseteq> set (concat lss) \<Longrightarrow> l \<in> R \<Longrightarrow> Inv R s \<Longrightarrow> passes (f l s) (Inv (R - {l}))"
    and "\<And>s'. Inv {} s' \<Longrightarrow> passes (k s') P"
  shows "passes (test_group_round cs g (Some s) \<bind> k) P"
proof (rule wp_round_along [where f = f and
      Inv = "\<lambda>lss' s. distinct (concat lss') \<and> set (concat lss') \<subseteq> set (concat lss) \<and> Inv (set (concat lss')) s", OF assms(1)])
  fix lss' :: "'l list list" and i l ls s
  assume l: "i < length lss'" "lss' ! i = l # ls"
    and Inv: "distinct (concat lss') \<and> set (concat lss') \<subseteq> set (concat lss) \<and> Inv (set (concat lss')) s"
  note taken = label_taken [OF l conjunct1 [OF Inv]]
  then have "passes (f l s) (Inv (set (concat (lss'[i := ls]))))" using assms(4) [of "set (concat lss')" l s] Inv by simp
  then show "passes (f l s) (\<lambda>s. distinct (concat (lss'[i := ls])) \<and> set (concat (lss'[i := ls])) \<subseteq> set (concat lss) \<and>
      Inv (set (concat (lss'[i := ls]))) s)"
    using taken Inv by (auto simp: passes_def simp del: set_concat)
next
  fix s' assume "distinct (concat (replicate (length lss) ([] :: 'l list))) \<and>
      set (concat (replicate (length lss) ([] :: 'l list))) \<subseteq> set (concat lss) \<and> Inv (set (concat (replicate (length lss) []))) s'"
  moreover have "concat (replicate (length lss) ([] :: 'l list)) = []" by simp
  ultimately show "passes (k s') P" using assms(5) by (simp only: list.set)
qed (use assms(2,3) in simp_all)

end
