(* ===== verification/Init_Tests.thy ===== *)
theory Init_Tests
  imports Checked_Rounds
begin

text \<open>
  The tests of \<open>core/init\<close> that run no kernel: \<open>test_refcount.c\<close>, \<open>test_concurrent_init.c\<close>, \<open>test_concurrent_init_shutdown.c\<close> and
  \<open>test_concurrent_shutdown.c\<close>.  They initialise the runtime and shut it down many times, from one or from many threads.  The string of
  a status code that \<open>hsa_status_string\<close> gives is used in messages only.
\<close>

definition init_checked :: "('h, 'v, 's) hsa_rt \<Rightarrow> 's \<Rightarrow> 's option" where
  "init_checked rt s = do {
     let (status, s) = hsa_init rt s;
     ASSERT (HSA_STATUS_SUCCESS = status);
     Some s
   }"

definition shut_down_checked :: "('h, 'v, 's) hsa_rt \<Rightarrow> 's \<Rightarrow> 's option" where
  "shut_down_checked rt s = do {
     let (status, s) = hsa_shut_down rt s;
     ASSERT (HSA_STATUS_SUCCESS = status);
     Some s
   }"

text \<open>\<open>core/init/test_refcount.c\<close>\<close>

definition test_refcount :: "('h, 'v, 's) hsa_rt \<Rightarrow> 's \<Rightarrow> (nat \<times> 's) option" where
  "test_refcount rt s = do {
     s \<leftarrow> for_loop 0 1000 (\<lambda>ii. init_checked rt) s;
     s \<leftarrow> for_loop 0 (1000 - 1) (\<lambda>ii. shut_down_checked rt) s;
     let (status, s) = hsa_shut_down rt s;
     ASSERT (status = HSA_STATUS_SUCCESS);
     Some (0, s)
   }"

text \<open>\<open>core/init/test_concurrent_init.c\<close>\<close>

definition test_hsa_init_func :: "('h, 'v, 's) hsa_rt \<Rightarrow> unit \<Rightarrow> ('s option \<Rightarrow> 's option) list" where
  "test_hsa_init_func rt _ = [checked (init_checked rt)]"

definition test_concurrent_init :: "('h, 'v, 's) hsa_rt \<Rightarrow> nat list \<Rightarrow> 's \<Rightarrow> (nat \<times> 's) option" where
  "test_concurrent_init rt sched s = do {
     tg_concurr_init \<leftarrow> test_group_add (test_group_create 100) (test_hsa_init_func rt) () 100;
     s \<leftarrow> test_group_round sched tg_concurr_init (Some s);
     s \<leftarrow> for_loop 0 100 (\<lambda>ii. shut_down_checked rt) s;
     Some (0, s)
   }"

text \<open>\<open>core/init/test_concurrent_init_shutdown.c\<close>\<close>

definition test_hsa_init_shutdown_func :: "('h, 'v, 's) hsa_rt \<Rightarrow> unit \<Rightarrow> ('s option \<Rightarrow> 's option) list" where
  "test_hsa_init_shutdown_func rt _ = [checked (init_checked rt), checked (shut_down_checked rt)]"

definition test_concurrent_init_shutdown :: "('h, 'v, 's) hsa_rt \<Rightarrow> (nat \<Rightarrow> nat list) \<Rightarrow> 's \<Rightarrow> (nat \<times> 's) option" where
  "test_concurrent_init_shutdown rt sched s = do {
     tg_concurr_init \<leftarrow> test_group_add (test_group_create 20) (test_hsa_init_shutdown_func rt) () 20;
     s \<leftarrow> for_loop 0 100 (\<lambda>ii s. test_group_round (sched ii) tg_concurr_init (Some s)) s;
     Some (0, s)
   }"

text \<open>\<open>core/init/test_concurrent_shutdown.c\<close>\<close>

definition test_hsa_shutdown_func :: "('h, 'v, 's) hsa_rt \<Rightarrow> unit \<Rightarrow> ('s option \<Rightarrow> 's option) list" where
  "test_hsa_shutdown_func rt _ = [checked (shut_down_checked rt)]"

definition test_concurrent_shutdown :: "('h, 'v, 's) hsa_rt \<Rightarrow> (nat \<Rightarrow> nat list) \<Rightarrow> 's \<Rightarrow> (nat \<times> 's) option" where
  "test_concurrent_shutdown rt sched s = do {
     tg_concurr_shutdown \<leftarrow> test_group_add (test_group_create 1000) (test_hsa_shutdown_func rt) () 1000;
     s \<leftarrow> for_loop 0 5 (\<lambda>jj s. do {
       s \<leftarrow> for_loop 0 1000 (\<lambda>ii. init_checked rt) s;
       test_group_round (sched jj) tg_concurr_shutdown (Some s)
     }) s;
     Some (0, s)
   }"

subsection \<open>The reference count\<close>

context signal_runtime
begin

text \<open>The count is \<open>n\<close> above the one at the start, and the signals are as they were at the start.\<close>

definition raised :: "'s \<Rightarrow> nat \<Rightarrow> 's \<Rightarrow> bool" where
  "raised s n s' \<longleftrightarrow> ups s' = ups s + n \<and> (0 < ups s \<longrightarrow> val s' = val s)"

lemma raised_0: "raised s 0 s" and raised_restored: "raised s 0 s' \<Longrightarrow> restored ups val s s'"
  by (simp_all add: raised_def restored_def)

lemma init_raises:
  assumes "raised s n s'" "ups s + n < 2 ^ 31 - 1"
  shows "passes (init_checked rt s') (raised s (Suc n))"
  unfolding init_checked_def by (rule wp_init wp)+ (use assms in \<open>auto simp: raised_def\<close>)

lemma shut_down_lowers:
  assumes "raised s (Suc n) s'"
  shows "passes (shut_down_checked rt s') (raised s n)"
  unfolding shut_down_checked_def by (rule wp_shut_down wp)+ (use assms in \<open>auto simp: raised_def\<close>)

lemma inits_raise:
  assumes "raised s m s'" "ups s + m + n < 2 ^ 31"
  shows "passes (for_loop i n (\<lambda>ii. init_checked rt) s') (raised s (m + n))"
proof -
  have "passes (for_loop i n (\<lambda>ii. init_checked rt) s') (raised s (m + (i + n - i)))"
    by (rule for_loop_count [where Inv = "\<lambda>k. raised s (m + (k - i))"])
      (use assms in \<open>auto simp: Suc_diff_le intro: init_raises\<close>)
  then show ?thesis by simp
qed

lemma shut_downs_lower:
  assumes "raised s (m + n) s'"
  shows "passes (for_loop i n (\<lambda>ii. shut_down_checked rt) s') (raised s m)"
proof -
  have "passes (for_loop i n (\<lambda>ii. shut_down_checked rt) s') (raised s (m + n - (i + n - i)))"
  proof (rule for_loop_count [where Inv = "\<lambda>k. raised s (m + n - (k - i))"])
    fix k s' assume k: "i \<le> k" "k < i + n" "raised s (m + n - (k - i)) s'"
    then have "m + n - (k - i) = Suc (m + n - (Suc k - i))" by arith
    then show "passes (shut_down_checked rt s') (raised s (m + n - (Suc k - i)))"
      using k(3) by (intro shut_down_lowers) simp
  qed (use assms in simp)
  then show ?thesis by simp
qed

text \<open>One action of each of \<open>n\<close> threads, which changes the count by one.\<close>

lemma ones_left:
  fixes lss :: "'l list list"
  assumes "i < length lss" "lss ! i = l # ls" "\<forall>ls \<in> set lss. length ls \<le> 1"
  shows "(\<forall>ls \<in> set (lss[i := ls]). length ls \<le> 1) \<and> tsum length lss = Suc (tsum length (lss[i := ls]))"
proof -
  have "l # ls \<in> set lss" using assms(1,2) by (metis nth_mem)
  then have "ls = []" using assms(3) by fastforce
  then show ?thesis
    using assms tsum_update [OF assms(1), of length ls] set_update_subset_insert [of lss i ls] by fastforce
qed

lemma tsum_singletons: "tsum length (replicate n [x]) = n" "tsum length (replicate n []) = 0"
  by (induction n) simp_all

lemma round_of_inits:
  assumes "group_bodies g = replicate n [checked (init_checked rt)]" "raised s 0 s'" "ups s + n < 2 ^ 31"
    and "\<And>s'. raised s n s' \<Longrightarrow> passes (k s') P"
  shows "passes (test_group_round cs g (Some s') \<bind> k) P"
proof (rule wp_round_along [where lss = "replicate n [()]" and f = "\<lambda>_. init_checked rt" and
      Inv = "\<lambda>lss s'. (\<forall>ls \<in> set lss. length ls \<le> 1) \<and> tsum length lss \<le> n \<and> raised s (n - tsum length lss) s'"])
  fix lss :: "unit list list" and i l ls s'
  assume l: "i < length lss" "lss ! i = l # ls"
    and Inv: "(\<forall>ls \<in> set lss. length ls \<le> 1) \<and> tsum length lss \<le> n \<and> raised s (n - tsum length lss) s'"
  note left = ones_left [OF l] Inv
  then have "n - tsum length (lss[i := ls]) = Suc (n - tsum length lss)" by auto
  moreover have "passes (init_checked rt s') (raised s (Suc (n - tsum length lss)))"
    using left assms(3) by (intro init_raises) auto
  ultimately show "passes (init_checked rt s') (\<lambda>s'. (\<forall>ls \<in> set (lss[i := ls]). length ls \<le> 1) \<and>
      tsum length (lss[i := ls]) \<le> n \<and> raised s (n - tsum length (lss[i := ls])) s')"
    using left by (auto simp: passes_def)
qed (use assms in \<open>simp_all add: tsum_singletons\<close>)

lemma round_of_shut_downs:
  assumes "group_bodies g = replicate n [checked (shut_down_checked rt)]" "raised s n s'"
    and "\<And>s'. raised s 0 s' \<Longrightarrow> passes (k s') P"
  shows "passes (test_group_round cs g (Some s') \<bind> k) P"
proof (rule wp_round_along [where lss = "replicate n [()]" and f = "\<lambda>_. shut_down_checked rt" and
      Inv = "\<lambda>lss s'. (\<forall>ls \<in> set lss. length ls \<le> 1) \<and> raised s (tsum length lss) s'"])
  fix lss :: "unit list list" and i l ls s'
  assume l: "i < length lss" "lss ! i = l # ls"
    and Inv: "(\<forall>ls \<in> set lss. length ls \<le> 1) \<and> raised s (tsum length lss) s'"
  note left = ones_left [OF l] Inv
  then have "passes (shut_down_checked rt s') (raised s (tsum length (lss[i := ls])))"
    by (intro shut_down_lowers) auto
  then show "passes (shut_down_checked rt s') (\<lambda>s'. (\<forall>ls \<in> set (lss[i := ls]). length ls \<le> 1) \<and>
      raised s (tsum length (lss[i := ls])) s')"
    using left by (auto simp: passes_def)
qed (use assms in \<open>simp_all add: tsum_singletons\<close>)

text \<open>
  Threads that initialise the runtime and shut it down again: the count is raised by the number of the threads that are between
  their two calls.  The actions are labelled with whether they are the first.
\<close>

lemma round_of_init_shut_downs:
  assumes "group_bodies g = replicate n [checked (init_checked rt), checked (shut_down_checked rt)]"
    and "raised s 0 s'" "ups s + n < 2 ^ 31"
  shows "passes (test_group_round cs g (Some s')) (raised s 0)"
proof -
  let ?f = "\<lambda>l. if l then init_checked rt else shut_down_checked rt"
  let ?Inv = "\<lambda>lss s'. length lss = n \<and> set lss \<subseteq> {[True, False], [False], []} \<and> raised s (how_many (\<lambda>ls. ls = [False]) lss) s'"
  have "passes (test_group_round cs g (Some s') \<bind> Some) (raised s 0)"
  proof (rule wp_round_along [where lss = "replicate n [True, False]" and f = ?f and Inv = ?Inv])
    fix lss i l ls s'
    assume l: "i < length lss" "lss ! i = l # ls" and Inv: "?Inv lss s'"
    let ?c = "\<lambda>lss. how_many (\<lambda>ls. ls = [False]) lss"
    have "l # ls \<in> set lss" using l by (metis nth_mem)
    then have cases: "l \<and> ls = [False] \<or> \<not> l \<and> ls = []" using Inv by auto
    have rest: "length (lss[i := ls]) = n" "set (lss[i := ls]) \<subseteq> {[True, False], [False], []}"
      using Inv cases set_update_subset_insert [of lss i ls] by auto
    have step: "?c (lss[i := ls]) + of_bool (l # ls = [False]) = ?c lss + of_bool (ls = [False])"
      using tsum_update [OF l(1), of "\<lambda>ls. of_bool (ls = [False])" ls] l(2) by simp
    have "?c (lss[i := ls]) \<le> n" using how_many_le_length [of _ "lss[i := ls]"] rest(1) by metis
    then have "passes (?f l s') (raised s (?c (lss[i := ls])))"
      using cases step Inv assms(3) init_raises [of s "?c lss" s'] shut_down_lowers [of s "?c (lss[i := ls])" s'] by auto
    then show "passes (?f l s') (?Inv (lss[i := ls]))" using rest by (auto simp: passes_def)
  next
    fix s' assume "?Inv (replicate (length (replicate n [True, False])) []) s'"
    then show "passes (Some s') (raised s 0)" by (simp add: tsum_0_iff [THEN iffD2])
  qed (use assms in \<open>auto simp: tsum_0_iff [THEN iffD2]\<close>)
  then show ?thesis by simp
qed

lemma init_tests_correct:
  assumes "ups s + 1000 < 2 ^ 31"
  shows "passes (test_refcount rt s) (\<lambda>(r, s'). r = 0 \<and> restored ups val s s')"
    and "passes (test_concurrent_init rt cs s) (\<lambda>(r, s'). r = 0 \<and> restored ups val s s')"
    and "passes (test_concurrent_init_shutdown rt sched s) (\<lambda>(r, s'). r = 0 \<and> restored ups val s s')"
    and "passes (test_concurrent_shutdown rt sched s) (\<lambda>(r, s'). r = 0 \<and> restored ups val s s')"
proof -
  show "passes (test_refcount rt s) (\<lambda>(r, s'). r = 0 \<and> restored ups val s s')"
    unfolding test_refcount_def
  proof (rule wp_seq [OF inits_raise [OF raised_0]])
    fix s1 assume s1: "raised s (0 + 1000) s1"
    show "passes (for_loop 0 (1000 - 1) (\<lambda>ii. shut_down_checked rt) s1 \<bind> (\<lambda>s. let (status, s) = hsa_shut_down rt s in
        ASSERT (status = HSA_STATUS_SUCCESS) \<bind> (\<lambda>_. Some (0 :: nat, s)))) (\<lambda>(r, s'). r = 0 \<and> restored ups val s s')"
    proof (rule wp_seq [OF shut_downs_lower [of s 1]])
      fix s2 assume "raised s 1 s2"
      then show "passes (let (status, s) = hsa_shut_down rt s2 in ASSERT (status = HSA_STATUS_SUCCESS) \<bind> (\<lambda>_. Some (0 :: nat, s)))
          (\<lambda>(r, s'). r = 0 \<and> restored ups val s s')"
        by (intro wp_shut_down) (auto simp: raised_def restored_def)
    qed (use s1 in simp)
  qed (use assms in simp)
  show "passes (test_concurrent_init rt cs s) (\<lambda>(r, s'). r = 0 \<and> restored ups val s s')"
    unfolding test_concurrent_init_def
  proof (rule wp_add_copies)
    fix g :: "(unit, 's option) test_group" assume g: "group_bodies g = replicate (unat (100 :: 64 word)) (test_hsa_init_func rt ())"
    show "passes (test_group_round cs g (Some s) \<bind> (\<lambda>s. for_loop 0 100 (\<lambda>ii. shut_down_checked rt) s \<bind> (\<lambda>s. Some (0 :: nat, s))))
        (\<lambda>(r, s'). r = 0 \<and> restored ups val s s')"
    proof (rule round_of_inits [where n = 100 and s = s])
      fix s1 assume "raised s 100 s1"
      then show "passes (for_loop 0 100 (\<lambda>ii. shut_down_checked rt) s1 \<bind> (\<lambda>s. Some (0 :: nat, s)))
          (\<lambda>(r, s'). r = 0 \<and> restored ups val s s')"
        by (intro wp_seq [OF shut_downs_lower [of s 0]]) (simp_all add: raised_restored)
    qed (use assms g in \<open>simp_all add: test_hsa_init_func_def raised_0\<close>)
  qed simp_all
  show "passes (test_concurrent_init_shutdown rt sched s) (\<lambda>(r, s'). r = 0 \<and> restored ups val s s')"
    unfolding test_concurrent_init_shutdown_def
  proof (rule wp_add_copies)
    fix g :: "(unit, 's option) test_group" assume g: "group_bodies g = replicate (unat (20 :: 64 word)) (test_hsa_init_shutdown_func rt ())"
    show "passes (for_loop 0 100 (\<lambda>ii s. test_group_round (sched ii) g (Some s)) s \<bind> (\<lambda>s. Some (0 :: nat, s)))
        (\<lambda>(r, s'). r = 0 \<and> restored ups val s s')"
      by (rule for_loop_invariant [where Inv = "raised s 0"], rule raised_0,
          rule round_of_init_shut_downs [where n = 20], simp add: g test_hsa_init_shutdown_func_def)
        (use assms in \<open>simp_all add: raised_restored\<close>)
  qed simp_all
  show "passes (test_concurrent_shutdown rt sched s) (\<lambda>(r, s'). r = 0 \<and> restored ups val s s')"
    unfolding test_concurrent_shutdown_def
  proof (rule wp_add_copies)
    fix g :: "(unit, 's option) test_group" assume g: "group_bodies g = replicate (unat (1000 :: 64 word)) (test_hsa_shutdown_func rt ())"
    have "passes (for_loop 0 1000 (\<lambda>ii. init_checked rt) s' \<bind> (\<lambda>s. test_group_round cs g (Some s) \<bind> Some)) (raised s 0)"
      if "raised s 0 s'" for s' cs
      by (rule wp_seq [OF inits_raise [OF that]], use assms in simp,
          rule round_of_shut_downs [where n = 1000 and s = s]) (simp_all add: g test_hsa_shutdown_func_def)
    then show "passes (for_loop 0 5 (\<lambda>jj s. for_loop 0 1000 (\<lambda>ii. init_checked rt) s \<bind>
          (\<lambda>s. test_group_round (sched jj) g (Some s))) s \<bind> (\<lambda>s. Some (0 :: nat, s)))
        (\<lambda>(r, s'). r = 0 \<and> restored ups val s s')"
      by (rule_tac for_loop_invariant [where Inv = "raised s 0"]) (simp_all add: raised_0 raised_restored)
  qed simp_all
qed

end

text \<open>
  C24.  The four tests pass on every conforming runtime in every order of execution of their threads, although
  the runtime is shut down and initialised again while other threads use it: the reference count is never wrong by one, does not
  overflow, and is at the end what it was.
\<close>

theorem init_tests_pass:
  assumes "signal_runtime rt ups val" "ups s + 1000 < 2 ^ 31"
    and "t \<in> {test_refcount rt, test_concurrent_init rt cs, test_concurrent_init_shutdown rt sched, test_concurrent_shutdown rt sched}"
  shows "\<exists>s'. t s = Some (0, s') \<and> restored ups val s s'"
proof -
  have "passes (t s) (\<lambda>(r, s'). r = 0 \<and> restored ups val s s')"
    using assms(3) signal_runtime.init_tests_correct [OF assms(1,2)] by auto
  then show ?thesis by (auto simp: passes_def)
qed

theorem init_tests_pass_witness:
  "\<exists>s'. test_concurrent_shutdown reference_rt (\<lambda>_. [3, 1]) (ref_start :: 64 word ref_state) = Some (0, s') \<and> ref_ups s' = 0"
  using init_tests_pass [OF reference.signal_runtime_axioms, of "ref_start :: 64 word ref_state"
      "test_concurrent_shutdown reference_rt (\<lambda>_. [3, 1])" "[]" "\<lambda>_. [3, 1]"]
  by (auto simp: ref_start_def restored_def)

end
