(* ===== verification/Spinning_Positions.thy ===== *)
theory Spinning_Positions
  imports Spinning
begin

text \<open>
  Threads whose accesses come one after the other, each of them repeated until it succeeds.  A configuration is given by the
  \<open>positions\<close> of the threads in their functions.  The threads come to their ends under every fair schedule when in every configuration that can be
  reached some thread, the \<open>helper\<close>, can go on at once (\<open>run_positions\<close>).
\<close>

lemma leads_rank:
  assumes alive: "\<And>c. Inv c \<Longrightarrow> snd c \<noteq> None"
    and ends: "\<And>c. Inv c \<Longrightarrow> ended c \<Longrightarrow> \<exists>fl s. snd c = Some (fl, s) \<and> Q s"
    and helper: "\<And>c. Inv c \<Longrightarrow> \<not> ended c \<Longrightarrow> helper c < length fs \<and> rank (thread_step fs (helper c) c) < (rank c :: nat)"
    and steps: "\<And>c j. Inv c \<Longrightarrow> \<not> ended c \<Longrightarrow> Inv (thread_step fs j c) \<and>
      (rank (thread_step fs j c) < rank c \<or> rank (thread_step fs j c) = rank c \<and>
       helper (thread_step fs j c) = helper c \<and> \<not> ended (thread_step fs j c))"
  shows "leads fs (all_end Q) (\<lambda>c. Inv c \<and> rank c = n \<and> helper c = h \<and> ended c = e)"
proof (induction n arbitrary: h e rule: less_induct)
  case (less n)
  let ?P = "\<lambda>n h e c. Inv c \<and> rank c = n \<and> helper c = h \<and> ended c = e"
  show ?case
  proof (cases "e \<or> (\<nexists>c. ?P n h e c)")
    case True
    then show ?thesis using ends by (intro leads.there) (auto simp: all_end_def)
  next
    case False
    have lower: "\<exists>P'. leads fs (all_end Q) P' \<and> P' c" if "Inv c" "rank c < n" for c
      using less.IH [OF that(2)] that(1) by (intro exI [of _ "?P (rank c) (helper c) (ended c)"]) simp
    show ?thesis
    proof (rule leads.closer)
      show "h < length fs" using False helper by blast
      show "snd c \<noteq> None \<and> \<not> ended c" if "?P n h e c" for c
        using that False alive by blast
      show "\<exists>P'. leads fs (all_end Q) P' \<and> P' (thread_step fs h c)" if "?P n h e c" for c
        using that False helper [of c] steps [of c h] by (intro lower) auto
      show "?P n h e (thread_step fs j c) \<or> (\<exists>P'. leads fs (all_end Q) P' \<and> P' (thread_step fs j c))" if "?P n h e c" for c j
        using that False steps [of c j] lower [of "thread_step fs j c"] by auto
    qed
  qed
qed

definition positions :: "'s access list list \<Rightarrow> nat list \<Rightarrow> 's threads \<Rightarrow> bool" where
  "positions fs p c \<longleftrightarrow> length p = length fs \<and> (\<forall>j < length fs. p ! j \<le> length (fs ! j)) \<and>
     fst c = map (\<lambda>j. drop (p ! j) (fs ! j)) [0..<length fs]"

lemma positions_ended: "positions fs p c \<Longrightarrow> ended c \<longleftrightarrow> (\<forall>j < length fs. p ! j = length (fs ! j))"
  by (auto simp: positions_def ended_def intro: le_antisym)

lemma positions_step:
  assumes "positions fs p c" "j < length fs" "p ! j < length (fs ! j)" "snd c = Some m" "(fs ! j ! (p ! j)) (Some m) = Some (fl, s')"
  shows "fl = Next \<Longrightarrow> positions fs (p[j := Suc (p ! j)]) (thread_step fs j c) \<and> snd (thread_step fs j c) = Some (fl, s') \<and>
      fst (thread_step fs j c) = (fst c)[j := drop (Suc (p ! j)) (fs ! j)]"
    and "fl = Again \<Longrightarrow> positions fs p (thread_step fs j c) \<and> snd (thread_step fs j c) = Some (fl, s')"
proof -
  have ts: "fst c ! j = fs ! j ! (p ! j) # drop (Suc (p ! j)) (fs ! j)" "j < length (fst c)"
    using assms(1-3) by (simp_all add: positions_def Cons_nth_drop_Suc)
  have step: "thread_step fs j c = ((fst c)[j := go_on fl (fs ! j) (fs ! j ! (p ! j)) (drop (Suc (p ! j)) (fs ! j))], Some (fl, s'))"
    using assms(4,5) ts by (cases c) (simp add: thread_step_def)
  show "positions fs (p[j := Suc (p ! j)]) (thread_step fs j c) \<and> snd (thread_step fs j c) = Some (fl, s') \<and>
      fst (thread_step fs j c) = (fst c)[j := drop (Suc (p ! j)) (fs ! j)]" if "fl = Next"
    using assms(1-3) that unfolding step by (auto simp: positions_def nth_list_update intro!: nth_equalityI)
  have "(fst c)[j := fst c ! j] = fst c" by (rule list_update_id)
  then show "positions fs p (thread_step fs j c) \<and> snd (thread_step fs j c) = Some (fl, s')" if "fl = Again"
    using assms(1) that ts(1) unfolding step by (simp add: positions_def)
qed

lemma positions_idle: "positions fs p c \<Longrightarrow> j < length fs \<longrightarrow> p ! j = length (fs ! j) \<Longrightarrow> thread_step fs j c = c"
  by (cases c) (auto simp: positions_def thread_step_def)

text \<open>
  \<open>I p s\<close> holds of the state in the positions \<open>p\<close>.  Every access succeeds or is made again, the one of the \<open>helper\<close> succeeds.
\<close>

lemma run_positions:
  assumes fair: "fair (length fs) sched" and start: "I (replicate (length fs) 0) s"
    and steps: "\<And>p j s fl0. length p = length fs \<Longrightarrow> j < length fs \<Longrightarrow> p ! j < length (fs ! j) \<Longrightarrow> I p s \<Longrightarrow>
      \<exists>fl s'. (fs ! j ! (p ! j)) (Some (fl0, s)) = Some (fl, s') \<and>
        (fl = Next \<and> I (p[j := Suc (p ! j)]) s' \<or> fl = Again \<and> I p s' \<and> j \<noteq> helper p)"
    and helper: "\<And>p s. length p = length fs \<Longrightarrow> (\<forall>j < length fs. p ! j \<le> length (fs ! j)) \<Longrightarrow> I p s \<Longrightarrow>
      \<exists>j < length fs. p ! j < length (fs ! j) \<Longrightarrow> helper p < length fs \<and> p ! helper p < length (fs ! helper p)"
    and final: "\<And>s. I (map length fs) s \<Longrightarrow> Q s"
  shows "passes (run_functions sched fs s) Q"
proof -
  let ?Inv = "\<lambda>c. \<exists>p fl s. positions fs p c \<and> snd c = Some (fl, s) \<and> I p s"
  let ?rank = "\<lambda>c. tsum length (fst c)"
  let ?pos = "\<lambda>c. map2 (\<lambda>ts fs. length fs - length ts) (fst c) fs"
  have pos: "?pos c = p" if "positions fs p c" for p c
    using that by (intro nth_equalityI) (auto simp: positions_def)
  have step: "?Inv (thread_step fs j c) \<and> (?rank (thread_step fs j c) < ?rank c \<or> j \<noteq> helper (?pos c) \<and>
      ?rank (thread_step fs j c) = ?rank c \<and> helper (?pos (thread_step fs j c)) = helper (?pos c) \<and> \<not> ended (thread_step fs j c))"
    if c: "?Inv c" "\<not> ended c" for c j
  proof -
    obtain p fl s where p: "positions fs p c" "snd c = Some (fl, s)" "I p s" using c(1) by blast
    then have len: "length p = length fs" "\<forall>j < length fs. p ! j \<le> length (fs ! j)" by (simp_all add: positions_def)
    have unended: "\<exists>j < length fs. p ! j < length (fs ! j)"
      using c(2) len(2) positions_ended [OF p(1)] by (metis le_neq_implies_less)
    note h = helper [OF len p(3) unended]
    show ?thesis
    proof (cases "j < length fs \<and> p ! j < length (fs ! j)")
      case False
      then have "j < length fs \<longrightarrow> p ! j = length (fs ! j)" using len(2) by (metis le_neq_implies_less)
      then have "thread_step fs j c = c" by (rule positions_idle [OF p(1)])
      moreover have "j \<noteq> helper p" using False h by blast
      ultimately show ?thesis using c pos [OF p(1)] by simp
    next
      case True
      obtain fl' s' where s': "(fs ! j ! (p ! j)) (Some (fl, s)) = Some (fl', s')"
        "fl' = Next \<and> I (p[j := Suc (p ! j)]) s' \<or> fl' = Again \<and> I p s' \<and> j \<noteq> helper p"
        using steps [OF len(1) _ _ p(3), of j fl] True by auto
      note next_step = positions_step [OF p(1) _ _ p(2) s'(1)]
      from s'(2) show ?thesis
      proof
        assume n: "fl' = Next \<and> I (p[j := Suc (p ! j)]) s'"
        have fst: "fst (thread_step fs j c) = (fst c)[j := drop (Suc (p ! j)) (fs ! j)]" "fst c ! j = drop (p ! j) (fs ! j)" "j < length (fst c)"
          using next_step(1) True n p(1) by (auto simp: positions_def)
        then have "?rank (thread_step fs j c) + (length (fs ! j) - p ! j) = ?rank c + (length (fs ! j) - Suc (p ! j))"
          using tsum_update [OF fst(3), of length "drop (Suc (p ! j)) (fs ! j)"] by simp
        then have "?rank (thread_step fs j c) < ?rank c" using True by linarith
        then show ?thesis using next_step(1) True n by blast
      next
        assume a: "fl' = Again \<and> I p s' \<and> j \<noteq> helper p"
        then have q: "positions fs p (thread_step fs j c)" "snd (thread_step fs j c) = Some (fl', s')" using next_step(2) True by auto
        then have "fst (thread_step fs j c) = fst c" using p(1) by (simp add: positions_def)
        then show ?thesis using a q p(1) c(2) pos by (auto simp: ended_def)
      qed
    qed
  qed
  let ?c = "(fs, Some (Next, s))"
  have P0: "positions fs (replicate (length fs) 0) ?c" by (auto simp: positions_def intro: nth_equalityI)
  have "leads fs (all_end Q) (\<lambda>c. ?Inv c \<and> ?rank c = ?rank ?c \<and> helper (?pos c) = helper (?pos ?c) \<and> ended c = ended ?c)"
  proof (rule leads_rank [where Inv = ?Inv and rank = ?rank and helper = "\<lambda>c. helper (?pos c)"])
    fix c assume "?Inv c" "ended c"
    then obtain p fl s where p: "positions fs p c" "snd c = Some (fl, s)" "I p s" "\<forall>j < length fs. p ! j = length (fs ! j)"
      using positions_ended by blast
    then have "p = map length fs" by (intro nth_equalityI) (simp_all add: positions_def)
    then show "\<exists>fl s. snd c = Some (fl, s) \<and> Q s" using p final by auto
  next
    fix c assume c: "?Inv c" "\<not> ended c"
    then obtain p fl s where p: "positions fs p c" "snd c = Some (fl, s)" "I p s" by blast
    moreover have "length p = length fs" "\<forall>j < length fs. p ! j \<le> length (fs ! j)" using p(1) by (simp_all add: positions_def)
    moreover have "\<exists>j < length fs. p ! j < length (fs ! j)"
      using c(2) positions_ended [OF p(1)] calculation(5) by (metis le_neq_implies_less)
    ultimately have "helper p < length fs" using helper by blast
    then show "helper (?pos c) < length fs \<and> ?rank (thread_step fs (helper (?pos c)) c) < ?rank c"
      using step [OF c, of "helper (?pos c)"] pos [OF p(1)] by auto
  next
    fix c j assume c: "?Inv c" "\<not> ended c"
    show "?Inv (thread_step fs j c) \<and> (?rank (thread_step fs j c) < ?rank c \<or> ?rank (thread_step fs j c) = ?rank c \<and>
       helper (?pos (thread_step fs j c)) = helper (?pos c) \<and> \<not> ended (thread_step fs j c))"
      using step [OF c, of j] by blast
  qed auto
  then show ?thesis
    unfolding run_functions_def by (rule leads_run [OF _ fair]) (use P0 start in auto)
qed

text \<open>When in no configuration that can be reached all threads have ended, they never do.\<close>

lemma positions_never:
  assumes steps: "\<And>p j s fl0. length p = length fs \<Longrightarrow> j < length fs \<Longrightarrow> p ! j < length (fs ! j) \<Longrightarrow> I p s \<Longrightarrow>
      \<exists>fl s'. (fs ! j ! (p ! j)) (Some (fl0, s)) = Some (fl, s') \<and> (fl = Next \<and> I (p[j := Suc (p ! j)]) s' \<or> fl = Again \<and> I p s')"
    and unended: "\<And>p s. length p = length fs \<Longrightarrow> I p s \<Longrightarrow> \<exists>j < length fs. p ! j < length (fs ! j)"
    and start: "positions fs p c" "snd c = Some (fl, s)" "I p s"
  shows "run_threads fs sched k c = None"
proof (rule never_ends [where P = "\<lambda>c. \<exists>p fl s. positions fs p c \<and> snd c = Some (fl, s) \<and> I p s"])
  fix c assume "\<exists>p fl s. positions fs p c \<and> snd c = Some (fl, s) \<and> I p s"
  then obtain p fl s where p: "positions fs p c" "snd c = Some (fl, s)" "I p s" by blast
  then have len: "length p = length fs" by (simp add: positions_def)
  have "\<not> ended c" using unended [OF len p(3)] positions_ended [OF p(1)] by fastforce
  moreover have "\<exists>p fl s. positions fs p (thread_step fs j c) \<and> snd (thread_step fs j c) = Some (fl, s) \<and> I p s" for j
  proof (cases "j < length fs \<and> p ! j < length (fs ! j)")
    case True
    then obtain fl' s' where s': "(fs ! j ! (p ! j)) (Some (fl, s)) = Some (fl', s')"
      "fl' = Next \<and> I (p[j := Suc (p ! j)]) s' \<or> fl' = Again \<and> I p s'"
      using steps [OF len _ _ p(3)] by blast
    note next_step = positions_step [OF p(1) _ _ p(2) s'(1)]
    from s'(2) show ?thesis using next_step True by blast
  next
    case False
    then have "j < length fs \<longrightarrow> p ! j = length (fs ! j)" using p(1) by (auto simp: positions_def intro: le_antisym)
    then show ?thesis using positions_idle [OF p(1)] p by auto
  qed
  ultimately show "snd c = None \<or> \<not> ended c \<and>
      (\<forall>j. \<exists>p fl s. positions fs p (thread_step fs j c) \<and> snd (thread_step fs j c) = Some (fl, s) \<and> I p s)" by blast
qed (use start in blast)

end
