(* ===== verification/Signal_Looks.thy ===== *)
theory Signal_Looks
  imports Spinning_Positions Signal_Ordering Signal_Waits
begin

text \<open>
  The accesses of threads that set and await the signals of an array, for proofs by positions.
\<close>

lemma wp_let: "passes (f x) P \<Longrightarrow> passes (Let x f) P"
  by simp

lemma fair_fewer: "fair n sched \<Longrightarrow> m \<le> n \<Longrightarrow> fair m sched"
  by (auto simp: fair_def)

text \<open>Two tests are added to a group with room for two.\<close>

lemma wp_add_two:
  fixes f :: "'d \<Rightarrow> ('m \<Rightarrow> 'm) list"
  assumes "\<And>g. group_bodies g = [f d, f' d'] \<Longrightarrow> passes (k g) P"
  shows "passes (test_group_add (test_group_create 2) f d 1 \<bind> (\<lambda>g. test_group_add g f' d' 1 \<bind> k)) P"
proof (rule wp_seq [OF fresh_add])
  show "fresh_group (test_group_create 2 :: ('d, 'm) test_group)" by (rule fresh_create [THEN conjunct1]) simp
  show "unat (num_test (test_group_create 2)) + unat (1 :: 64 word) \<le> unat (group_size (test_group_create 2))"
    by (simp add: test_group_create_def)
  fix g :: "('d, 'm) test_group" assume g: "fresh_group g \<and> group_size g = group_size (test_group_create 2) \<and>
    unat (num_test g) = unat (num_test (test_group_create 2)) + unat (1 :: 64 word) \<and>
    group_bodies g = group_bodies (test_group_create 2) @ replicate (unat (1 :: 64 word)) (f d)"
  have "group_bodies (test_group_create 2) = ([] :: ('m \<Rightarrow> 'm) list list)"
    by (rule fresh_create [THEN conjunct2]) simp
  then show "passes (test_group_add g f' d' 1 \<bind> k) P"
    using g by (intro wp_seq [OF fresh_add]) (auto simp: test_group_create_def intro!: assms)
qed

context signal_runtime
begin

lemma store_look:
  assumes "board u x xv c s" "q < length x"
  shows "call (hsa_signal_store rt r (x ! q) v) (Some (fl, s)) = Some (Next, hsa_signal_store rt r (x ! q) v s) \<and>
    board u x (xv(q := v)) c (hsa_signal_store rt r (x ! q) v s)"
proof -
  have "0 < ups s" "val s (x ! q) = Some (xv q)" using assms by (simp_all add: board_def)
  from store [OF this] show ?thesis by (auto simp: call_def access_def intro: board_x [OF assms])
qed

lemma board_pair:
  assumes "ups s = u" "0 < u" "val t h = None" "val t h' = None" "h \<noteq> h'" "val s = (val t)(h \<mapsto> v, h' \<mapsto> v)"
  shows "board u [h, h'] (\<lambda>_. v) (val t) s"
  using assms by (auto simp: board_def less_Suc_eq)

text \<open>A test that does not destroy its signals: those that were there before are as they were.\<close>

definition kept :: "'s \<Rightarrow> 's \<Rightarrow> bool" where
  "kept s s' \<longleftrightarrow> ups s' = ups s \<and> (0 < ups s \<longrightarrow> (\<forall>h. val s h \<noteq> None \<longrightarrow> val s' h = val s h))"

lemma kept_trans: "kept s s' \<Longrightarrow> kept s' s'' \<Longrightarrow> kept s s''"
  by (auto simp: kept_def)

lemma wp_shut_down_kept:
  assumes "ups t = Suc (ups s)" "0 < ups s \<Longrightarrow> val t = val s" "ups s' = ups t" "\<forall>h. val t h \<noteq> None \<longrightarrow> val s' h = val t h"
    and "\<And>s''. kept s s'' \<Longrightarrow> passes (k s'') P"
  shows "passes (let (status, s) = hsa_shut_down rt s' in ASSERT (HSA_STATUS_SUCCESS = status) \<bind> (\<lambda>_. k s)) P"
proof (rule wp_shut_down)
  fix s'' assume s'': "ups s'' = ups s' - 1" "1 < ups s' \<Longrightarrow> val s'' = val s'"
  have "kept s s''" using s'' assms(1-4) by (simp add: kept_def)
  then show "passes (ASSERT (HSA_STATUS_SUCCESS = HSA_STATUS_SUCCESS) \<bind> (\<lambda>_. k s'')) P" using assms(5) by simp
qed (use assms in simp)

end

context blocking_runtime
begin

lemma await_look:
  assumes "board u x xv c s" "q < length x"
  shows "\<exists>fl' s'. await (hsa_signal_wait r (x ! q) cnd v UINT64_MAX ws) (Some (fl, s)) = Some (fl', s') \<and> board u x xv c s' \<and>
    (fl' = Next \<or> fl' = Again \<and> \<not> satisfies cnd (xv q) v)"
proof -
  obtain result s' where r: "hsa_signal_wait r (x ! q) cnd v UINT64_MAX ws s = (result, s')" by fastforce
  have "0 < ups s" "val s (x ! q) = Some (xv q)" using assms by (simp_all add: board_def)
  from look [OF this r] show ?thesis
    using assms(1) r by (auto simp: await_def access_def board_def)
qed

end

context waiting_runtime
begin

lemma await_decides:
  assumes "board u x xv c s" "q < length x"
  shows "\<exists>s'. await (hsa_signal_wait r (x ! q) cnd v UINT64_MAX ws) (Some (fl, s)) =
      Some (if satisfies cnd (xv q) v then Next else Again, s') \<and> board u x xv c s'"
proof -
  obtain result s' where r: "hsa_signal_wait r (x ! q) cnd v UINT64_MAX ws s = (result, s')" by fastforce
  have "0 < ups s" "val s (x ! q) = Some (xv q)" using assms by (simp_all add: board_def)
  from wait [OF this r] show ?thesis
    using assms(1) r by (auto simp: await_def access_def board_def)
qed

end

end
