(* ===== verification/Signal_Create_Tests.thy ===== *)
theory Signal_Create_Tests
  imports Checked_Rounds Signal_Looks Agent_Utils
begin

text \<open>
  Creating signals: the tests \<open>core/signals/test_signal_create_concurrent.c\<close>, \<open>test_signal_destroy_concurrent.c\<close>,
  \<open>test_signal_create_zero_consumers.c\<close>, \<open>test_signal_create_one_consumers.c\<close>, \<open>test_signal_create_max_consumers.c\<close>,
  \<open>test_signal_create_initial_value.c\<close> and \<open>test_signal_value_width.c\<close>.

  The array \<open>signals\<close> is part of the memory of the threads that fill it: \<open>None\<close> is an element that has not been set.  The agents are
  those of a traversal \<open>iterate_agents\<close> by the runtime; all threads that wait for a signal run on the host.
\<close>

definition CREATE_N :: nat where "CREATE_N = 8"

definition CREATE_M :: nat where "CREATE_M = 32"

subsection \<open>Many threads create signals\<close>

definition create_at :: "('h, 'w::len word, 's) hsa_rt \<Rightarrow> nat \<Rightarrow> 'h option list \<times> 's \<Rightarrow> ('h option list \<times> 's) option" where
  "create_at rt i = (\<lambda>(signals, s). do {
     let (status, h, s) = hsa_signal_create rt 0 0 [] s;
     ASSERT (status = HSA_STATUS_SUCCESS);
     ASSERT (i < length signals);
     Some (signals[i := Some h], s)
   })"

definition signal_create_func ::
  "('h, 'w::len word, 's) hsa_rt \<Rightarrow> nat \<Rightarrow> (('h option list \<times> 's) option \<Rightarrow> ('h option list \<times> 's) option) list"
where
  "signal_create_func rt offset = map (\<lambda>ii. checked (create_at rt (offset + ii))) [0..<CREATE_M]"

text \<open>The thread of an agent waits for the signals one after the other; the functions for the host and for other devices are the same.\<close>

definition signals_wait_host_func :: "('h, 'w::len word, 's) hsa_signal_wait \<Rightarrow> 'h list \<Rightarrow> hsa_agent_t \<Rightarrow> 's access list" where
  "signals_wait_host_func wt signals agent =
     map (\<lambda>ii. await (wt Acquire (signals ! ii) HSA_SIGNAL_CONDITION_EQ 1 UINT64_MAX HSA_WAIT_STATE_BLOCKED)) [0..<CREATE_M * CREATE_N]"

definition signals_wait_component_func :: "('h, 'w::len word, 's) hsa_signal_wait \<Rightarrow> 'h list \<Rightarrow> hsa_agent_t \<Rightarrow> 's access list" where
  "signals_wait_component_func wt signals agent =
     map (\<lambda>ii. await (wt Acquire (signals ! ii) HSA_SIGNAL_CONDITION_EQ 1 UINT64_MAX HSA_WAIT_STATE_BLOCKED)) [0..<CREATE_M * CREATE_N]"

text \<open>
  The loop that adds a test for each agent, with the status of the query asserted.  For devices that are neither a CPU nor a GPU the code has \<open>ASSERT_MSG(1, ...)\<close>, which
  always holds.
\<close>

definition add_agents ::
  "('a, 'z) agent_rt_scheme \<Rightarrow> (hsa_agent_t \<Rightarrow> 's access list) \<Rightarrow> (hsa_agent_t \<Rightarrow> 's access list) \<Rightarrow> hsa_agent_t handle_list_s \<Rightarrow>
     (hsa_agent_t, 's shared) test_group \<Rightarrow> (hsa_agent_t, 's shared) test_group option"
where
  "add_agents art host_func component_func agent_list g =
     for_loop 0 (unat (num_handles agent_list)) (\<lambda>ii g. do {
       ASSERT (ii < length (handle_array agent_list));
       agent \<leftarrow> handle_array agent_list ! ii;
       let (status, device_type) = device_info art agent;
       ASSERT (status = HSA_STATUS_SUCCESS);
       (if device_type = HSA_DEVICE_TYPE_CPU then test_group_add g host_func agent 1
        else if device_type = HSA_DEVICE_TYPE_GPU then test_group_add g component_func agent 1
        else Some g)
     }) g"

definition test_signal_create_concurrent ::
  "('h, 'w::len word, 's) hsa_rt \<Rightarrow> ('a, 'z) agent_rt_scheme \<Rightarrow> ('h, 'w word, 's) hsa_signal_wait \<Rightarrow>
     (hsa_agent_t callback \<Rightarrow> hsa_agent_t iter_mem \<Rightarrow> hsa_status_t \<times> hsa_agent_t iter_mem) \<Rightarrow> hsa_agent_t iter_mem \<Rightarrow>
     nat list \<Rightarrow> (nat \<Rightarrow> nat) \<Rightarrow> 's \<Rightarrow> (nat \<times> 's) option"
where
  "test_signal_create_concurrent rt art wt iterate_agents m cs sched s = do {
     let (status, s) = hsa_init rt s;
     ASSERT (status = HSA_STATUS_SUCCESS);
     let signals = replicate (CREATE_N * CREATE_M) None;
     let offset = map (\<lambda>ii. ii * CREATE_M) [0..<CREATE_N];
     tg_sg_create \<leftarrow> for_loop 0 CREATE_N (\<lambda>ii g. test_group_add g (signal_create_func rt) (offset ! ii) 1)
       (test_group_create (of_nat CREATE_N));
     (signals, s) \<leftarrow> test_group_round cs tg_sg_create (Some (signals, s));
     (agent_list, m) \<leftarrow> get_agent_list iterate_agents m;
     signals \<leftarrow> (if None \<in> set signals then None else Some (map the signals));
     tg_sg_wait \<leftarrow> add_agents art (signals_wait_host_func wt signals) (signals_wait_component_func wt signals) agent_list
       (test_group_create (num_handles agent_list));
     s \<leftarrow> run_functions sched
       (map (\<lambda>ii. call (hsa_signal_store rt Relaxed (signals ! ii) 1)) [0..<CREATE_N * CREATE_M] # group_bodies tg_sg_wait) s;
     s \<leftarrow> destroy_signals rt (CREATE_N * CREATE_M) signals s;
     let (status, s) = hsa_shut_down rt s;
     ASSERT (status = HSA_STATUS_SUCCESS);
     Some (0, s)
   }"

subsection \<open>Many threads destroy signals\<close>

definition destroy_at :: "('h, 'w::len word, 's) hsa_rt \<Rightarrow> 'h option list \<Rightarrow> nat \<Rightarrow> 's \<Rightarrow> 's option" where
  "destroy_at rt signals i s = do {
     ASSERT (i < length signals);
     h \<leftarrow> signals ! i;
     let (status, s) = hsa_signal_destroy rt h s;
     ASSERT (status = HSA_STATUS_SUCCESS);
     Some s
   }"

definition signal_destroy_func :: "('h, 'w::len word, 's) hsa_rt \<Rightarrow> 'h option list \<Rightarrow> nat \<Rightarrow> ('s option \<Rightarrow> 's option) list" where
  "signal_destroy_func rt signals offset = map (\<lambda>ii. checked (destroy_at rt signals (offset + ii))) [0..<CREATE_M]"

definition test_signal_destroy_concurrent ::
  "('h, 'w::len word, 's) hsa_rt \<Rightarrow> nat list \<Rightarrow> 's \<Rightarrow> (nat \<times> 's) option"
where
  "test_signal_destroy_concurrent rt cs s = do {
     let (status, s) = hsa_init rt s;
     ASSERT (status = HSA_STATUS_SUCCESS);
     let signals = replicate (CREATE_N * CREATE_M) None;
     let offset = map (\<lambda>ii. ii * CREATE_M) [0..<CREATE_N];
     (signals, s) \<leftarrow> for_loop 0 CREATE_N (\<lambda>ii. for_loop 0 CREATE_M (\<lambda>jj. create_at rt (ii * CREATE_M + jj))) (signals, s);
     tg_sg_destroy \<leftarrow> for_loop 0 CREATE_N (\<lambda>ii g. test_group_add g (signal_destroy_func rt signals) (offset ! ii) 1)
       (test_group_create (of_nat CREATE_N));
     s \<leftarrow> test_group_round cs tg_sg_destroy (Some s);
     let (status, s) = hsa_shut_down rt s;
     ASSERT (status = HSA_STATUS_SUCCESS);
     Some (0, s)
   }"

subsection \<open>Consumers\<close>

text \<open>The part that the three tests share: a thread for each agent waits for the signal, which the main thread then sets.\<close>

definition signal_wait_host_func :: "('h, 'w::len word, 's) hsa_signal_wait \<Rightarrow> 'h \<Rightarrow> hsa_agent_t \<Rightarrow> 's access list" where
  "signal_wait_host_func wt signal agent = [await (wt Acquire signal HSA_SIGNAL_CONDITION_EQ 1 UINT64_MAX HSA_WAIT_STATE_BLOCKED)]"

definition signal_wait_component_func :: "('h, 'w::len word, 's) hsa_signal_wait \<Rightarrow> 'h \<Rightarrow> hsa_agent_t \<Rightarrow> 's access list" where
  "signal_wait_component_func wt signal agent = [await (wt Acquire signal HSA_SIGNAL_CONDITION_EQ 1 UINT64_MAX HSA_WAIT_STATE_BLOCKED)]"

text \<open>
  The loop of these tests does not look at the status of the query.  A failed query leaves the variable \<open>device_type\<close> uninitialised, and reading it is
  undefined.
\<close>

definition add_waiting_agents ::
  "('a, 'z) agent_rt_scheme \<Rightarrow> (hsa_agent_t \<Rightarrow> 's access list) \<Rightarrow> (hsa_agent_t \<Rightarrow> 's access list) \<Rightarrow> hsa_agent_t handle_list_s \<Rightarrow>
     (hsa_agent_t, 's shared) test_group \<Rightarrow> (hsa_agent_t, 's shared) test_group option"
where
  "add_waiting_agents art host_func component_func agent_list g =
     for_loop 0 (unat (num_handles agent_list)) (\<lambda>ii g. do {
       ASSERT (ii < length (handle_array agent_list));
       agent \<leftarrow> handle_array agent_list ! ii;
       device_type \<leftarrow> (case device_info art agent of (st, device_type) \<Rightarrow>
         if st = HSA_STATUS_SUCCESS then Some device_type else None);
       (if device_type = HSA_DEVICE_TYPE_CPU then test_group_add g host_func agent 1
        else if device_type = HSA_DEVICE_TYPE_GPU then test_group_add g component_func agent 1
        else Some g)
     }) g"

lemma device_type_read:
  "((case device_info art agent of (st, device_type) \<Rightarrow> if st = HSA_STATUS_SUCCESS then Some device_type else None) \<bind> f) =
    (let (status, device_type) = device_info art agent in ASSERT (status = HSA_STATUS_SUCCESS) \<bind> (\<lambda>_. f device_type))"
  by (simp add: ASSERT_def split: prod.split)

lemma add_waiting_agents_eq: "add_waiting_agents art f f' l g = add_agents art f f' l g"
  unfolding add_waiting_agents_def add_agents_def device_type_read ..

definition consumers_wait ::
  "('h, 'w::len word, 's) hsa_rt \<Rightarrow> ('a, 'z) agent_rt_scheme \<Rightarrow> ('h, 'w word, 's) hsa_signal_wait \<Rightarrow> (nat \<Rightarrow> nat) \<Rightarrow>
     hsa_agent_t handle_list_s \<Rightarrow> 'h \<Rightarrow> 's \<Rightarrow> (nat \<times> 's) option"
where
  "consumers_wait rt art wt sched agent_list signal s = do {
     tg_sg_wait \<leftarrow> add_waiting_agents art (signal_wait_host_func wt signal) (signal_wait_component_func wt signal) agent_list
       (test_group_create (num_handles agent_list));
     s \<leftarrow> run_functions sched ([call (hsa_signal_store rt Relaxed signal 1)] # group_bodies tg_sg_wait) s;
     let (status, s) = hsa_signal_destroy rt signal s;
     ASSERT (status = HSA_STATUS_SUCCESS);
     let (status, s) = hsa_shut_down rt s;
     ASSERT (status = HSA_STATUS_SUCCESS);
     Some (0, s)
   }"

text \<open>The first \<open>n\<close> elements of the array of agents are read by \<open>hsa_signal_create\<close>.\<close>

definition consumers :: "nat \<Rightarrow> hsa_agent_t handle_list_s \<Rightarrow> hsa_agent_t list option" where
  "consumers n agent_list =
     (if n \<le> length (handle_array agent_list) \<and> None \<notin> set (take n (handle_array agent_list))
      then Some (map the (take n (handle_array agent_list))) else None)"

definition test_signal_create_zero_consumers ::
  "('h, 'w::len word, 's) hsa_rt \<Rightarrow> ('a, 'z) agent_rt_scheme \<Rightarrow> ('h, 'w word, 's) hsa_signal_wait \<Rightarrow>
     (hsa_agent_t callback \<Rightarrow> hsa_agent_t iter_mem \<Rightarrow> hsa_status_t \<times> hsa_agent_t iter_mem) \<Rightarrow> hsa_agent_t iter_mem \<Rightarrow>
     (nat \<Rightarrow> nat) \<Rightarrow> 's \<Rightarrow> (nat \<times> 's) option"
where
  "test_signal_create_zero_consumers rt art wt iterate_agents m sched s = do {
     let (status, s) = hsa_init rt s;
     ASSERT (status = HSA_STATUS_SUCCESS);
     (agent_list, m) \<leftarrow> get_agent_list iterate_agents m;
     agents \<leftarrow> consumers 0 agent_list;
     let (status, signal, s) = hsa_signal_create rt 0 0 agents s;
     consumers_wait rt art wt sched agent_list signal s
   }"

definition test_signal_create_one_consumers ::
  "('h, 'w::len word, 's) hsa_rt \<Rightarrow> ('a, 'z) agent_rt_scheme \<Rightarrow> ('h, 'w word, 's) hsa_signal_wait \<Rightarrow>
     (hsa_agent_t callback \<Rightarrow> hsa_agent_t iter_mem \<Rightarrow> hsa_status_t \<times> hsa_agent_t iter_mem) \<Rightarrow> hsa_agent_t iter_mem \<Rightarrow>
     (nat \<Rightarrow> nat) \<Rightarrow> 's \<Rightarrow> (nat \<times> 's) option"
where
  "test_signal_create_one_consumers rt art wt iterate_agents m sched s = do {
     let (status, s) = hsa_init rt s;
     ASSERT (status = HSA_STATUS_SUCCESS);
     (agent_list, m) \<leftarrow> get_agent_list iterate_agents m;
     agents \<leftarrow> consumers 1 agent_list;
     let (status, signal, s) = hsa_signal_create rt 0 1 agents s;
     consumers_wait rt art wt sched agent_list signal s
   }"

definition test_signal_create_max_consumers ::
  "('h, 'w::len word, 's) hsa_rt \<Rightarrow> ('a, 'z) agent_rt_scheme \<Rightarrow> ('h, 'w word, 's) hsa_signal_wait \<Rightarrow>
     (hsa_agent_t callback \<Rightarrow> hsa_agent_t iter_mem \<Rightarrow> hsa_status_t \<times> hsa_agent_t iter_mem) \<Rightarrow> hsa_agent_t iter_mem \<Rightarrow>
     (nat \<Rightarrow> nat) \<Rightarrow> 's \<Rightarrow> (nat \<times> 's) option"
where
  "test_signal_create_max_consumers rt art wt iterate_agents m sched s = do {
     let (status, s) = hsa_init rt s;
     ASSERT (status = HSA_STATUS_SUCCESS);
     (agent_list, m) \<leftarrow> get_agent_list iterate_agents m;
     agents \<leftarrow> consumers (unat (num_handles agent_list)) agent_list;
     let (status, signal, s) = hsa_signal_create rt 0 (unat (num_handles agent_list)) agents s;
     ASSERT (status = HSA_STATUS_SUCCESS);
     consumers_wait rt art wt sched agent_list signal s
   }"

subsection \<open>One thread\<close>

definition value_of_new :: "('h, 'w::len word, 's) hsa_rt \<Rightarrow> 'w word \<Rightarrow> 's \<Rightarrow> 's option" where
  "value_of_new rt v s = do {
     let (status, signal, s) = hsa_signal_create rt v 0 [] s;
     ASSERT (status = HSA_STATUS_SUCCESS);
     let (signal_value, s) = hsa_signal_load rt Acquire signal s;
     ASSERT (signal_value = v);
     let (status, s) = hsa_signal_destroy rt signal s;
     ASSERT (status = HSA_STATUS_SUCCESS);
     Some s
   }"

definition test_signal_create_initial_value :: "('h, 'w::len word, 's) hsa_rt \<Rightarrow> 's \<Rightarrow> (int \<times> 's) option" where
  "test_signal_create_initial_value rt s = do {
     let (status, s) = hsa_init rt s;
     ASSERT (status = HSA_STATUS_SUCCESS);
     s \<leftarrow> value_of_new rt 1 s;
     s \<leftarrow> value_of_new rt 0 s;
     s \<leftarrow> value_of_new rt (-1) s;
     Some (0, s)
   }"

text \<open>\<open>uname\<close> is the result of the system call: its return value and the name of the machine.\<close>

definition test_signal_value_width :: "('h, 'w::len word, 's) hsa_rt \<Rightarrow> int \<times> string \<Rightarrow> 's \<Rightarrow> (int \<times> 's) option" where
  "test_signal_value_width rt uname s = do {
     let (status, s) = hsa_init rt s;
     ASSERT (HSA_STATUS_SUCCESS = status);
     let (err, machine) = uname;
     if err \<noteq> 0 then Some (-1, s)
     else do {
       let size = LENGTH('w) div 8;
       (if size = 8 then ASSERT (machine = ''x86_64'')
        else if size = 4 then ASSERT (machine = ''i686'' \<or> machine = ''i386'')
        else Some ());
       let (status, s) = hsa_shut_down rt s;
       ASSERT (HSA_STATUS_SUCCESS = status);
       Some (0, s)
     }
   }"

subsection \<open>The array of signals\<close>

lemma concat_rows: "concat (map (\<lambda>ii. map (\<lambda>jj. ii * m + jj) [0..<m]) [0..<n]) = [0..<n * m]"
proof (induction n)
  case (Suc n)
  have "map (\<lambda>jj. n * m + jj) [0..<m] = [n * m..<n * m + m]"
    by (intro nth_equalityI) simp_all
  then show ?case using Suc upt_add_eq_append [of 0 "n * m" m] by (simp add: add.commute)
qed simp

definition rows :: "nat list list" where
  "rows = map (\<lambda>ii. map (\<lambda>jj. ii * CREATE_M + jj) [0..<CREATE_M]) [0..<CREATE_N]"

lemma concat_rows_all: "concat rows = [0..<CREATE_N * CREATE_M]"
  unfolding rows_def by (rule concat_rows)

context signal_runtime
begin

text \<open>The end of a test that has destroyed the signals \<open>X\<close>, which were not there when it had initialised the runtime in \<open>t\<close>.\<close>

lemma wp_end:
  assumes "ups t = Suc (ups s)" "0 < ups s \<Longrightarrow> val t = val s" "ups s' = ups t" "\<forall>h. val s' h = (if h \<in> X then None else val t h)"
    and "\<forall>h \<in> X. val t h = None"
  shows "passes (let (status, s) = hsa_shut_down rt s' in ASSERT (status = HSA_STATUS_SUCCESS) \<bind> (\<lambda>_. Some (0 :: nat, s)))
    (\<lambda>(r, s'). r = 0 \<and> restored ups val s s')"
proof (rule wp_shut_down)
  fix s'' assume s'': "ups s'' = ups s' - 1" "1 < ups s' \<Longrightarrow> val s'' = val s'"
  have "val s' = val t" using assms(4,5) by (auto simp: fun_eq_iff)
  then show "passes (ASSERT (HSA_STATUS_SUCCESS = HSA_STATUS_SUCCESS) \<bind> (\<lambda>_. Some (0 :: nat, s''))) (\<lambda>(r, s'). r = 0 \<and> restored ups val s s')"
    using assms(1-3) s'' by (simp add: restored_def)
qed (use assms in simp)

text \<open>All signals of the array but those with index in \<open>R\<close> have been created, with the value 0; \<open>c\<close> gives those of others.\<close>

definition created :: "nat \<Rightarrow> ('h \<Rightarrow> 'w word option) \<Rightarrow> nat \<Rightarrow> nat set \<Rightarrow> 'h option list \<times> 's \<Rightarrow> bool" where
  "created u c n R = (\<lambda>(signals, s). ups s = u \<and> 0 < u \<and> (\<exists>f. inj_on f ({..<n} - R) \<and>
     signals = map (\<lambda>l. if l \<in> R then None else Some (f l)) [0..<n] \<and>
     val s = (\<lambda>h. if h \<in> f ` ({..<n} - R) then Some 0 else c h) \<and> (\<forall>h \<in> f ` ({..<n} - R). c h = None)))"

lemma created_none: "0 < ups s \<Longrightarrow> created (ups s) (val s) n {..<n} (replicate n None, s)"
  by (auto simp: created_def map_replicate_const intro!: nth_equalityI)

lemma create_at_passes:
  assumes "created u c n R x" "R \<subseteq> {..<n}" "l \<in> R"
  shows "passes (create_at rt l x) (created u c n (R - {l}))"
proof -
  obtain signals s f where x: "x = (signals, s)" "ups s = u" "0 < u"
    and f: "inj_on f ({..<n} - R)" "signals = map (\<lambda>l. if l \<in> R then None else Some (f l)) [0..<n]"
      "val s = (\<lambda>h. if h \<in> f ` ({..<n} - R) then Some 0 else c h)" "\<forall>h \<in> f ` ({..<n} - R). c h = None"
    using assms(1) by (cases x) (auto simp: created_def)
  have l: "l < n" using assms(2,3) by auto
  have rest: "{..<n} - (R - {l}) = insert l ({..<n} - R)" using assms(2,3) by auto
  have "created u c n (R - {l}) (signals[l := Some h], s')"
    if h: "val s h = None" "ups s' = ups s" "val s' = (val s)(h \<mapsto> 0)" for h s'
  proof -
    let ?f = "f(l := h)"
    have new: "h \<notin> f ` ({..<n} - R)" "c h = None" using h(1) f(3) by (auto split: if_splits)
    have same: "?f ` ({..<n} - R) = f ` ({..<n} - R)" using assms(3) by (intro image_cong) auto
    then have image: "?f ` ({..<n} - (R - {l})) = insert h (f ` ({..<n} - R))" unfolding rest by (simp only: image_insert same fun_upd_same)
    have "inj_on ?f ({..<n} - (R - {l}))"
      unfolding rest inj_on_insert using f(1) new(1) assms(3) by (auto simp: inj_on_def)
    moreover have "signals[l := Some h] = map (\<lambda>j. if j \<in> R - {l} then None else Some (?f j)) [0..<n]"
      unfolding f(2) using l by (intro nth_equalityI) (auto simp: nth_list_update)
    moreover have "val s' = (\<lambda>g. if g \<in> ?f ` ({..<n} - (R - {l})) then Some 0 else c g)"
      unfolding image h(3) f(3) by auto
    moreover have "\<forall>g \<in> ?f ` ({..<n} - (R - {l})). c g = None" unfolding image using f(4) new(2) by simp
    moreover have "ups s' = u" using x h(2) by simp
    ultimately show ?thesis using x(3) unfolding created_def prod.case by blast
  qed
  then show ?thesis
    unfolding create_at_def x(1) prod.case using x(2,3) l f(2)
    by (intro wp_create) (simp_all add: ASSERT_def)
qed

lemma created_all:
  assumes "created u c n {} (signals, s)"
  obtains x where "signals = map Some x" "length x = n" "board u x (\<lambda>_. 0) c s" "\<forall>h \<in> set x. c h = None"
proof -
  obtain f where f: "inj_on f {..<n}" "signals = map (\<lambda>l. Some (f l)) [0..<n]"
    "val s = (\<lambda>h. if h \<in> f ` {..<n} then Some 0 else c h)" "\<forall>h \<in> f ` {..<n}. c h = None" "ups s = u" "0 < u"
    using assms by (auto simp: created_def)
  have set: "set (map f [0..<n]) = f ` {..<n}" by (simp add: lessThan_atLeast0)
  have "distinct (map f [0..<n])" using f(1) by (simp add: distinct_map lessThan_atLeast0)
  then have "board u (map f [0..<n]) (\<lambda>_. 0) c s" using f(3,5,6) set by (auto simp: board_def)
  then show ?thesis using f(2,4) set by (intro that [of "map f [0..<n]"]) (simp_all add: comp_def)
qed

text \<open>A round of the threads that create the signals, and of those that destroy them.\<close>

lemma wp_create_round:
  assumes "group_bodies g = map (signal_create_func rt) (map (\<lambda>ii. ii * CREATE_M) [0..<CREATE_N])" "0 < ups s"
    and "\<And>x s'. length x = CREATE_N * CREATE_M \<Longrightarrow> board (ups s) x (\<lambda>_. 0) (val s) s' \<Longrightarrow> \<forall>h \<in> set x. val s h = None \<Longrightarrow>
      passes (k (map Some x, s')) P"
  shows "passes (test_group_round cs g (Some (replicate (CREATE_N * CREATE_M) None, s)) \<bind> k) P"
proof (rule wp_round_labels [where lss = rows and f = "create_at rt" and Inv = "created (ups s) (val s) (CREATE_N * CREATE_M)"])
  show "group_bodies g = map (map (\<lambda>l. checked (create_at rt l))) rows"
    unfolding assms(1) by (simp add: rows_def signal_create_func_def comp_def)
  show "distinct (concat rows)" unfolding concat_rows_all by simp
  have all: "set (concat rows) = {..<CREATE_N * CREATE_M}" unfolding concat_rows_all by (simp add: lessThan_atLeast0)
  show "created (ups s) (val s) (CREATE_N * CREATE_M) (set (concat rows)) (replicate (CREATE_N * CREATE_M) None, s)"
    unfolding all using assms(2) by (rule created_none)
  show "passes (create_at rt l x) (created (ups s) (val s) (CREATE_N * CREATE_M) (R - {l}))"
    if "R \<subseteq> set (concat rows)" "l \<in> R" "created (ups s) (val s) (CREATE_N * CREATE_M) R x" for R l x
    using create_at_passes that unfolding all by blast
  show "passes (k x) P" if "created (ups s) (val s) (CREATE_N * CREATE_M) {} x" for x
    using that created_all [of "ups s" "val s" "CREATE_N * CREATE_M" "fst x" "snd x"] assms(3) by (cases x) auto
qed

lemma wp_create_loop:
  assumes "0 < ups s"
    and "\<And>x s'. length x = CREATE_N * CREATE_M \<Longrightarrow> board (ups s) x (\<lambda>_. 0) (val s) s' \<Longrightarrow> \<forall>h \<in> set x. val s h = None \<Longrightarrow>
      passes (k (map Some x, s')) P"
  shows "passes (for_loop 0 CREATE_N (\<lambda>ii. for_loop 0 CREATE_M (\<lambda>jj. create_at rt (ii * CREATE_M + jj)))
    (replicate (CREATE_N * CREATE_M) None, s) \<bind> k) P"
proof (rule wp_seq)
  let ?n = "CREATE_N * CREATE_M"
  let ?Inv = "\<lambda>l. created (ups s) (val s) ?n {l..<?n}"
  have "passes (for_loop 0 CREATE_N (\<lambda>ii. for_loop 0 CREATE_M (\<lambda>jj. create_at rt (ii * CREATE_M + jj)))
    (replicate ?n None, s)) (?Inv ((0 + CREATE_N) * CREATE_M))"
  proof (rule for_loop_count [where Inv = "\<lambda>ii. ?Inv (ii * CREATE_M)"])
    show "?Inv (0 * CREATE_M) (replicate ?n None, s)"
      using created_none [OF assms(1), of ?n] by (simp add: lessThan_atLeast0)
    fix ii x assume ii: "ii < 0 + CREATE_N" "?Inv (ii * CREATE_M) x"
    have le: "ii * CREATE_M + CREATE_M \<le> ?n" using mult_le_mono1 [of "Suc ii" CREATE_N CREATE_M] ii(1) by (simp add: add.commute)
    have "passes (for_loop 0 CREATE_M (\<lambda>jj. create_at rt (ii * CREATE_M + jj)) x) (?Inv (ii * CREATE_M + (0 + CREATE_M)))"
    proof (rule for_loop_count [where Inv = "\<lambda>jj. ?Inv (ii * CREATE_M + jj)"])
      show "?Inv (ii * CREATE_M + 0) x" using ii(2) by simp
      fix jj x assume jj: "jj < 0 + CREATE_M" "?Inv (ii * CREATE_M + jj) x"
      have "{ii * CREATE_M + jj..<?n} - {ii * CREATE_M + jj} = {ii * CREATE_M + Suc jj..<?n}" by auto
      then show "passes (create_at rt (ii * CREATE_M + jj) x) (?Inv (ii * CREATE_M + Suc jj))"
        using create_at_passes [OF jj(2), of "ii * CREATE_M + jj"] jj(1) le by (simp add: subset_eq)
    qed
    then show "passes (for_loop 0 CREATE_M (\<lambda>jj. create_at rt (ii * CREATE_M + jj)) x) (?Inv (Suc ii * CREATE_M))"
      by (simp add: add.commute)
  qed
  then show "passes (for_loop 0 CREATE_N (\<lambda>ii. for_loop 0 CREATE_M (\<lambda>jj. create_at rt (ii * CREATE_M + jj)))
    (replicate ?n None, s)) (created (ups s) (val s) ?n {})" by simp
  fix x assume "created (ups s) (val s) ?n {} x"
  then show "passes (k x) P"
    using created_all [of "ups s" "val s" ?n "fst x" "snd x"] assms(2) by (cases x) auto
qed

lemma wp_destroy_round:
  assumes "group_bodies g = map (signal_destroy_func rt (map Some x)) (map (\<lambda>ii. ii * CREATE_M) [0..<CREATE_N])"
    and x: "length x = CREATE_N * CREATE_M" "board u x (\<lambda>_. 0) c s"
    and k: "\<And>s'. ups s' = u \<Longrightarrow> (\<forall>h. val s' h = (if h \<in> set x then None else c h)) \<Longrightarrow> passes (k s') P"
  shows "passes (test_group_round cs g (Some s) \<bind> k) P"
proof (rule wp_round_labels [where lss = rows and f = "destroy_at rt (map Some x)" and
      Inv = "\<lambda>R s'. ups s' = u \<and> (\<forall>h. h \<notin> set x \<longrightarrow> val s' h = c h) \<and> (\<forall>i < length x. val s' (x ! i) = (if i \<in> R then Some 0 else None))"])
  have u: "0 < u" "distinct x" using x(2) by (simp_all add: board_def)
  show "group_bodies g = map (map (\<lambda>l. checked (destroy_at rt (map Some x) l))) rows"
    unfolding assms(1) by (simp add: rows_def signal_destroy_func_def comp_def)
  show "distinct (concat rows)" unfolding concat_rows_all by simp
  have all: "set (concat rows) = {..<length x}" unfolding concat_rows_all x(1) by (simp add: lessThan_atLeast0)
  show "ups s = u \<and> (\<forall>h. h \<notin> set x \<longrightarrow> val s h = c h) \<and>
      (\<forall>i < length x. val s (x ! i) = (if i \<in> set (concat rows) then Some 0 else None))"
    unfolding all using x(2) by (auto simp: board_def)
  fix R l s' assume R: "R \<subseteq> set (concat rows)" "l \<in> R" "ups s' = u \<and> (\<forall>h. h \<notin> set x \<longrightarrow> val s' h = c h) \<and>
      (\<forall>i < length x. val s' (x ! i) = (if i \<in> R then Some 0 else None))"
  then have l: "l < length x" "val s' (x ! l) = Some 0" unfolding all by auto
  then have "destroy_at rt (map Some x) l s' = (let (status, s) = hsa_signal_destroy rt (x ! l) s' in do {
      ASSERT (status = HSA_STATUS_SUCCESS); Some s })" by (simp add: destroy_at_def)
  moreover have "passes (let (status, s) = hsa_signal_destroy rt (x ! l) s' in do { ASSERT (status = HSA_STATUS_SUCCESS); Some s })
      (\<lambda>s'. ups s' = u \<and> (\<forall>h. h \<notin> set x \<longrightarrow> val s' h = c h) \<and>
      (\<forall>i < length x. val s' (x ! i) = (if i \<in> R - {l} then Some 0 else None)))"
    by (rule wp_destroy [OF _ l(2)]) (use R(3) u l(1) in \<open>auto simp: nth_eq_iff_index_eq\<close>)
  ultimately show "passes (destroy_at rt (map Some x) l s') (\<lambda>s'. ups s' = u \<and> (\<forall>h. h \<notin> set x \<longrightarrow> val s' h = c h) \<and>
      (\<forall>i < length x. val s' (x ! i) = (if i \<in> R - {l} then Some 0 else None)))" by simp
next
  fix s' assume "ups s' = u \<and> (\<forall>h. h \<notin> set x \<longrightarrow> val s' h = c h) \<and> (\<forall>i < length x. val s' (x ! i) = (if i \<in> {} then Some 0 else None))"
  then show "passes (k s') P" by (intro k) (auto simp: in_set_conv_nth)
qed

end

subsection \<open>The threads that wait\<close>

lemma add_agents_passes:
  fixes w :: "'t access list"
  assumes "length agents < 2 ^ 31" "\<forall>a \<in> set agents. fst (device_info art a) = HSA_STATUS_SUCCESS"
  shows "passes (add_agents art (\<lambda>_. w) (\<lambda>_. w) \<lparr>num_handles = of_nat (length agents), handle_array = map Some agents\<rparr>
    (test_group_create (of_nat (length agents)))) (\<lambda>g. \<exists>n \<le> length agents. group_bodies g = replicate n w)"
proof -
  let ?n = "length agents" and ?sz = "of_nat (length agents) :: 64 word"
  let ?Inv = "\<lambda>k (g :: (hsa_agent_t, 't shared) test_group). fresh_group g \<and> unat (group_size g) = ?n \<and> unat (num_test g) \<le> k \<and>
    (\<exists>n \<le> k. group_bodies g = replicate n w)"
  have n: "unat ?sz = ?n" using assms(1) by (simp add: unat_of_nat)
  have "passes (add_agents art (\<lambda>_. w) (\<lambda>_. w) \<lparr>num_handles = ?sz, handle_array = map Some agents\<rparr> (test_group_create ?sz)) (?Inv (0 + ?n))"
    unfolding add_agents_def handle_list_s.simps n
  proof (rule for_loop_count [where Inv = ?Inv])
    show "?Inv 0 (test_group_create ?sz)"
      using fresh_create [of ?sz, where ?'a = hsa_agent_t and ?'b = "'t shared"] assms(1) n
      by (simp add: test_group_create_def)
    fix k and g :: "(hsa_agent_t, 't shared) test_group" assume k: "k < 0 + ?n" "?Inv k g"
    have "passes (test_group_add g (\<lambda>_. w) a 1) (?Inv (Suc k))" for a
    proof (rule passes_mono [OF fresh_add])
      fix g' :: "(hsa_agent_t, 't shared) test_group"
      assume "fresh_group g' \<and> group_size g' = group_size g \<and> unat (num_test g') = unat (num_test g) + unat (1 :: 64 word) \<and>
        group_bodies g' = group_bodies g @ replicate (unat (1 :: 64 word)) w"
      moreover obtain n where "n \<le> k" "group_bodies g = replicate n w" using k(2) by blast
      moreover have "replicate n w @ replicate (unat (1 :: 64 word)) w = replicate (Suc n) w" by (simp add: replicate_append_same)
      ultimately show "?Inv (Suc k) g'" using k(2) by (auto intro!: exI [of _ "Suc n"])
    qed (use k in auto)
    moreover have "?Inv (Suc k) g" using k(2) by auto
    moreover have "fst (device_info art (agents ! k)) = HSA_STATUS_SUCCESS" using assms(2) k(1) by simp
    ultimately show "passes (ASSERT (k < length (map Some agents)) \<bind> (\<lambda>_. map Some agents ! k \<bind> (\<lambda>agent.
        let (status, device_type) = device_info art agent in ASSERT (status = HSA_STATUS_SUCCESS) \<bind> (\<lambda>_.
          if device_type = HSA_DEVICE_TYPE_CPU then test_group_add g (\<lambda>_. w) agent 1
          else if device_type = HSA_DEVICE_TYPE_GPU then test_group_add g (\<lambda>_. w) agent 1 else Some g)))) (?Inv (Suc k))"
      using k(1) by (auto simp: case_prod_beta)
  qed
  then show ?thesis by (rule passes_mono) auto
qed

context blocking_runtime
begin

text \<open>The access of a thread that waits for 1.\<close>

definition awaits_1 :: "'h \<Rightarrow> 's access" where
  "awaits_1 h = await (hsa_signal_wait Acquire h HSA_SIGNAL_CONDITION_EQ 1 UINT64_MAX HSA_WAIT_STATE_BLOCKED)"

text \<open>The first thread sets all signals to 1, the others wait for one signal after the other: they all end.\<close>

lemma all_woken:
  assumes "fair (Suc n) sched" "board u x (\<lambda>_. 0) c s"
  shows "passes (run_functions sched (map (\<lambda>ii. call (hsa_signal_store rt Relaxed (x ! ii) 1)) [0..<length x] #
    replicate n (map (\<lambda>ii. awaits_1 (x ! ii)) [0..<length x])) s) (board u x (\<lambda>_. 1) c)"
    (is "passes (run_functions sched ?fs s) _")
proof (rule run_positions [where I = "\<lambda>p. board u x (\<lambda>i. if i < p ! 0 then 1 else 0) c" and helper = "\<lambda>p. LEAST j. p ! j < length x"])
  have len: "length (?fs ! j) = length x" if "j < length ?fs" for j using that by (cases j) simp_all
  show "fair (length ?fs) sched" using assms(1) by simp
  show "board u x (\<lambda>i. if i < replicate (length ?fs) 0 ! 0 then 1 else 0) c s" using assms(2) by simp
  fix p j s fl0 assume p: "length p = length ?fs" "j < length ?fs" "p ! j < length (?fs ! j)"
    and I: "board u x (\<lambda>i. if i < p ! 0 then 1 else 0) c s"
  have q: "p ! j < length x" using p(2,3) len by simp
  show "\<exists>fl s'. (?fs ! j ! (p ! j)) (Some (fl0, s)) = Some (fl, s') \<and>
      (fl = Next \<and> board u x (\<lambda>i. if i < p[j := Suc (p ! j)] ! 0 then 1 else 0) c s' \<or>
       fl = Again \<and> board u x (\<lambda>i. if i < p ! 0 then 1 else 0) c s' \<and> j \<noteq> (LEAST j. p ! j < length x))"
  proof (cases j)
    case 0
    have q0: "p ! 0 < length x" using q 0 by simp
    note store_look [OF I q0, of Relaxed 1 fl0]
    moreover have "(\<lambda>i. if i < p ! 0 then 1 else 0)(p ! 0 := 1) = (\<lambda>i. if i < Suc (p ! 0) then 1 else (0 :: 'w word))" by auto
    moreover have "p[0 := Suc (p ! 0)] ! 0 = Suc (p ! 0)" using p(1) by (cases p) simp_all
    ultimately show ?thesis using q 0 by simp
  next
    case (Suc j')
    then have access: "?fs ! j ! (p ! j) = awaits_1 (x ! (p ! j))" using p(2) q by simp
    obtain fl s' where s': "awaits_1 (x ! (p ! j)) (Some (fl0, s)) = Some (fl, s')"
      "board u x (\<lambda>i. if i < p ! 0 then 1 else 0) c s'" "fl = Next \<or> fl = Again \<and> (if p ! j < p ! 0 then 1 else 0 :: 'w word) \<noteq> 1"
      using await_look [OF I q, of Acquire HSA_SIGNAL_CONDITION_EQ 1 HSA_WAIT_STATE_BLOCKED fl0] by (auto simp: awaits_1_def)
    have "j \<noteq> (LEAST j. p ! j < length x)" if "\<not> p ! j < p ! 0"
    proof -
      have "p ! 0 < length x" using that q by linarith
      then have "(LEAST j. p ! j < length x) = 0" by (rule Least_eq_0)
      then show ?thesis using Suc by simp
    qed
    then show ?thesis unfolding access using s' Suc by (auto split: if_splits)
  qed
next
  fix p s assume p: "length p = length ?fs" "\<exists>j < length ?fs. p ! j < length (?fs ! j)"
  then obtain j where j: "j < length ?fs" "p ! j < length x" by (metis (no_types, lifting) length_Cons length_map length_replicate
      length_upt less_Suc_eq_0_disj minus_nat.diff_0 nth_Cons_0 nth_Cons_Suc nth_replicate)
  then have least: "p ! (LEAST j. p ! j < length x) < length x" "(LEAST j. p ! j < length x) \<le> j"
    by (auto intro: LeastI Least_le)
  then have lt: "(LEAST j. p ! j < length x) < length ?fs" using j(1) by linarith
  moreover have "length (?fs ! k) = length x" if "k < length ?fs" for k using that by (cases k) simp_all
  ultimately show "(LEAST j. p ! j < length x) < length ?fs \<and> p ! (LEAST j. p ! j < length x) < length (?fs ! (LEAST j. p ! j < length x))"
    using least(1) by metis
next
  fix s assume "board u x (\<lambda>i. if i < map length ?fs ! 0 then 1 else 0) c s"
  then show "board u x (\<lambda>_. 1) c s" using board_cong [of x "\<lambda>i. if i < length x then 1 else 0" "\<lambda>_. 1" u c] by simp
qed

lemma wait_funcs:
  "signals_wait_host_func hsa_signal_wait x = (\<lambda>_. map (\<lambda>ii. awaits_1 (x ! ii)) [0..<CREATE_N * CREATE_M])"
  "signals_wait_component_func hsa_signal_wait x = (\<lambda>_. map (\<lambda>ii. awaits_1 (x ! ii)) [0..<CREATE_N * CREATE_M])"
  "signal_wait_host_func hsa_signal_wait h = (\<lambda>_. [awaits_1 h])"
  "signal_wait_component_func hsa_signal_wait h = (\<lambda>_. [awaits_1 h])"
  by (simp_all add: fun_eq_iff signals_wait_host_func_def signals_wait_component_func_def signal_wait_host_func_def
      signal_wait_component_func_def awaits_1_def
      mult.commute [of CREATE_M])

lemma all_set: "(if None \<in> set (map Some x) then None else Some (map the (map Some x))) = Some x"
  by (auto simp: comp_def)

text \<open>The agents, and the run of a group with a thread for each of them that is a CPU or a GPU, which the main thread wakes.\<close>

lemma wp_agents:
  assumes "handle_iterator iterate_agents agents" "length agents < 2 ^ 31"
    and "\<And>m'. passes (k (\<lparr>num_handles = of_nat (length agents), handle_array = map Some agents\<rparr>, m')) P"
  shows "passes (get_agent_list iterate_agents m \<bind> k) P"
  using get_agent_list_lists [OF assms(1,2), of m] assms(3) by (auto simp: passes_def)

lemma wp_waking:
  assumes "length agents < 2 ^ 31" "\<forall>a \<in> set agents. fst (device_info art a) = HSA_STATUS_SUCCESS" "fair (Suc (length agents)) sched"
    and "board u x (\<lambda>_. 0) c s" "n = length x" and k: "\<And>s'. board u x (\<lambda>_. 1) c s' \<Longrightarrow> passes (k s') P"
  shows "passes (add_agents art (\<lambda>_. map (\<lambda>ii. awaits_1 (x ! ii)) [0..<n]) (\<lambda>_. map (\<lambda>ii. awaits_1 (x ! ii)) [0..<n])
      \<lparr>num_handles = of_nat (length agents), handle_array = map Some agents\<rparr> (test_group_create (of_nat (length agents))) \<bind>
    (\<lambda>g. run_functions sched (map (\<lambda>ii. call (hsa_signal_store rt Relaxed (x ! ii) 1)) [0..<n] # group_bodies g) s \<bind> k)) P"
proof (rule wp_seq [OF add_agents_passes [OF assms(1,2)]])
  fix g :: "(hsa_agent_t, 's shared) test_group"
  assume "\<exists>n' \<le> length agents. group_bodies g = replicate n' (map (\<lambda>ii. awaits_1 (x ! ii)) [0..<n])"
  then obtain n' where n': "n' \<le> length agents" "group_bodies g = replicate n' (map (\<lambda>ii. awaits_1 (x ! ii)) [0..<n])" by blast
  have "fair (Suc n') sched" using fair_fewer [OF assms(3)] n'(1) by simp
  from all_woken [OF this assms(4)]
  show "passes (run_functions sched (map (\<lambda>ii. call (hsa_signal_store rt Relaxed (x ! ii) 1)) [0..<n] # group_bodies g) s \<bind> k) P"
    unfolding n'(2) assms(5) by (rule wp_seq) (rule k)
qed

lemma test_signal_create_concurrent_passes:
  assumes "ups s < 2 ^ 31 - 1" "handle_iterator iterate_agents agents" "length agents < 2 ^ 31"
    and "\<forall>a \<in> set agents. fst (device_info art a) = HSA_STATUS_SUCCESS" "fair (Suc (length agents)) sched"
  shows "passes (test_signal_create_concurrent rt art hsa_signal_wait iterate_agents m cs sched s) (\<lambda>(r, s'). r = 0 \<and> restored ups val s s')"
  unfolding test_signal_create_concurrent_def
  apply (rule wp_init [OF assms(1)], rule wp_assert [OF HOL.refl], rule wp_let, rule wp_let)
  apply (rule wp_add_params)
     apply (simp_all add: CREATE_N_def) [3]
  subgoal for s1 g
    apply (rule wp_create_round)
      apply (simp_all add: CREATE_N_def) [2]
    subgoal for x s2
      apply (simp only: prod.case)
      apply (rule wp_agents [OF assms(2,3)])
      apply (simp only: wait_funcs prod.case all_set bind.bind_lunit handle_list_s.simps)
      apply (rule wp_waking [OF assms(3-5)], assumption)
       apply (simp add: CREATE_N_def CREATE_M_def)
      apply (rule wp_seq [OF destroy_signals_passes], assumption, assumption)
      apply (rule wp_end [where X = "set x" and t = s1])
          apply (auto simp: board_def)
      done
    done
  done

end

context signal_runtime
begin

lemma test_signal_destroy_concurrent_passes:
  assumes "ups s < 2 ^ 31 - 1"
  shows "passes (test_signal_destroy_concurrent rt cs s) (\<lambda>(r, s'). r = 0 \<and> restored ups val s s')"
  unfolding test_signal_destroy_concurrent_def
  apply (rule wp_init [OF assms(1)], rule wp_assert [OF HOL.refl], rule wp_let, rule wp_let)
  subgoal for s1
    apply (rule wp_create_loop)
     apply simp
    subgoal for x s2
      apply (simp only: prod.case)
      apply (rule wp_add_params)
         apply (simp_all add: CREATE_N_def) [3]
      subgoal for g
        apply (rule wp_destroy_round, assumption, assumption, assumption)
        apply (rule wp_end [where X = "set x" and t = s1])
            apply auto
        done
      done
    done
  done

lemma value_of_new_passes:
  assumes "0 < ups s"
  shows "passes (value_of_new rt v s) (\<lambda>s'. ups s' = ups s \<and> val s' = val s)"
  unfolding value_of_new_def
proof (rule wp_create [OF assms], rule wp_assert [OF HOL.refl])
  fix h s1 assume s1: "val s h = None" "ups s1 = ups s" "val s1 = (val s)(h \<mapsto> v)"
  show "passes (let (signal_value, s) = hsa_signal_load rt Acquire h s1 in ASSERT (signal_value = v) \<bind> (\<lambda>_.
      let (status, s) = hsa_signal_destroy rt h s in ASSERT (status = HSA_STATUS_SUCCESS) \<bind> (\<lambda>_. Some s)))
      (\<lambda>s'. ups s' = ups s \<and> val s' = val s)"
  proof (rule wp_load [of _ h v])
    fix s2 assume s2: "ups s2 = ups s1" "val s2 = val s1"
    show "passes (ASSERT (v = v) \<bind> (\<lambda>_. let (status, s) = hsa_signal_destroy rt h s2 in
        ASSERT (status = HSA_STATUS_SUCCESS) \<bind> (\<lambda>_. Some s))) (\<lambda>s'. ups s' = ups s \<and> val s' = val s)"
      by (rule wp_assert [OF HOL.refl], rule wp_destroy [of _ h v]) (use s1 s2 assms in \<open>auto simp: fun_eq_iff\<close>)
  qed (use s1 assms in simp_all)
qed

lemma initial_value_passes:
  assumes "ups s < 2 ^ 31 - 1"
  shows "passes (test_signal_create_initial_value rt s) (\<lambda>(r, s'). r = 0 \<and> ups s' = Suc (ups s) \<and> (0 < ups s \<longrightarrow> val s' = val s))"
  unfolding test_signal_create_initial_value_def
  apply (rule wp_init [OF assms], rule wp_assert [OF HOL.refl])
  apply (rule wp_seq [OF value_of_new_passes], simp)+
  apply simp
  done

lemma value_width_passes:
  assumes "ups s < 2 ^ 31 - 1" "machine_word TYPE('w)"
  shows "test_signal_value_width rt (0, machine) s = None \<longleftrightarrow>
    machine \<notin> (if HSA_LARGE_MODEL TYPE('w) then {''x86_64''} else {''i686'', ''i386''})"
proof -
  obtain s1 where s1: "hsa_init rt s = (HSA_STATUS_SUCCESS, s1)" "0 < ups s1" using init [OF assms(1)] by (metis surj_pair zero_less_Suc)
  obtain s2 where "hsa_shut_down rt s1 = (HSA_STATUS_SUCCESS, s2)" using shut_down [OF s1(2)] by (metis surj_pair)
  then show ?thesis
    using s1 assms(2) by (auto simp: test_signal_value_width_def machine_word_def HSA_LARGE_MODEL_def ASSERT_def)
qed

end

text \<open>
  Signals with a list of consumers: creating one is like creating any other, when the host, whose threads wait for it, is among them.
\<close>

locale consumer_runtime = blocking_runtime rt ups val hsa_signal_wait
  for rt :: "('h, 'w::len word, 's) hsa_rt" and ups :: "'s \<Rightarrow> nat" and val :: "'s \<Rightarrow> 'h \<Rightarrow> 'w word option" and hsa_signal_wait +
  fixes host :: "hsa_agent_t \<Rightarrow> bool"
  assumes create_for: "0 < ups s \<Longrightarrow> distinct agents \<Longrightarrow> \<exists>a \<in> set agents. host a \<Longrightarrow>
      hsa_signal_create rt v (length agents) agents s = (st, h, s') \<Longrightarrow>
      st = HSA_STATUS_SUCCESS \<and> val s h = None \<and> ups s' = ups s \<and> val s' = (val s)(h \<mapsto> v)"
begin

lemma wp_create_for:
  assumes "0 < ups s" "distinct agents" "\<exists>a \<in> set agents. host a" "n = length agents"
    and "\<And>h s'. val s h = None \<Longrightarrow> ups s' = ups s \<Longrightarrow> val s' = (val s)(h \<mapsto> v) \<Longrightarrow> passes (k HSA_STATUS_SUCCESS h s') P"
  shows "passes (let (st, h, s') = hsa_signal_create rt v n agents s in k st h s') P"
  using create_for [OF assms(1-3), of v] assms(4,5) by (cases "hsa_signal_create rt v n agents s") auto

lemma consumers_wait_passes:
  assumes "length agents < 2 ^ 31" "\<forall>a \<in> set agents. fst (device_info art a) = HSA_STATUS_SUCCESS" "fair (Suc (length agents)) sched"
    and "ups t = Suc (ups s)" "0 < ups s \<Longrightarrow> val t = val s" "val t h = None" "ups s' = ups t" "val s' = (val t)(h \<mapsto> 0)"
  shows "passes (consumers_wait rt art hsa_signal_wait sched \<lparr>num_handles = of_nat (length agents), handle_array = map Some agents\<rparr> h s')
    (\<lambda>(r, s'). r = 0 \<and> restored ups val s s')"
proof -
  have board: "board (Suc (ups s)) [h] (\<lambda>_. 0) (val t) s'" using assms(4,7,8) by (simp add: board_def)
  have one: "[f h] = map (\<lambda>ii. f ([h] ! ii)) [0..<1]" for f :: "'h \<Rightarrow> 'x" by simp
  show ?thesis
    unfolding consumers_wait_def add_waiting_agents_eq wait_funcs handle_list_s.simps one [of awaits_1] one [of "\<lambda>h. call (hsa_signal_store rt Relaxed h 1)"]
  proof (rule wp_waking [OF assms(1-3) board])
    fix s'' assume s'': "board (Suc (ups s)) [h] (\<lambda>_. 1) (val t) s''"
    show "passes (let (status, s) = hsa_signal_destroy rt h s'' in ASSERT (status = HSA_STATUS_SUCCESS) \<bind> (\<lambda>_.
        let (status, s) = hsa_shut_down rt s in ASSERT (status = HSA_STATUS_SUCCESS) \<bind> (\<lambda>_. Some (0 :: nat, s))))
        (\<lambda>(r, s'). r = 0 \<and> restored ups val s s')"
    proof (rule wp_destroy, goal_cases)
      case (3 s3)
      show ?case
        by (rule wp_assert [OF HOL.refl], rule wp_end [where X = "{h}" and t = t]) (use 3 s'' assms in \<open>auto simp: board_def\<close>)
    qed (use s'' in \<open>auto simp: board_def\<close>)
  qed simp
qed

lemma consumers_of:
  "consumers 1 \<lparr>num_handles = n, handle_array = map Some (a # agents)\<rparr> = Some [a]"
  "consumers (length agents) \<lparr>num_handles = n, handle_array = map Some agents\<rparr> = Some agents"
  by (auto simp: consumers_def comp_def)

lemma consumers_none: "consumers 0 l = Some []"
  by (simp add: consumers_def)

lemma consumers_tests:
  assumes "ups s < 2 ^ 31 - 1" "handle_iterator iterate_agents agents" "length agents < 2 ^ 31" "distinct agents"
    and "\<forall>a \<in> set agents. fst (device_info art a) = HSA_STATUS_SUCCESS" "fair (Suc (length agents)) sched"
  shows "passes (test_signal_create_zero_consumers rt art hsa_signal_wait iterate_agents m sched s) (\<lambda>(r, s'). r = 0 \<and> restored ups val s s')"
    and "agents \<noteq> [] \<Longrightarrow> host (hd agents) \<Longrightarrow>
      passes (test_signal_create_one_consumers rt art hsa_signal_wait iterate_agents m sched s) (\<lambda>(r, s'). r = 0 \<and> restored ups val s s')"
    and "\<exists>a \<in> set agents. host a \<Longrightarrow>
      passes (test_signal_create_max_consumers rt art hsa_signal_wait iterate_agents m sched s) (\<lambda>(r, s'). r = 0 \<and> restored ups val s s')"
proof -
  have n: "unat (of_nat (length agents) :: 64 word) = length agents" using assms(3) by (simp add: unat_of_nat)
  note wait = consumers_wait_passes [OF assms(3,5,6)]
  show "passes (test_signal_create_zero_consumers rt art hsa_signal_wait iterate_agents m sched s) (\<lambda>(r, s'). r = 0 \<and> restored ups val s s')"
    unfolding test_signal_create_zero_consumers_def
    apply (rule wp_init [OF assms(1)], rule wp_assert [OF HOL.refl], rule wp_agents [OF assms(2,3)])
    apply (simp only: prod.case consumers_none bind.bind_lunit)
    apply (rule wp_create, simp, rule wait, assumption+)
    done
  show "passes (test_signal_create_max_consumers rt art hsa_signal_wait iterate_agents m sched s) (\<lambda>(r, s'). r = 0 \<and> restored ups val s s')"
    if "\<exists>a \<in> set agents. host a"
    unfolding test_signal_create_max_consumers_def
    apply (rule wp_init [OF assms(1)], rule wp_assert [OF HOL.refl], rule wp_agents [OF assms(2,3)])
    apply (simp only: prod.case handle_list_s.simps n consumers_of bind.bind_lunit)
    apply (rule wp_create_for [OF _ assms(4) that HOL.refl], simp, rule wp_assert [OF HOL.refl], rule wait, assumption+)
    done
  assume host: "agents \<noteq> []" "host (hd agents)"
  then obtain a as where a: "agents = a # as" by (cases agents) auto
  show "passes (test_signal_create_one_consumers rt art hsa_signal_wait iterate_agents m sched s) (\<lambda>(r, s'). r = 0 \<and> restored ups val s s')"
    unfolding test_signal_create_one_consumers_def
    apply (rule wp_init [OF assms(1)], rule wp_assert [OF HOL.refl], rule wp_agents [OF assms(2,3)])
    apply (simp only: prod.case)
    apply (subst (2) a, simp only: consumers_of bind.bind_lunit)
    apply (rule wp_create_for, simp, simp, use host a in simp, simp, rule wait, assumption+)
    done
qed

end

interpretation eager_consumers: consumer_runtime reference_rt ref_ups ref_val eager_wait host for host
  by unfold_locales (auto simp: reference_rt_def ref_val_def)

subsection \<open>Properties\<close>

text \<open>
  C22.  The tests that create and destroy 256 signals from eight threads return 0 and leave the runtime as it was, in every order in
  which the threads create or destroy them: the signals are all different, each thread that waits sees all of them set under every fair schedule, and
  none is left.  This holds although waits may return early.  The test of initial values passes, but does not shut the runtime down.
\<close>

theorem create_tests_pass:
  assumes "blocking_runtime rt ups val wt" "ups s < 2 ^ 31 - 1" "handle_iterator iterate_agents agents" "length agents < 2 ^ 31"
    and "\<forall>a \<in> set agents. fst (device_info art a) = HSA_STATUS_SUCCESS" "fair (Suc (length agents)) sched"
  shows "(\<exists>s'. test_signal_create_concurrent rt art wt iterate_agents m cs sched s = Some (0, s') \<and> restored ups val s s') \<and>
    (\<exists>s'. test_signal_destroy_concurrent rt cs s = Some (0, s') \<and> restored ups val s s') \<and>
    (\<exists>s'. test_signal_create_initial_value rt s = Some (0, s') \<and> ups s' = Suc (ups s) \<and> (0 < ups s \<longrightarrow> val s' = val s))"
proof -
  have rt: "signal_runtime rt ups val" using assms(1) by (simp add: blocking_runtime_def)
  show ?thesis
    using blocking_runtime.test_signal_create_concurrent_passes [OF assms, of m cs]
      signal_runtime.test_signal_destroy_concurrent_passes [OF rt assms(2), of cs] signal_runtime.initial_value_passes [OF rt assms(2)]
    by (auto simp: passes_def)
qed

theorem create_tests_pass_witness:
  "\<exists>s'. test_signal_create_concurrent reference_rt sample_rt eager_wait (iterate_over [7, 5]) sample_mem [3, 1] (\<lambda>k. k mod 3)
    (ref_start :: 64 word ref_state) = Some (0, s') \<and> ref_ups s' = 0"
proof -
  have agents: "\<forall>a \<in> set [7, 5]. fst (device_info sample_rt a) = HSA_STATUS_SUCCESS" by (simp add: sample_rt_def)
  have three: "Suc (length [7 :: 64 word, 5]) = 3" by simp
  have fair: "fair (Suc (length [7 :: 64 word, 5])) (\<lambda>k. k mod 3)" unfolding three by (rule fair_round_robin) simp
  show ?thesis
    using create_tests_pass [where s = "ref_start :: 64 word ref_state" and m = sample_mem and cs = "[3, 1]",
        OF eager_waiting.blocking_runtime_axioms _ listed.handle_iterator_axioms _ agents fair]
    by (auto simp: ref_start_def restored_def)
qed

text \<open>
  C23.  The three tests of consumers return 0 and leave the runtime as it was under every fair schedule: without consumers; with all agents as
  consumers, when the host, on which the threads wait, is one of them; with the first agent as consumer, when it is the host.
\<close>

theorem consumer_tests_pass:
  assumes "consumer_runtime rt ups val wt host" "ups s < 2 ^ 31 - 1" "handle_iterator iterate_agents agents" "length agents < 2 ^ 31"
    and "distinct agents" "\<forall>a \<in> set agents. fst (device_info art a) = HSA_STATUS_SUCCESS" "fair (Suc (length agents)) sched"
  shows "(\<exists>s'. test_signal_create_zero_consumers rt art wt iterate_agents m sched s = Some (0, s') \<and> restored ups val s s') \<and>
    (agents \<noteq> [] \<and> host (hd agents) \<longrightarrow>
      (\<exists>s'. test_signal_create_one_consumers rt art wt iterate_agents m sched s = Some (0, s') \<and> restored ups val s s')) \<and>
    ((\<exists>a \<in> set agents. host a) \<longrightarrow>
      (\<exists>s'. test_signal_create_max_consumers rt art wt iterate_agents m sched s = Some (0, s') \<and> restored ups val s s'))"
  using consumer_runtime.consumers_tests [OF assms(1-7), of m] by (auto simp: passes_def)

theorem consumer_tests_pass_witness:
  "\<exists>s'. test_signal_create_one_consumers reference_rt sample_rt eager_wait (iterate_over [7, 5]) sample_mem (\<lambda>k. k mod 3)
    (ref_start :: 64 word ref_state) = Some (0, s') \<and> ref_ups s' = 0"
proof -
  have agents: "\<forall>a \<in> set [7, 5]. fst (device_info sample_rt a) = HSA_STATUS_SUCCESS" by (simp add: sample_rt_def)
  have three: "Suc (length [7 :: 64 word, 5]) = 3" by simp
  have fair: "fair (Suc (length [7 :: 64 word, 5])) (\<lambda>k. k mod 3)" unfolding three by (rule fair_round_robin) simp
  show ?thesis
    using consumer_tests_pass [where s = "ref_start :: 64 word ref_state" and m = sample_mem,
        OF eager_consumers.consumer_runtime_axioms [of "\<lambda>a. a = 7"] _ listed.handle_iterator_axioms _ _ agents fair]
    by (auto simp: ref_start_def restored_def)
qed

text \<open>
  \<open>test_signal_value_width\<close> compares the width of a signal value with the name of the machine: it fails on every machine
  with another name, such as \<open>aarch64\<close>.
\<close>

theorem value_width_needs_machine:
  assumes "signal_runtime rt ups val" "ups s < 2 ^ 31 - 1" "machine_word TYPE('w::len)"
  shows "test_signal_value_width (rt :: ('h, 'w word, 's) hsa_rt) (0, machine) s = None \<longleftrightarrow>
    machine \<notin> (if HSA_LARGE_MODEL TYPE('w) then {''x86_64''} else {''i686'', ''i386''})"
  using signal_runtime.value_width_passes [OF assms] .

theorem value_width_needs_machine_witness:
  "test_signal_value_width reference_rt (0, ''aarch64'') (ref_start :: 64 word ref_state) = None"
  using value_width_needs_machine [OF reference.signal_runtime_axioms, of "ref_start :: 64 word ref_state" "''aarch64''"]
  by (simp add: ref_start_def)

end
