(* ===== verification/Signal_Wait_Conditions.thy ===== *)
theory Signal_Wait_Conditions
  imports Signal_Looks
begin

text \<open>
  The conditions of waits: \<open>core/signals/test_signal_wait_conditions.c\<close>, \<open>test_signal_wait_satisfied_conditions.c\<close> and
  \<open>test_signal_wait_expectancy.c\<close>.  The main thread is the first of the threads; it goes on while the
  threads of its group run.  These tests do not destroy their signals.
\<close>

subsection \<open>Every condition, unsatisfied at first\<close>

record ('h, 'v) wait_cb =
  wait_signal :: 'h
  response_signal :: 'h
  wait_condition :: hsa_signal_condition_t
  wait_value :: 'v
  response_value :: 'v

definition signal_wait_relaxed_condition ::
  "('h, 'w::len word, 's) hsa_rt \<Rightarrow> ('h, 'w word, 's) hsa_signal_wait \<Rightarrow> ('h, 'w word) wait_cb \<Rightarrow> 's access list"
where
  "signal_wait_relaxed_condition rt wt cb =
     [await (wt Relaxed (wait_signal cb) (wait_condition cb) (wait_value cb) UINT64_MAX HSA_WAIT_STATE_BLOCKED),
      call (hsa_signal_store rt Relaxed (response_signal cb) (response_value cb))]"

definition signal_wait_acquire_condition ::
  "('h, 'w::len word, 's) hsa_rt \<Rightarrow> ('h, 'w word, 's) hsa_signal_wait \<Rightarrow> ('h, 'w word) wait_cb \<Rightarrow> 's access list"
where
  "signal_wait_acquire_condition rt wt cb =
     [await (wt Acquire (wait_signal cb) (wait_condition cb) (wait_value cb) UINT64_MAX HSA_WAIT_STATE_BLOCKED),
      call (hsa_signal_store rt Release (response_signal cb) (response_value cb))]"

definition set_values ::
  "('h, 'w::len word, 's) hsa_rt \<Rightarrow> ('h, 'w word, 's) hsa_signal_wait \<Rightarrow> 'h \<Rightarrow> 'h \<Rightarrow> 'w word \<Rightarrow> 'w word \<Rightarrow> 's access list"
where
  "set_values rt wt signal response first_set_value second_set_value =
     [call (hsa_signal_store rt Relaxed signal first_set_value),
      await (wt Relaxed response HSA_SIGNAL_CONDITION_EQ first_set_value UINT64_MAX HSA_WAIT_STATE_BLOCKED),
      call (hsa_signal_store rt Relaxed signal second_set_value),
      await (wt Relaxed response HSA_SIGNAL_CONDITION_EQ second_set_value UINT64_MAX HSA_WAIT_STATE_BLOCKED)]"

definition do_signal_wait_conditions ::
  "('h, 'w::len word, 's) hsa_rt \<Rightarrow> ('h, 'w word, 's) hsa_signal_wait \<Rightarrow> (nat \<Rightarrow> nat) \<Rightarrow> hsa_signal_condition_t \<Rightarrow>
     'w word \<Rightarrow> 'w word \<Rightarrow> 'w word \<Rightarrow> 'w word \<Rightarrow> 's \<Rightarrow> 's option"
where
  "do_signal_wait_conditions rt wt sched cnd first_wait_value first_set_value second_wait_value second_set_value s = do {
     let (status, s) = hsa_init rt s;
     ASSERT (HSA_STATUS_SUCCESS = status);
     let (status, signal, s) = hsa_signal_create rt 0 0 [] s;
     ASSERT (HSA_STATUS_SUCCESS = status);
     let (status, response, s) = hsa_signal_create rt 0 0 [] s;
     ASSERT (HSA_STATUS_SUCCESS = status);
     let cb0 = \<lparr>wait_signal = signal, response_signal = response, wait_condition = cnd,
       wait_value = first_wait_value, response_value = first_set_value\<rparr>;
     let cb1 = \<lparr>wait_signal = signal, response_signal = response, wait_condition = cnd,
       wait_value = second_wait_value, response_value = second_set_value\<rparr>;
     g \<leftarrow> test_group_add (test_group_create 2) (signal_wait_acquire_condition rt wt) cb0 1;
     g \<leftarrow> test_group_add g (signal_wait_relaxed_condition rt wt) cb1 1;
     s \<leftarrow> run_functions sched (set_values rt wt signal response first_set_value second_set_value # group_bodies g) s;
     let (status, s) = hsa_shut_down rt s;
     ASSERT (HSA_STATUS_SUCCESS = status);
     Some s
   }"

definition test_signal_wait_conditions_eq ::
  "('h, 'w::len word, 's) hsa_rt \<Rightarrow> ('h, 'w word, 's) hsa_signal_wait \<Rightarrow> (nat \<Rightarrow> nat) \<Rightarrow> 's \<Rightarrow> (nat \<times> 's) option"
where
  "test_signal_wait_conditions_eq rt wt sched s = do {
     s \<leftarrow> do_signal_wait_conditions rt wt sched HSA_SIGNAL_CONDITION_EQ 1 1 2 2 s;
     Some (0 :: nat, s)
   }"

definition test_signal_wait_conditions_ne ::
  "('h, 'w::len word, 's) hsa_rt \<Rightarrow> ('h, 'w word, 's) hsa_signal_wait \<Rightarrow> (nat \<Rightarrow> nat) \<Rightarrow> 's \<Rightarrow> (nat \<times> 's) option"
where
  "test_signal_wait_conditions_ne rt wt sched s = do {
     s \<leftarrow> do_signal_wait_conditions rt wt sched HSA_SIGNAL_CONDITION_NE 0 1 1 2 s;
     Some (0 :: nat, s)
   }"

definition test_signal_wait_conditions_lt ::
  "('h, 'w::len word, 's) hsa_rt \<Rightarrow> ('h, 'w word, 's) hsa_signal_wait \<Rightarrow> (nat \<Rightarrow> nat) \<Rightarrow> 's \<Rightarrow> (nat \<times> 's) option"
where
  "test_signal_wait_conditions_lt rt wt sched s = do {
     s \<leftarrow> do_signal_wait_conditions rt wt sched HSA_SIGNAL_CONDITION_LT 0 (-1) (-1) (-2) s;
     Some (0 :: nat, s)
   }"

definition test_signal_wait_conditions_gte ::
  "('h, 'w::len word, 's) hsa_rt \<Rightarrow> ('h, 'w word, 's) hsa_signal_wait \<Rightarrow> (nat \<Rightarrow> nat) \<Rightarrow> (nat \<Rightarrow> nat) \<Rightarrow> 's \<Rightarrow> (nat \<times> 's) option"
where
  "test_signal_wait_conditions_gte rt wt sched1 sched2 s = do {
     s \<leftarrow> do_signal_wait_conditions rt wt sched1 HSA_SIGNAL_CONDITION_GTE 1 1 2 2 s;
     s \<leftarrow> do_signal_wait_conditions rt wt sched2 HSA_SIGNAL_CONDITION_GTE 1 2 3 4 s;
     Some (0 :: nat, s)
   }"

definition test_signal_wait_conditions ::
  "('h, 'w::len word, 's) hsa_rt \<Rightarrow> ('h, 'w word, 's) hsa_signal_wait \<Rightarrow> (nat \<Rightarrow> nat \<Rightarrow> nat) \<Rightarrow> 's \<Rightarrow> (nat \<times> 's) option"
where
  "test_signal_wait_conditions rt wt sched s = do {
     (_, s) \<leftarrow> test_signal_wait_conditions_eq rt wt (sched 0) s;
     (_, s) \<leftarrow> test_signal_wait_conditions_ne rt wt (sched 1) s;
     (_, s) \<leftarrow> test_signal_wait_conditions_lt rt wt (sched 2) s;
     (_, s) \<leftarrow> test_signal_wait_conditions_gte rt wt (sched 3) (sched 4) s;
     Some (0 :: nat, s)
   }"

subsection \<open>Every condition, satisfied at once\<close>

definition do_signal_wait_satisfied_conditions ::
  "('h, 'w::len word, 's) hsa_rt \<Rightarrow> ('h, 'w word, 's) hsa_signal_wait \<Rightarrow> hsa_signal_condition_t \<Rightarrow> 'w word \<Rightarrow> 'w word \<Rightarrow> 's \<Rightarrow> 's option"
where
  "do_signal_wait_satisfied_conditions rt wt cnd set_value wait_val s = do {
     let (status, s) = hsa_init rt s;
     ASSERT (HSA_STATUS_SUCCESS = status);
     let (status, signal0, s) = hsa_signal_create rt 0 0 [] s;
     ASSERT (HSA_STATUS_SUCCESS = status);
     let (status, signal1, s) = hsa_signal_create rt 0 0 [] s;
     ASSERT (HSA_STATUS_SUCCESS = status);
     s \<leftarrow> run_functions (\<lambda>_. 0)
       [[call (hsa_signal_store rt Relaxed signal0 set_value),
         call (hsa_signal_store rt Relaxed signal1 set_value),
         await (wt Relaxed signal0 cnd wait_val UINT64_MAX HSA_WAIT_STATE_BLOCKED),
         await (wt Acquire signal1 cnd wait_val UINT64_MAX HSA_WAIT_STATE_BLOCKED)]] s;
     let (status, s) = hsa_shut_down rt s;
     ASSERT (HSA_STATUS_SUCCESS = status);
     Some s
   }"

definition signal_wait_satisfied_conditions_eq ::
  "('h, 'w::len word, 's) hsa_rt \<Rightarrow> ('h, 'w word, 's) hsa_signal_wait \<Rightarrow> 's \<Rightarrow> 's option"
where
  "signal_wait_satisfied_conditions_eq rt wt s = do_signal_wait_satisfied_conditions rt wt HSA_SIGNAL_CONDITION_EQ 1 1 s"

definition signal_wait_satisfied_conditions_ne ::
  "('h, 'w::len word, 's) hsa_rt \<Rightarrow> ('h, 'w word, 's) hsa_signal_wait \<Rightarrow> 's \<Rightarrow> 's option"
where
  "signal_wait_satisfied_conditions_ne rt wt s = do_signal_wait_satisfied_conditions rt wt HSA_SIGNAL_CONDITION_NE 1 2 s"

definition signal_wait_satisfied_conditions_lt ::
  "('h, 'w::len word, 's) hsa_rt \<Rightarrow> ('h, 'w word, 's) hsa_signal_wait \<Rightarrow> 's \<Rightarrow> 's option"
where
  "signal_wait_satisfied_conditions_lt rt wt s = do_signal_wait_satisfied_conditions rt wt HSA_SIGNAL_CONDITION_LT 1 2 s"

definition signal_wait_satisfied_conditions_gte ::
  "('h, 'w::len word, 's) hsa_rt \<Rightarrow> ('h, 'w word, 's) hsa_signal_wait \<Rightarrow> 's \<Rightarrow> 's option"
where
  "signal_wait_satisfied_conditions_gte rt wt s = do {
     s \<leftarrow> do_signal_wait_satisfied_conditions rt wt HSA_SIGNAL_CONDITION_GTE 2 2 s;
     do_signal_wait_satisfied_conditions rt wt HSA_SIGNAL_CONDITION_GTE 2 1 s
   }"

definition test_signal_wait_satisfied_conditions ::
  "('h, 'w::len word, 's) hsa_rt \<Rightarrow> ('h, 'w word, 's) hsa_signal_wait \<Rightarrow> 's \<Rightarrow> (nat \<times> 's) option"
where
  "test_signal_wait_satisfied_conditions rt wt s = do {
     s \<leftarrow> signal_wait_satisfied_conditions_eq rt wt s;
     s \<leftarrow> signal_wait_satisfied_conditions_ne rt wt s;
     s \<leftarrow> signal_wait_satisfied_conditions_lt rt wt s;
     s \<leftarrow> signal_wait_satisfied_conditions_gte rt wt s;
     Some (0 :: nat, s)
   }"

subsection \<open>Both wait states\<close>

record ('h, 'v) expectancy_cb =
  expect_signal :: 'h
  expect_response :: 'h
  wait_expectancy :: hsa_wait_state_t
  expect_value :: 'v
  answer_value :: 'v

definition signal_wait_expectancy ::
  "('h, 'w::len word, 's) hsa_rt \<Rightarrow> ('h, 'w word, 's) hsa_signal_wait \<Rightarrow> ('h, 'w word) expectancy_cb \<Rightarrow> 's access list"
where
  "signal_wait_expectancy rt wt cb =
     [await (wt Relaxed (expect_signal cb) HSA_SIGNAL_CONDITION_EQ (expect_value cb) UINT64_MAX (wait_expectancy cb)),
      call (hsa_signal_store rt Release (expect_response cb) (answer_value cb))]"

definition test_signal_wait_expectancy ::
  "('h, 'w::len word, 's) hsa_rt \<Rightarrow> ('h, 'w word, 's) hsa_signal_wait \<Rightarrow> (nat \<Rightarrow> nat) \<Rightarrow> 's \<Rightarrow> (nat \<times> 's) option"
where
  "test_signal_wait_expectancy rt wt sched s = do {
     let (status, s) = hsa_init rt s;
     ASSERT (HSA_STATUS_SUCCESS = status);
     let v = 1;
     (signals, s) \<leftarrow> for_loop 0 2 (\<lambda>ii (signals, s). do {
       let (status, signal, s) = hsa_signal_create rt 0 0 [] s;
       ASSERT (HSA_STATUS_SUCCESS = status);
       let (status, response, s) = hsa_signal_create rt 0 0 [] s;
       ASSERT (HSA_STATUS_SUCCESS = status);
       Some (signals @ [(signal, response)], s)
     }) ([], s);
     let wait_cbs = map (\<lambda>ii. \<lparr>expect_signal = fst (signals ! ii), expect_response = snd (signals ! ii),
       wait_expectancy = [HSA_WAIT_STATE_BLOCKED, HSA_WAIT_STATE_ACTIVE] ! ii, expect_value = v, answer_value = v\<rparr>) [0, 1];
     g \<leftarrow> test_group_add (test_group_create 2) (signal_wait_expectancy rt wt) (wait_cbs ! 0) 1;
     g \<leftarrow> test_group_add g (signal_wait_expectancy rt wt) (wait_cbs ! 1) 1;
     s \<leftarrow> run_functions sched
       ([call (hsa_signal_store rt Relaxed (fst (signals ! 0)) v),
         call (hsa_signal_store rt Relaxed (fst (signals ! 1)) v),
         await (wt Relaxed (snd (signals ! 0)) HSA_SIGNAL_CONDITION_EQ v UINT64_MAX HSA_WAIT_STATE_BLOCKED),
         await (wt Relaxed (snd (signals ! 1)) HSA_SIGNAL_CONDITION_EQ v UINT64_MAX HSA_WAIT_STATE_BLOCKED)] # group_bodies g) s;
     let (status, s) = hsa_shut_down rt s;
     ASSERT (HSA_STATUS_SUCCESS = status);
     Some (0, s)
   }"

subsection \<open>Signals with a list of values\<close>

lemma below_four: "(i :: nat) < 4 \<longleftrightarrow> i = 0 \<or> i = 1 \<or> i = 2 \<or> i = 3"
  and below_two: "(i :: nat) < 2 \<longleftrightarrow> i = 0 \<or> i = 1"
  by linarith+

lemma three_positions:
  assumes "length p = length [a, b, c]"
  obtains i j k where "p = [i, j, k]"
  using assms by (auto simp: length_Suc_conv numeral_3_eq_3)

text \<open>The numbers of the tests, in words of four bits at least.\<close>

lemma small_sint: "3 < LENGTH('a) \<Longrightarrow> - 8 \<le> k \<Longrightarrow> k < 8 \<Longrightarrow> sint (word_of_int k :: 'a::len word) = k"
proof -
  assume "3 < LENGTH('a)" "- 8 \<le> k" "k < 8"
  moreover from this have "(2 :: int) ^ 3 \<le> 2 ^ (LENGTH('a) - 1)" by (intro power_increasing) auto
  ultimately show "sint (word_of_int k :: 'a word) = k"
    by (simp add: sint_sbintrunc' signed_take_bit_int_eq_self)
qed

lemma small_numbers:
  assumes "3 < LENGTH('a)"
  shows "sint (2 :: 'a::len word) = 2" "sint (3 :: 'a word) = 3" "sint (4 :: 'a word) = 4" "sint (1 :: 'a word) = 1"
    "sint (- 1 :: 'a word) = - 1" "sint (- 2 :: 'a word) = - 2"
  using small_sint [OF assms, of 2] small_sint [OF assms, of 3] small_sint [OF assms, of 4] small_sint [OF assms, of 1]
    small_sint [OF assms, of "- 1"] small_sint [OF assms, of "- 2"]
  by simp_all

lemma small_distinct:
  assumes "3 < LENGTH('a)"
  shows "(1 :: 'a::len word) \<noteq> 2" "(2 :: 'a word) \<noteq> 1" "(0 :: 'a word) \<noteq> 2" "(2 :: 'a word) \<noteq> 0" "(4 :: 'a word) \<noteq> 2"
    "(- 1 :: 'a word) \<noteq> 0" "(- 2 :: 'a word) \<noteq> - 1"
  using small_numbers [OF assms] by (metis sint_0 one_neq_zero zero_neq_numeral numeral_eq_iff semiring_norm(83,85,86,87,88,89) numeral_One
    neg_equal_iff_equal neg_equal_0_iff_equal sint_n1)+

lemma two_added:
  fixes f :: "'d \<Rightarrow> ('m \<Rightarrow> 'm) list"
  obtains g g' where "test_group_add (test_group_create 2) f d 1 = Some g" "test_group_add g f' d' 1 = Some g'" "group_bodies g' = [f d, f' d']"
proof -
  have "passes (test_group_add (test_group_create 2) f d 1 \<bind> (\<lambda>g. test_group_add g f' d' 1 \<bind> Some)) (\<lambda>g. group_bodies g = [f d, f' d'])"
    by (rule wp_add_two) simp
  then show thesis using that by (auto simp: passes_def bind_eq_Some_conv)
qed

text \<open>One access of a schedule that succeeds.\<close>

lemma run_position:
  assumes "positions fs p cf" "snd cf = Some m" "sched k < length fs" "p ! sched k < length (fs ! sched k)"
    and "(fs ! sched k ! (p ! sched k)) (Some m) = Some (Next, s')"
  obtains cf' where "positions fs (p[sched k := Suc (p ! sched k)]) cf'" "snd cf' = Some (Next, s')"
    "run_threads fs sched k cf = run_threads fs sched (Suc k) cf'"
proof -
  have "\<not> ended cf" using positions_ended [OF assms(1)] assms(3,4) by auto
  then show thesis using positions_step(1) [OF assms(1,3,4,2,5)] assms(2) by (intro that) (auto intro: run_step)
qed

definition second_first :: "nat \<Rightarrow> nat" where
  "second_first k = (if k < 2 then 2 else k mod 3)"

lemma fair_second_first: "fair 3 second_first"
proof (unfold fair_def, intro allI impI)
  fix i k :: nat assume "i < 3"
  then have "(3 * Suc k + i) mod 3 = i" by presburger
  then have "second_first (3 * Suc k + i) = i" unfolding second_first_def by auto
  then show "\<exists>k' \<ge> k. second_first k' = i" by (intro exI [of _ "3 * Suc k + i"]) simp
qed

context signal_runtime
begin

definition board_list :: "nat \<Rightarrow> 'h list \<Rightarrow> ('h \<Rightarrow> 'w word option) \<Rightarrow> 'w word list \<Rightarrow> 's \<Rightarrow> bool" where
  "board_list u x c vs s \<longleftrightarrow> length vs = length x \<and> board u x ((!) vs) c s"

lemma store_list:
  assumes "board_list u x c vs s" "q < length x" "h = x ! q"
  shows "\<exists>s'. call (hsa_signal_store rt r h v) (Some (fl, s)) = Some (Next, s') \<and> board_list u x c (vs[q := v]) s'"
proof -
  have "board u x (((!) vs)(q := v)) c = board u x ((!) (vs[q := v])) c"
    by (rule board_cong) (use assms in \<open>auto simp: board_list_def\<close>)
  then show ?thesis using assms store_look [of u x "(!) vs" c s q r v fl] by (simp add: board_list_def)
qed

text \<open>Creating one more signal, and the beginning of the tests with two signals.\<close>

lemma board_list_Nil: "0 < ups t \<Longrightarrow> board_list (ups t) [] (val t) [] t"
  by (simp add: board_list_def board_def)

lemma board_list_snoc:
  assumes "board_list u x c vs s" "\<forall>h \<in> set x. c h = None" "val s h = None" "ups s' = ups s" "val s' = (val s)(h \<mapsto> v)"
  shows "board_list u (x @ [h]) c (vs @ [v]) s' \<and> (\<forall>h \<in> set (x @ [h]). c h = None)"
proof -
  have "h \<notin> set x" using assms(1,3) by (auto simp: board_list_def board_def in_set_conv_nth)
  then show ?thesis using assms by (auto simp: board_list_def board_def nth_append less_Suc_eq)
qed

lemma wp_create_more:
  assumes "board_list u x c vs s" "\<forall>h \<in> set x. c h = None"
    and "\<And>h s'. board_list u (x @ [h]) c (vs @ [v]) s' \<Longrightarrow> \<forall>h \<in> set (x @ [h]). c h = None \<Longrightarrow> passes (k h s') P"
  shows "passes (let (status, h, s) = hsa_signal_create rt v 0 [] s in ASSERT (HSA_STATUS_SUCCESS = status) \<bind> (\<lambda>_. k h s)) P"
proof (rule wp_create)
  show "0 < ups s" using assms(1) by (simp add: board_list_def board_def)
  fix h s' assume "val s h = None" "ups s' = ups s" "val s' = (val s)(h \<mapsto> v)"
  from board_list_snoc [OF assms(1,2) this]
  show "passes (ASSERT (HSA_STATUS_SUCCESS = HSA_STATUS_SUCCESS) \<bind> (\<lambda>_. k h s')) P" using assms(3) by simp
qed

lemma wp_two_signals:
  assumes "ups s < 2 ^ 31 - 1"
    and "\<And>h h' t s'. ups t = Suc (ups s) \<Longrightarrow> (0 < ups s \<Longrightarrow> val t = val s) \<Longrightarrow> board_list (ups t) [h, h'] (val t) [v, v] s' \<Longrightarrow>
      \<forall>g \<in> set [h, h']. val t g = None \<Longrightarrow> passes (k h h' s') P"
  shows "passes (let (status, s) = hsa_init rt s in ASSERT (HSA_STATUS_SUCCESS = status) \<bind> (\<lambda>_.
    let (status, h, s) = hsa_signal_create rt v 0 [] s in ASSERT (HSA_STATUS_SUCCESS = status) \<bind> (\<lambda>_.
    let (status, h', s) = hsa_signal_create rt v 0 [] s in ASSERT (HSA_STATUS_SUCCESS = status) \<bind> (\<lambda>_. k h h' s)))) P"
proof (rule wp_init [OF assms(1)], rule wp_assert [OF HOL.refl])
  fix t assume t: "ups t = Suc (ups s)" "0 < ups s \<Longrightarrow> val t = val s"
  have B: "board_list (ups t) [] (val t) [] t" by (rule board_list_Nil) (simp add: t)
  show "passes (let (status, h, s) = hsa_signal_create rt v 0 [] t in ASSERT (HSA_STATUS_SUCCESS = status) \<bind> (\<lambda>_.
    let (status, h', s) = hsa_signal_create rt v 0 [] s in ASSERT (HSA_STATUS_SUCCESS = status) \<bind> (\<lambda>_. k h h' s))) P"
    by (rule wp_create_more [OF B], simp, rule wp_create_more, assumption, assumption) (use assms(2) [OF t] in simp)
qed

text \<open>The end of the tests, which keep the signals that were there before.\<close>

lemma wp_end_kept:
  assumes "ups t = Suc (ups s)" "0 < ups s \<Longrightarrow> val t = val s" "board_list (ups t) x (val t) vs s'" "\<forall>h \<in> set x. val t h = None"
    and "\<And>s''. kept s s'' \<Longrightarrow> passes (k s'') P"
  shows "passes (let (status, s) = hsa_shut_down rt s' in ASSERT (HSA_STATUS_SUCCESS = status) \<bind> (\<lambda>_. k s)) P"
proof (rule wp_shut_down_kept [where s = s and t = t])
  show "ups s' = ups t" using assms(3) by (simp add: board_list_def board_def)
  have "h \<notin> set x" if "val t h \<noteq> None" for h using assms(4) that by auto
  then show "\<forall>h. val t h \<noteq> None \<longrightarrow> val s' h = val t h" using assms(3) by (simp add: board_list_def board_def)
qed (use assms in auto)

end

context blocking_runtime
begin

lemma await_list:
  assumes "board_list u x c vs s" "q < length x" "h = x ! q"
  shows "\<exists>fl' s'. await (hsa_signal_wait r h cnd v UINT64_MAX ws) (Some (fl, s)) = Some (fl', s') \<and> board_list u x c vs s' \<and>
    (fl' = Next \<or> fl' = Again \<and> \<not> satisfies cnd (vs ! q) v)"
  using assms await_look [of u x "(!) vs" c s q r cnd v ws fl] by (simp add: board_list_def)

end

context waiting_runtime
begin

lemma await_list_decides:
  assumes "board_list u x c vs s" "q < length x" "h = x ! q"
  shows "\<exists>s'. await (hsa_signal_wait r h cnd v UINT64_MAX ws) (Some (fl, s)) =
      Some (if satisfies cnd (vs ! q) v then Next else Again, s') \<and> board_list u x c vs s'"
  using assms await_decides [of u x "(!) vs" c s q r cnd v ws fl] by (simp add: board_list_def)

subsection \<open>The threads of the tests of conditions\<close>

text \<open>The values of the signal and of the response, from the positions of the three threads.\<close>

definition condition_values :: "'w word \<Rightarrow> 'w word \<Rightarrow> nat list \<Rightarrow> 'w word list" where
  "condition_values v0 v1 p =
     [if p ! 0 = 0 then 0 else if p ! 0 < 3 then v0 else v1, if p ! 2 = 2 then v1 else if p ! 1 = 2 then v0 else 0]"

definition condition_order :: "nat list \<Rightarrow> bool" where
  "condition_order p \<longleftrightarrow> (0 < p ! 1 \<longrightarrow> 0 < p ! 0) \<and> (0 < p ! 2 \<longrightarrow> 3 \<le> p ! 0) \<and> (2 \<le> p ! 0 \<longrightarrow> p ! 1 = 2) \<and> (p ! 0 = 4 \<longrightarrow> p ! 2 = 2) \<and>
     p ! 0 \<le> 4 \<and> p ! 1 \<le> 2 \<and> p ! 2 \<le> 2"

lemma conditions_run:
  assumes fair: "fair (Suc (Suc (Suc 0))) sched" and start: "board_list u [h, r] c [0, 0] s"
    and cnds: "\<not> satisfies cnd 0 w0" "satisfies cnd v0 w0" "\<not> satisfies cnd 0 w1" "\<not> satisfies cnd v0 w1" "satisfies cnd v1 w1"
      "v0 \<noteq> 0" "v1 \<noteq> v0"
  shows "passes (run_functions sched [set_values rt hsa_signal_wait h r v0 v1,
      signal_wait_acquire_condition rt hsa_signal_wait \<lparr>wait_signal = h, response_signal = r, wait_condition = cnd, wait_value = w0, response_value = v0\<rparr>,
      signal_wait_relaxed_condition rt hsa_signal_wait \<lparr>wait_signal = h, response_signal = r, wait_condition = cnd, wait_value = w1, response_value = v1\<rparr>] s)
    (\<lambda>s'. \<exists>vs. board_list u [h, r] c vs s')"
    (is "passes (run_functions sched ?fs s) _")
proof (rule run_positions [where I = "\<lambda>p s. board_list u [h, r] c (condition_values v0 v1 p) s \<and> condition_order p" and
      helper = "\<lambda>p. if p ! 0 = 1 \<and> p ! 1 < 2 then 1 else if p ! 0 = 3 \<and> p ! 2 < 2 then 2 else 0"])
  show "fair (length ?fs) sched" using fair by simp
  show "board_list u [h, r] c (condition_values v0 v1 (replicate (length ?fs) 0)) s \<and> condition_order (replicate (length ?fs) 0)"
    using start by (simp add: condition_values_def condition_order_def)
next
  fix p j s fl0 assume p: "length p = length ?fs" "j < length ?fs" "p ! j < length (?fs ! j)"
    and I: "board_list u [h, r] c (condition_values v0 v1 p) s \<and> condition_order p"
  obtain i k l where ikl: "p = [i, k, l]" using p(1) by (rule three_positions)
  note B = conjunct1 [OF I]
  note accesses = store_list [OF B, of 0 h] store_list [OF B, of 1 r] await_list_decides [OF B, of 0 h] await_list_decides [OF B, of 1 r]
  consider "j = 0" "i < 4" | "j = 1" "k < 2" | "j = 2" "l < 2"
    using p(2,3) ikl by (auto simp: less_Suc_eq numeral_3_eq_3 set_values_def signal_wait_acquire_condition_def signal_wait_relaxed_condition_def)
  then show "\<exists>fl s'. (?fs ! j ! (p ! j)) (Some (fl0, s)) = Some (fl, s') \<and>
      (fl = Next \<and> (board_list u [h, r] c (condition_values v0 v1 (p[j := Suc (p ! j)])) s' \<and> condition_order (p[j := Suc (p ! j)])) \<or>
       fl = Again \<and> (board_list u [h, r] c (condition_values v0 v1 p) s' \<and> condition_order p) \<and>
       j \<noteq> (if p ! 0 = 1 \<and> p ! 1 < 2 then 1 else if p ! 0 = 3 \<and> p ! 2 < 2 then 2 else 0))"
  proof cases
    case 1
    then consider "i = 0" "k = 0" "l = 0" | "i = 1" "l = 0" | "i = 2" "k = 2" "l = 0" | "i = 3" "k = 2"
      using I ikl by (fastforce simp: condition_order_def)
    then show ?thesis
    proof cases
      case 1
      then show ?thesis using accesses(1) [of Relaxed v0 fl0] ikl \<open>j = 0\<close>
        by (auto simp: set_values_def condition_values_def condition_order_def)
    next
      case 2
      then show ?thesis using accesses(4) [of Relaxed HSA_SIGNAL_CONDITION_EQ v0 HSA_WAIT_STATE_BLOCKED fl0] ikl \<open>j = 0\<close> I cnds
        by (auto simp: set_values_def condition_values_def condition_order_def)
    next
      case 3
      then show ?thesis using accesses(1) [of Relaxed v1 fl0] ikl \<open>j = 0\<close>
        by (auto simp: set_values_def condition_values_def condition_order_def)
    next
      case 4
      then show ?thesis using accesses(4) [of Relaxed HSA_SIGNAL_CONDITION_EQ v1 HSA_WAIT_STATE_BLOCKED fl0] ikl \<open>j = 0\<close> I cnds
        by (auto simp: set_values_def condition_values_def condition_order_def)
    qed
  next
    case 2
    then consider "k = 0" "i < 2" "l = 0" | "k = 1" "i = 1" "l = 0"
      using I ikl by (fastforce simp: condition_order_def)
    then show ?thesis
    proof cases
      case 1
      then show ?thesis using accesses(3) [of Acquire cnd w0 HSA_WAIT_STATE_BLOCKED fl0] ikl \<open>j = 1\<close> I cnds
        by (auto simp: signal_wait_acquire_condition_def condition_values_def condition_order_def)
    next
      case 2
      then show ?thesis using accesses(2) [of Release v0 fl0] ikl \<open>j = 1\<close>
        by (auto simp: signal_wait_acquire_condition_def condition_values_def condition_order_def)
    qed
  next
    case 3
    then consider "l = 0" "i < 4" | "l = 1" "i = 3" "k = 2"
      using I ikl p(3) by (fastforce simp: condition_order_def)
    then show ?thesis
    proof cases
      case 1
      then show ?thesis using accesses(3) [of Relaxed cnd w1 HSA_WAIT_STATE_BLOCKED fl0] ikl \<open>j = 2\<close> I cnds
        by (auto simp: signal_wait_relaxed_condition_def condition_values_def condition_order_def)
    next
      case 2
      then show ?thesis using accesses(2) [of Relaxed v1 fl0] ikl \<open>j = 2\<close>
        by (auto simp: signal_wait_relaxed_condition_def condition_values_def condition_order_def)
    qed
  qed
next
  fix p s assume p: "length p = length ?fs" and le: "\<forall>j < length ?fs. p ! j \<le> length (?fs ! j)"
    and I: "board_list u [h, r] c (condition_values v0 v1 p) s \<and> condition_order p" and ex: "\<exists>j < length ?fs. p ! j < length (?fs ! j)"
  obtain i k l where ikl: "p = [i, k, l]" using p by (rule three_positions)
  have "i < 4 \<or> k < 2 \<or> l < 2"
    using ex ikl by (auto simp: less_Suc_eq set_values_def signal_wait_acquire_condition_def signal_wait_relaxed_condition_def)
  then show "(if p ! 0 = 1 \<and> p ! 1 < 2 then 1 else if p ! 0 = 3 \<and> p ! 2 < 2 then 2 else 0) < length ?fs \<and>
      p ! (if p ! 0 = 1 \<and> p ! 1 < 2 then 1 else if p ! 0 = 3 \<and> p ! 2 < 2 then 2 else 0) <
        length (?fs ! (if p ! 0 = 1 \<and> p ! 1 < 2 then 1 else if p ! 0 = 3 \<and> p ! 2 < 2 then 2 else 0))"
    using ikl I by (auto simp: condition_order_def set_values_def signal_wait_acquire_condition_def signal_wait_relaxed_condition_def)
qed blast

lemma conditions_pass:
  assumes fair: "fair 3 sched" and ups: "ups s < 2 ^ 31 - 1"
    and cnds: "\<not> satisfies cnd 0 w0" "satisfies cnd v0 w0" "\<not> satisfies cnd 0 w1" "\<not> satisfies cnd v0 w1" "satisfies cnd v1 w1"
      "v0 \<noteq> 0" "v1 \<noteq> v0"
  shows "passes (do_signal_wait_conditions rt hsa_signal_wait sched cnd w0 v0 w1 v1 s) (kept s)"
  unfolding do_signal_wait_conditions_def
proof (rule wp_two_signals [OF ups], rule wp_let, rule wp_let, rule wp_add_two)
  fix h r t s' g assume t: "ups t = Suc (ups s)" "0 < ups s \<Longrightarrow> val t = val s" and B: "board_list (ups t) [h, r] (val t) [0, 0] s'"
    and fresh: "\<forall>h \<in> set [h, r]. val t h = None"
    and g: "group_bodies g = [signal_wait_acquire_condition rt hsa_signal_wait
        \<lparr>wait_signal = h, response_signal = r, wait_condition = cnd, wait_value = w0, response_value = v0\<rparr>,
      signal_wait_relaxed_condition rt hsa_signal_wait
        \<lparr>wait_signal = h, response_signal = r, wait_condition = cnd, wait_value = w1, response_value = v1\<rparr>]"
  have three: "fair (Suc (Suc (Suc 0))) sched" using fair by (simp add: numeral_3_eq_3)
  show "passes (run_functions sched (set_values rt hsa_signal_wait h r v0 v1 # group_bodies g) s' \<bind>
    (\<lambda>s. let (status, s) = hsa_shut_down rt s in ASSERT (HSA_STATUS_SUCCESS = status) \<bind> (\<lambda>_. Some s))) (kept s)"
    unfolding g
  proof (rule wp_seq [OF conditions_run [OF three B cnds]])
    fix s' assume "\<exists>vs. board_list (ups t) [h, r] (val t) vs s'"
    then obtain vs where B': "board_list (ups t) [h, r] (val t) vs s'" by blast
    show "passes (let (status, s) = hsa_shut_down rt s' in ASSERT (HSA_STATUS_SUCCESS = status) \<bind> (\<lambda>_. Some s)) (kept s)"
      by (rule wp_end_kept [OF t B' fresh]) simp_all
  qed
qed

lemma condition_tests_pass:
  assumes "fair 3 sched" "fair 3 sched'" "ups s < 2 ^ 31 - 1" "3 < LENGTH('w)"
  shows "passes (test_signal_wait_conditions_eq rt hsa_signal_wait sched s) (\<lambda>(r, s'). r = 0 \<and> kept s s')"
    and "passes (test_signal_wait_conditions_lt rt hsa_signal_wait sched s) (\<lambda>(r, s'). r = 0 \<and> kept s s')"
    and "passes (test_signal_wait_conditions_gte rt hsa_signal_wait sched sched' s) (\<lambda>(r, s'). r = 0 \<and> kept s s')"
proof -
  note small = small_numbers [OF assms(4)] small_distinct [OF assms(4)]
  show "passes (test_signal_wait_conditions_eq rt hsa_signal_wait sched s) (\<lambda>(r, s'). r = 0 \<and> kept s s')"
    unfolding test_signal_wait_conditions_eq_def
    by (rule wp_seq [OF conditions_pass [OF assms(1,3)]]) (use assms(4) small_numbers [OF assms(4)] in \<open>simp_all add: small\<close>)
  show "passes (test_signal_wait_conditions_lt rt hsa_signal_wait sched s) (\<lambda>(r, s'). r = 0 \<and> kept s s')"
    unfolding test_signal_wait_conditions_lt_def
    by (rule wp_seq [OF conditions_pass [OF assms(1,3)]]) (use small_numbers(6) [OF assms(4)] in \<open>simp_all add: small\<close>)
  have first: "passes (do_signal_wait_conditions rt hsa_signal_wait sched HSA_SIGNAL_CONDITION_GTE 1 1 2 2 s) (kept s)"
    by (rule conditions_pass [OF assms(1,3)]) (use assms(4) small_numbers [OF assms(4)] in \<open>simp_all add: small\<close>)
  have second: "passes (do_signal_wait_conditions rt hsa_signal_wait sched' HSA_SIGNAL_CONDITION_GTE 1 2 3 4 s') (kept s')"
    if "kept s s'" for s'
    by (rule conditions_pass [OF assms(2)]) (use that assms(3,4) small_numbers [OF assms(4)] in \<open>simp_all add: kept_def small\<close>)
  show "passes (test_signal_wait_conditions_gte rt hsa_signal_wait sched sched' s) (\<lambda>(r, s'). r = 0 \<and> kept s s')"
    unfolding test_signal_wait_conditions_gte_def
  proof (rule wp_seq [OF first])
    fix s' assume k: "kept s s'"
    show "passes (do_signal_wait_conditions rt hsa_signal_wait sched' HSA_SIGNAL_CONDITION_GTE 1 2 3 4 s' \<bind> (\<lambda>s. Some (0, s)))
        (\<lambda>(r, s'). r = 0 \<and> kept s s')"
      by (rule wp_seq [OF second [OF k]]) (use k in \<open>auto intro: kept_trans\<close>)
  qed
qed

subsection \<open>The condition \<open>NE\<close>: the second thread does not wait\<close>

text \<open>
  The signal is 0 at first, which is not the value 1 from which the second thread waits for a change.  Once it has
  sent its response, the main thread waits for ever.
\<close>

definition ne_positions :: "nat list \<Rightarrow> bool" where
  "ne_positions p \<longleftrightarrow> p ! 2 = 2 \<and> (2 \<le> p ! 0 \<longrightarrow> p ! 1 = 2) \<and> p ! 0 \<le> 3"

definition ne_values :: "nat list \<Rightarrow> 'w word list" where
  "ne_values p = [if p ! 0 = 0 then 0 else if p ! 0 < 3 then 1 else 2, if p ! 1 = 2 then 1 else 2]"

abbreviation ne_threads :: "'h \<Rightarrow> 'h \<Rightarrow> 's access list list" where
  "ne_threads h r \<equiv> [set_values rt hsa_signal_wait h r 1 2,
     signal_wait_acquire_condition rt hsa_signal_wait
       \<lparr>wait_signal = h, response_signal = r, wait_condition = HSA_SIGNAL_CONDITION_NE, wait_value = 0, response_value = 1\<rparr>,
     signal_wait_relaxed_condition rt hsa_signal_wait
       \<lparr>wait_signal = h, response_signal = r, wait_condition = HSA_SIGNAL_CONDITION_NE, wait_value = 1, response_value = 2\<rparr>]"

lemma ne_never:
  assumes "3 < LENGTH('w)" "positions (ne_threads h r) p cf" "snd cf = Some (fl, s)"
    and "board_list u [h, r] c (ne_values p) s \<and> ne_positions p"
  shows "run_threads (ne_threads h r) sched k cf = None"
proof (rule positions_never [where I = "\<lambda>p s. board_list u [h, r] c (ne_values p) s \<and> ne_positions p", OF _ _ assms(2-4)])
  let ?fs = "ne_threads h r"
  fix p j s fl0 assume p: "length p = length ?fs" "j < length ?fs" "p ! j < length (?fs ! j)"
    and I: "board_list u [h, r] c (ne_values p) s \<and> ne_positions p"
  obtain i k l where ikl: "p = [i, k, l]" using p(1) by (rule three_positions)
  note B = conjunct1 [OF I]
  note accesses = store_list [OF B, of 0 h] store_list [OF B, of 1 r] await_list_decides [OF B, of 0 h] await_list_decides [OF B, of 1 r]
  note unfolds = set_values_def signal_wait_acquire_condition_def ne_values_def ne_positions_def
  consider "j = 0" "i = 0" | "j = 0" "i = 1" | "j = 0" "i = 2" | "j = 0" "i = 3" | "j = 1" "k = 0" | "j = 1" "k = 1"
    using p(2,3) ikl I by (fastforce simp: less_Suc_eq numeral_3_eq_3 unfolds signal_wait_relaxed_condition_def)
  then show "\<exists>fl s'. (?fs ! j ! (p ! j)) (Some (fl0, s)) = Some (fl, s') \<and>
      (fl = Next \<and> board_list u [h, r] c (ne_values (p[j := Suc (p ! j)])) s' \<and> ne_positions (p[j := Suc (p ! j)]) \<or>
       fl = Again \<and> board_list u [h, r] c (ne_values p) s' \<and> ne_positions p)"
  proof cases
    case 1 then show ?thesis using accesses(1) [of Relaxed 1 fl0] ikl I by (auto simp: unfolds)
  next
    case 2 then show ?thesis
      using accesses(4) [of Relaxed HSA_SIGNAL_CONDITION_EQ 1 HSA_WAIT_STATE_BLOCKED fl0] ikl I small_distinct [OF assms(1)]
      by (auto simp: unfolds)
  next
    case 3 then show ?thesis using accesses(1) [of Relaxed 2 fl0] ikl I by (auto simp: unfolds)
  next
    case 4 then show ?thesis
      using accesses(4) [of Relaxed HSA_SIGNAL_CONDITION_EQ 2 HSA_WAIT_STATE_BLOCKED fl0] ikl I small_distinct [OF assms(1)]
      by (auto simp: unfolds)
  next
    case 5 then show ?thesis
      using accesses(3) [of Acquire HSA_SIGNAL_CONDITION_NE 0 HSA_WAIT_STATE_BLOCKED fl0] ikl I by (auto simp: unfolds split: if_splits)
  next
    case 6 then show ?thesis using accesses(2) [of Release 1 fl0] ikl I by (auto simp: unfolds)
  qed
next
  fix p s assume "length p = length (ne_threads h r)" "board_list u [h, r] c (ne_values p) s \<and> ne_positions p"
  then show "\<exists>j < length (ne_threads h r). p ! j < length (ne_threads h r ! j)"
    by (intro exI [of _ 0]) (simp add: ne_positions_def set_values_def)
qed

lemma ne_test_starts:
  assumes "ups s < 2 ^ 31 - 1"
  obtains u h r c s' rest where "board_list u [h, r] c [0, 0] s'"
    "test_signal_wait_conditions_ne rt hsa_signal_wait sched s = run_functions sched (ne_threads h r) s' \<bind> rest"
proof -
  have "passes (let (status, s) = hsa_init rt s in ASSERT (HSA_STATUS_SUCCESS = status) \<bind> (\<lambda>_.
    let (status, h, s) = hsa_signal_create rt 0 0 [] s in ASSERT (HSA_STATUS_SUCCESS = status) \<bind> (\<lambda>_.
    let (status, r, s) = hsa_signal_create rt 0 0 [] s in ASSERT (HSA_STATUS_SUCCESS = status) \<bind> (\<lambda>_. Some (h, r, s)))))
    (\<lambda>(h, r, s'). \<exists>u c. board_list u [h, r] c [0, 0] s')"
    by (rule wp_two_signals [OF assms]) auto
  then obtain s1 h s2 r s' u c where init: "hsa_init rt s = (HSA_STATUS_SUCCESS, s1)" "hsa_signal_create rt 0 0 [] s1 = (HSA_STATUS_SUCCESS, h, s2)"
    "hsa_signal_create rt 0 0 [] s2 = (HSA_STATUS_SUCCESS, r, s')" and B: "board_list u [h, r] c [0, 0] s'"
    by (fastforce simp: passes_def ASSERT_bind_Some split: prod.splits)
  obtain g g' where g: "test_group_add (test_group_create 2) (signal_wait_acquire_condition rt hsa_signal_wait)
      \<lparr>wait_signal = h, response_signal = r, wait_condition = HSA_SIGNAL_CONDITION_NE, wait_value = 0, response_value = 1\<rparr> 1 = Some g"
    "test_group_add g (signal_wait_relaxed_condition rt hsa_signal_wait)
      \<lparr>wait_signal = h, response_signal = r, wait_condition = HSA_SIGNAL_CONDITION_NE, wait_value = 1, response_value = 2\<rparr> 1 = Some g'"
    "set_values rt hsa_signal_wait h r 1 2 # group_bodies g' = ne_threads h r"
    by (rule two_added) simp
  show thesis
    by (rule that [OF B]) (simp add: test_signal_wait_conditions_ne_def do_signal_wait_conditions_def init g)
qed

lemma ne_hangs:
  assumes "ups s < 2 ^ 31 - 1" "3 < LENGTH('w)"
  shows "test_signal_wait_conditions_ne rt hsa_signal_wait second_first s = None"
proof -
  obtain u h r c s' rest where B: "board_list u [h, r] c [0, 0] s'"
    and test: "test_signal_wait_conditions_ne rt hsa_signal_wait second_first s = run_functions second_first (ne_threads h r) s' \<bind> rest"
    by (rule ne_test_starts [OF assms(1)])
  let ?fs = "ne_threads h r"
  have P: "positions ?fs [0, 0, 0] (?fs, Some (Next, s'))"
    by (auto simp: positions_def less_Suc_eq)
  obtain s1 where s1: "await (hsa_signal_wait Relaxed h HSA_SIGNAL_CONDITION_NE 1 UINT64_MAX HSA_WAIT_STATE_BLOCKED) (Some (Next, s')) = Some (Next, s1)"
    and B1: "board_list u [h, r] c [0, 0] s1"
    using await_list_decides [OF B, of 0 h Relaxed HSA_SIGNAL_CONDITION_NE 1 HSA_WAIT_STATE_BLOCKED Next] by auto
  obtain s2 where s2: "call (hsa_signal_store rt Relaxed r 2) (Some (Next, s1)) = Some (Next, s2)" and B2: "board_list u [h, r] c [0, 2] s2"
    using store_list [OF B1, of 1 r Relaxed 2 Next] by auto
  obtain c1 where c1: "positions ?fs [0, 0, 1] c1" "snd c1 = Some (Next, s1)"
    "run_threads ?fs second_first 0 (?fs, Some (Next, s')) = run_threads ?fs second_first 1 c1"
    by (rule run_position [OF P, of "(Next, s')" second_first 0 s1]) (use s1 in \<open>simp_all add: second_first_def signal_wait_relaxed_condition_def\<close>)
  obtain c2 where c2: "positions ?fs [0, 0, 2] c2" "snd c2 = Some (Next, s2)"
    "run_threads ?fs second_first 1 c1 = run_threads ?fs second_first 2 c2"
    by (rule run_position [OF c1(1,2), of second_first 1 s2])
      (use s2 in \<open>simp_all add: second_first_def signal_wait_relaxed_condition_def numeral_2_eq_2\<close>)
  have "run_threads ?fs second_first 2 c2 = None"
    by (rule ne_never [OF assms(2) c2(1,2)]) (use B2 in \<open>simp add: ne_values_def ne_positions_def\<close>)
  then show ?thesis using c1(3) c2(3) by (simp add: test run_functions_def)
qed

end

context blocking_runtime
begin

subsection \<open>The test of satisfied conditions\<close>

lemma satisfied_run:
  assumes start: "board_list u [h, h'] c [0, 0] s" and cnd: "satisfies cnd sv wv"
  shows "passes (run_functions (\<lambda>_. 0)
       [[call (hsa_signal_store rt Relaxed h sv), call (hsa_signal_store rt Relaxed h' sv),
         await (hsa_signal_wait Relaxed h cnd wv UINT64_MAX HSA_WAIT_STATE_BLOCKED),
         await (hsa_signal_wait Acquire h' cnd wv UINT64_MAX HSA_WAIT_STATE_BLOCKED)]] s)
    (\<lambda>s'. \<exists>vs. board_list u [h, h'] c vs s')"
    (is "passes (run_functions _ ?fs s) _")
proof (rule run_positions [where helper = "\<lambda>_. 0" and
      I = "\<lambda>p s. board_list u [h, h'] c [if p ! 0 = 0 then 0 else sv, if p ! 0 < 2 then 0 else sv] s"])
  fix p j s fl0 assume p: "length p = length ?fs" "j < length ?fs" "p ! j < length (?fs ! j)"
    and B: "board_list u [h, h'] c [if p ! 0 = 0 then 0 else sv, if p ! 0 < 2 then 0 else sv] s"
  obtain i where i: "p = [i]" "j = 0" "i < 4" using p by (auto simp: length_Suc_conv)
  note accesses = store_list [OF B, of 0 h] store_list [OF B, of 1 h'] await_list [OF B, of 0 h] await_list [OF B, of 1 h']
  consider "i = 0" | "i = 1" | "i = 2" | "i = 3" using i(3) by linarith
  then show "\<exists>fl s'. (?fs ! j ! (p ! j)) (Some (fl0, s)) = Some (fl, s') \<and>
      (fl = Next \<and> board_list u [h, h'] c [if p[j := Suc (p ! j)] ! 0 = 0 then 0 else sv, if p[j := Suc (p ! j)] ! 0 < 2 then 0 else sv] s' \<or>
       fl = Again \<and> board_list u [h, h'] c [if p ! 0 = 0 then 0 else sv, if p ! 0 < 2 then 0 else sv] s' \<and> j \<noteq> 0)"
  proof cases
    case 1 then show ?thesis using accesses(1) [of Relaxed sv fl0] i by auto
  next
    case 2 then show ?thesis using accesses(2) [of Relaxed sv fl0] i by auto
  next
    case 3 then show ?thesis using accesses(3) [of Relaxed cnd wv HSA_WAIT_STATE_BLOCKED fl0] i cnd by auto
  next
    case 4 then show ?thesis using accesses(4) [of Acquire cnd wv HSA_WAIT_STATE_BLOCKED fl0] i cnd by auto
  qed
qed (use start in \<open>auto simp: fair_def\<close>)

lemma satisfied_pass:
  assumes "ups s < 2 ^ 31 - 1" "satisfies cnd sv wv"
  shows "passes (do_signal_wait_satisfied_conditions rt hsa_signal_wait cnd sv wv s) (kept s)"
  unfolding do_signal_wait_satisfied_conditions_def
proof (rule wp_two_signals [OF assms(1)])
  fix h h' t s' assume t: "ups t = Suc (ups s)" "0 < ups s \<Longrightarrow> val t = val s" and B: "board_list (ups t) [h, h'] (val t) [0, 0] s'"
    and fresh: "\<forall>h \<in> set [h, h']. val t h = None"
  show "passes (run_functions (\<lambda>_. 0)
       [[call (hsa_signal_store rt Relaxed h sv), call (hsa_signal_store rt Relaxed h' sv),
         await (hsa_signal_wait Relaxed h cnd wv UINT64_MAX HSA_WAIT_STATE_BLOCKED),
         await (hsa_signal_wait Acquire h' cnd wv UINT64_MAX HSA_WAIT_STATE_BLOCKED)]] s' \<bind>
    (\<lambda>s. let (status, s) = hsa_shut_down rt s in ASSERT (HSA_STATUS_SUCCESS = status) \<bind> (\<lambda>_. Some s))) (kept s)"
  proof (rule wp_seq [OF satisfied_run [OF B assms(2)]])
    fix s' assume "\<exists>vs. board_list (ups t) [h, h'] (val t) vs s'"
    then obtain vs where B': "board_list (ups t) [h, h'] (val t) vs s'" by blast
    show "passes (let (status, s) = hsa_shut_down rt s' in ASSERT (HSA_STATUS_SUCCESS = status) \<bind> (\<lambda>_. Some s)) (kept s)"
      by (rule wp_end_kept [OF t B' fresh]) simp_all
  qed
qed

lemma kept_ups: "kept s s' \<Longrightarrow> ups s < n \<Longrightarrow> ups s' < n"
  by (simp add: kept_def)

lemma satisfied_then:
  assumes "kept s0 s" "ups s0 < 2 ^ 31 - 1" "satisfies cnd sv wv" "\<And>s'. kept s0 s' \<Longrightarrow> passes (k s') P"
  shows "passes (do_signal_wait_satisfied_conditions rt hsa_signal_wait cnd sv wv s \<bind> k) P"
  by (rule wp_seq [OF satisfied_pass [OF kept_ups [OF assms(1,2)] assms(3)]]) (rule assms(4) [OF kept_trans [OF assms(1)]])

lemma satisfied_test_passes:
  assumes "ups s < 2 ^ 31 - 1" "3 < LENGTH('w)"
  shows "passes (test_signal_wait_satisfied_conditions rt hsa_signal_wait s) (\<lambda>(r, s'). r = 0 \<and> kept s s')"
proof -
  have start: "kept s s" by (simp add: kept_def)
  note small = small_numbers [OF assms(2)] small_distinct [OF assms(2)]
  show ?thesis
    unfolding test_signal_wait_satisfied_conditions_def signal_wait_satisfied_conditions_eq_def signal_wait_satisfied_conditions_ne_def
      signal_wait_satisfied_conditions_lt_def signal_wait_satisfied_conditions_gte_def bind_assoc
    by (rule satisfied_then [OF start assms(1)], use small in simp,
      (rule satisfied_then, assumption, rule assms(1), (use small in simp)[1])+, simp)
qed

subsection \<open>The test of both wait states\<close>

abbreviation expectancy_threads :: "'h \<Rightarrow> 'h \<Rightarrow> 'h \<Rightarrow> 'h \<Rightarrow> 's access list list" where
  "expectancy_threads h r h' r' \<equiv>
     [[call (hsa_signal_store rt Relaxed h 1), call (hsa_signal_store rt Relaxed h' 1),
       await (hsa_signal_wait Relaxed r HSA_SIGNAL_CONDITION_EQ 1 UINT64_MAX HSA_WAIT_STATE_BLOCKED),
       await (hsa_signal_wait Relaxed r' HSA_SIGNAL_CONDITION_EQ 1 UINT64_MAX HSA_WAIT_STATE_BLOCKED)],
      signal_wait_expectancy rt hsa_signal_wait \<lparr>expect_signal = h, expect_response = r,
        wait_expectancy = HSA_WAIT_STATE_BLOCKED, expect_value = 1, answer_value = 1\<rparr>,
      signal_wait_expectancy rt hsa_signal_wait \<lparr>expect_signal = h', expect_response = r',
        wait_expectancy = HSA_WAIT_STATE_ACTIVE, expect_value = 1, answer_value = 1\<rparr>]"

definition expectancy_values :: "nat list \<Rightarrow> 'w word list" where
  "expectancy_values p = [if p ! 0 = 0 then 0 else 1, if p ! 1 < 2 then 0 else 1, if p ! 0 < 2 then 0 else 1, if p ! 2 < 2 then 0 else 1]"

definition expectancy_helper :: "nat list \<Rightarrow> nat" where
  "expectancy_helper p = (if p ! 0 < 2 then 0 else if p ! 1 < 2 then 1 else if p ! 2 < 2 then 2 else 0)"

lemma expectancy_run:
  assumes fair: "fair 3 sched" and start: "board_list u [h, r, h', r'] c [0, 0, 0, 0] s"
  shows "passes (run_functions sched (expectancy_threads h r h' r') s) (\<lambda>s'. \<exists>vs. board_list u [h, r, h', r'] c vs s')"
    (is "passes (run_functions _ ?fs s) _")
proof (rule run_positions [where helper = expectancy_helper and I = "\<lambda>p s. board_list u [h, r, h', r'] c (expectancy_values p) s"])
  show "fair (length ?fs) sched" using fair by (simp add: numeral_3_eq_3)
next
  fix p j s fl0 assume p: "length p = length ?fs" "j < length ?fs" "p ! j < length (?fs ! j)"
    and B: "board_list u [h, r, h', r'] c (expectancy_values p) s"
  obtain i k l where ikl: "p = [i, k, l]" using p(1) by (rule three_positions)
  note stores = store_list [OF B, of 0 h] store_list [OF B, of 1 r] store_list [OF B, of 2 h'] store_list [OF B, of 3 r']
  note awaits = await_list [OF B, of 0 h] await_list [OF B, of 1 r] await_list [OF B, of 2 h'] await_list [OF B, of 3 r']
  note unfolds = ikl expectancy_values_def expectancy_helper_def signal_wait_expectancy_def
  consider "j = 0" "i < 4" | "j = 1" "k < 2" | "j = 2" "l < 2"
    using p(2,3) ikl by (auto simp: less_Suc_eq numeral_3_eq_3 signal_wait_expectancy_def)
  then consider "j = 0" "i = 0" | "j = 0" "i = 1" | "j = 0" "i = 2" | "j = 0" "i = 3" | "j = 1" "k = 0" | "j = 1" "k = 1" | "j = 2" "l = 0" | "j = 2" "l = 1"
    unfolding below_four below_two by cases blast+
  then show "\<exists>fl s'. (?fs ! j ! (p ! j)) (Some (fl0, s)) = Some (fl, s') \<and>
      (fl = Next \<and> board_list u [h, r, h', r'] c (expectancy_values (p[j := Suc (p ! j)])) s' \<or>
       fl = Again \<and> board_list u [h, r, h', r'] c (expectancy_values p) s' \<and> j \<noteq> expectancy_helper p)"
  proof cases
    case 1 then show ?thesis using stores(1) [of Relaxed 1 fl0] by (auto simp: unfolds)
  next
    case 2 then show ?thesis using stores(3) [of Relaxed 1 fl0] by (auto simp: unfolds)
  next
    case 3 then show ?thesis using awaits(2) [of Relaxed HSA_SIGNAL_CONDITION_EQ 1 HSA_WAIT_STATE_BLOCKED fl0]
      by (auto simp: unfolds split: if_splits)
  next
    case 4 then show ?thesis using awaits(4) [of Relaxed HSA_SIGNAL_CONDITION_EQ 1 HSA_WAIT_STATE_BLOCKED fl0]
      by (auto simp: unfolds split: if_splits)
  next
    case 5 then show ?thesis using awaits(1) [of Relaxed HSA_SIGNAL_CONDITION_EQ 1 HSA_WAIT_STATE_BLOCKED fl0]
      by (auto simp: unfolds split: if_splits)
  next
    case 6 then show ?thesis using stores(2) [of Release 1 fl0] by (auto simp: unfolds)
  next
    case 7 then show ?thesis using awaits(3) [of Relaxed HSA_SIGNAL_CONDITION_EQ 1 HSA_WAIT_STATE_ACTIVE fl0]
      by (auto simp: unfolds split: if_splits)
  next
    case 8 then show ?thesis using stores(4) [of Release 1 fl0] by (auto simp: unfolds)
  qed
next
  fix p assume p: "length p = length ?fs" "\<exists>j < length ?fs. p ! j < length (?fs ! j)"
  obtain i k l where ikl: "p = [i, k, l]" using p(1) by (rule three_positions)
  show "expectancy_helper p < length ?fs \<and> p ! expectancy_helper p < length (?fs ! expectancy_helper p)"
    using p(2) ikl by (auto simp: less_Suc_eq expectancy_helper_def signal_wait_expectancy_def)
qed (use start in \<open>auto simp: expectancy_values_def\<close>)

lemma wp_signal_pairs:
  assumes "0 < ups t"
    and "\<And>h r h' r' s'. board_list (ups t) [h, r, h', r'] (val t) [0, 0, 0, 0] s' \<Longrightarrow> \<forall>g \<in> set [h, r, h', r']. val t g = None \<Longrightarrow>
      passes (k ([(h, r), (h', r')], s')) P"
  shows "passes (for_loop 0 2 (\<lambda>ii (signals, s). let (status, signal, s) = hsa_signal_create rt 0 0 [] s in
    ASSERT (HSA_STATUS_SUCCESS = status) \<bind> (\<lambda>_. let (status, response, s) = hsa_signal_create rt 0 0 [] s in
    ASSERT (HSA_STATUS_SUCCESS = status) \<bind> (\<lambda>_. Some (signals @ [(signal, response)], s)))) ([], t) \<bind> k) P"
proof (rule wp_seq)
  let ?flat = "\<lambda>signals. concat (map (\<lambda>(h, r). [h, r]) signals)"
  let ?Inv = "\<lambda>k (signals, s'). length signals = k \<and> board_list (ups t) (?flat signals) (val t) (replicate (2 * k) 0) s' \<and>
    (\<forall>h \<in> set (?flat signals). val t h = None)"
  show "passes (for_loop 0 2 (\<lambda>ii (signals, s). let (status, signal, s) = hsa_signal_create rt 0 0 [] s in
    ASSERT (HSA_STATUS_SUCCESS = status) \<bind> (\<lambda>_. let (status, response, s) = hsa_signal_create rt 0 0 [] s in
    ASSERT (HSA_STATUS_SUCCESS = status) \<bind> (\<lambda>_. Some (signals @ [(signal, response)], s)))) ([], t)) (?Inv (0 + 2))"
  proof (rule for_loop_count)
    show "?Inv 0 ([], t)" using board_list_Nil [of t] assms(1) by simp
    fix k x assume "?Inv k x"
    then obtain signals s' where x: "x = (signals, s')" "length signals = k"
      and B: "board_list (ups t) (?flat signals) (val t) (replicate (2 * k) 0) s'" "\<forall>h \<in> set (?flat signals). val t h = None" by auto
    have zeros: "(replicate (2 * k) 0 @ [0 :: 'w word]) @ [0] = replicate (2 * Suc k) 0"
      by (simp add: replicate_append_same)
    show "passes ((\<lambda>(signals, s). let (status, signal, s) = hsa_signal_create rt 0 0 [] s in
        ASSERT (HSA_STATUS_SUCCESS = status) \<bind> (\<lambda>_. let (status, response, s) = hsa_signal_create rt 0 0 [] s in
        ASSERT (HSA_STATUS_SUCCESS = status) \<bind> (\<lambda>_. Some (signals @ [(signal, response)], s)))) x) (?Inv (Suc k))"
      unfolding x(1) prod.case
      by (rule wp_create_more [OF B], rule wp_create_more, assumption, assumption, use x(2) zeros in auto)
  qed
  fix x assume "?Inv (0 + 2) x"
  then have "\<exists>h r h' r' s'. x = ([(h, r), (h', r')], s') \<and> board_list (ups t) [h, r, h', r'] (val t) [0, 0, 0, 0] s' \<and>
      (\<forall>g \<in> set [h, r, h', r']. val t g = None)"
    by (cases x) (auto simp: length_Suc_conv numeral_2_eq_2)
  then show "passes (k x) P" using assms(2) by blast
qed

lemma expectancy_ends:
  assumes "fair 3 sched" "ups t = Suc (ups s)" "0 < ups s \<Longrightarrow> val t = val s"
    and "board_list (ups t) [h, r, h', r'] (val t) [0, 0, 0, 0] s'" "\<forall>g \<in> set [h, r, h', r']. val t g = None"
  shows "passes (run_functions sched (expectancy_threads h r h' r') s' \<bind>
    (\<lambda>s. let (status, s) = hsa_shut_down rt s in ASSERT (HSA_STATUS_SUCCESS = status) \<bind> (\<lambda>_. Some (0 :: nat, s))))
    (\<lambda>(res, s'). res = 0 \<and> kept s s')"
proof (rule wp_seq [OF expectancy_run [OF assms(1,4)]])
  fix s' assume "\<exists>vs. board_list (ups t) [h, r, h', r'] (val t) vs s'"
  then obtain vs where B': "board_list (ups t) [h, r, h', r'] (val t) vs s'" by blast
  show "passes (let (status, s) = hsa_shut_down rt s' in ASSERT (HSA_STATUS_SUCCESS = status) \<bind> (\<lambda>_. Some (0 :: nat, s)))
      (\<lambda>(res, s'). res = 0 \<and> kept s s')"
    by (rule wp_end_kept [OF assms(2,3) B' assms(5)]) simp_all
qed

lemma expectancy_test_passes:
  assumes "ups s < 2 ^ 31 - 1" "fair 3 sched"
  shows "passes (test_signal_wait_expectancy rt hsa_signal_wait sched s) (\<lambda>(res, s'). res = 0 \<and> kept s s')"
  unfolding test_signal_wait_expectancy_def
  by (rule wp_init [OF assms(1)], rule wp_assert [OF HOL.refl], rule wp_let, rule wp_signal_pairs, simp, unfold prod.case,
    rule wp_let, rule wp_add_two) (insert expectancy_ends [OF assms(2), where s = s], simp)

end

subsection \<open>The properties of the tests\<close>

text \<open>The runtime is up as often as before, and the signals that were there have their values.\<close>

definition signals_kept :: "('s \<Rightarrow> nat) \<Rightarrow> ('s \<Rightarrow> 'h \<Rightarrow> 'v option) \<Rightarrow> 's \<Rightarrow> 's \<Rightarrow> bool" where
  "signals_kept ups val s s' \<longleftrightarrow> ups s' = ups s \<and> (0 < ups s \<longrightarrow> (\<forall>h. val s h \<noteq> None \<longrightarrow> val s' h = val s h))"

context signal_runtime
begin

lemma kept_signals_kept: "kept s s' \<longleftrightarrow> signals_kept ups val s s'"
  by (simp add: kept_def signals_kept_def)

end

text \<open>
  C19.  The tests of the conditions EQ, LT and GTE return 0 and keep the signals there were, under every fair schedule of the main
  thread and the two threads that wait, on a runtime whose waits return when their condition holds and not before.
\<close>

theorem wait_conditions_pass:
  fixes rt :: "('h, 'w::len word, 's) hsa_rt"
  assumes "waiting_runtime rt ups val wt" "ups s < 2 ^ 31 - 1" "3 < LENGTH('w)" "fair 3 sched" "fair 3 sched'"
  shows "(\<exists>s'. test_signal_wait_conditions_eq rt wt sched s = Some (0, s') \<and> signals_kept ups val s s') \<and>
    (\<exists>s'. test_signal_wait_conditions_lt rt wt sched s = Some (0, s') \<and> signals_kept ups val s s') \<and>
    (\<exists>s'. test_signal_wait_conditions_gte rt wt sched sched' s = Some (0, s') \<and> signals_kept ups val s s')"
proof -
  have rt: "signal_runtime rt ups val" using assms(1) by (simp add: waiting_runtime_def)
  show ?thesis
    using waiting_runtime.condition_tests_pass [OF assms(1,4,5,2,3)]
    by (auto simp: passes_def signal_runtime.kept_signals_kept [OF rt])
qed

theorem wait_conditions_pass_witness:
  "\<exists>s'. test_signal_wait_conditions_gte reference_rt reference_wait (\<lambda>k. k mod 3) (\<lambda>k. k mod 3) (ref_start :: 64 word ref_state) = Some (0, s') \<and>
    ref_ups s' = 0"
  using wait_conditions_pass [OF reference_waiting.waiting_runtime_axioms _ _ fair_round_robin fair_round_robin,
      of "ref_start :: 64 word ref_state"]
  by (auto simp: ref_start_def signals_kept_def)

text \<open>
  C20.  The test of the condition NE, and with it the whole test, can hang on such a runtime: under a schedule that is fair the second thread
  looks first, finds the initial 0 different from 1, sends its response, and the main thread waits for ever.
\<close>

theorem wait_condition_ne_hangs:
  fixes rt :: "('h, 'w::len word, 's) hsa_rt"
  assumes "waiting_runtime rt ups val wt" "ups s < 2 ^ 31 - 1" "3 < LENGTH('w)" "fair 3 (sched 0)" "sched 1 = second_first"
  shows "fair 3 second_first \<and> test_signal_wait_conditions_ne rt wt second_first s = None \<and>
    test_signal_wait_conditions rt wt sched s = None"
proof -
  have rt: "signal_runtime rt ups val" using assms(1) by (simp add: waiting_runtime_def)
  obtain s1 where s1: "test_signal_wait_conditions_eq rt wt (sched 0) s = Some (0, s1)" "signal_runtime.kept ups val s s1"
    using waiting_runtime.condition_tests_pass(1) [OF assms(1,4,4,2,3)] by (auto simp: passes_def)
  then have "ups s1 < 2 ^ 31 - 1" using assms(2) by (simp add: signal_runtime.kept_signals_kept [OF rt] signals_kept_def)
  then show ?thesis
    using s1 waiting_runtime.ne_hangs [OF assms(1) _ assms(3)] assms(2,5) fair_second_first
    by (simp add: test_signal_wait_conditions_def)
qed

theorem wait_condition_ne_hangs_witness:
  "test_signal_wait_conditions reference_rt reference_wait ((\<lambda>_ k. k mod 3)(1 := second_first)) (ref_start :: 64 word ref_state) = None"
  using wait_condition_ne_hangs [OF reference_waiting.waiting_runtime_axioms,
      of "ref_start :: 64 word ref_state" "(\<lambda>_ k. k mod 3)(1 := second_first)"] fair_round_robin [of 3]
  by (simp add: ref_start_def)

text \<open>
  C21.  The test of satisfied conditions and the test of both wait states return 0 and keep the signals there were, also when waits return early;
  the latter under every fair schedule.
\<close>

theorem satisfied_and_expectancy_pass:
  fixes rt :: "('h, 'w::len word, 's) hsa_rt"
  assumes "blocking_runtime rt ups val wt" "ups s < 2 ^ 31 - 1" "3 < LENGTH('w)" "fair 3 sched"
  shows "(\<exists>s'. test_signal_wait_satisfied_conditions rt wt s = Some (0, s') \<and> signals_kept ups val s s') \<and>
    (\<exists>s'. test_signal_wait_expectancy rt wt sched s = Some (0, s') \<and> signals_kept ups val s s')"
proof -
  have rt: "signal_runtime rt ups val" using assms(1) by (simp add: blocking_runtime_def)
  show ?thesis
    using blocking_runtime.satisfied_test_passes [OF assms(1-3)] blocking_runtime.expectancy_test_passes [OF assms(1,2,4)]
    by (auto simp: passes_def signal_runtime.kept_signals_kept [OF rt])
qed

theorem satisfied_and_expectancy_pass_witness:
  "\<exists>s'. test_signal_wait_expectancy reference_rt eager_wait (\<lambda>k. k mod 3) (ref_start :: 64 word ref_state) = Some (0, s') \<and> ref_ups s' = 0"
  using satisfied_and_expectancy_pass [OF eager_waiting.blocking_runtime_axioms _ _ fair_round_robin, of "ref_start :: 64 word ref_state"]
  by (auto simp: ref_start_def signals_kept_def)

end
